(* ===== verification/Go_Text.thy ===== *)
theory Go_Text
  imports Prelude
begin

text \<open>
  Go strings and the part of the \<open>strings\<close>, \<open>strconv\<close>, \<open>unicode/utf8\<close> and
  \<open>encoding/base64\<close> packages the program uses. A Go string is a sequence of bytes, here a
  \<^typ>\<open>string\<close> (a list of 8-bit characters). Unicode text is decoded rune by rune exactly
  as \<open>utf8.DecodeRune\<close> does, an invalid byte being the rune U+FFFD of width one. The
  Unicode case tables beyond ASCII are a parameter (\<open>uc\<close>) of the functions that need them.
\<close>

section \<open>Bytes\<close>

definition byte :: "char \<Rightarrow> nat" where
  "byte c = of_char c"

lemma byte_less [simp]: "byte c < 256"
  using mod_less_divisor [of 256 "of_char c :: nat"] by (simp add: byte_def del: mod_less_divisor)

lemma byte_char_of: "byte (char_of n) = n mod 256"
  by (simp add: byte_def)

lemma char_of_byte [simp]: "char_of (byte c) = c"
  by (simp add: byte_def)

lemma byte_inject [simp]: "byte c = byte d \<longleftrightarrow> c = d"
  by (simp add: byte_def)

definition is_digit :: "char \<Rightarrow> bool" where
  "is_digit c \<longleftrightarrow> 48 \<le> byte c \<and> byte c \<le> 57"

definition digit_val :: "char \<Rightarrow> int" where
  "digit_val c = int (byte c) - 48"

definition digit_char :: "nat \<Rightarrow> char" where
  "digit_char n = char_of (48 + n)"

lemma digit_val_range: "is_digit c \<Longrightarrow> 0 \<le> digit_val c \<and> digit_val c \<le> 9"
  by (simp add: is_digit_def digit_val_def)

lemma byte_digit_char: "n < 10 \<Longrightarrow> byte (digit_char n) = 48 + n"
  by (simp add: digit_char_def byte_char_of)

lemma is_digit_digit_char [simp]: "n < 10 \<Longrightarrow> is_digit (digit_char n)"
  by (simp add: is_digit_def byte_digit_char)

lemma digit_val_digit_char [simp]: "n < 10 \<Longrightarrow> digit_val (digit_char n) = int n"
  by (simp add: digit_val_def byte_digit_char)

definition ascii_upper :: "char \<Rightarrow> char" where
  "ascii_upper c = (if 97 \<le> byte c \<and> byte c \<le> 122 then char_of (byte c - 32) else c)"

definition ascii_lower :: "char \<Rightarrow> char" where
  "ascii_lower c = (if 65 \<le> byte c \<and> byte c \<le> 90 then char_of (byte c + 32) else c)"

definition is_ascii :: "string \<Rightarrow> bool" where
  "is_ascii s \<longleftrightarrow> (\<forall>c \<in> set s. byte c < 128)"

lemma is_ascii_Nil [simp]: "is_ascii []"
  and is_ascii_Cons [simp]: "is_ascii (c # s) \<longleftrightarrow> byte c < 128 \<and> is_ascii s"
  and is_ascii_append [simp]: "is_ascii (s @ t) \<longleftrightarrow> is_ascii s \<and> is_ascii t"
  by (auto simp: is_ascii_def)

section \<open>UTF-8\<close>

definition RuneError :: nat where "RuneError = 0xFFFD"

definition cont :: "nat \<Rightarrow> bool" where
  "cont b \<longleftrightarrow> 0x80 \<le> b \<and> b \<le> 0xBF"

text \<open>
  \<open>decode_rune\<close> is \<open>utf8.DecodeRune\<close> on a non-empty byte list: the rune and its width.
  Overlong forms, surrogates and values above U+10FFFF are rejected with width one.
\<close>

fun decode_rune :: "nat list \<Rightarrow> nat \<times> nat" where
  "decode_rune [] = (RuneError, 0)"
| "decode_rune (b0 # bs) =
    (if b0 < 0x80 then (b0, 1)
     else if 0xC2 \<le> b0 \<and> b0 \<le> 0xDF then
       (case bs of b1 # _ \<Rightarrow>
          if cont b1 then ((b0 - 0xC0) * 64 + (b1 - 0x80), 2) else (RuneError, 1)
        | _ \<Rightarrow> (RuneError, 1))
     else if 0xE0 \<le> b0 \<and> b0 \<le> 0xEF then
       (case bs of b1 # b2 # _ \<Rightarrow>
          if cont b1 \<and> cont b2 \<and> (b0 = 0xE0 \<longrightarrow> 0xA0 \<le> b1) \<and> (b0 = 0xED \<longrightarrow> b1 \<le> 0x9F)
          then ((b0 - 0xE0) * 4096 + (b1 - 0x80) * 64 + (b2 - 0x80), 3) else (RuneError, 1)
        | _ \<Rightarrow> (RuneError, 1))
     else if 0xF0 \<le> b0 \<and> b0 \<le> 0xF4 then
       (case bs of b1 # b2 # b3 # _ \<Rightarrow>
          if cont b1 \<and> cont b2 \<and> cont b3 \<and> (b0 = 0xF0 \<longrightarrow> 0x90 \<le> b1) \<and> (b0 = 0xF4 \<longrightarrow> b1 \<le> 0x8F)
          then ((b0 - 0xF0) * 262144 + (b1 - 0x80) * 4096 + (b2 - 0x80) * 64 + (b3 - 0x80), 4)
          else (RuneError, 1)
        | _ \<Rightarrow> (RuneError, 1))
     else (RuneError, 1))"

lemma decode_rune_width_pos: "1 \<le> snd (decode_rune (b # bs))"
  by (auto split: list.splits)

lemma decode_rune_ascii [simp]: "b < 0x80 \<Longrightarrow> decode_rune (b # bs) = (b, 1)"
  by simp

declare decode_rune.simps(2) [simp del]

text \<open>\<open>segs\<close> cuts a string into its runes, each with the bytes it came from.\<close>

function segs :: "string \<Rightarrow> (nat \<times> string) list" where
  "segs [] = []"
| "segs (c # cs) =
    (let (r, w) = decode_rune (map byte (c # cs))
     in (r, take w (c # cs)) # segs (drop w (c # cs)))"
  by pat_completeness auto
termination
proof (relation "measure length")
  fix c cs x r w
  assume "x = decode_rune (map byte (c # cs))" "(r, w) = x"
  then have "1 \<le> w" using decode_rune_width_pos [of "byte c" "map byte cs"]
    by (metis list.simps(9) snd_conv)
  then show "(drop w (c # cs), c # cs) \<in> measure length" by simp
qed simp

declare segs.simps(2) [simp del]

definition runes :: "string \<Rightarrow> nat list" where
  "runes s = map fst (segs s)"

definition bytes_of :: "(nat \<times> string) list \<Rightarrow> string" where
  "bytes_of ss = concat (map snd ss)"

lemma bytes_of_segs [simp]: "bytes_of (segs s) = s"
proof (induction s rule: segs.induct)
  case 1
  then show ?case by (simp add: bytes_of_def)
next
  case (2 c cs)
  then show ?case
    by (subst segs.simps) (auto simp: bytes_of_def split: prod.splits)
qed

lemma segs_ascii: "is_ascii s \<Longrightarrow> segs s = map (\<lambda>c. (byte c, [c])) s"
proof (induction s)
  case Nil
  then show ?case by simp
next
  case (Cons c s)
  then show ?case by (subst segs.simps) simp
qed

lemma runes_ascii: "is_ascii s \<Longrightarrow> runes s = map byte s"
  by (simp add: runes_def segs_ascii)

text \<open>\<open>RuneCountInString\<close> and \<open>len([]rune(s))\<close>.\<close>

definition rune_count :: "string \<Rightarrow> nat" where
  "rune_count s = length (segs s)"

lemma rune_count_le: "rune_count s \<le> length s"
proof (induction s rule: segs.induct)
  case 1
  then show ?case by (simp add: rune_count_def)
next
  case (2 c cs)
  obtain r w where rw: "decode_rune (map byte (c # cs)) = (r, w)" by force
  have "1 \<le> w" using decode_rune_width_pos [of "byte c" "map byte cs"] rw by simp
  moreover have "rune_count (drop w (c # cs)) \<le> length (drop w (c # cs))"
    using 2 rw by simp
  ultimately show ?case using rw by (subst rune_count_def) (simp add: segs.simps rune_count_def)
qed

text \<open>A byte that is not ASCII never decodes to an ASCII rune, and neither do its continuations.\<close>

lemma decode_value_nonascii:
  assumes "\<not> b < 0x80"
  shows "0x80 \<le> fst (decode_rune (b # bs))"
proof -
  have two: "0x80 \<le> (b - 0xC0) * 64 + x" if "0xC2 \<le> b" for x
    using that by linarith
  have three: "0x80 \<le> (b - 0xE0) * 4096 + (b1 - 0x80) * 64 + x"
    if "0xE0 \<le> b" "b = 0xE0 \<longrightarrow> 0xA0 \<le> b1" for b1 x
    using that by (cases "b = 0xE0") linarith+
  have four: "0x80 \<le> (b - 0xF0) * 262144 + (b1 - 0x80) * 4096 + y + x"
    if "0xF0 \<le> b" "b = 0xF0 \<longrightarrow> 0x90 \<le> b1" for b1 x y
    using that by (cases "b = 0xF0") linarith+
  show ?thesis using assms two three four
    by (simp add: decode_rune.simps(2) RuneError_def split: list.split)
qed

lemma decode_bytes_nonascii:
  assumes "\<not> b < 0x80"
  shows "\<forall>x \<in> set (take (snd (decode_rune (b # bs))) (b # bs)). 0x80 \<le> x"
proof -
  have "cont x \<Longrightarrow> 0x80 \<le> x" for x by (simp add: cont_def)
  then show ?thesis using assms
    by (simp add: decode_rune.simps(2) split: list.split)
qed

lemmas decode_rune_nonascii = decode_value_nonascii decode_bytes_nonascii

lemma segs_bytes:
  assumes "x \<in> set (segs s)"
  shows "(\<exists>c. x = (byte c, [c]) \<and> byte c < 0x80)
    \<or> (0x80 \<le> fst x \<and> (\<forall>c \<in> set (snd x). 0x80 \<le> byte c))"
  using assms
proof (induction s rule: segs.induct)
  case 1
  then show ?case by simp
next
  case (2 c cs)
  obtain r w where rw: "decode_rune (map byte (c # cs)) = (r, w)" by force
  consider "x = (r, take w (c # cs))" | "x \<in> set (segs (drop w (c # cs)))"
    using "2.prems" rw by (auto simp: segs.simps)
  then show ?case
  proof cases
    case 1
    show ?thesis
    proof (cases "byte c < 0x80")
      case True
      with 1 rw show ?thesis by auto
    next
      case False
      from decode_rune_nonascii [OF False, where bs = "map byte cs"] rw
      have "0x80 \<le> r" "\<forall>y \<in> set (take w (map byte (c # cs))). 0x80 \<le> y" by simp_all
      then have "0x80 \<le> r" "\<forall>d \<in> set (take w (c # cs)). 0x80 \<le> byte d"
        unfolding take_map by simp_all
      then show ?thesis unfolding 1 fst_conv snd_conv by blast
    qed
  next
    case 2
    with "2.IH" rw show ?thesis by simp
  qed
qed

text \<open>A filter on ASCII runes is the same filter on bytes.\<close>

lemma filter_runes_bytes:
  assumes "\<And>r. P r \<Longrightarrow> r < 0x80"
  shows "concat (map (\<lambda>x. if P (fst x) then snd x else []) (segs s)) = filter (\<lambda>c. P (byte c)) s"
proof -
  have "(if P (fst x) then snd x else []) = filter (\<lambda>c. P (byte c)) (snd x)"
    if "x \<in> set (segs s)" for x
    using segs_bytes [OF that]
  proof (elim disjE exE conjE)
    fix c assume "x = (byte c, [c])"
    then show ?thesis by simp
  next
    assume "0x80 \<le> fst x" "\<forall>c \<in> set (snd x). 0x80 \<le> byte c"
    then have "\<not> P (fst x)" "\<forall>c \<in> set (snd x). \<not> P (byte c)" using assms by fastforce+
    then show ?thesis by simp
  qed
  then have "concat (map (\<lambda>x. if P (fst x) then snd x else []) (segs s))
      = concat (map (filter (\<lambda>c. P (byte c))) (map snd (segs s)))"
    by (simp add: comp_def cong: map_cong)
  also have "\<dots> = filter (\<lambda>c. P (byte c)) (bytes_of (segs s))"
    unfolding bytes_of_def filter_concat by simp
  finally show ?thesis by simp
qed

text \<open>\<open>utf8.AppendRune\<close>: surrogates and out-of-range values are written as U+FFFD.\<close>

definition encode_rune :: "nat \<Rightarrow> string" where
  "encode_rune r =
    (if r < 0x80 then [char_of r]
     else if r < 0x800 then [char_of (0xC0 + r div 64), char_of (0x80 + r mod 64)]
     else if 0x10FFFF < r \<or> 0xD800 \<le> r \<and> r \<le> 0xDFFF then map char_of [0xEF, 0xBF, 0xBD :: nat]
     else if r < 0x10000 then
       [char_of (0xE0 + r div 4096), char_of (0x80 + r div 64 mod 64), char_of (0x80 + r mod 64)]
     else
       [char_of (0xF0 + r div 262144), char_of (0x80 + r div 4096 mod 64),
        char_of (0x80 + r div 64 mod 64), char_of (0x80 + r mod 64)])"

text \<open>A string literal of the source that is not ASCII is given by its code points.\<close>

definition u8 :: "nat list \<Rightarrow> string" where
  "u8 rs = concat (map encode_rune rs)"

definition upper_rune :: "(nat \<Rightarrow> nat) \<Rightarrow> nat \<Rightarrow> nat" where
  "upper_rune uc r = (if r < 128 then byte (ascii_upper (char_of r)) else uc r)"

definition lower_rune :: "(nat \<Rightarrow> nat) \<Rightarrow> nat \<Rightarrow> nat" where
  "lower_rune lc r = (if r < 128 then byte (ascii_lower (char_of r)) else lc r)"

definition ToUpper :: "(nat \<Rightarrow> nat) \<Rightarrow> string \<Rightarrow> string" where
  "ToUpper uc s = u8 (map (upper_rune uc) (runes s))"

definition ToLower :: "(nat \<Rightarrow> nat) \<Rightarrow> string \<Rightarrow> string" where
  "ToLower lc s = u8 (map (lower_rune lc) (runes s))"

lemma u8_Nil [simp]: "u8 [] = []"
  and u8_Cons: "u8 (r # rs) = encode_rune r @ u8 rs"
  by (simp_all add: u8_def)

lemma encode_ascii_byte: "byte c < 128 \<Longrightarrow> encode_rune (byte c) = [c]"
  by (simp add: encode_rune_def)

lemma u8_filter_runes:
  assumes "\<And>r. P r \<Longrightarrow> r < 0x80"
  shows "u8 (filter P (runes s)) = filter (\<lambda>c. P (byte c)) s"
proof -
  have "concat (map (\<lambda>x. if P (fst x) then snd x else []) xs) = u8 (filter P (map fst xs))"
    if "\<forall>x \<in> set xs. x \<in> set (segs s)" for xs
    using that
  proof (induction xs)
    case (Cons x xs)
    have "P (fst x) \<Longrightarrow> encode_rune (fst x) = snd x"
      using segs_bytes [of x s] Cons.prems assms [of "fst x"] by (auto simp: encode_ascii_byte)
    with Cons show ?case by (simp add: u8_def)
  qed (simp add: u8_def)
  from this [of "segs s"] filter_runes_bytes [OF assms] show ?thesis by (simp add: runes_def)
qed

lemma byte_ascii_upper: "byte c < 128 \<Longrightarrow> byte (ascii_upper c) < 128"
  by (auto simp: ascii_upper_def byte_char_of)

lemma byte_ascii_lower: "byte c < 128 \<Longrightarrow> byte (ascii_lower c) < 128"
  by (auto simp: ascii_lower_def byte_char_of)

lemma ToUpper_ascii: "is_ascii s \<Longrightarrow> ToUpper uc s = map ascii_upper s"
  by (induction s)
    (simp_all add: ToUpper_def runes_ascii u8_Cons upper_rune_def encode_ascii_byte byte_ascii_upper)

lemma ToLower_ascii: "is_ascii s \<Longrightarrow> ToLower lc s = map ascii_lower s"
  by (induction s)
    (simp_all add: ToLower_def runes_ascii u8_Cons lower_rune_def encode_ascii_byte byte_ascii_lower)

section \<open>White space\<close>

text \<open>\<open>unicode.IsSpace\<close>\<close>

definition is_space :: "nat \<Rightarrow> bool" where
  "is_space r \<longleftrightarrow> (9 \<le> r \<and> r \<le> 13) \<or> r = 32 \<or> r = 0x85 \<or> r = 0xA0 \<or> r = 0x1680
     \<or> (0x2000 \<le> r \<and> r \<le> 0x200A) \<or> r = 0x2028 \<or> r = 0x2029 \<or> r = 0x202F \<or> r = 0x205F
     \<or> r = 0x3000"

definition trim_with :: "(nat \<Rightarrow> bool) \<Rightarrow> (nat \<times> string) list \<Rightarrow> (nat \<times> string) list" where
  "trim_with P ss =
     rev (dropWhile (\<lambda>x. P (fst x)) (rev (dropWhile (\<lambda>x. P (fst x)) ss)))"

definition TrimSpace :: "string \<Rightarrow> string" where
  "TrimSpace s = bytes_of (trim_with is_space (segs s))"

lemma TrimSpace_ascii:
  assumes "is_ascii s"
  shows "TrimSpace s =
    rev (dropWhile (\<lambda>c. is_space (byte c)) (rev (dropWhile (\<lambda>c. is_space (byte c)) s)))"
proof -
  have "concat (map (\<lambda>c. [c]) xs) = xs" for xs :: string by (induction xs) auto
  with assms show ?thesis
    by (simp add: TrimSpace_def segs_ascii trim_with_def bytes_of_def dropWhile_map rev_map
        comp_def)
qed

lemma TrimSpace_Nil [simp]: "TrimSpace [] = []"
  by (simp add: TrimSpace_ascii)

section \<open>Searching, cutting and replacing\<close>

definition HasPrefix :: "string \<Rightarrow> string \<Rightarrow> bool" where
  "HasPrefix s p \<longleftrightarrow> take (length p) s = p"

definition HasSuffix :: "string \<Rightarrow> string \<Rightarrow> bool" where
  "HasSuffix s p \<longleftrightarrow> HasPrefix (rev s) (rev p)"

definition TrimPrefix :: "string \<Rightarrow> string \<Rightarrow> string" where
  "TrimPrefix s p = (if HasPrefix s p then drop (length p) s else s)"

definition TrimSuffix :: "string \<Rightarrow> string \<Rightarrow> string" where
  "TrimSuffix s p = (if HasSuffix s p then take (length s - length p) s else s)"

lemma HasPrefix_append [simp]: "HasPrefix (p @ s) p"
  by (simp add: HasPrefix_def)

lemma HasPrefixE: "HasPrefix s p \<Longrightarrow> (\<And>r. s = p @ r \<Longrightarrow> P) \<Longrightarrow> P"
  by (metis HasPrefix_def append_take_drop_id)

text \<open>\<open>Index s p\<close>: the position of the first occurrence of \<open>p\<close>.\<close>

fun Index :: "string \<Rightarrow> string \<Rightarrow> nat option" where
  "Index [] p = (if p = [] then Some 0 else None)"
| "Index (c # s) p = (if HasPrefix (c # s) p then Some 0 else map_option Suc (Index s p))"

definition Contains :: "string \<Rightarrow> string \<Rightarrow> bool" where
  "Contains s p \<longleftrightarrow> Index s p \<noteq> None"

text \<open>\<open>strings.Cut\<close> and a cut at the last occurrence (\<open>strings.LastIndex\<close>) of one byte.\<close>

definition Cut :: "string \<Rightarrow> char \<Rightarrow> (string \<times> string) option" where
  "Cut s c = (if c \<in> set s
     then Some (takeWhile (\<lambda>x. x \<noteq> c) s, tl (dropWhile (\<lambda>x. x \<noteq> c) s)) else None)"

definition CutLast :: "string \<Rightarrow> char \<Rightarrow> (string \<times> string) option" where
  "CutLast s c = map_option (\<lambda>(a, b). (rev b, rev a)) (Cut (rev s) c)"

lemma Cut_append: "c \<notin> set a \<Longrightarrow> Cut (a @ c # b) c = Some (a, b)"
  by (simp add: Cut_def takeWhile_append dropWhile_append)

lemma Cut_SomeD:
  assumes "Cut s c = Some (a, b)"
  shows "s = a @ c # b" and "c \<notin> set a"
proof -
  from assms have c: "c \<in> set s" and a: "a = takeWhile (\<lambda>x. x \<noteq> c) s"
    and b: "b = tl (dropWhile (\<lambda>x. x \<noteq> c) s)"
    by (auto simp: Cut_def split: if_splits)
  from c have "dropWhile (\<lambda>x. x \<noteq> c) s \<noteq> []" by (auto simp: dropWhile_eq_Nil_conv)
  moreover from this have "hd (dropWhile (\<lambda>x. x \<noteq> c) s) = c"
    using hd_dropWhile by blast
  ultimately have "dropWhile (\<lambda>x. x \<noteq> c) s = c # b" using b by (metis list.collapse)
  then show "s = a @ c # b" using a by (metis takeWhile_dropWhile_id)
  show "c \<notin> set a" using a by (auto dest: set_takeWhileD)
qed

lemma CutLast_append: "c \<notin> set b \<Longrightarrow> CutLast (a @ c # b) c = Some (a, b)"
  using Cut_append [of c "rev b" "rev a"] by (simp add: CutLast_def)

lemma CutLast_SomeD:
  assumes "CutLast s c = Some (a, b)"
  shows "s = a @ c # b" and "c \<notin> set b"
proof -
  from assms have "Cut (rev s) c = Some (rev b, rev a)"
    by (auto simp: CutLast_def)
  from Cut_SomeD [OF this] show "s = a @ c # b" "c \<notin> set b"
    by (auto simp: rev_swap)
qed

text \<open>A \<open>strings.Replacer\<close> whose old strings are single bytes.\<close>

definition byte_replace :: "(char \<Rightarrow> string) \<Rightarrow> string \<Rightarrow> string" where
  "byte_replace f s = concat (map f s)"

section \<open>Decimal numbers\<close>

fun nat_dec :: "nat \<Rightarrow> string" where
  "nat_dec n = (if n < 10 then [digit_char n] else nat_dec (n div 10) @ [digit_char (n mod 10)])"

declare nat_dec.simps [simp del]

text \<open>\<open>strconv.Itoa\<close> and \<open>fmt.Sprintf("%d", n)\<close>\<close>

definition Itoa :: "int \<Rightarrow> string" where
  "Itoa n = (if n < 0 then CHR ''-'' # nat_dec (nat (- n)) else nat_dec (nat n))"

definition dec_val :: "string \<Rightarrow> int" where
  "dec_val s = foldl (\<lambda>v c. v * 10 + digit_val c) 0 s"

definition all_digits :: "string \<Rightarrow> bool" where
  "all_digits s \<longleftrightarrow> s \<noteq> [] \<and> (\<forall>c \<in> set s. is_digit c)"

text \<open>\<open>strconv.Atoi\<close> and \<open>strconv.ParseInt(s, 10, 64)\<close>\<close>

definition Atoi :: "string \<Rightarrow> int option" where
  "Atoi s =
    (let (neg, ds) = (case s of [] \<Rightarrow> (False, [])
                     | c # r \<Rightarrow> if c = CHR ''-'' then (True, r)
                                else if c = CHR ''+'' then (False, r) else (False, s));
         v = (if neg then - dec_val ds else dec_val ds)
     in if all_digits ds \<and> in_i64 v then Some v else None)"

lemma nat_dec_digits: "all_digits (nat_dec n)"
proof (induction n rule: nat_dec.induct)
  case (1 n)
  then show ?case
    by (cases "n < 10") (auto simp: nat_dec.simps [of n] all_digits_def)
qed

lemma dec_val_snoc: "dec_val (s @ [c]) = dec_val s * 10 + digit_val c"
  by (simp add: dec_val_def)

lemma dec_val_nat_dec [simp]: "dec_val (nat_dec n) = int n"
proof (induction n rule: nat_dec.induct)
  case (1 n)
  show ?case
  proof (cases "n < 10")
    case True
    then show ?thesis by (simp add: nat_dec.simps [of n] dec_val_def)
  next
    case False
    with 1 have "dec_val (nat_dec (n div 10)) = int (n div 10)" by simp
    with False have "dec_val (nat_dec n) = int (n div 10) * 10 + int (n mod 10)"
      by (simp add: nat_dec.simps [of n] dec_val_snoc)
    then show ?thesis by (simp add: zdiv_int zmod_int)
  qed
qed

lemma nat_dec_hd: "\<exists>c r. nat_dec n = c # r \<and> is_digit c"
  using nat_dec_digits [of n] by (cases "nat_dec n") (auto simp: all_digits_def)

lemma digit_not_sign: "is_digit c \<Longrightarrow> c \<noteq> CHR ''-'' \<and> c \<noteq> CHR ''+'' \<and> c \<noteq> CHR ''.'' \<and> c \<noteq> CHR '','' \<and> c \<noteq> CHR '':''"
  by (auto simp: is_digit_def byte_def)

lemma Atoi_Itoa [simp]:
  assumes "in_i64 n"
  shows "Atoi (Itoa n) = Some n"
proof (cases "n < 0")
  case True
  with assms show ?thesis
    using nat_dec_digits [of "nat (- n)"] by (simp add: Itoa_def Atoi_def)
next
  case False
  obtain c r where cr: "nat_dec (nat n) = c # r" "is_digit c"
    using nat_dec_hd by blast
  have "c \<noteq> CHR ''-''" "c \<noteq> CHR ''+''" using digit_not_sign [OF cr(2)] by auto
  with False assms cr show ?thesis
    using nat_dec_digits [of "nat n"] dec_val_nat_dec [of "nat n"]
    by (simp add: Itoa_def Atoi_def)
qed

lemma Atoi_range: "Atoi s = Some n \<Longrightarrow> in_i64 n"
  by (auto simp: Atoi_def Let_def split: prod.splits if_splits)

lemma Itoa_chars: "c \<in> set (Itoa n) \<Longrightarrow> is_digit c \<or> c = CHR ''-''"
  using nat_dec_digits by (auto simp: Itoa_def all_digits_def split: if_splits)

end
