(* ===== verification/Go_Time.thy ===== *)
theory Go_Time
  imports Go_Text
begin

text \<open>
  Go's \<open>time\<close> package as far as the program uses it. An instant is its number of
  nanoseconds since the Unix epoch, a duration is a number of nanoseconds, a location is a
  fixed offset in seconds (the program uses UTC and \<open>time.FixedZone("KST", 9*60*60)\<close>).
  The zero \<open>time.Time\<close> is January 1 of year 1, 00:00 UTC.
\<close>

type_synonym instant = int
type_synonym duration = int
type_synonym zone = int

section \<open>Durations and instants\<close>

definition Second :: duration where "Second = 1000000000"
definition Minute :: duration where "Minute = 60 * Second"
definition Hour :: duration where "Hour = 60 * Minute"
definition Day :: duration where "Day = 24 * Hour"

lemmas duration_defs = Day_def Hour_def Minute_def Second_def

definition zero_time :: instant where
  "zero_time = - 62135596800 * Second"

definition IsZero :: "instant \<Rightarrow> bool" where
  "IsZero t \<longleftrightarrow> t = zero_time"

text \<open>\<open>t.Sub(u)\<close> saturates at the limits of a 64-bit duration.\<close>

definition Sub :: "instant \<Rightarrow> instant \<Rightarrow> duration" where
  "Sub t u = max int_min (min int_max (t - u))"

lemma Sub_less_iff: "int_min < d \<Longrightarrow> d \<le> int_max \<Longrightarrow> Sub t u < d \<longleftrightarrow> t - u < d"
  by (auto simp: Sub_def)

text \<open>\<open>nilTime\<close> and \<open>deref\<close>: the zero time is SQL's NULL.\<close>

definition nilTime :: "instant \<Rightarrow> instant option" where
  "nilTime t = (if IsZero t then None else Some t)"

definition deref :: "instant option \<Rightarrow> instant" where
  "deref t = (case t of None \<Rightarrow> zero_time | Some x \<Rightarrow> x)"

lemma deref_nilTime [simp]: "deref (nilTime t) = t"
  by (simp add: deref_def nilTime_def IsZero_def)

lemma deref_simps [simp]: "deref None = zero_time" "deref (Some t) = t"
  by (simp_all add: deref_def)

lemma nilTime_zero [simp]: "nilTime zero_time = None"
  by (simp add: nilTime_def IsZero_def)

text \<open>\<open>t.Unix()\<close> rounds down to whole seconds.\<close>

definition Unix :: "instant \<Rightarrow> int" where
  "Unix t = t div Second"

definition from_Unix :: "int \<Rightarrow> instant" where
  "from_Unix n = n * Second"

lemma from_Unix_Unix_le: "from_Unix (Unix t) \<le> t"
  by (simp add: from_Unix_def Unix_def Second_def)

lemma from_Unix_Unix_gt: "t < from_Unix (Unix t) + Second"
  by (simp add: from_Unix_def Unix_def Second_def)

section \<open>The calendar\<close>

text \<open>
  The proleptic Gregorian calendar: day numbers counted from January 1, 1970. Years are
  counted from March, so that the leap day is the last one.
\<close>

definition days_from_civil :: "int \<Rightarrow> int \<Rightarrow> int \<Rightarrow> int" where
  "days_from_civil y m d =
    (let y' = (if m \<le> 2 then y - 1 else y); era = y' div 400; yoe = y' mod 400;
         mp = (if 2 < m then m - 3 else m + 9); doy = (153 * mp + 2) div 5 + d - 1
     in era * 146097 + (yoe * 365 + yoe div 4 - yoe div 100 + doy) - 719468)"

definition civil_from_days :: "int \<Rightarrow> int \<times> int \<times> int" where
  "civil_from_days z =
    (let z' = z + 719468; era = z' div 146097; doe = z' mod 146097;
         yoe = (doe - doe div 1460 + doe div 36524 - doe div 146096) div 365;
         doy = doe - (365 * yoe + yoe div 4 - yoe div 100);
         mp = (5 * doy + 2) div 153; d = doy - (153 * mp + 2) div 5 + 1;
         m = (if mp < 10 then mp + 3 else mp - 9);
         y = yoe + era * 400 + (if m \<le> 2 then 1 else 0)
     in (y, m, d))"

definition local_days :: "zone \<Rightarrow> instant \<Rightarrow> int" where
  "local_days z t = (t + z * Second) div Day"

text \<open>\<open>t.Date()\<close> in a location, and \<open>time.Date(y, m, d, 0, 0, 0, 0, loc)\<close>.\<close>

definition Date :: "zone \<Rightarrow> instant \<Rightarrow> int \<times> int \<times> int" where
  "Date z t = civil_from_days (local_days z t)"

text \<open>\<open>time.Date\<close> normalises a month outside 1..12 into the neighbouring years.\<close>

definition midnight :: "zone \<Rightarrow> int \<Rightarrow> int \<Rightarrow> int \<Rightarrow> instant" where
  "midnight z y m d =
    (let m' = (m - 1) mod 12 + 1; y' = y + (m - 1) div 12
     in (days_from_civil y' m' 1 + d - 1) * Day - z * Second)"

definition day_start :: "zone \<Rightarrow> instant \<Rightarrow> instant" where
  "day_start z t = local_days z t * Day - z * Second"

text \<open>\<open>t.AddDate(0, 0, n)\<close> in a fixed zone.\<close>

definition AddDays :: "int \<Rightarrow> instant \<Rightarrow> instant" where
  "AddDays n t = t + n * Day"

text \<open>\<open>t.Truncate(24 * time.Hour)\<close>: midnight UTC, whatever the location.\<close>

definition TruncateDay :: "instant \<Rightarrow> instant" where
  "TruncateDay t = t - t mod Day"

text \<open>\<open>time.Weekday\<close>: Sunday is 0; January 1, 1970 was a Thursday.\<close>

definition Weekday :: "zone \<Rightarrow> instant \<Rightarrow> int" where
  "Weekday z t = (local_days z t + 4) mod 7"

text \<open>Zero-padded decimals and the layout \<open>2006-01-02\<close>.\<close>

definition pad :: "nat \<Rightarrow> int \<Rightarrow> string" where
  "pad w n = (let s = Itoa n in replicate (w - length s) CHR ''0'' @ s)"

definition format_date :: "zone \<Rightarrow> instant \<Rightarrow> string" where
  "format_date z t = (case Date z t of (y, m, d) \<Rightarrow> pad 4 y @ ''-'' @ pad 2 m @ ''-'' @ pad 2 d)"

text \<open>The layouts \<open>RFC3339\<close> and \<open>RFC3339Nano\<close>, which drops the zeros at the end of the fraction.\<close>

definition day_nanos :: "zone \<Rightarrow> instant \<Rightarrow> int" where
  "day_nanos z t = (t + z * Second) mod Day"

definition format_clock :: "zone \<Rightarrow> instant \<Rightarrow> string" where
  "format_clock z t = (let n = day_nanos z t in
     pad 2 (n div Hour) @ '':'' @ pad 2 (n mod Hour div Minute) @ '':'' @ pad 2 (n mod Minute div Second))"

definition format_zone :: "zone \<Rightarrow> string" where
  "format_zone z = (if z = 0 then ''Z''
     else (if z < 0 then ''-'' else ''+'') @ pad 2 (\<bar>z\<bar> div 3600) @ '':'' @ pad 2 (\<bar>z\<bar> mod 3600 div 60))"

definition format_fraction :: "int \<Rightarrow> string" where
  "format_fraction ns = (if ns = 0 then []
     else CHR ''.'' # rev (dropWhile (\<lambda>c. c = CHR ''0'') (rev (pad 9 ns))))"

definition format_RFC3339 :: "zone \<Rightarrow> instant \<Rightarrow> string" where
  "format_RFC3339 z t = format_date z t @ ''T'' @ format_clock z t @ format_zone z"

definition format_RFC3339Nano :: "zone \<Rightarrow> instant \<Rightarrow> string" where
  "format_RFC3339Nano z t = format_date z t @ ''T'' @ format_clock z t
     @ format_fraction (day_nanos z t mod Second) @ format_zone z"

text \<open>The characters of these layouts.\<close>

definition stamp_char :: "char \<Rightarrow> bool" where
  "stamp_char c \<longleftrightarrow> is_digit c \<or> c \<in> set ''-:.+TZ''"

lemma stamp_digit: "is_digit c \<or> c = CHR ''-'' \<Longrightarrow> stamp_char c"
  by (auto simp: stamp_char_def)

lemma stamp_pad: "list_all stamp_char (pad w n)"
proof -
  have "is_digit CHR ''0''" by (simp add: is_digit_def byte_def)
  then show ?thesis
    using Itoa_chars stamp_digit by (fastforce simp: pad_def Let_def list_all_iff)
qed

lemma stamp_date: "list_all stamp_char (format_date z t)"
  by (cases "Date z t") (simp add: format_date_def stamp_pad, simp add: stamp_char_def)

lemma stamp_clock: "list_all stamp_char (format_clock z t)"
  by (simp add: format_clock_def Let_def stamp_pad) (simp add: stamp_char_def)

lemma stamp_zone: "list_all stamp_char (format_zone z)"
  by (simp add: format_zone_def stamp_pad) (simp add: stamp_char_def)

lemma stamp_fraction: "list_all stamp_char (format_fraction n)"
proof -
  have "list_all stamp_char (rev (dropWhile (\<lambda>c. c = CHR ''0'') (rev (pad 9 n))))"
    using stamp_pad [of 9 n] by (auto simp: list_all_iff dest: set_dropWhileD)
  then show ?thesis by (simp add: format_fraction_def) (simp add: stamp_char_def)
qed

lemma stamp_RFC3339Nano: "list_all stamp_char (format_RFC3339Nano z t)"
  by (simp add: format_RFC3339Nano_def stamp_date stamp_clock stamp_fraction stamp_zone)
    (simp add: stamp_char_def)

definition KST :: zone where "KST = 9 * 60 * 60"
definition UTC :: zone where "UTC = 0"

lemma Day_pos [simp]: "0 < Day"
  by (simp add: duration_defs)

lemma day_start_le: "day_start z t \<le> t"
proof -
  have "(t + z * Second) div Day * Day \<le> t + z * Second"
    using div_mult_mod_eq [of "t + z * Second" Day] pos_mod_sign [OF Day_pos, of "t + z * Second"]
    by linarith
  then show ?thesis by (simp add: day_start_def local_days_def)
qed

lemma day_start_gt: "t < day_start z t + Day"
proof -
  have "t + z * Second < (t + z * Second) div Day * Day + Day"
    using div_mult_mod_eq [of "t + z * Second" Day] pos_mod_bound [OF Day_pos, of "t + z * Second"]
    by linarith
  then show ?thesis by (simp add: day_start_def local_days_def)
qed

end
