(* ===== verification/Domain_Claim.thy ===== *)
theory Domain_Claim
  imports Go_Time
begin

text \<open>
  \<^verbatim>\<open>internal/domain/claim.go\<close> and \<^verbatim>\<open>internal/domain/storetype.go\<close>: the processing
  states of a claim and their transition table, issue types per kind of store, payment
  methods, audit events, and \<^verbatim>\<open>(*Claim).Transition\<close>. The Go enumerations are string
  types, so values outside the declared constants exist and the functions say what
  happens to them.
\<close>

section \<open>Status\<close>

type_synonym Status = string

definition StatusPending :: Status where "StatusPending = ''pending''"
definition StatusNeedsReview :: Status where "StatusNeedsReview = ''needs_review''"
definition StatusOnHold :: Status where "StatusOnHold = ''on_hold''"
definition StatusApproved :: Status where "StatusApproved = ''approved''"
definition StatusRejected :: Status where "StatusRejected = ''rejected''"
definition StatusPaid :: Status where "StatusPaid = ''paid''"

lemmas status_defs = StatusPending_def StatusNeedsReview_def StatusOnHold_def StatusApproved_def
  StatusRejected_def StatusPaid_def

lemma status_neq [simp]:
  "StatusPending \<noteq> []" "StatusPending \<noteq> StatusNeedsReview"
  "StatusPending \<noteq> StatusOnHold" "StatusPending \<noteq> StatusApproved"
  "StatusPending \<noteq> StatusRejected" "StatusPending \<noteq> StatusPaid"
  "StatusNeedsReview \<noteq> []" "StatusNeedsReview \<noteq> StatusPending"
  "StatusNeedsReview \<noteq> StatusOnHold" "StatusNeedsReview \<noteq> StatusApproved"
  "StatusNeedsReview \<noteq> StatusRejected" "StatusNeedsReview \<noteq> StatusPaid"
  "StatusOnHold \<noteq> []" "StatusOnHold \<noteq> StatusPending"
  "StatusOnHold \<noteq> StatusNeedsReview" "StatusOnHold \<noteq> StatusApproved"
  "StatusOnHold \<noteq> StatusRejected" "StatusOnHold \<noteq> StatusPaid"
  "StatusApproved \<noteq> []" "StatusApproved \<noteq> StatusPending"
  "StatusApproved \<noteq> StatusNeedsReview" "StatusApproved \<noteq> StatusOnHold"
  "StatusApproved \<noteq> StatusRejected" "StatusApproved \<noteq> StatusPaid"
  "StatusRejected \<noteq> []" "StatusRejected \<noteq> StatusPending"
  "StatusRejected \<noteq> StatusNeedsReview" "StatusRejected \<noteq> StatusOnHold"
  "StatusRejected \<noteq> StatusApproved" "StatusRejected \<noteq> StatusPaid"
  "StatusPaid \<noteq> []" "StatusPaid \<noteq> StatusPending"
  "StatusPaid \<noteq> StatusNeedsReview" "StatusPaid \<noteq> StatusOnHold"
  "StatusPaid \<noteq> StatusApproved" "StatusPaid \<noteq> StatusRejected"
  by (simp_all add: status_defs)

definition AllStatuses :: "Status list" where
  "AllStatuses = [StatusPending, StatusNeedsReview, StatusOnHold, StatusApproved, StatusRejected,
     StatusPaid]"

text \<open>Korean labels; an unknown status has the empty label (a missing map key).\<close>

definition statusLabels :: "Status \<rightharpoonup> string" where
  "statusLabels = [StatusPending \<mapsto> (u8 [0xC811, 0xC218, 0xB428]), StatusNeedsReview \<mapsto> (u8 [0xD655, 0xC778, 0x20, 0xD544, 0xC694]), StatusOnHold \<mapsto> (u8 [0xBCF4, 0xB958]),
     StatusApproved \<mapsto> (u8 [0xC2B9, 0xC778, 0xB428]), StatusRejected \<mapsto> (u8 [0xAC70, 0xC808]), StatusPaid \<mapsto> (u8 [0xC1A1, 0xAE08, 0x20, 0xC644, 0xB8CC])]"

definition status_Label :: "Status \<Rightarrow> string" where
  "status_Label s = (case statusLabels s of None \<Rightarrow> [] | Some l \<Rightarrow> l)"

definition IsTerminal :: "Status \<Rightarrow> bool" where
  "IsTerminal s \<longleftrightarrow> s = StatusPaid \<or> s = StatusRejected"

definition ParseStatus :: "string \<Rightarrow> Status option" where
  "ParseStatus s = find (\<lambda>v. v = s) AllStatuses"

lemma ParseStatus_eq: "ParseStatus s = (if s \<in> set AllStatuses then Some s else None)"
  by (auto simp: ParseStatus_def AllStatuses_def)

lemma status_in_All [simp]:
  "StatusPending \<in> set AllStatuses" "StatusNeedsReview \<in> set AllStatuses"
  "StatusOnHold \<in> set AllStatuses" "StatusApproved \<in> set AllStatuses"
  "StatusRejected \<in> set AllStatuses" "StatusPaid \<in> set AllStatuses"
  by (simp_all add: AllStatuses_def)

section \<open>Kinds of store (\<^verbatim>\<open>storetype.go\<close>)\<close>

type_synonym StoreType = string

text \<open>\<open>storeTypeLabels\<close> keeps the order of the tiles on the screen.\<close>

definition storeTypeLabels :: "(StoreType \<times> string) list" where
  "storeTypeLabels =
    [(''claw'', (u8 [0xC778, 0xD615, 0xBF51, 0xAE30])), (''laundry'', (u8 [0xBB34, 0xC778, 0xC138, 0xD0C1])), (''karaoke'', (u8 [0xCF54, 0xC778, 0xB178, 0xB798, 0xBC29])),
     (''photo'', (u8 [0xBB34, 0xC778, 0xC0AC, 0xC9C4, 0xAD00])), (''study'', (u8 [0xC2A4, 0xD130, 0xB514, 0xCE74, 0xD398])), (''cafe'', (u8 [0xBB34, 0xC778, 0xCE74, 0xD398]))]"

definition AllStoreTypes :: "StoreType list" where
  "AllStoreTypes = map fst storeTypeLabels"

definition ValidStoreType :: "string \<Rightarrow> bool" where
  "ValidStoreType s \<longleftrightarrow> (\<exists>t \<in> set storeTypeLabels. fst t = s)"

definition StoreTypeLabel :: "StoreType \<Rightarrow> string" where
  "StoreTypeLabel s = (case map_of storeTypeLabels s of None \<Rightarrow> [] | Some l \<Rightarrow> l)"

definition NormalizeStoreType :: "string \<Rightarrow> StoreType" where
  "NormalizeStoreType s = (if ValidStoreType s then s else ''claw'')"

lemma AllStoreTypes_eval:
  "AllStoreTypes = [''claw'', ''laundry'', ''karaoke'', ''photo'', ''study'', ''cafe'']"
  by (simp add: AllStoreTypes_def storeTypeLabels_def)

lemma ValidStoreType_iff: "ValidStoreType s \<longleftrightarrow> s \<in> set AllStoreTypes"
  by (auto simp: ValidStoreType_def AllStoreTypes_def)

lemma Normalize_valid [simp]: "ValidStoreType (NormalizeStoreType s)"
  by (auto simp: NormalizeStoreType_def ValidStoreType_iff AllStoreTypes_eval)

section \<open>Issue types\<close>

type_synonym IssueType = string

definition storeIssues :: "StoreType \<rightharpoonup> IssueType list" where
  "storeIssues = map_of
    [(''claw'', [''doll_stuck'', ''cash_eaten'', ''claw_broken'', ''other'']),
     (''laundry'', [''no_start'', ''stopped_mid'', ''not_dry'', ''other'']),
     (''karaoke'', [''no_credit'', ''mic_broken'', ''cut_off'', ''other'']),
     (''photo'', [''no_print'', ''bad_print'', ''no_shoot'', ''other'']),
     (''study'', [''no_seat'', ''door_locked'', ''double_charge'', ''other'']),
     (''cafe'', [''no_drink'', ''no_cup'', ''wrong_drink'', ''other''])]"

text \<open>An unknown kind of store falls back to the claw machines, as \<open>NormalizeStoreType\<close> does.\<close>

definition IssuesFor :: "StoreType \<Rightarrow> IssueType list" where
  "IssuesFor st = (case storeIssues st of Some v \<Rightarrow> v
     | None \<Rightarrow> (case storeIssues ''claw'' of Some v \<Rightarrow> v | None \<Rightarrow> []))"

definition ValidIssueFor :: "StoreType \<Rightarrow> IssueType \<Rightarrow> bool" where
  "ValidIssueFor st it \<longleftrightarrow> (\<exists>v \<in> set (IssuesFor st). v = it)"

definition issueLabels :: "(IssueType \<times> string) list" where
  "issueLabels =
    [(''other'', (u8 [0xAE30, 0xD0C0])),
     (''doll_stuck'', (u8 [0xC778, 0xD615, 0x20, 0xAC78, 0xB9BC])), (''cash_eaten'', (u8 [0xB3C8, 0xB9CC, 0x20, 0xBE60, 0xC9D0])), (''claw_broken'', (u8 [0xC9D1, 0xAC8C, 0x20, 0xBD88, 0xB7C9])),
     (''no_start'', (u8 [0xC791, 0xB3D9, 0x20, 0xC548, 0x20, 0xD568])), (''stopped_mid'', (u8 [0xC911, 0xAC04, 0xC5D0, 0x20, 0xBA48, 0xCDA4])), (''not_dry'', (u8 [0xAC74, 0xC870, 0x20, 0xB35C, 0x20, 0xB428])),
     (''no_credit'', (u8 [0xACE1, 0x20, 0xC218, 0x20, 0xC548, 0x20, 0xC62C, 0xB77C, 0xAC10])), (''mic_broken'', (u8 [0xB9C8, 0xC774, 0xD06C, 0x20, 0xACE0, 0xC7A5])), (''cut_off'', (u8 [0xC911, 0xAC04, 0xC5D0, 0x20, 0xB04A, 0xAE40])),
     (''no_print'', (u8 [0xC0AC, 0xC9C4, 0x20, 0xC548, 0x20, 0xB098, 0xC634])), (''bad_print'', (u8 [0xC778, 0xD654, 0x20, 0xBD88, 0xB7C9])), (''no_shoot'', (u8 [0xCD2C, 0xC601, 0x20, 0xC548, 0x20, 0xB428])),
     (''no_seat'', (u8 [0xC88C, 0xC11D, 0x20, 0xBC30, 0xC815, 0x20, 0xC548, 0x20, 0xB428])), (''door_locked'', (u8 [0xCD9C, 0xC785, 0xBB38, 0x20, 0xC548, 0x20, 0xC5F4, 0xB9BC])), (''double_charge'', (u8 [0xB450, 0x20, 0xBC88, 0x20, 0xACB0, 0xC81C])),
     (''no_drink'', (u8 [0xC74C, 0xB8CC, 0x20, 0xC548, 0x20, 0xB098, 0xC634])), (''no_cup'', (u8 [0xCEF5, 0x20, 0xC548, 0x20, 0xB098, 0xC634])), (''wrong_drink'', (u8 [0xB2E4, 0xB978, 0x20, 0xC74C, 0xB8CC]))]"

text \<open>A deleted code keeps itself as label, so that old claims stay readable.\<close>

definition issue_Label :: "IssueType \<Rightarrow> string" where
  "issue_Label i = (case map_of issueLabels i of Some v \<Rightarrow> v | None \<Rightarrow> i)"

definition ParseIssueType :: "string \<Rightarrow> IssueType option" where
  "ParseIssueType s = (if map_of issueLabels s \<noteq> None then Some s else None)"

text \<open>\<open>AllIssueTypes\<close> walks the stores in screen order and skips what it has already seen.\<close>

definition collect_issue :: "IssueType \<Rightarrow> IssueType list \<times> IssueType set \<Rightarrow> IssueType list \<times> IssueType set" where
  "collect_issue it acc =
    (case acc of (out, seen) \<Rightarrow> if it \<in> seen then acc else (out @ [it], insert it seen))"

definition AllIssueTypes :: "IssueType list" where
  "AllIssueTypes =
    fst (fold (\<lambda>st. fold collect_issue (IssuesFor st)) AllStoreTypes ([], {}))"

definition seen_ok :: "IssueType list \<times> IssueType set \<Rightarrow> bool" where
  "seen_ok acc \<longleftrightarrow> snd acc = set (fst acc) \<and> distinct (fst acc)"

lemma collect_issue_ok:
  "seen_ok acc \<Longrightarrow> seen_ok (collect_issue it acc)
     \<and> set (fst (collect_issue it acc)) = insert it (set (fst acc))"
  by (cases acc) (auto simp: collect_issue_def seen_ok_def)

lemma collect_issues_ok:
  "seen_ok acc \<Longrightarrow> seen_ok (fold collect_issue its acc)
     \<and> set (fst (fold collect_issue its acc)) = set its \<union> set (fst acc)"
proof (induction its arbitrary: acc)
  case Nil
  then show ?case by simp
next
  case (Cons it its)
  from collect_issue_ok [OF Cons.prems, of it] Cons.IH show ?case by simp
qed

lemma collect_stores_ok:
  "seen_ok acc \<Longrightarrow> seen_ok (fold (\<lambda>st. fold collect_issue (f st)) sts acc)
     \<and> set (fst (fold (\<lambda>st. fold collect_issue (f st)) sts acc))
         = (\<Union>st \<in> set sts. set (f st)) \<union> set (fst acc)"
proof (induction sts arbitrary: acc)
  case Nil
  then show ?case by simp
next
  case (Cons st sts)
  from collect_issues_ok [OF Cons.prems, of "f st"] Cons.IH show ?case by auto
qed

lemma AllIssueTypes_spec:
  "distinct AllIssueTypes \<and> set AllIssueTypes = (\<Union>st \<in> set AllStoreTypes. set (IssuesFor st))"
  using collect_stores_ok [of "([], {})" IssuesFor AllStoreTypes]
  by (simp add: AllIssueTypes_def seen_ok_def)

lemma IssuesFor_eval:
  "IssuesFor ''claw'' = [''doll_stuck'', ''cash_eaten'', ''claw_broken'', ''other'']"
  "IssuesFor ''laundry'' = [''no_start'', ''stopped_mid'', ''not_dry'', ''other'']"
  "IssuesFor ''karaoke'' = [''no_credit'', ''mic_broken'', ''cut_off'', ''other'']"
  "IssuesFor ''photo'' = [''no_print'', ''bad_print'', ''no_shoot'', ''other'']"
  "IssuesFor ''study'' = [''no_seat'', ''door_locked'', ''double_charge'', ''other'']"
  "IssuesFor ''cafe'' = [''no_drink'', ''no_cup'', ''wrong_drink'', ''other'']"
  by (simp_all add: IssuesFor_def storeIssues_def)

section \<open>Actors and audit events\<close>

record Actor =
  act_Kind :: string
  act_ID :: string
  act_Name :: string

definition ActorCustomer :: string where "ActorCustomer = ''customer''"
definition ActorOwner :: string where "ActorOwner = ''owner''"
definition ActorSystem :: string where "ActorSystem = ''system''"
definition ActorLink :: string where "ActorLink = ''link''"

definition ActionCreate :: string where "ActionCreate = ''create''"
definition ActionTransition :: string where "ActionTransition = ''transition''"
definition ActionViewContact :: string where "ActionViewContact = ''view_contact''"

lemma actor_kinds_neq [simp]:
  "ActorCustomer \<noteq> []" "ActorOwner \<noteq> []" "ActorSystem \<noteq> []" "ActorLink \<noteq> []"
  by (simp_all add: ActorCustomer_def ActorOwner_def ActorSystem_def ActorLink_def)

lemma action_neq [simp]:
  "ActionCreate \<noteq> ActionTransition" "ActionTransition \<noteq> ActionCreate"
  "ActionViewContact \<noteq> ActionTransition" "ActionTransition \<noteq> ActionViewContact"
  "ActionViewContact \<noteq> ActionCreate" "ActionCreate \<noteq> ActionViewContact"
  by (simp_all add: ActionCreate_def ActionTransition_def ActionViewContact_def)

record Event =
  ev_ClaimID :: string
  ev_Actor :: Actor
  ev_Action :: string
  ev_From :: Status
  ev_To :: Status
  ev_Note :: string
  ev_At :: instant

definition NewEvent ::
  "instant \<Rightarrow> string \<Rightarrow> Actor \<Rightarrow> string \<Rightarrow> Status \<Rightarrow> Status \<Rightarrow> string \<Rightarrow> Event" where
  "NewEvent now claimID by' action from to note =
    \<lparr>ev_ClaimID = claimID, ev_Actor = by', ev_Action = action, ev_From = from, ev_To = to,
     ev_Note = note, ev_At = now\<rparr>"

section \<open>Payment methods\<close>

type_synonym PaymentMethod = string

definition PaymentCash :: PaymentMethod where "PaymentCash = ''cash''"
definition PaymentCard :: PaymentMethod where "PaymentCard = ''card''"
definition PaymentUnknown :: PaymentMethod where "PaymentUnknown = ''unknown''"

definition AllPaymentMethods :: "PaymentMethod list" where
  "AllPaymentMethods = [PaymentCash, PaymentCard]"

definition payment_Label :: "PaymentMethod \<Rightarrow> string" where
  "payment_Label p = (if p = PaymentCash then (u8 [0xD604, 0xAE08]) else if p = PaymentCard then (u8 [0xCE74, 0xB4DC])
     else if p = PaymentUnknown then (u8 [0xD655, 0xC778, 0x20, 0xC548, 0x20, 0xB428]) else [])"

definition NeedsAccount :: "PaymentMethod \<Rightarrow> bool" where
  "NeedsAccount p \<longleftrightarrow> p \<noteq> PaymentCard"

definition ParsePaymentMethod :: "string \<Rightarrow> PaymentMethod option" where
  "ParsePaymentMethod s = find (\<lambda>v. v = s) AllPaymentMethods"

lemma ParsePaymentMethod_Some:
  "ParsePaymentMethod s = Some m \<longleftrightarrow> m = s \<and> (s = PaymentCash \<or> s = PaymentCard)"
  by (auto simp: ParsePaymentMethod_def AllPaymentMethods_def)

lemma payment_neq [simp]:
  "PaymentCash \<noteq> PaymentCard" "PaymentCard \<noteq> PaymentCash"
  "PaymentUnknown \<noteq> PaymentCard" "PaymentCard \<noteq> PaymentUnknown"
  by (simp_all add: PaymentCash_def PaymentCard_def PaymentUnknown_def)

definition PayoutDeeplink :: string where "PayoutDeeplink = ''deeplink''"
definition PayoutManual :: string where "PayoutManual = ''manual''"
definition PayoutCardVoid :: string where "PayoutCardVoid = ''card_void''"

definition AllPayoutMethods :: "string list" where
  "AllPayoutMethods = [PayoutDeeplink, PayoutManual, PayoutCardVoid]"

lemma payout_neq [simp]:
  "PayoutDeeplink \<noteq> PayoutCardVoid" "PayoutManual \<noteq> PayoutCardVoid"
  "PayoutDeeplink \<noteq> []" "PayoutManual \<noteq> []" "PayoutCardVoid \<noteq> []"
  by (simp_all add: PayoutDeeplink_def PayoutManual_def PayoutCardVoid_def)

section \<open>Claims and their transitions\<close>

record Claim =
  cl_ID :: string
  cl_StoreID :: string
  cl_MachineID :: string
  cl_IssueType :: IssueType
  cl_PaymentMethod :: PaymentMethod
  cl_AmountKRW :: int
  cl_Description :: string
  cl_CardLast4 :: string
  cl_PaidAtGuess :: instant
  cl_Status :: Status
  cl_RiskScore :: int
  cl_CreatedAt :: instant
  cl_ResolvedAt :: instant
  cl_PaidAt :: instant
  cl_PayoutMethod :: string
  cl_PaidAmountKRW :: int

text \<open>The terminal states have no entry: there is no way out of them.\<close>

definition transitions :: "Status \<Rightarrow> Status list" where
  "transitions s =
    (if s = StatusPending then [StatusNeedsReview, StatusOnHold, StatusApproved, StatusRejected]
     else if s = StatusNeedsReview then [StatusOnHold, StatusApproved, StatusRejected]
     else if s = StatusOnHold then [StatusNeedsReview, StatusApproved, StatusRejected]
     else if s = StatusApproved then [StatusPaid, StatusRejected]
     else [])"

datatype transition_error =
    AlreadyInStatus Status
  | NotAllowed Status Status
  | ActorRequired
  | UnknownStatus string

definition transitionError :: "Claim \<Rightarrow> Status \<Rightarrow> transition_error option" where
  "transitionError c to =
    (if to = cl_Status c then Some (AlreadyInStatus (cl_Status c))
     else if to \<in> set (transitions (cl_Status c)) then None
     else Some (NotAllowed (cl_Status c) to))"

definition CanTransition :: "Claim \<Rightarrow> Status \<Rightarrow> bool" where
  "CanTransition c to \<longleftrightarrow> transitionError c to = None"

text \<open>
  \<open>Transition\<close> mutates its receiver: the model returns the claim after the call beside
  the result. \<open>now\<close> is the clock reading inside the call.
\<close>

definition Transition ::
  "instant \<Rightarrow> Claim \<Rightarrow> Status \<Rightarrow> Actor \<Rightarrow> string \<Rightarrow> Claim \<times> (transition_error, Event) result" where
  "Transition now c to by' note =
    (if act_Kind by' = [] then (c, Inl ActorRequired)
     else case ParseStatus to of None \<Rightarrow> (c, Inl (UnknownStatus to))
     | Some _ \<Rightarrow>
       (case transitionError c to of Some e \<Rightarrow> (c, Inl e)
        | None \<Rightarrow>
          (let c1 = c\<lparr>cl_Status := to\<rparr>;
               c2 = (if IsTerminal to then c1\<lparr>cl_ResolvedAt := now\<rparr> else c1);
               c3 = (if to = StatusPaid then c2\<lparr>cl_PaidAt := now\<rparr> else c2)
           in (c3, Inr \<lparr>ev_ClaimID = cl_ID c, ev_Actor = by', ev_Action = ActionTransition,
                        ev_From = cl_Status c, ev_To = to, ev_Note = note, ev_At = now\<rparr>))))"

subsection \<open>The transition table\<close>

lemma transitions_known: "t \<in> set (transitions s) \<Longrightarrow> s \<in> set AllStatuses \<and> t \<in> set AllStatuses"
  by (auto simp: transitions_def split: if_splits)

lemma transitions_irrefl [simp]: "s \<notin> set (transitions s)"
  by (auto simp: transitions_def)

lemma transitions_terminal: "IsTerminal s \<Longrightarrow> transitions s = []"
  by (auto simp: transitions_def IsTerminal_def)

lemma transitions_to_paid: "StatusPaid \<in> set (transitions s) \<longleftrightarrow> s = StatusApproved"
  by (auto simp: transitions_def)

lemma transitions_into_pending [simp]: "StatusPending \<notin> set (transitions s)"
  by (auto simp: transitions_def)

lemma CanTransition_iff: "CanTransition c to \<longleftrightarrow> to \<in> set (transitions (cl_Status c))"
  by (auto simp: CanTransition_def transitionError_def)

lemma Transition_ok:
  assumes "act_Kind by' \<noteq> []" and "to \<in> set (transitions (cl_Status c))"
  shows "Transition now c to by' note =
    (c\<lparr>cl_Status := to, cl_ResolvedAt := (if IsTerminal to then now else cl_ResolvedAt c),
       cl_PaidAt := (if to = StatusPaid then now else cl_PaidAt c)\<rparr>,
     Inr (NewEvent now (cl_ID c) by' ActionTransition (cl_Status c) to note))"
proof -
  have "to \<noteq> cl_Status c" using assms(2) by auto
  moreover have "ParseStatus to = Some to" using transitions_known [OF assms(2)] by (simp add: ParseStatus_eq)
  ultimately show ?thesis using assms by (simp add: Transition_def transitionError_def NewEvent_def)
qed

lemma Transition_fails:
  assumes "\<not> (act_Kind by' \<noteq> [] \<and> to \<in> set (transitions (cl_Status c)))"
  shows "\<exists>e. Transition now c to by' note = (c, Inl e)"
  using assms by (auto simp: Transition_def transitionError_def split: option.splits)

lemma Transition_Inr_iff:
  "is_ok (snd (Transition now c to by' note))
     \<longleftrightarrow> act_Kind by' \<noteq> [] \<and> to \<in> set (transitions (cl_Status c))"
  using Transition_ok Transition_fails by (metis is_ok_simps snd_conv)

section \<open>Walks in a status graph\<close>

text \<open>
  An audit trail is a walk: every edge starts where the one before ended, and follows the
  successor function.
\<close>

fun walk :: "('s \<Rightarrow> 's list) \<Rightarrow> 's \<Rightarrow> ('s \<times> 's) list \<Rightarrow> 's \<Rightarrow> bool" where
  "walk succs s [] t \<longleftrightarrow> s = t"
| "walk succs s ((a, b) # es) t \<longleftrightarrow> a = s \<and> b \<in> set (succs a) \<and> walk succs b es t"

lemma walk_append:
  "walk succs s (es @ fs) t \<longleftrightarrow> (\<exists>m. walk succs s es m \<and> walk succs m fs t)"
  by (induction es arbitrary: s) auto

lemma walk_snoc: "walk succs s es m \<Longrightarrow> t \<in> set (succs m) \<Longrightarrow> walk succs s (es @ [(m, t)]) t"
  by (auto simp: walk_append)

text \<open>The contract of a status graph: a terminal state has no successor.\<close>

locale status_graph =
  fixes succs :: "'s \<Rightarrow> 's list"
    and terminal :: "'s \<Rightarrow> bool"
  assumes terminal_stuck: "terminal s \<Longrightarrow> succs s = []"
begin

lemma walk_from_terminal: "walk succs s es t \<Longrightarrow> terminal s \<Longrightarrow> es = [] \<and> t = s"
  by (cases "(succs, s, es, t)" rule: walk.cases) (auto simp: terminal_stuck)

lemma walk_terminal_last:
  assumes "walk succs s (es @ (a, b) # fs) t" and "terminal b"
  shows "fs = [] \<and> t = b"
proof -
  from assms(1) have "walk succs b fs t" by (auto simp: walk_append)
  from walk_from_terminal [OF this assms(2)] show ?thesis by simp
qed

lemma walk_terminal_once:
  assumes "walk succs s es t" and "terminal b"
  shows "length (filter (\<lambda>e. snd e = b) es) \<le> 1"
proof (cases "filter (\<lambda>e. snd e = b) es")
  case Nil
  then show ?thesis by simp
next
  case (Cons e rest)
  then obtain us vs where es: "es = us @ e # vs" and e: "snd e = b"
    and rest: "rest = filter (\<lambda>e. snd e = b) vs"
    by (auto simp: filter_eq_Cons_iff)
  from e obtain a where "e = (a, b)" by (cases e) auto
  with es assms walk_terminal_last have "vs = []" by metis
  with Cons rest show ?thesis by simp
qed

end

interpretation claim_graph: status_graph transitions IsTerminal
  by unfold_locales (rule transitions_terminal)


section \<open>A sequence of transition attempts\<close>

text \<open>
  The life of one claim: attempts at a transition, each at its own instant, some refused.
  The events of the accepted ones are collected.
\<close>

type_synonym attempt = "instant \<times> Status \<times> Actor \<times> string"

fun attempts :: "Claim \<Rightarrow> attempt list \<Rightarrow> Claim \<times> Event list" where
  "attempts c [] = (c, [])"
| "attempts c ((now, to, by', note) # as) =
    (case Transition now c to by' note of
       (c', Inl _) \<Rightarrow> attempts c' as
     | (c', Inr e) \<Rightarrow> (case attempts c' as of (c'', es) \<Rightarrow> (c'', e # es)))"

definition edge :: "Event \<Rightarrow> Status \<times> Status" where
  "edge e = (ev_From e, ev_To e)"

lemma attempts_walk:
  "attempts c as = (c', es) \<Longrightarrow> walk transitions (cl_Status c) (map edge es) (cl_Status c')"
proof (induction as arbitrary: c c' es)
  case Nil
  then show ?case by simp
next
  case (Cons a as)
  obtain now to by' nt where a: "a = (now, to, by', nt)" by (cases a)
  show ?case
  proof (cases "act_Kind by' \<noteq> [] \<and> to \<in> set (transitions (cl_Status c))")
    case True
    obtain c1 e where t: "Transition now c to by' nt = (c1, Inr e)" "cl_Status c1 = to"
      "edge e = (cl_Status c, to)"
      using True Transition_ok by (auto simp: NewEvent_def edge_def)
    obtain c2 es2 where r: "attempts c1 as = (c2, es2)" by (cases "attempts c1 as")
    with Cons.prems a t have "c' = c2" "es = e # es2" by simp_all
    with Cons.IH [OF r] t True show ?thesis by simp
  next
    case False
    then obtain err where t: "Transition now c to by' nt = (c, Inl err)"
      using Transition_fails by blast
    with Cons a show ?thesis by simp
  qed
qed

text \<open>
  Whatever transitions are attempted on a claim, in whatever order and by whomever, the
  accepted ones form a walk in the transition table that starts at the claim's state and ends
  at its final one; at most one of them pays it, and nothing follows a payment or a rejection.
\<close>

theorem attempts_pay_once:
  "case attempts c as of (c', es) \<Rightarrow>
     walk transitions (cl_Status c) (map edge es) (cl_Status c')
     \<and> length (filter (\<lambda>e. ev_To e = StatusPaid) es) \<le> 1
     \<and> list_all (\<lambda>e. \<not> IsTerminal (ev_To e)) (butlast es)"
proof -
  obtain c' es where r: "attempts c as = (c', es)" by (cases "attempts c as")
  note w = attempts_walk [OF r]
  have "length (filter (\<lambda>x. snd x = StatusPaid) (map edge es)) \<le> 1"
    using claim_graph.walk_terminal_once [OF w, of StatusPaid] by (simp add: IsTerminal_def)
  then have "length (filter (\<lambda>e. ev_To e = StatusPaid) es) \<le> 1"
    by (simp add: filter_map comp_def edge_def)
  moreover have "\<not> IsTerminal (ev_To e)" if "e \<in> set (butlast es)" for e
  proof
    assume t: "IsTerminal (ev_To e)"
    from that obtain us vs where b: "butlast es = us @ e # vs" by (auto simp: in_set_conv_decomp)
    with that have "es = us @ e # vs @ [last es]" by (metis append_Cons append_assoc append_butlast_last_id
      butlast.simps(1) in_set_conv_decomp_first list.distinct(1) list.set(1) empty_iff)
    with w have "walk transitions (cl_Status c)
        (map edge us @ (ev_From e, ev_To e) # map edge (vs @ [last es])) (cl_Status c')"
      by (metis edge_def list.simps(9) map_append)
    from claim_graph.walk_terminal_last [OF this t] show False by simp
  qed
  ultimately show ?thesis using w r by (simp add: list_all_iff)
qed

text \<open>
  A transition succeeds exactly when the actor is named and the table has the edge. It
  then changes the state, stamps the resolution time on a terminal state and the payment time
  on a payment, and leaves everything else alone; a refused one leaves the claim as it was,
  and the error says which check refused it.
\<close>

theorem Transition_spec:
  "Transition now c to by' note =
    (if act_Kind by' = [] then (c, Inl ActorRequired)
     else if to \<notin> set AllStatuses then (c, Inl (UnknownStatus to))
     else if to = cl_Status c then (c, Inl (AlreadyInStatus to))
     else if to \<notin> set (transitions (cl_Status c)) then (c, Inl (NotAllowed (cl_Status c) to))
     else (c\<lparr>cl_Status := to, cl_ResolvedAt := (if IsTerminal to then now else cl_ResolvedAt c),
              cl_PaidAt := (if to = StatusPaid then now else cl_PaidAt c)\<rparr>,
           Inr (NewEvent now (cl_ID c) by' ActionTransition (cl_Status c) to note)))"
proof (cases "act_Kind by' \<noteq> [] \<and> to \<in> set (transitions (cl_Status c))")
  case True
  then show ?thesis using transitions_known [of to "cl_Status c"] by (auto simp: Transition_ok)
next
  case False
  then show ?thesis by (auto simp: Transition_def transitionError_def ParseStatus_eq)
qed

text \<open>
  The table of transitions, state by state: a refund is only reached from an approved
  claim, nothing leads back to a received one, the two terminal states lead nowhere, every
  other state can still be rejected, and every edge joins two known states.
\<close>

theorem transition_table:
  "(StatusPaid \<in> set (transitions s)) = (s = StatusApproved)
   \<and> StatusPending \<notin> set (transitions s)
   \<and> s \<notin> set (transitions s)
   \<and> (StatusRejected \<in> set (transitions s)) = (s \<in> set AllStatuses \<and> \<not> IsTerminal s)
   \<and> (transitions s \<noteq> []) = (s \<in> set AllStatuses \<and> \<not> IsTerminal s)
   \<and> set (transitions s) \<subseteq> set AllStatuses"
  by (auto simp: transitions_def IsTerminal_def AllStatuses_def)

lemma issue_codes: "fst ` set issueLabels = set AllIssueTypes"
proof -
  have "set AllIssueTypes = \<Union> (set (map (\<lambda>st. set (IssuesFor st)) AllStoreTypes))"
    using AllIssueTypes_spec by simp
  also have "\<dots> = fst ` set issueLabels"
  proof (rule equalityI)
    show "\<Union> (set (map (\<lambda>st. set (IssuesFor st)) AllStoreTypes)) \<subseteq> fst ` set issueLabels"
      by (simp add: AllStoreTypes_eval IssuesFor_eval issueLabels_def)
    show "fst ` set issueLabels \<subseteq> \<Union> (set (map (\<lambda>st. set (IssuesFor st)) AllStoreTypes))"
      by (simp add: AllStoreTypes_eval IssuesFor_eval issueLabels_def)
  qed
  finally show ?thesis by simp
qed

lemma ParseIssueType_iff: "ParseIssueType i = Some i \<longleftrightarrow> i \<in> set AllIssueTypes"
  by (simp add: ParseIssueType_def map_of_eq_None_iff issue_codes)

lemma IssuesFor_unknown:
  assumes "\<not> ValidStoreType st"
  shows "IssuesFor st = IssuesFor ''claw''"
  using assms by (simp add: ValidStoreType_iff AllStoreTypes_eval IssuesFor_def storeIssues_def)

text \<open>
  The symptom catalogue: the list of all symptoms holds every symptom of every shop type
  once and is what the server parses, a symptom accepted for some shop type (known or not) is
  one the server knows, and an unknown shop type is treated as a claw-machine shop.
\<close>

theorem issue_catalogue:
  "distinct AllIssueTypes
   \<and> {i. ParseIssueType i = Some i} = (\<Union>st \<in> set AllStoreTypes. set (IssuesFor st))
   \<and> {i. ValidIssueFor st i} \<subseteq> {i. ParseIssueType i = Some i}
   \<and> IssuesFor st = IssuesFor (NormalizeStoreType st)
   \<and> ''other'' \<in> set (IssuesFor st)"
proof -
  have n: "IssuesFor st = IssuesFor (NormalizeStoreType st)"
    by (simp add: NormalizeStoreType_def IssuesFor_unknown)
  have v: "NormalizeStoreType st \<in> set AllStoreTypes" using Normalize_valid ValidStoreType_iff by blast
  then have "set (IssuesFor st) \<subseteq> set AllIssueTypes" unfolding n using AllIssueTypes_spec by blast
  moreover have "''other'' \<in> set (IssuesFor st)"
    using v unfolding n by (auto simp: AllStoreTypes_eval IssuesFor_eval)
  ultimately show ?thesis using n AllIssueTypes_spec
    by (auto simp: ParseIssueType_iff ValidIssueFor_def)
qed

end
