(* ===== verification/Domain_Risk.thy ===== *)
theory Domain_Risk
  imports Domain_Claim
begin

text \<open>
  \<^verbatim>\<open>internal/domain/policy.go\<close> and \<^verbatim>\<open>internal/domain/risk.go\<close>: the thresholds and the
  pure risk evaluation of a new claim. \<open>Evaluate\<close> runs a list of rules; the strongest
  state wins, the weights add up to at most 100, and every rule that fired leaves a reason
  the owner can read. \<^verbatim>\<open>comma\<close> is the thousands separator used in those sentences.
\<close>

section \<open>Policy\<close>

definition ContactNormal :: string where "ContactNormal = ''normal''"
definition ContactWatch :: string where "ContactWatch = ''watch''"
definition ContactBlocked :: string where "ContactBlocked = ''blocked''"

lemma contact_neq [simp]:
  "ContactNormal \<noteq> ContactWatch" "ContactNormal \<noteq> ContactBlocked" "ContactWatch \<noteq> ContactNormal"
  "ContactWatch \<noteq> ContactBlocked" "ContactBlocked \<noteq> ContactNormal" "ContactBlocked \<noteq> ContactWatch"
  by (simp_all add: ContactNormal_def ContactWatch_def ContactBlocked_def)

definition ParseContactStatus :: "string \<Rightarrow> string option" where
  "ParseContactStatus s =
    (if s = ContactNormal \<or> s = ContactWatch \<or> s = ContactBlocked then Some s else None)"

record Policy =
  ReviewThresholdKRW :: int
  RepeatWatchCount :: int
  RepeatHoldCount :: int
  AccountSharingPhones :: int
  PayoutCeilingKRW :: int
  MaxAmountKRW :: int
  RapidDuplicateWindow :: duration

definition DefaultPolicy :: Policy where
  "DefaultPolicy = \<lparr>ReviewThresholdKRW = 10000, RepeatWatchCount = 3, RepeatHoldCount = 5,
     AccountSharingPhones = 3, PayoutCeilingKRW = 50000, MaxAmountKRW = 1000000,
     RapidDuplicateWindow = 10 * Minute\<rparr>"

datatype amount_error = AmountMissing | AmountTooLarge int

definition ValidateAmount :: "int \<Rightarrow> Policy \<Rightarrow> amount_error option" where
  "ValidateAmount krw p =
    (if krw \<le> 0 then Some AmountMissing
     else if MaxAmountKRW p < krw then Some (AmountTooLarge (MaxAmountKRW p)) else None)"

definition RequiresPhoto :: "int \<Rightarrow> Policy \<Rightarrow> bool" where
  "RequiresPhoto krw p \<longleftrightarrow> ReviewThresholdKRW p \<le> krw"

section \<open>The thousands separator\<close>

fun comma_loop :: "bool \<Rightarrow> string \<Rightarrow> string" where
  "comma_loop started [] = []"
| "comma_loop started (c # cs) =
    (if started \<and> length (c # cs) mod 3 = 0 then [CHR '','', c] else [c]) @ comma_loop True cs"

definition comma :: "int \<Rightarrow> string" where
  "comma n = (let s = Itoa n
     in if n < 0 then CHR ''-'' # comma_loop False (tl s) else comma_loop False s)"

section \<open>Inputs and results of the evaluation\<close>

record RiskReason =
  rr_Code :: string
  rr_Message :: string

record RiskInput =
  ri_AmountKRW :: int
  ri_PhoneClaims30d :: int
  ri_PhonePaidTotal30d :: int
  ri_AccountDistinctPhones :: int
  ri_HasAccount :: bool
  ri_ManualStatus :: string
  ri_LastSameMachineAt :: instant
  ri_Now :: instant

record RiskResult =
  rs_Score :: int
  rs_Reasons :: "RiskReason list"
  rs_Status :: Status
  rs_RejectDuplicate :: bool

text \<open>A rule yields nothing, or a reason, the state it asks for and its weight.\<close>

type_synonym rule = "RiskInput \<Rightarrow> Policy \<Rightarrow> (RiskReason \<times> Status \<times> int) option"

definition mk_reason :: "string \<Rightarrow> string \<Rightarrow> RiskReason" where
  "mk_reason code msg = \<lparr>rr_Code = code, rr_Message = msg\<rparr>"

definition statusRank :: "Status \<Rightarrow> nat" where
  "statusRank s = (if s = StatusNeedsReview then 1 else if s = StatusOnHold then 2 else 0)"

definition strongerStatus :: "Status \<Rightarrow> Status \<Rightarrow> Status" where
  "strongerStatus a b = (if statusRank a < statusRank b then b else a)"

section \<open>The rules\<close>

definition isRapidDuplicate :: "RiskInput \<Rightarrow> Policy \<Rightarrow> bool" where
  "isRapidDuplicate ri p =
    (if IsZero (ri_LastSameMachineAt ri) then False
     else Sub (ri_Now ri) (ri_LastSameMachineAt ri) < RapidDuplicateWindow p)"

definition ruleManual :: rule where
  "ruleManual ri p =
    (if ri_ManualStatus ri = ContactBlocked then
       Some (mk_reason ''manual_block'' (u8 [0xC0AC, 0xC7A5, 0xB2D8, 0xC774, 0x20, 0xCC28, 0xB2E8, 0xD55C, 0x20, 0xC5F0, 0xB77D, 0xCC98, 0xC785, 0xB2C8, 0xB2E4, 0x20, 0x28, 0xC218, 0xB3D9, 0x20, 0xC9C0, 0xC815, 0x20, 0x31, 0xAC74, 0x29]), StatusOnHold, 60)
     else if ri_ManualStatus ri = ContactWatch then
       Some (mk_reason ''manual_watch''
         (u8 [0xC0AC, 0xC7A5, 0xB2D8, 0xC774, 0x20, 0xAD00, 0xCC30, 0x20, 0xB300, 0xC0C1, 0xC73C, 0xB85C, 0x20, 0xC9C0, 0xC815, 0xD55C, 0x20, 0xC5F0, 0xB77D, 0xCC98, 0xC785, 0xB2C8, 0xB2E4, 0x20, 0x28, 0xC218, 0xB3D9, 0x20, 0xC9C0, 0xC815, 0x20, 0x31, 0xAC74, 0x29]), StatusNeedsReview, 20)
     else None)"

definition ruleRepeat :: rule where
  "ruleRepeat ri p =
    (if RepeatHoldCount p \<le> ri_PhoneClaims30d ri then
       Some (mk_reason ''repeat_hold''
         ((u8 [0xC774, 0x20, 0xBC88, 0xD638, 0xB85C, 0x20, 0x33, 0x30, 0xC77C, 0xAC04, 0x20]) @ Itoa (ri_PhoneClaims30d ri) @ (u8 [0xBC88, 0xC9F8, 0x20, 0xC2E0, 0xACE0, 0xC785, 0xB2C8, 0xB2E4, 0x20, 0x28, 0xBCF4, 0xB958, 0x20, 0xAE30, 0xC900, 0x20])
           @ Itoa (RepeatHoldCount p) @ (u8 [0xBC88, 0x29])), StatusOnHold, 50)
     else if RepeatWatchCount p \<le> ri_PhoneClaims30d ri then
       Some (mk_reason ''repeat_watch''
         ((u8 [0xC774, 0x20, 0xBC88, 0xD638, 0xB85C, 0x20, 0x33, 0x30, 0xC77C, 0xAC04, 0x20]) @ Itoa (ri_PhoneClaims30d ri) @ (u8 [0xBC88, 0xC9F8, 0x20, 0xC2E0, 0xACE0, 0xC785, 0xB2C8, 0xB2E4, 0x20, 0x28, 0xAC80, 0xD1A0, 0x20, 0xAE30, 0xC900, 0x20])
           @ Itoa (RepeatWatchCount p) @ (u8 [0xBC88, 0x29])), StatusNeedsReview, 25)
     else None)"

definition ruleAccountSharing :: rule where
  "ruleAccountSharing ri p =
    (if \<not> ri_HasAccount ri then None
     else if ri_AccountDistinctPhones ri < AccountSharingPhones p then None
     else Some (mk_reason ''account_sharing''
       ((u8 [0xC774, 0x20, 0xACC4, 0xC88C, 0xAC00, 0x20, 0xC11C, 0xB85C, 0x20, 0xB2E4, 0xB978, 0x20, 0xC804, 0xD654, 0xBC88, 0xD638, 0x20]) @ Itoa (ri_AccountDistinctPhones ri)
         @ (u8 [0xAC1C, 0xC640, 0x20, 0xC5F0, 0xACB0, 0xB418, 0xC5B4, 0x20, 0xC788, 0xC2B5, 0xB2C8, 0xB2E4])), StatusNeedsReview, 30))"

definition rulePayoutCeiling :: rule where
  "rulePayoutCeiling ri p =
    (if ri_PhonePaidTotal30d ri \<le> PayoutCeilingKRW p then None
     else Some (mk_reason ''payout_ceiling''
       ((u8 [0xC774, 0x20, 0xBC88, 0xD638, 0xC5D0, 0x20, 0x33, 0x30, 0xC77C, 0xAC04, 0x20]) @ comma (ri_PhonePaidTotal30d ri) @ (u8 [0xC6D0, 0xC774, 0x20, 0xC9C0, 0xAE09, 0xB410, 0xC2B5, 0xB2C8, 0xB2E4, 0x20, 0x28, 0xD55C, 0xB3C4, 0x20])
         @ comma (PayoutCeilingKRW p) @ (u8 [0xC6D0, 0x29])), StatusNeedsReview, 20))"

definition ruleHighAmount :: rule where
  "ruleHighAmount ri p =
    (if ri_AmountKRW ri < ReviewThresholdKRW p then None
     else Some (mk_reason ''high_amount''
       ((u8 [0xC694, 0xCCAD, 0x20, 0xAE08, 0xC561, 0xC774, 0x20]) @ comma (ri_AmountKRW ri) @ (u8 [0xC6D0, 0xC785, 0xB2C8, 0xB2E4, 0x20, 0x28, 0xAC80, 0xD1A0, 0x20, 0xAE30, 0xC900, 0x20])
         @ comma (ReviewThresholdKRW p) @ (u8 [0xC6D0, 0x29])), StatusNeedsReview, 15))"

definition rules :: "rule list" where
  "rules = [ruleManual, ruleRepeat, ruleAccountSharing, rulePayoutCeiling, ruleHighAmount]"

text \<open>One turn of the loop over the rules, and the whole evaluation.\<close>

definition apply_rule ::
  "RiskInput \<Rightarrow> Policy \<Rightarrow> rule \<Rightarrow> RiskReason list \<times> Status \<times> int \<Rightarrow> RiskReason list \<times> Status \<times> int" where
  "apply_rule ri p r acc =
    (case r ri p of None \<Rightarrow> acc
     | Some (reason, st, w) \<Rightarrow>
        (case acc of (rs, s, score) \<Rightarrow> (rs @ [reason], strongerStatus s st, score + w)))"

definition Evaluate :: "RiskInput \<Rightarrow> Policy \<Rightarrow> RiskResult" where
  "Evaluate ri p =
    (case fold (apply_rule ri p) rules ([], StatusPending, 0) of (rs, st, score) \<Rightarrow>
       \<lparr>rs_Score = (if 100 < score then 100 else score), rs_Reasons = rs, rs_Status = st,
        rs_RejectDuplicate = isRapidDuplicate ri p\<rparr>)"

section \<open>What the evaluation computes\<close>

text \<open>The rules that fire, in the order of the list.\<close>

definition fired :: "RiskInput \<Rightarrow> Policy \<Rightarrow> (RiskReason \<times> Status \<times> int) list" where
  "fired ri p = List.map_filter (\<lambda>r. r ri p) rules"

lemma statusRank_simps [simp]:
  "statusRank StatusPending = 0" "statusRank StatusNeedsReview = 1" "statusRank StatusOnHold = 2"
  by (simp_all add: statusRank_def)

lemma rank_stronger [simp]: "statusRank (strongerStatus a b) = max (statusRank a) (statusRank b)"
  by (simp add: strongerStatus_def)

lemma fold_rules:
  "fold (apply_rule ri p) rls (rs, st, sc) =
    (let fs = List.map_filter (\<lambda>r. r ri p) rls
     in (rs @ map fst fs, fold (\<lambda>f s. strongerStatus s (fst (snd f))) fs st,
         sc + sum_list (map (snd \<circ> snd) fs)))"
  by (induction rls arbitrary: rs st sc)
    (auto simp: apply_rule_def List.map_filter_simps Let_def split: option.splits)

lemma Evaluate_fields:
  "rs_Reasons (Evaluate ri p) = map fst (fired ri p)"
  "rs_Status (Evaluate ri p) = fold (\<lambda>f s. strongerStatus s (fst (snd f))) (fired ri p) StatusPending"
  "rs_Score (Evaluate ri p) = min 100 (sum_list (map (snd \<circ> snd) (fired ri p)))"
  "rs_RejectDuplicate (Evaluate ri p) = isRapidDuplicate ri p"
  by (auto simp: Evaluate_def fold_rules fired_def Let_def)

lemma rank_fold_stronger:
  "statusRank (fold (\<lambda>f s. strongerStatus s (fst (snd f))) fs s0)
     = fold (\<lambda>f m. max m (statusRank (fst (snd f)))) fs (statusRank s0)"
  by (induction fs arbitrary: s0) simp_all

lemma fold_stronger_in:
  "fold (\<lambda>f s. strongerStatus s (fst (snd f))) fs s0 \<in> insert s0 ((fst \<circ> snd) ` set fs)"
proof (induction fs arbitrary: s0)
  case Nil
  then show ?case by simp
next
  case (Cons f fs)
  have "strongerStatus s0 (fst (snd f)) \<in> {s0, fst (snd f)}" by (simp add: strongerStatus_def)
  with Cons [of "strongerStatus s0 (fst (snd f))"] show ?case by auto
qed

text \<open>
  What a rule asks for, without its sentence: the state and the weight. The sentences stay
  folded in every proof below.
\<close>

definition rule_ask :: "rule \<Rightarrow> RiskInput \<Rightarrow> Policy \<Rightarrow> (Status \<times> int) option" where
  "rule_ask r ri p = map_option snd (r ri p)"

lemma ask_manual: "rule_ask ruleManual ri p =
    (if ri_ManualStatus ri = ContactBlocked then Some (StatusOnHold, 60)
     else if ri_ManualStatus ri = ContactWatch then Some (StatusNeedsReview, 20) else None)"
  by (simp add: rule_ask_def ruleManual_def)

lemma ask_repeat: "rule_ask ruleRepeat ri p =
    (if RepeatHoldCount p \<le> ri_PhoneClaims30d ri then Some (StatusOnHold, 50)
     else if RepeatWatchCount p \<le> ri_PhoneClaims30d ri then Some (StatusNeedsReview, 25) else None)"
  by (simp add: rule_ask_def ruleRepeat_def)

lemma ask_account: "rule_ask ruleAccountSharing ri p =
    (if ri_HasAccount ri \<and> AccountSharingPhones p \<le> ri_AccountDistinctPhones ri
     then Some (StatusNeedsReview, 30) else None)"
  by (simp add: rule_ask_def ruleAccountSharing_def)

lemma ask_payout: "rule_ask rulePayoutCeiling ri p =
    (if PayoutCeilingKRW p < ri_PhonePaidTotal30d ri then Some (StatusNeedsReview, 20) else None)"
  by (simp add: rule_ask_def rulePayoutCeiling_def)

lemma ask_amount: "rule_ask ruleHighAmount ri p =
    (if ReviewThresholdKRW p \<le> ri_AmountKRW ri then Some (StatusNeedsReview, 15) else None)"
  by (simp add: rule_ask_def ruleHighAmount_def)

lemmas rule_asks = ask_manual ask_repeat ask_account ask_payout ask_amount

lemma fired_ask:
  assumes "f \<in> set (fired ri p)"
  shows "\<exists>r \<in> set rules. rule_ask r ri p = Some (snd f)"
  using assms by (force simp: fired_def rule_ask_def List.map_filter_def)

definition ask_sane :: "(Status \<times> int) option \<Rightarrow> bool" where
  "ask_sane x = (case x of None \<Rightarrow> True
     | Some (s, w) \<Rightarrow> (s = StatusNeedsReview \<or> s = StatusOnHold) \<and> 0 < w)"

lemma asks_are_sane: "r \<in> set rules \<Longrightarrow> ask_sane (rule_ask r a p)"
proof -
  assume "r \<in> set rules"
  then consider "r = ruleManual" | "r = ruleRepeat" | "r = ruleAccountSharing"
    | "r = rulePayoutCeiling" | "r = ruleHighAmount" by (auto simp: rules_def)
  then show ?thesis by cases (simp_all add: rule_asks ask_sane_def)
qed

lemma fired_sane:
  assumes "f \<in> set (fired ri p)"
  shows "ask_sane (Some (snd f))"
  using fired_ask [OF assms] asks_are_sane by metis

lemma fired_status: "f \<in> set (fired ri p) \<Longrightarrow> fst (snd f) \<in> {StatusNeedsReview, StatusOnHold}"
  by (drule fired_sane) (auto simp: ask_sane_def split: prod.splits)

lemma fired_weight: "f \<in> set (fired ri p) \<Longrightarrow> 0 < snd (snd f)"
  by (drule fired_sane) (auto simp: ask_sane_def split: prod.splits)

text \<open>The rank of the result as the maximum of the ranks the five rules ask for.\<close>

definition rule_rank :: "rule \<Rightarrow> RiskInput \<Rightarrow> Policy \<Rightarrow> nat" where
  "rule_rank r ri p = (case rule_ask r ri p of None \<Rightarrow> 0 | Some (st, _) \<Rightarrow> statusRank st)"

definition rule_weight :: "rule \<Rightarrow> RiskInput \<Rightarrow> Policy \<Rightarrow> int" where
  "rule_weight r ri p = (case rule_ask r ri p of None \<Rightarrow> 0 | Some (_, w) \<Rightarrow> w)"

lemma fold_fired_rank:
  "fold (\<lambda>f m. max m (statusRank (fst (snd f)))) (List.map_filter (\<lambda>r. r ri p) rls) m
     = fold (\<lambda>r m. max m (rule_rank r ri p)) rls m"
  by (induction rls arbitrary: m)
    (auto simp: List.map_filter_simps rule_rank_def rule_ask_def split: option.splits)

lemma sum_fired_weight:
  "sum_list (map (snd \<circ> snd) (List.map_filter (\<lambda>r. r ri p) rls))
     = sum_list (map (\<lambda>r. rule_weight r ri p) rls)"
  by (induction rls)
    (auto simp: List.map_filter_simps rule_weight_def rule_ask_def split: option.splits)

lemma Evaluate_rank:
  "statusRank (rs_Status (Evaluate ri p)) =
     max (rule_rank ruleManual ri p) (max (rule_rank ruleRepeat ri p)
      (max (rule_rank ruleAccountSharing ri p)
        (max (rule_rank rulePayoutCeiling ri p) (rule_rank ruleHighAmount ri p))))"
  by (simp add: Evaluate_fields rank_fold_stronger fired_def fold_fired_rank)
    (simp add: rules_def max.assoc)

lemma Evaluate_score:
  "rs_Score (Evaluate ri p) = min 100 (sum_list (map (\<lambda>r. rule_weight r ri p) rules))"
  by (simp add: Evaluate_fields fired_def sum_fired_weight)

lemma Evaluate_status_cases:
  "rs_Status (Evaluate ri p) \<in> {StatusPending, StatusNeedsReview, StatusOnHold}"
  using fold_stronger_in [of "fired ri p" StatusPending] fired_status
  by (fastforce simp: Evaluate_fields)

text \<open>
  Fact \<open>a\<close> is no riskier than fact \<open>b\<close>: no count or amount is larger, no manual mark is
  stronger, and an account is only missing in \<open>a\<close>.
\<close>

definition contactRank :: "string \<Rightarrow> nat" where
  "contactRank s = (if s = ContactWatch then 1 else if s = ContactBlocked then 2 else 0)"

definition less_risky :: "RiskInput \<Rightarrow> RiskInput \<Rightarrow> bool" where
  "less_risky a b \<longleftrightarrow>
     ri_AmountKRW a \<le> ri_AmountKRW b \<and> ri_PhoneClaims30d a \<le> ri_PhoneClaims30d b
     \<and> ri_PhonePaidTotal30d a \<le> ri_PhonePaidTotal30d b
     \<and> (ri_HasAccount a \<longrightarrow> ri_HasAccount b)
     \<and> ri_AccountDistinctPhones a \<le> ri_AccountDistinctPhones b
     \<and> contactRank (ri_ManualStatus a) \<le> contactRank (ri_ManualStatus b)"

text \<open>A riskier input never makes a rule ask for less: neither a weaker state nor a lower weight.\<close>

definition ask_le :: "(Status \<times> int) option \<Rightarrow> (Status \<times> int) option \<Rightarrow> bool" where
  "ask_le x y = (case x of None \<Rightarrow> True
     | Some (s, w) \<Rightarrow> (case y of None \<Rightarrow> False | Some (s', w') \<Rightarrow> statusRank s \<le> statusRank s' \<and> w \<le> w'))"

lemma ask_mono:
  assumes "less_risky a b" and "r \<in> set rules"
  shows "ask_le (rule_ask r a p) (rule_ask r b p)"
proof -
  from assms(2) consider "r = ruleManual" | "r = ruleRepeat" | "r = ruleAccountSharing"
    | "r = rulePayoutCeiling" | "r = ruleHighAmount" by (auto simp: rules_def)
  then show ?thesis
    by cases (use assms(1) in \<open>simp_all add: less_risky_def rule_asks ask_le_def contactRank_def
      split: if_split_asm\<close>)
qed

lemma rule_rank_mono:
  "less_risky a b \<Longrightarrow> r \<in> set rules \<Longrightarrow> rule_rank r a p \<le> rule_rank r b p"
  using ask_mono [of a b r p] by (auto simp: ask_le_def rule_rank_def split: option.splits)

lemma rule_weight_mono:
  "less_risky a b \<Longrightarrow> r \<in> set rules \<Longrightarrow> rule_weight r a p \<le> rule_weight r b p"
  using ask_mono [of a b r p] asks_are_sane [of r b p]
  by (auto simp: ask_le_def ask_sane_def rule_weight_def split: option.splits)

lemma Evaluate_rank_mono:
  assumes "less_risky a b"
  shows "statusRank (rs_Status (Evaluate a p)) \<le> statusRank (rs_Status (Evaluate b p))"
  unfolding Evaluate_rank
  by (intro max.mono rule_rank_mono [OF assms]) (simp_all add: rules_def)

lemma Evaluate_score_mono:
  assumes "less_risky a b"
  shows "rs_Score (Evaluate a p) \<le> rs_Score (Evaluate b p)"
  unfolding Evaluate_score
  by (intro min.mono order_refl sum_list_mono rule_weight_mono [OF assms])

section \<open>What the separator prints\<close>

fun triples :: "string \<Rightarrow> string list" where
  "triples (a # b # c # s) = [a, b, c] # triples s"
| "triples s = []"

lemma triples_length3: "g \<in> set (triples s) \<Longrightarrow> length g = 3"
  by (induction s rule: triples.induct) auto

lemma concat_triples: "length s mod 3 = 0 \<Longrightarrow> concat (triples s) = s"
  by (induction s rule: triples.induct) (auto simp: mod_Suc split: if_splits)

lemma comma_loop_triples:
  "length s mod 3 = 0 \<Longrightarrow>
    comma_loop True s = concat (map (\<lambda>g. CHR '','' # g) (triples s))"
proof (induction s rule: triples.induct)
  case (1 a b c s)
  then have "length s mod 3 = 0" by (simp add: mod_Suc split: if_splits)
  with 1 show ?case by (simp add: mod_Suc)
qed (simp_all add: mod_Suc)

lemma mod3_step:
  fixes n :: nat
  assumes "n mod 3 = 0"
  shows "Suc n mod 3 = 1" "Suc (Suc n) mod 3 = 2" "Suc (Suc (Suc n)) mod 3 = 0"
  using assms by presburger+

lemma mod3_cases:
  fixes u :: "'a list"
  obtains "length u mod 3 = 0" | b v where "u = b # v" "length v mod 3 = 0"
    | b c v where "u = b # c # v" "length v mod 3 = 0"
proof (induction u arbitrary: thesis)
  case Nil
  show ?case by (rule Nil(1)) simp
next
  case (Cons a u)
  show ?case
  proof (rule Cons.IH)
    assume "length u mod 3 = 0"
    then show ?case by (rule Cons.prems(2) [OF refl])
  next
    fix b v assume "u = b # v" "length v mod 3 = 0"
    then show ?case by (intro Cons.prems(3)) simp_all
  next
    fix b c v assume "u = b # c # v" "length v mod 3 = 0"
    then have "length (a # u) mod 3 = 0" by (simp add: mod3_step)
    then show ?case by (rule Cons.prems(1))
  qed
qed

lemma comma_loop_split:
  assumes "s \<noteq> []"
  shows "\<exists>g t. s = g @ t \<and> 1 \<le> length g \<and> length g \<le> 3 \<and> length t mod 3 = 0
    \<and> comma_loop False s = g @ comma_loop True t"
proof (cases s)
  case Nil
  with assms show ?thesis by simp
next
  case (Cons a u)
  show ?thesis
  proof (rule mod3_cases [of u])
    assume u: "length u mod 3 = 0"
    then have "comma_loop False s = [a] @ comma_loop True u" by (simp add: Cons)
    with u Cons show ?thesis by (intro exI [of _ "[a]"] exI [of _ u]) simp
  next
    fix b v assume u: "u = b # v" and v: "length v mod 3 = 0"
    then have "comma_loop False s = [a, b] @ comma_loop True v" by (simp add: Cons mod3_step)
    with u v Cons show ?thesis by (intro exI [of _ "[a, b]"] exI [of _ v]) simp
  next
    fix b c v assume u: "u = b # c # v" and v: "length v mod 3 = 0"
    then have "comma_loop False s = [a, b, c] @ comma_loop True v" by (simp add: Cons mod3_step)
    with u v Cons show ?thesis by (intro exI [of _ "[a, b, c]"] exI [of _ v]) simp
  qed
qed

lemma comma_loop_groups:
  assumes "s \<noteq> []"
  shows "\<exists>g gs. comma_loop False s = g @ concat (map (\<lambda>h. CHR '','' # h) gs)
    \<and> concat (g # gs) = s \<and> 1 \<le> length g \<and> length g \<le> 3 \<and> (\<forall>h \<in> set gs. length h = 3)"
proof -
  from comma_loop_split [OF assms] obtain g t where s: "s = g @ t" "1 \<le> length g" "length g \<le> 3"
    "length t mod 3 = 0" "comma_loop False s = g @ comma_loop True t" by (elim exE conjE) (rule that)
  show ?thesis
  proof (intro exI conjI ballI)
    show "comma_loop False s = g @ concat (map (\<lambda>h. CHR '','' # h) (triples t))"
      unfolding s(5) comma_loop_triples [OF s(4)] by (rule refl)
    show "concat (g # triples t) = s" by (simp add: concat_triples [OF s(4)] s(1) [symmetric])
    show "1 \<le> length g" "length g \<le> 3" by (fact s(2), fact s(3))
    show "length h = 3" if "h \<in> set (triples t)" for h by (rule triples_length3 [OF that])
  qed
qed

lemma filter_groups: "filter (\<lambda>c. c \<noteq> CHR '','') (concat (map (\<lambda>h. CHR '','' # h) gs))
    = filter (\<lambda>c. c \<noteq> CHR '','') (concat gs)"
  by (induction gs) simp_all

lemma comma_split:
  "\<exists>d. Itoa n = (if n < 0 then [CHR ''-''] else []) @ d \<and> d \<noteq> []
     \<and> comma n = (if n < 0 then [CHR ''-''] else []) @ comma_loop False d"
proof -
  have "nat_dec m \<noteq> []" for m using nat_dec_hd [of m] by auto
  then show ?thesis by (cases "n < 0") (simp_all add: comma_def Itoa_def Let_def)
qed

lemma rule_rank_exact:
  "rule_rank ruleManual ri p = (if ri_ManualStatus ri = ContactBlocked then 2
     else if ri_ManualStatus ri = ContactWatch then 1 else 0)"
  "rule_rank ruleRepeat ri p = (if RepeatHoldCount p \<le> ri_PhoneClaims30d ri then 2
     else if RepeatWatchCount p \<le> ri_PhoneClaims30d ri then 1 else 0)"
  "rule_rank ruleAccountSharing ri p =
     (if ri_HasAccount ri \<and> AccountSharingPhones p \<le> ri_AccountDistinctPhones ri then 1 else 0)"
  "rule_rank rulePayoutCeiling ri p =
     (if PayoutCeilingKRW p < ri_PhonePaidTotal30d ri then 1 else 0)"
  "rule_rank ruleHighAmount ri p = (if ReviewThresholdKRW p \<le> ri_AmountKRW ri then 1 else 0)"
  by (simp_all add: rule_rank_def rule_asks)

lemma max_flags:
  "max (if a then 1 else 0) (if b then 1 else 0 :: nat) = (if a \<or> b then 1 else 0)"
  "max (if a then 2 else if c then 1 else 0) (if b then 1 else 0 :: nat)
     = (if a then 2 else if c \<or> b then 1 else 0)"
  "max (if a then 2 else if c then 1 else 0) (if b then 2 else if d then 1 else 0 :: nat)
     = (if a \<or> b then 2 else if c \<or> d then 1 else 0)"
  by simp_all

text \<open>
  The state an evaluation ends in, as a function of the facts alone: a claim is held back
  exactly for a blocked contact or too many claims of one number, is sent to review exactly
  when one of the softer conditions holds and none of those does, and is otherwise received.
\<close>

theorem Evaluate_status_exact:
  "rs_Status (Evaluate ri p) =
     (if ri_ManualStatus ri = ContactBlocked \<or> RepeatHoldCount p \<le> ri_PhoneClaims30d ri
      then StatusOnHold
      else if ri_ManualStatus ri = ContactWatch \<or> RepeatWatchCount p \<le> ri_PhoneClaims30d ri
        \<or> (ri_HasAccount ri \<and> AccountSharingPhones p \<le> ri_AccountDistinctPhones ri)
        \<or> PayoutCeilingKRW p < ri_PhonePaidTotal30d ri \<or> ReviewThresholdKRW p \<le> ri_AmountKRW ri
      then StatusNeedsReview else StatusPending)"
proof -
  have rank: "statusRank s = statusRank t \<Longrightarrow> s = t"
    if "s \<in> {StatusPending, StatusNeedsReview, StatusOnHold}"
      "t \<in> {StatusPending, StatusNeedsReview, StatusOnHold}" for s t
    using that by auto
  show ?thesis
  proof (rule rank [OF Evaluate_status_cases])
    show "statusRank (rs_Status (Evaluate ri p)) = statusRank (if ri_ManualStatus ri = ContactBlocked
        \<or> RepeatHoldCount p \<le> ri_PhoneClaims30d ri
      then StatusOnHold
      else if ri_ManualStatus ri = ContactWatch \<or> RepeatWatchCount p \<le> ri_PhoneClaims30d ri
        \<or> (ri_HasAccount ri \<and> AccountSharingPhones p \<le> ri_AccountDistinctPhones ri)
        \<or> PayoutCeilingKRW p < ri_PhonePaidTotal30d ri \<or> ReviewThresholdKRW p \<le> ri_AmountKRW ri
      then StatusNeedsReview else StatusPending)"
      unfolding Evaluate_rank rule_rank_exact max_flags by simp
  qed simp
qed

text \<open>
  What the owner sees of an evaluation: one reason per rule that fired, in the order of
  the rules, and a score between 0 and 100 that is the sum of their weights, cut off at 100;
  a claim is received as pending exactly when no rule fired.
\<close>

theorem Evaluate_reasons_and_score:
  "let fs = List.map_filter (\<lambda>r. r ri p) [ruleManual, ruleRepeat, ruleAccountSharing,
       rulePayoutCeiling, ruleHighAmount]; res = Evaluate ri p
   in rs_Reasons res = map fst fs
      \<and> rs_Score res = min 100 (sum_list (map (snd \<circ> snd) fs))
      \<and> 0 \<le> rs_Score res \<and> rs_Score res \<le> 100
      \<and> (rs_Status res = StatusPending) = (fs = [])
      \<and> rs_Status res \<in> insert StatusPending ((fst \<circ> snd) ` set fs)
      \<and> rs_RejectDuplicate res = isRapidDuplicate ri p"
proof -
  have fs: "List.map_filter (\<lambda>r. r ri p) [ruleManual, ruleRepeat, ruleAccountSharing,
      rulePayoutCeiling, ruleHighAmount] = fired ri p" by (simp add: fired_def rules_def)
  have nn: "0 \<le> rs_Score (Evaluate ri p)"
    unfolding Evaluate_fields
    by (intro min.boundedI sum_list_nonneg) (auto dest!: fired_weight)
  have pend: "rs_Status (Evaluate ri p) = StatusPending \<longleftrightarrow> fired ri p = []"
  proof (cases "fired ri p")
    case Nil
    then show ?thesis by (simp add: Evaluate_fields)
  next
    case (Cons f fs)
    have le: "m \<le> fold (\<lambda>f m. max m (statusRank (fst (snd f)))) gs m"
      for gs :: "(RiskReason \<times> Status \<times> int) list" and m :: nat
    proof (induction gs arbitrary: m)
      case (Cons g gs)
      show ?case using Cons.IH [of "max m (statusRank (fst (snd g)))"] by simp
    qed simp
    have "f \<in> set (fired ri p)" by (simp add: Cons)
    from fired_status [OF this] have f1: "1 \<le> statusRank (fst (snd f))" by auto
    have "statusRank (rs_Status (Evaluate ri p))
        = fold (\<lambda>f m. max m (statusRank (fst (snd f)))) fs (max 0 (statusRank (fst (snd f))))"
      by (simp add: Evaluate_fields rank_fold_stronger Cons)
    with f1 le [of "max 0 (statusRank (fst (snd f)))" fs]
    have "statusRank (rs_Status (Evaluate ri p)) \<noteq> statusRank StatusPending" by simp
    then show ?thesis using Cons by auto
  qed
  show ?thesis unfolding Let_def fs
    using nn pend fold_stronger_in [of "fired ri p" StatusPending]
    by (simp add: Evaluate_fields)
qed

text \<open>
  C20. More risk never helps: when no fact about a claim gets better (amounts and counts do not
  fall, the manual mark does not weaken, an account is not dropped), neither the state nor
  the score of the evaluation improves.
\<close>

theorem Evaluate_monotone:
  assumes "less_risky a b"
  shows "statusRank (rs_Status (Evaluate a p)) \<le> statusRank (rs_Status (Evaluate b p))
    \<and> rs_Score (Evaluate a p) \<le> rs_Score (Evaluate b p)"
  using Evaluate_rank_mono [OF assms] Evaluate_score_mono [OF assms] by blast

definition sample_input :: RiskInput where
  "sample_input = \<lparr>ri_AmountKRW = 3000, ri_PhoneClaims30d = 1, ri_PhonePaidTotal30d = 0,
     ri_AccountDistinctPhones = 1, ri_HasAccount = True, ri_ManualStatus = ContactNormal,
     ri_LastSameMachineAt = zero_time, ri_Now = 0\<rparr>"

lemma Evaluate_monotone_witness:
  "statusRank (rs_Status (Evaluate sample_input DefaultPolicy))
      \<le> statusRank (rs_Status (Evaluate (sample_input\<lparr>ri_AmountKRW := 20000\<rparr>) DefaultPolicy))
    \<and> rs_Score (Evaluate sample_input DefaultPolicy)
      \<le> rs_Score (Evaluate (sample_input\<lparr>ri_AmountKRW := 20000\<rparr>) DefaultPolicy)"
  by (rule Evaluate_monotone) (simp add: less_risky_def sample_input_def)

text \<open>
  The thousands separator: the digits fall into groups of three from the right, the first
  group has one to three digits, the groups are joined by commas after the sign, and dropping
  the commas gives the number's own decimal text back.
\<close>

theorem comma_groups:
  "(\<exists>g gs. comma n = (if n < 0 then [CHR ''-''] else []) @ g @ concat (map (\<lambda>h. CHR '','' # h) gs)
      \<and> (if n < 0 then [CHR ''-''] else []) @ concat (g # gs) = Itoa n
      \<and> length g \<in> {1, 2, 3} \<and> list_all (\<lambda>h. length h = 3) gs)
   \<and> filter (\<lambda>c. c \<noteq> CHR '','') (comma n) = Itoa n"
proof -
  obtain d where d: "Itoa n = (if n < 0 then [CHR ''-''] else []) @ d" "d \<noteq> []"
    "comma n = (if n < 0 then [CHR ''-''] else []) @ comma_loop False d"
    using comma_split by blast
  from comma_loop_groups [OF d(2)] obtain g gs where
    g: "comma_loop False d = g @ concat (map (\<lambda>h. CHR '','' # h) gs)" "concat (g # gs) = d"
      "1 \<le> length g" "length g \<le> 3" "\<forall>h \<in> set gs. length h = 3" by (elim exE conjE) (rule that)
  have "filter (\<lambda>c. c \<noteq> CHR '','') (comma n) = filter (\<lambda>c. c \<noteq> CHR '','') (Itoa n)"
    unfolding d(1) d(3) g(1) unfolding g(2) [symmetric] by (simp add: filter_groups)
  also have "\<dots> = Itoa n"
    using Itoa_chars digit_not_sign by (fastforce simp: filter_id_conv)
  finally have f: "filter (\<lambda>c. c \<noteq> CHR '','') (comma n) = Itoa n" .
  have "length g \<in> {1, 2, 3}" using g(3,4) by auto
  then show ?thesis using f g(2,5) d(1)
    by (intro conjI exI [of _ g] exI [of _ gs]) (simp_all add: d(3) g(1) list_all_iff)
qed

end
