(* ===== verification/Domain_Machine.thy ===== *)
theory Domain_Machine
  imports Go_Text
begin

text \<open>
  \<^verbatim>\<open>internal/domain/machine.go\<close>: the public codes printed on the stickers. A code is
  six characters of an alphabet without look-alikes; what a customer types is corrected
  towards such a code before it is looked up.
\<close>

section \<open>Machines and their codes\<close>

record Machine =
  mc_ID :: string
  mc_StoreID :: string
  mc_Code :: string
  mc_Label :: string
  mc_Location :: string
  mc_Active :: bool

definition codeAlphabet :: string where
  "codeAlphabet = ''ABCDEFGHJKMNPQRSTUVWXYZ23456789''"

definition CodeLength :: nat where "CodeLength = 6"

text \<open>
  The random source yields numbers below the length of the alphabet, or fails: the draws of
  one call are a list, \<open>None\<close> a failed draw.
\<close>

fun draw_code :: "nat \<Rightarrow> nat option list \<Rightarrow> string option" where
  "draw_code 0 ds = Some []"
| "draw_code (Suc k) [] = None"
| "draw_code (Suc k) (None # ds) = None"
| "draw_code (Suc k) (Some n # ds) = map_option (\<lambda>cs. codeAlphabet ! n # cs) (draw_code k ds)"

definition GenerateMachineCode :: "nat option list \<Rightarrow> string option" where
  "GenerateMachineCode ds = draw_code CodeLength ds"

text \<open>The two replacers; \<open>uc\<close> is the upper-case table outside ASCII.\<close>

definition confusables :: "char \<Rightarrow> string" where
  "confusables c =
    (if c = CHR '' '' \<or> c = CHR ''-'' then []
     else if c = CHR ''O'' \<or> c = CHR ''o'' then ''0''
     else if c = CHR ''I'' \<or> c = CHR ''i'' \<or> c = CHR ''l'' then ''1''
     else [c])"

definition back_to_letters :: "char \<Rightarrow> string" where
  "back_to_letters c = (if c = CHR ''0'' then ''Q'' else if c = CHR ''1'' then ''J'' else [c])"

definition NormalizeMachineCode :: "(nat \<Rightarrow> nat) \<Rightarrow> string \<Rightarrow> string" where
  "NormalizeMachineCode uc s =
    byte_replace back_to_letters (ToUpper uc (byte_replace confusables s))"

datatype code_error = CodeWrongLength | CodeBadRune nat

definition ValidateMachineCode :: "string \<Rightarrow> code_error option" where
  "ValidateMachineCode s =
    (if length s \<noteq> CodeLength then Some CodeWrongLength
     else map_option CodeBadRune (find (\<lambda>r. r \<notin> set (map byte codeAlphabet)) (runes s)))"

section \<open>Valid codes\<close>

lemma alphabet_ascii: "c \<in> set codeAlphabet \<Longrightarrow> byte c < 128"
proof -
  have "list_all (\<lambda>c. byte c < 128) codeAlphabet" by code_simp
  then show "c \<in> set codeAlphabet \<Longrightarrow> byte c < 128" by (simp add: list_all_iff)
qed

lemma runes_in_alphabet:
  assumes "\<forall>r \<in> set (runes s). r \<in> byte ` set codeAlphabet"
  shows "set s \<subseteq> set codeAlphabet"
proof
  fix c assume "c \<in> set s"
  then have "c \<in> set (bytes_of (segs s))" by simp
  then obtain x where x: "x \<in> set (segs s)" "c \<in> set (snd x)" by (auto simp: bytes_of_def)
  then have "fst x \<in> byte ` set codeAlphabet" using assms by (force simp: runes_def)
  then obtain d where d: "d \<in> set codeAlphabet" "fst x = byte d" by blast
  from segs_bytes [OF x(1)] alphabet_ascii [OF d(1)] d(2) x(2) have "c = d" by auto
  with d show "c \<in> set codeAlphabet" by simp
qed

lemma Validate_None_iff:
  "ValidateMachineCode s = None \<longleftrightarrow> length s = 6 \<and> set s \<subseteq> set codeAlphabet"
proof
  assume "ValidateMachineCode s = None"
  then have "length s = 6" "\<forall>r \<in> set (runes s). r \<in> byte ` set codeAlphabet"
    by (auto simp: ValidateMachineCode_def CodeLength_def find_None_iff split: if_splits)
  then show "length s = 6 \<and> set s \<subseteq> set codeAlphabet" using runes_in_alphabet by blast
next
  assume s: "length s = 6 \<and> set s \<subseteq> set codeAlphabet"
  then have "is_ascii s" using alphabet_ascii by (auto simp: is_ascii_def)
  with s show "ValidateMachineCode s = None"
    by (auto simp: ValidateMachineCode_def CodeLength_def find_None_iff runes_ascii)
qed

lemma draw_code_ok:
  "length ds \<ge> k \<Longrightarrow> list_all (\<lambda>d. \<exists>n < 31. d = Some n) (take k ds) \<Longrightarrow>
    \<exists>s. draw_code k ds = Some s \<and> length s = k \<and> set s \<subseteq> set codeAlphabet"
proof (induction k arbitrary: ds)
  case 0
  then show ?case by simp
next
  case (Suc k)
  then obtain n ds' where ds: "ds = Some n # ds'" "n < 31" by (cases ds) auto
  have "length codeAlphabet = 31" by (simp add: codeAlphabet_def)
  with ds have n: "codeAlphabet ! n \<in> set codeAlphabet" by (intro nth_mem) simp
  from Suc.IH [of ds'] Suc.prems ds obtain z where
    "draw_code k ds' = Some z" "length z = k" "set z \<subseteq> set codeAlphabet" by auto
  with ds n show ?case by simp
qed

lemma generated_valid:
  assumes "6 \<le> length ds" and "list_all (\<lambda>d. \<exists>n < 31. d = Some n) (take 6 ds)"
  shows "\<exists>code. GenerateMachineCode ds = Some code \<and> ValidateMachineCode code = None"
  using draw_code_ok [OF assms] by (auto simp: GenerateMachineCode_def Validate_None_iff CodeLength_def)

text \<open>
  What normalisation does to one ASCII character.
\<close>

definition norm1 :: "char \<Rightarrow> string" where
  "norm1 c = concat (map back_to_letters (map ascii_upper (confusables c)))"

lemma Normalize_ascii:
  assumes "is_ascii s"
  shows "NormalizeMachineCode uc s = concat (map norm1 s)"
proof -
  have "is_ascii (byte_replace confusables s)"
    using assms by (auto simp: is_ascii_def byte_replace_def confusables_def byte_def split: if_splits)
  then have "NormalizeMachineCode uc s
      = concat (map back_to_letters (map ascii_upper (concat (map confusables s))))"
    by (simp add: NormalizeMachineCode_def ToUpper_ascii byte_replace_def)
  also have "\<dots> = concat (map norm1 s)"
    by (induction s) (simp_all add: norm1_def)
  finally show ?thesis .
qed

lemma not_in_alphabet:
  "ascii_upper (CHR '' '') \<notin> set codeAlphabet"
  "ascii_upper (CHR ''-'') \<notin> set codeAlphabet"
  "ascii_upper (CHR ''O'') \<notin> set codeAlphabet"
  "ascii_upper (CHR ''o'') \<notin> set codeAlphabet"
  "ascii_upper (CHR ''I'') \<notin> set codeAlphabet"
  "ascii_upper (CHR ''i'') \<notin> set codeAlphabet"
  "ascii_upper (CHR ''l'') \<notin> set codeAlphabet"
  "ascii_upper (CHR ''0'') \<notin> set codeAlphabet"
  "ascii_upper (CHR ''1'') \<notin> set codeAlphabet"
  by code_simp+

lemma norm1_alphabet:
  assumes "ascii_upper d \<in> set codeAlphabet"
  shows "norm1 d = [ascii_upper d]"
proof -
  have "d \<noteq> CHR '' '' \<and> d \<noteq> CHR ''-'' \<and> d \<noteq> CHR ''O'' \<and> d \<noteq> CHR ''o'' \<and> d \<noteq> CHR ''I'' \<and> d \<noteq> CHR ''i'' \<and> d \<noteq> CHR ''l''"
    using assms not_in_alphabet by (intro conjI notI) blast+
  then have "confusables d = [d]" by (simp add: confusables_def)
  moreover have "ascii_upper d \<noteq> CHR ''0''" "ascii_upper d \<noteq> CHR ''1''"
    using assms by (auto simp: codeAlphabet_def)
  ultimately show ?thesis by (simp add: norm1_def back_to_letters_def)
qed

lemma upper_table: "list_all (\<lambda>c. ascii_upper c = c) codeAlphabet"
  by code_simp

lemma upper_alphabet: "c \<in> set codeAlphabet \<Longrightarrow> ascii_upper c = c"
  using upper_table by (simp add: list_all_iff)

lemma norm1_others:
  "list_all (\<lambda>c. norm1 c = []) '' -''" "list_all (\<lambda>c. norm1 c = ''Q'') ''0Oo''"
  "list_all (\<lambda>c. norm1 c = ''J'') ''1Iil''"
  by code_simp+

text \<open>
  The ways a customer may copy a printed code: in either case, with spaces and hyphens put
  in, reading a Q as a zero or an O and a J as a one or an I.
\<close>

inductive typed_as :: "string \<Rightarrow> string \<Rightarrow> bool" where
  typed_done: "typed_as [] []"
| typed_gap: "typed_as t s \<Longrightarrow> g = CHR '' '' \<or> g = CHR ''-'' \<Longrightarrow> typed_as (g # t) s"
| typed_same: "typed_as t s \<Longrightarrow> byte d < 128 \<Longrightarrow> ascii_upper d = c \<Longrightarrow> c \<in> set codeAlphabet
    \<Longrightarrow> typed_as (d # t) (c # s)"
| typed_zero: "typed_as t s \<Longrightarrow> d \<in> set ''0Oo'' \<Longrightarrow> typed_as (d # t) (CHR ''Q'' # s)"
| typed_one: "typed_as t s \<Longrightarrow> d \<in> set ''1Iil'' \<Longrightarrow> typed_as (d # t) (CHR ''J'' # s)"

lemma typed_ascii: "typed_as t s \<Longrightarrow> is_ascii t"
  by (induction rule: typed_as.induct) (auto simp: is_ascii_def byte_def)

lemma typed_normalizes: "typed_as t s \<Longrightarrow> concat (map norm1 t) = s"
proof (induction rule: typed_as.induct)
  case (typed_same t s d c)
  then show ?case using norm1_alphabet by auto
next
  case (typed_gap t s g)
  then show ?case using norm1_others(1) by auto
next
  case (typed_zero t s d)
  then have "norm1 d = ''Q''" using norm1_others(2) by (auto simp: list_all_iff)
  with typed_zero show ?case by simp
next
  case (typed_one t s d)
  then have "norm1 d = ''J''" using norm1_others(3) by (auto simp: list_all_iff)
  with typed_one show ?case by simp
qed simp

text \<open>
  A printed code is found again however it is copied from the sticker: any spelling of a
  valid code a customer may type (either case, gaps, Q read as zero or O, J read as one or I)
  normalises to the code itself.
\<close>

theorem typed_code_is_found:
  assumes "ValidateMachineCode code = None" and "typed_as t code"
  shows "NormalizeMachineCode uc t = code
    \<and> NormalizeMachineCode uc code = code"
proof -
  from assms(1) have c: "set code \<subseteq> set codeAlphabet" by (simp add: Validate_None_iff)
  then have "is_ascii code" using alphabet_ascii by (auto simp: is_ascii_def)
  moreover have "concat (map norm1 code) = code" using c
    by (induction code) (auto simp: norm1_alphabet upper_alphabet)
  ultimately show ?thesis
    using Normalize_ascii [OF typed_ascii [OF assms(2)]] typed_normalizes [OF assms(2)]
    by (simp add: Normalize_ascii)
qed

lemma typed_code_is_found_witness:
  "NormalizeMachineCode id ''ab-0 1xy'' = ''ABQJXY''
    \<and> NormalizeMachineCode id ''ABQJXY'' = ''ABQJXY''"
proof (rule typed_code_is_found)
  show "ValidateMachineCode ''ABQJXY'' = None"
    by (simp add: Validate_None_iff codeAlphabet_def)
  show "typed_as ''ab-0 1xy'' ''ABQJXY''"
    by (rule typed_same, rule typed_same, rule typed_gap, rule typed_zero, rule typed_gap,
        rule typed_one, rule typed_same, rule typed_same, rule typed_done, code_simp+)
qed

end
