(* ===== verification/Domain_Trade.thy ===== *)
theory Domain_Trade
  imports Prelude Go_Text Go_Time
begin

text \<open>
  \<^verbatim>\<open>internal/domain/purchase.go\<close> and \<^verbatim>\<open>internal/domain/listing.go\<close>: stock purchases with
  their unit cost and name key, the business registration number, and the listings of the
  owners' market.
\<close>

section \<open>Purchases\<close>

definition maxDollNameRunes :: nat where "maxDollNameRunes = 80"
definition maxVendorRunes :: nat where "maxVendorRunes = 80"
definition maxPurchaseAge :: duration where "maxPurchaseAge = 5 * 365 * 24 * Hour"
definition clockSkewAllowance :: duration where "clockSkewAllowance = 24 * Hour"

text \<open>Sums and products are Go \<open>int\<close>s and wrap around at 64 bits.\<close>

definition TotalCostKRW :: "int \<Rightarrow> int \<Rightarrow> int \<Rightarrow> int" where
  "TotalCostKRW unitPriceKRW qty shippingKRW = i64 (i64 (unitPriceKRW * qty) + shippingKRW)"

definition UnitCostKRW :: "int \<Rightarrow> int \<Rightarrow> int \<Rightarrow> int" where
  "UnitCostKRW unitPriceKRW qty shippingKRW =
    (if qty \<le> 0 then 0
     else let total = TotalCostKRW unitPriceKRW qty shippingKRW
          in go_div (i64 (total + go_div qty 2)) qty)"

text \<open>\<open>NameKey\<close> drops every space and lowers every rune; \<open>lc\<close> is Unicode's lower-case table.\<close>

definition NameKey :: "(nat \<Rightarrow> nat) \<Rightarrow> string \<Rightarrow> string" where
  "NameKey lc name = u8 (map (lower_rune lc) (filter (\<lambda>r. \<not> is_space r) (runes name)))"

record PurchaseInput =
  pi_Name :: string
  pi_Vendor :: string
  pi_UnitPriceKRW :: int
  pi_Qty :: int
  pi_ShippingKRW :: int
  pi_PurchasedAt :: instant

datatype trade_error =
    NameMissing | NameTooLong | VendorTooLong | QtyNotPositive | PriceNegative | ShippingNegative
  | DateMissing | DateInFuture | DateTooOld | CountNegative
  | KindUnknown | PriceMissing | NoteTooLong
  | BizNoMissing | BizNoLength | BizNoChecksum

definition ValidatePurchase :: "PurchaseInput \<Rightarrow> instant \<Rightarrow> trade_error option" where
  "ValidatePurchase inp now =
    (if TrimSpace (pi_Name inp) = [] then Some NameMissing
     else if maxDollNameRunes < rune_count (pi_Name inp) then Some NameTooLong
     else if maxVendorRunes < rune_count (pi_Vendor inp) then Some VendorTooLong
     else if pi_Qty inp \<le> 0 then Some QtyNotPositive
     else if pi_UnitPriceKRW inp < 0 then Some PriceNegative
     else if pi_ShippingKRW inp < 0 then Some ShippingNegative
     else if IsZero (pi_PurchasedAt inp) then Some DateMissing
     else if now + clockSkewAllowance < pi_PurchasedAt inp then Some DateInFuture
     else if pi_PurchasedAt inp < now - maxPurchaseAge then Some DateTooOld
     else None)"

definition ValidateAdjustment :: "int \<Rightarrow> trade_error option" where
  "ValidateAdjustment countedQty = (if countedQty < 0 then Some CountNegative else None)"

section \<open>Business registration numbers\<close>

definition bizNoWeights :: "int list" where
  "bizNoWeights = [1, 3, 7, 1, 3, 7, 1, 3, 5]"

definition NormalizeBizNo :: "string \<Rightarrow> string" where
  "NormalizeBizNo raw = u8 (filter (\<lambda>r. 48 \<le> r \<and> r \<le> 57) (runes raw))"

definition FormatBizNo :: "string \<Rightarrow> string" where
  "FormatBizNo raw =
    (let n = NormalizeBizNo raw
     in if length n \<noteq> 10 then raw
        else take 3 n @ ''-'' @ take 2 (drop 3 n) @ ''-'' @ drop 5 n)"

definition biz_sum :: "string \<Rightarrow> int" where
  "biz_sum n = fold (\<lambda>i sum. sum + digit_val (n ! i) * bizNoWeights ! i) [0 ..< 9] 0
     + go_div (digit_val (n ! 8) * 5) 10"

definition ValidateBizNo :: "string \<Rightarrow> trade_error option" where
  "ValidateBizNo raw =
    (let n = NormalizeBizNo raw
     in if n = [] then Some BizNoMissing
        else if length n \<noteq> 10 then Some BizNoLength
        else if digit_val (n ! 9) \<noteq> (10 - biz_sum n mod 10) mod 10 then Some BizNoChecksum
        else None)"

section \<open>Listings\<close>

type_synonym ListingKind = string

definition ListingSell :: ListingKind where "ListingSell = ''sell''"
definition ListingSwap :: ListingKind where "ListingSwap = ''swap''"
definition ListingBoth :: ListingKind where "ListingBoth = ''both''"

definition AllListingKinds :: "ListingKind list" where
  "AllListingKinds = [ListingSell, ListingSwap, ListingBoth]"

definition listingKindLabels :: "ListingKind \<rightharpoonup> string" where
  "listingKindLabels = map_of
    [(ListingSell, (u8 [0xD310, 0xB9E4])), (ListingSwap, (u8 [0xAD50, 0xD658])), (ListingBoth, (u8 [0xD310, 0xB9E4, 0xB7, 0xAD50, 0xD658]))]"

definition listing_Label :: "ListingKind \<Rightarrow> string" where
  "listing_Label k = (case listingKindLabels k of None \<Rightarrow> [] | Some l \<Rightarrow> l)"

definition NeedsPrice :: "ListingKind \<Rightarrow> bool" where
  "NeedsPrice k \<longleftrightarrow> k \<noteq> ListingSwap"

definition ParseListingKind :: "string \<Rightarrow> ListingKind option" where
  "ParseListingKind s = find (\<lambda>v. v = s) AllListingKinds"

definition maxListingNoteRunes :: nat where "maxListingNoteRunes = 300"
definition ListingDays :: int where "ListingDays = 30"
definition ListingReportLimit :: int where "ListingReportLimit = 3"

record ListingInput =
  li_Name :: string
  li_Kind :: ListingKind
  li_Qty :: int
  li_UnitPriceKRW :: int
  li_Note :: string

definition ValidateListing :: "ListingInput \<Rightarrow> trade_error option" where
  "ValidateListing inp =
    (if ParseListingKind (li_Kind inp) = None then Some KindUnknown
     else if TrimSpace (li_Name inp) = [] then Some NameMissing
     else if maxDollNameRunes < rune_count (li_Name inp) then Some NameTooLong
     else if li_Qty inp \<le> 0 then Some QtyNotPositive
     else if li_UnitPriceKRW inp < 0 then Some PriceNegative
     else if NeedsPrice (li_Kind inp) \<and> li_UnitPriceKRW inp \<le> 0 then Some PriceMissing
     else if maxListingNoteRunes < rune_count (li_Note inp) then Some NoteTooLong
     else None)"

lemma kind_neq [simp]:
  "ListingSell \<noteq> ListingSwap" "ListingSell \<noteq> ListingBoth" "ListingSwap \<noteq> ListingSell"
  "ListingSwap \<noteq> ListingBoth" "ListingBoth \<noteq> ListingSell" "ListingBoth \<noteq> ListingSwap"
  by (simp_all add: ListingSell_def ListingSwap_def ListingBoth_def)

lemma ValidateListing_None:
  "ValidateListing inp = None \<Longrightarrow>
     li_Kind inp \<in> set AllListingKinds \<and> 0 < li_Qty inp \<and> 0 \<le> li_UnitPriceKRW inp
     \<and> (li_Kind inp \<noteq> ListingSwap \<longrightarrow> 0 < li_UnitPriceKRW inp)"
  by (auto simp: ValidateListing_def ParseListingKind_def NeedsPrice_def find_None_iff
      split: if_splits)

section \<open>What the cost and the numbers mean\<close>

lemma TotalCost_small:
  assumes "0 \<le> u" "0 \<le> q" "0 \<le> sh" "u * q + sh \<le> int_max"
  shows "TotalCostKRW u q sh = u * q + sh"
proof -
  have "0 \<le> u * q" using assms by simp
  then have "in_i64 (u * q)" "in_i64 (u * q + sh)"
    using assms by (auto intro!: in_i64_nonneg)
  then show ?thesis by (simp add: TotalCostKRW_def)
qed

lemma round_bounds:
  fixes t q c h e :: int
  assumes "h = t + e" "c \<le> h" "h < c + q" "2 * e \<le> q" "q \<le> 2 * e + 1"
  shows "2 * c \<le> 2 * t + q \<and> 2 * t < 2 * c + q"
  using assms by linarith

text \<open>
  The unit cost is the total paid divided by the quantity, rounded half up: unit cost
  times quantity is within half a quantity of the amount on the receipt, never rounding a
  tie down, as long as the receipt fits a 64-bit integer.
\<close>

theorem UnitCost_rounds:
  assumes "0 \<le> unit" and "0 < qty" and "0 \<le> ship" and "unit * qty + ship + qty div 2 \<le> int_max"
  shows "2 * (UnitCostKRW unit qty ship * qty) \<le> 2 * TotalCostKRW unit qty ship + qty
    \<and> 2 * TotalCostKRW unit qty ship < 2 * (UnitCostKRW unit qty ship * qty) + qty
    \<and> TotalCostKRW unit qty ship = unit * qty + ship"
proof -
  let ?t = "unit * qty + ship" and ?h = "unit * qty + ship + qty div 2"
  have q2: "0 \<le> qty div 2" using assms(2) by simp
  have uq: "0 \<le> unit * qty" using assms(1,2) by simp
  have t: "TotalCostKRW unit qty ship = ?t"
    using assms q2 by (intro TotalCost_small) linarith+
  have "in_i64 ?h" using assms q2 uq by (intro in_i64_nonneg) linarith+
  then have u: "UnitCostKRW unit qty ship = ?h div qty"
    using assms uq q2 by (simp add: UnitCostKRW_def t)
  have "?h div qty * qty \<le> ?h" "?h < ?h div qty * qty + qty"
    using assms(2) div_mult_mod_eq [of ?h qty] pos_mod_bound [of qty ?h] pos_mod_sign [of qty ?h]
    by linarith+
  moreover have "2 * (qty div 2) \<le> qty" "qty \<le> 2 * (qty div 2) + 1" by presburger+
  ultimately have "2 * (?h div qty * qty) \<le> 2 * ?t + qty \<and> 2 * ?t < 2 * (?h div qty * qty) + qty"
    by (intro round_bounds [OF refl])
  then show ?thesis unfolding u t by simp
qed

lemma UnitCost_rounds_witness:
  "2 * (UnitCostKRW 3000 7 2500 * 7) \<le> 2 * TotalCostKRW 3000 7 2500 + 7
    \<and> 2 * TotalCostKRW 3000 7 2500 < 2 * (UnitCostKRW 3000 7 2500 * 7) + 7
    \<and> TotalCostKRW 3000 7 2500 = 3000 * 7 + 2500"
  by (rule UnitCost_rounds) (simp_all add: int_max_def)


text \<open>The check of a business number as one sum: what each position contributes.\<close>

definition biz_part :: "nat \<Rightarrow> int \<Rightarrow> int" where
  "biz_part i d = (if i = 9 then d else if i = 8 then d * 5 + d * 5 div 10 else d * bizNoWeights ! i)"

lemma NormalizeBizNo_eq: "NormalizeBizNo raw = filter is_digit raw"
  unfolding NormalizeBizNo_def by (subst u8_filter_runes) (simp_all add: is_digit_def [abs_def])

lemma biz_sum_parts:
  assumes "0 \<le> digit_val (n ! 8)"
  shows "biz_sum n + digit_val (n ! 9) = (\<Sum>i < 10. biz_part i (digit_val (n ! i)))"
proof -
  have ten: "(\<Sum>i < 10. f i) = f 0 + f 1 + f 2 + f 3 + f 4 + f 5 + f 6 + f 7 + f 8 + f 9"
    for f :: "nat \<Rightarrow> int" by (simp add: eval_nat_numeral)
  have nine: "[0 ..< 9] = [0, 1, 2, 3, 4, 5, 6, 7, 8]" by code_simp
  have w: "bizNoWeights ! 0 = 1" "bizNoWeights ! 1 = 3" "bizNoWeights ! 2 = 7"
    "bizNoWeights ! 3 = 1" "bizNoWeights ! 4 = 3" "bizNoWeights ! 5 = 7" "bizNoWeights ! 6 = 1"
    "bizNoWeights ! 7 = 3" "bizNoWeights ! 8 = 5" by (simp_all add: bizNoWeights_def)
  have p: "biz_part 0 d = d" "biz_part 1 d = d * 3" "biz_part 2 d = d * 7" "biz_part 3 d = d"
    "biz_part 4 d = d * 3" "biz_part 5 d = d * 7" "biz_part 6 d = d" "biz_part 7 d = d * 3"
    "biz_part 9 d = d" for d
    by (simp_all add: biz_part_def bizNoWeights_def)
  have p8: "biz_part 8 (digit_val (n ! 8)) = digit_val (n ! 8) * 5 + go_div (digit_val (n ! 8) * 5) 10"
    using assms by (simp add: biz_part_def)
  show ?thesis
    unfolding ten biz_sum_def nine p p8 fold_simps(1) fold_simps(2) w
    by (simp only: mult_1_right add_0_left add.assoc)
qed

lemma check_digit:
  fixes d s :: int
  assumes "0 \<le> d" "d \<le> 9"
  shows "d = (10 - s mod 10) mod 10 \<longleftrightarrow> (s + d) mod 10 = 0"
proof -
  define r where "r = s mod 10"
  have r: "0 \<le> r" "r < 10" by (simp_all add: r_def)
  have "(s + d) mod 10 = (r + d) mod 10" by (simp add: r_def mod_add_left_eq)
  moreover have "(10 - r) mod 10 = (if r = 0 then 0 else 10 - r)" using r by presburger
  moreover have "x mod 10 = (if x < 10 then x else x - 10)" if "0 \<le> x" "x < 20" for x :: int
    using that by presburger
  then have "(r + d) mod 10 = (if r + d < 10 then r + d else r + d - 10)" using r assms by simp
  ultimately show ?thesis using r assms unfolding r_def [symmetric] by auto
qed

lemma ValidateBizNo_None_iff:
  "ValidateBizNo raw = None \<longleftrightarrow> length (filter is_digit raw) = 10
     \<and> (\<Sum>i < 10. biz_part i (digit_val (filter is_digit raw ! i))) mod 10 = 0"
proof (cases "length (filter is_digit raw) = 10")
  case True
  let ?n = "filter is_digit raw"
  have dig: "is_digit (?n ! i)" if "i < 10" for i
    using nth_mem [of i ?n] that True by simp
  have r: "0 \<le> digit_val (?n ! 8)" "0 \<le> digit_val (?n ! 9)" "digit_val (?n ! 9) \<le> 9"
    using digit_val_range dig by simp_all
  have "?n \<noteq> []" using True by auto
  then have "ValidateBizNo raw = None
      \<longleftrightarrow> digit_val (?n ! 9) = (10 - biz_sum ?n mod 10) mod 10"
    using True by (simp add: ValidateBizNo_def NormalizeBizNo_eq Let_def)
  also have "\<dots> \<longleftrightarrow> (biz_sum ?n + digit_val (?n ! 9)) mod 10 = 0"
    using r(2,3) by (rule check_digit)
  finally show ?thesis using True biz_sum_parts [OF r(1)] by simp
next
  case False
  then show ?thesis by (auto simp: ValidateBizNo_def NormalizeBizNo_eq Let_def)
qed

lemma biz_part_inj:
  assumes "i < 10" and "0 \<le> a" "a \<le> 9" "0 \<le> b" "b \<le> 9"
    and "(s + biz_part i a) mod 10 = (s + biz_part i b) mod 10"
  shows "a = b"
proof -
  have same: "(\<forall>d. biz_part i d = d) \<or> (\<forall>d. biz_part i d = d * 3) \<or> (\<forall>d. biz_part i d = d * 7)
      \<or> (\<forall>d. biz_part i d = d * 5 + d * 5 div 10)"
    using assms(1) by (auto simp: biz_part_def bizNoWeights_def less_Suc_eq eval_nat_numeral)
  have dvd: "10 dvd biz_part i a - biz_part i b"
    using assms(6) by (simp add: mod_eq_dvd_iff)
  have lin: "e = 0" if "10 dvd e * w" "w = 1 \<or> w = 3 \<or> w = 7" "- 9 \<le> e" "e \<le> 9" for e w :: int
    using that by (elim disjE; hypsubst; presburger)
  have r: "- 9 \<le> a - b" "a - b \<le> 9" using assms(2-5) by simp_all
  from same show ?thesis
  proof (elim disjE)
    assume "\<forall>d. biz_part i d = d"
    with dvd lin [of "a - b" 1] r show ?thesis by simp
  next
    assume "\<forall>d. biz_part i d = d * 3"
    with dvd lin [of "a - b" 3] r show ?thesis by (simp add: left_diff_distrib)
  next
    assume "\<forall>d. biz_part i d = d * 7"
    with dvd lin [of "a - b" 7] r show ?thesis by (simp add: left_diff_distrib)
  next
    assume n: "\<forall>d. biz_part i d = d * 5 + d * 5 div 10"
    have "a \<in> {0, 1, 2, 3, 4, 5, 6, 7, 8, 9}" "b \<in> {0, 1, 2, 3, 4, 5, 6, 7, 8, 9}"
      using assms(2-5) unfolding insert_iff empty_iff by presburger+
    with dvd n show ?thesis by (elim insertE emptyE) simp_all
  qed
qed

lemma sum_one_changed:
  fixes f :: "nat \<Rightarrow> 'a \<Rightarrow> int"
  assumes "length xs < k"
  shows "(\<Sum>i < k. f i ((xs @ c # ys) ! i))
    = (\<Sum>i \<in> {..<k} - {length xs}. f i ((xs @ d # ys) ! i)) + f (length xs) c"
proof -
  have "(\<Sum>i < k. f i ((xs @ c # ys) ! i))
      = f (length xs) c + (\<Sum>i \<in> {..<k} - {length xs}. f i ((xs @ c # ys) ! i))"
    using assms by (subst sum.remove [of _ "length xs"]) simp_all
  moreover have "f i ((xs @ c # ys) ! i) = f i ((xs @ d # ys) ! i)"
    if "i \<in> {..<k} - {length xs}" for i
    using that by (auto simp: nth_append nth_Cons')
  ultimately show ?thesis by (simp add: add.commute)
qed

text \<open>
  The check digit of the business number catches every mistyped digit: changing any one
  digit of a number that passes, wherever it stands and however the number is written
  (hyphens, blanks, other text), gives a number that is refused for its check digit.
\<close>

theorem bizno_detects_typo:
  assumes "ValidateBizNo (xs @ c # ys) = None" and "is_digit c" and "is_digit d" and "c \<noteq> d"
  shows "ValidateBizNo (xs @ d # ys) = Some BizNoChecksum"
proof -
  let ?a = "filter is_digit xs" and ?b = "filter is_digit ys"
  let ?S = "\<Sum>i \<in> {..<10} - {length ?a}. biz_part i (digit_val ((?a @ c # ?b) ! i))"
  have len: "length (?a @ c # ?b) = 10"
    and zero: "(\<Sum>i < 10. biz_part i (digit_val ((?a @ c # ?b) ! i))) mod 10 = 0"
    using assms(1,2) by (simp_all add: ValidateBizNo_None_iff)
  have k: "length ?a < 10" using len by simp
  have cd: "digit_val c \<noteq> digit_val d"
    using assms(2-4) by (auto simp: digit_val_def is_digit_def dest!: byte_inject [THEN iffD1, rotated])
  have "(\<Sum>i < 10. biz_part i (digit_val ((?a @ d # ?b) ! i))) mod 10 \<noteq> 0"
  proof
    assume z: "(\<Sum>i < 10. biz_part i (digit_val ((?a @ d # ?b) ! i))) mod 10 = 0"
    have "(?S + biz_part (length ?a) (digit_val c)) mod 10
        = (?S + biz_part (length ?a) (digit_val d)) mod 10"
      using zero z sum_one_changed [OF k, of "\<lambda>i x. biz_part i (digit_val x)" c ?b c]
        sum_one_changed [OF k, of "\<lambda>i x. biz_part i (digit_val x)" d ?b c] by simp
    from biz_part_inj [OF k _ _ _ _ this] digit_val_range assms(2,3) cd show False by blast
  qed
  then have "ValidateBizNo (xs @ d # ys) \<noteq> None"
    using assms(3) by (simp add: ValidateBizNo_None_iff)
  moreover have "length (filter is_digit (xs @ d # ys)) = 10" using len assms(3) by simp
  ultimately show ?thesis
    by (auto simp: ValidateBizNo_def NormalizeBizNo_eq Let_def split: if_splits)
qed

lemma bizno_detects_typo_witness: "ValidateBizNo ''220-81-72517'' = Some BizNoChecksum"
proof -
  have "ValidateBizNo (''220-81-'' @ CHR ''6'' # ''2517'') = None"
    by code_simp
  from bizno_detects_typo [OF this, of "CHR ''7''"] show ?thesis
    by (simp add: is_digit_def byte_def)
qed

end
