(* ===== verification/Domain_Catalog.thy ===== *)
theory Domain_Catalog
  imports Prelude Go_Text
begin

text \<open>
  \<^verbatim>\<open>internal/domain/region.go\<close> and \<^verbatim>\<open>internal/domain/character.go\<close>: the regions of the
  market, the characters whose search trend is watched, and how the watch list is cut into
  requests that all contain the same anchor character.
\<close>

section \<open>Regions\<close>

record Region =
  rg_Code :: string
  rg_Name :: string

definition regions :: "Region list" where
  "regions = map (\<lambda>(c, n). \<lparr>rg_Code = c, rg_Name = n\<rparr>)
    [(''seoul'', (u8 [0xC11C, 0xC6B8])), (''busan'', (u8 [0xBD80, 0xC0B0])), (''daegu'', (u8 [0xB300, 0xAD6C])),
     (''incheon'', (u8 [0xC778, 0xCC9C])), (''gwangju'', (u8 [0xAD11, 0xC8FC])), (''daejeon'', (u8 [0xB300, 0xC804])),
     (''ulsan'', (u8 [0xC6B8, 0xC0B0])), (''sejong'', (u8 [0xC138, 0xC885])), (''gyeonggi'', (u8 [0xACBD, 0xAE30])),
     (''gangwon'', (u8 [0xAC15, 0xC6D0])), (''chungbuk'', (u8 [0xCDA9, 0xBD81])), (''chungnam'', (u8 [0xCDA9, 0xB0A8])),
     (''jeonbuk'', (u8 [0xC804, 0xBD81])), (''jeonnam'', (u8 [0xC804, 0xB0A8])), (''gyeongbuk'', (u8 [0xACBD, 0xBD81])),
     (''gyeongnam'', (u8 [0xACBD, 0xB0A8])), (''jeju'', (u8 [0xC81C, 0xC8FC]))]"

definition RegionByCode :: "string \<Rightarrow> Region option" where
  "RegionByCode code = find (\<lambda>r. rg_Code r = code) regions"

definition maxRegionDetailRunes :: nat where "maxRegionDetailRunes = 20"

datatype region_error = DetailMissing | DetailTooLong

definition ValidateRegionDetail :: "string \<Rightarrow> region_error option" where
  "ValidateRegionDetail s0 =
    (let s = TrimSpace s0
     in if s = [] then Some DetailMissing
        else if maxRegionDetailRunes < rune_count s then Some DetailTooLong else None)"

section \<open>Characters\<close>

record CharacterGroup =
  gr_Code :: string
  gr_Name :: string

definition characterGroups :: "CharacterGroup list" where
  "characterGroups = map (\<lambda>(c, n). \<lparr>gr_Code = c, gr_Name = n\<rparr>)
    [(''sanrio'', (u8 [0xC0B0, 0xB9AC, 0xC624])), (''pokemon'', (u8 [0xD3EC, 0xCF13, 0xBAAC])), (''crayon'', (u8 [0xC9F1, 0xAD6C])),
     (''korea'', (u8 [0xAD6D, 0xB0B4, 0x20, 0xCE90, 0xB9AD, 0xD130])), (''kakao'', (u8 [0xCE74, 0xCE74, 0xC624, 0xD504, 0xB80C, 0xC988])), (''line'', (u8 [0xB77C, 0xC778, 0xD504, 0xB80C, 0xC988])),
     (''disney'', (u8 [0xB514, 0xC988, 0xB2C8, 0xB7, 0xD53D, 0xC0AC])), (''jpchar'', (u8 [0xC77C, 0xBCF8, 0x20, 0xCE90, 0xB9AD, 0xD130])), (''anime'', (u8 [0xC560, 0xB2C8, 0xBA54, 0xC774, 0xC158])),
     (''popmart'', (u8 [0xD31D, 0xB9C8, 0xD2B8])), (''game'', (u8 [0xAC8C, 0xC784])), (''etc'', (u8 [0xADF8, 0x20, 0xC678]))]"

definition CharacterGroupByCode :: "string \<Rightarrow> CharacterGroup option" where
  "CharacterGroupByCode code = find (\<lambda>g. gr_Code g = code) characterGroups"

record Character =
  ch_Code :: string
  ch_Name :: string
  ch_Group :: string
  ch_Keywords :: "string list"

definition AnchorCharacterCode :: string where "AnchorCharacterCode = ''hello_kitty''"
definition naverGroupsPerRequest :: nat where "naverGroupsPerRequest = 5"

definition character :: "string \<times> string \<times> string \<times> string list \<Rightarrow> Character" where
  "character x = (case x of (c, n, g, ks) \<Rightarrow>
     \<lparr>ch_Code = c, ch_Name = n, ch_Group = g, ch_Keywords = ks\<rparr>)"

definition characters :: "Character list" where
  "characters = map character
    [(''pompompurin'', (u8 [0xD3FC, 0xD3FC, 0xD478, 0xB9B0]), ''sanrio'', [(u8 [0xD3FC, 0xD3FC, 0xD478, 0xB9B0]), (u8 [0xD3EC, 0xBB34, 0xD3EC, 0xBB34, 0xD478, 0xB9B0]), (u8 [0xD478, 0xB9B0, 0x20, 0xC778, 0xD615])]),
     (''cinnamoroll'', (u8 [0xC2DC, 0xB098, 0xBAA8, 0xB864]), ''sanrio'', [(u8 [0xC2DC, 0xB098, 0xBAA8, 0xB864]), (u8 [0xC2DC, 0xB098, 0xBAA8, 0xB864, 0x20, 0xC778, 0xD615]), (u8 [0xC2DC, 0xB098, 0xBAAC, 0xB864])]),
     (''pochacco'', (u8 [0xD3EC, 0xCC28, 0xCF54]), ''sanrio'', [(u8 [0xD3EC, 0xCC28, 0xCF54])]),
     (''kuromi'', (u8 [0xCFE0, 0xB85C, 0xBBF8]), ''sanrio'', [(u8 [0xCFE0, 0xB85C, 0xBBF8]), (u8 [0xCFE0, 0xB85C, 0xBBF8, 0x20, 0xC778, 0xD615])]),
     (''hello_kitty'', (u8 [0xD5EC, 0xB85C, 0xD0A4, 0xD2F0]), ''sanrio'', [(u8 [0xD5EC, 0xB85C, 0xD0A4, 0xD2F0]), (u8 [0xD0A4, 0xD2F0])]),
     (''my_melody'', (u8 [0xB9C8, 0xC774, 0xBA5C, 0xB85C, 0xB514]), ''sanrio'', [(u8 [0xB9C8, 0xC774, 0xBA5C, 0xB85C, 0xB514]), (u8 [0xB9C8, 0xC774, 0xBA5C, 0xB85C, 0xB514, 0x20, 0xC778, 0xD615]), (u8 [0xBA5C, 0xB85C, 0xB514]), (u8 [0xB9C8, 0xBA5C])]),
     (''hangyodon'', (u8 [0xD55C, 0xAD50, 0xB3D9]), ''sanrio'', [(u8 [0xD55C, 0xAD50, 0xB3D9])]),
     (''sugarbunnies'', (u8 [0xC288, 0xAC00, 0xBC14, 0xB2C8, 0xC988]), ''sanrio'', [(u8 [0xC288, 0xAC00, 0xBC14, 0xB2C8, 0xC988]), (u8 [0xC288, 0xAC00, 0xBC84, 0xB2C8, 0xC988])]),
     (''keroppi'', (u8 [0xCF00, 0xB85C, 0xCF00, 0xB85C, 0xCF00, 0xB85C, 0xD53C]), ''sanrio'', [(u8 [0xCF00, 0xB85C, 0xCF00, 0xB85C, 0xCF00, 0xB85C, 0xD53C]), (u8 [0xCF00, 0xB85C, 0xD53C])]),
     (''badtz_maru'', (u8 [0xBC30, 0xB4DC, 0xBC14, 0xCE20, 0xB9C8, 0xB8E8]), ''sanrio'', [(u8 [0xBC30, 0xB4DC, 0xBC14, 0xCE20, 0xB9C8, 0xB8E8]), (u8 [0xBC14, 0xCE20, 0xB9C8, 0xB8E8])]),
     (''little_twin_stars'', (u8 [0xB9AC, 0xD2C0, 0xD2B8, 0xC708, 0xC2A4, 0xD0C0]), ''sanrio'', [(u8 [0xB9AC, 0xD2C0, 0xD2B8, 0xC708, 0xC2A4, 0xD0C0]), (u8 [0xD0A4, 0xD0A4, 0xB77C, 0xB77C])]),
     (''pikachu'', (u8 [0xD53C, 0xCE74, 0xCE04]), ''pokemon'', [(u8 [0xD53C, 0xCE74, 0xCE04]), (u8 [0xD53C, 0xCE74, 0xCE04, 0x20, 0xC778, 0xD615])]),
     (''eevee'', (u8 [0xC774, 0xBE0C, 0xC774]), ''pokemon'', [(u8 [0xC774, 0xBE0C, 0xC774]), (u8 [0xC774, 0xBE0C, 0xC774, 0x20, 0xC778, 0xD615])]),
     (''snorlax'', (u8 [0xC7A0, 0xB9CC, 0xBCF4]), ''pokemon'', [(u8 [0xC7A0, 0xB9CC, 0xBCF4]), (u8 [0xC7A0, 0xB9CC, 0xBCF4, 0x20, 0xC778, 0xD615])]),
     (''squirtle'', (u8 [0xAF2C, 0xBD80, 0xAE30]), ''pokemon'', [(u8 [0xAF2C, 0xBD80, 0xAE30])]),
     (''charmander'', (u8 [0xD30C, 0xC774, 0xB9AC]), ''pokemon'', [(u8 [0xD30C, 0xC774, 0xB9AC])]),
     (''bulbasaur'', (u8 [0xC774, 0xC0C1, 0xD574, 0xC528]), ''pokemon'', [(u8 [0xC774, 0xC0C1, 0xD574, 0xC528])]),
     (''shinchan'', (u8 [0xC9F1, 0xAD6C]), ''crayon'', [(u8 [0xC9F1, 0xAD6C]), (u8 [0xD06C, 0xB808, 0xC6A9, 0x20, 0xC2E0, 0xC9F1]), (u8 [0xC9F1, 0xAD6C, 0x20, 0xC778, 0xD615])]),
     (''shiro'', (u8 [0xD770, 0xB465, 0xC774]), ''crayon'', [(u8 [0xD770, 0xB465, 0xC774]), (u8 [0xC9F1, 0xAD6C, 0x20, 0xD770, 0xB465, 0xC774])]),
     (''loopy'', (u8 [0xC794, 0xB9DD, 0xB8E8, 0xD53C]), ''korea'', [(u8 [0xC794, 0xB9DD, 0xB8E8, 0xD53C]), (u8 [0xC794, 0xB9DD, 0x20, 0xB8E8, 0xD53C]), (u8 [0xB8E8, 0xD53C, 0x20, 0xC778, 0xD615])]),
     (''choigosim'', (u8 [0xCD5C, 0xACE0, 0xC2EC]), ''korea'', [(u8 [0xCD5C, 0xACE0, 0xC2EC]), (u8 [0xACE0, 0xC2EC, 0xC774])]),
     (''bellygom'', (u8 [0xBCA8, 0xB9AC, 0xACF0]), ''korea'', [(u8 [0xBCA8, 0xB9AC, 0xACF0])]),
     (''manggom'', (u8 [0xB9DD, 0xADF8, 0xB7EC, 0xC9C4, 0xACF0]), ''korea'', [(u8 [0xB9DD, 0xADF8, 0xB7EC, 0xC9C4, 0xACF0]), (u8 [0xB9DD, 0xACF0])]),
     (''pororo'', (u8 [0xBF40, 0xB85C, 0xB85C]), ''korea'', [(u8 [0xBF40, 0xB85C, 0xB85C])]),
     (''cookierun'', (u8 [0xCFE0, 0xD0A4, 0xB7F0]), ''korea'', [(u8 [0xCFE0, 0xD0A4, 0xB7F0]), (u8 [0xCFE0, 0xD0A4, 0xB7F0, 0x20, 0xC778, 0xD615])]),
     (''teenieping'', (u8 [0xD2F0, 0xB2C8, 0xD551]), ''korea'', [(u8 [0xD2F0, 0xB2C8, 0xD551]), (u8 [0xCE90, 0xCE58, 0xD2F0, 0xB2C8, 0xD551]), (u8 [0xD558, 0xD2B8, 0xD551]), (u8 [0xD2F0, 0xB2C8, 0xD551, 0x20, 0xC778, 0xD615])]),
     (''ryan'', (u8 [0xB77C, 0xC774, 0xC5B8]), ''kakao'', [(u8 [0xB77C, 0xC774, 0xC5B8]), (u8 [0xCE74, 0xCE74, 0xC624, 0x20, 0xB77C, 0xC774, 0xC5B8])]),
     (''choonsik'', (u8 [0xCD98, 0xC2DD, 0xC774]), ''kakao'', [(u8 [0xCD98, 0xC2DD, 0xC774])]),
     (''apeach'', (u8 [0xC5B4, 0xD53C, 0xCE58]), ''kakao'', [(u8 [0xC5B4, 0xD53C, 0xCE58])]),
     (''muzi'', (u8 [0xBB34, 0xC9C0]), ''kakao'', [(u8 [0xBB34, 0xC9C0]), (u8 [0xCE74, 0xCE74, 0xC624, 0x20, 0xBB34, 0xC9C0])]),
     (''brown'', (u8 [0xBE0C, 0xB77C, 0xC6B4]), ''line'', [(u8 [0xBE0C, 0xB77C, 0xC6B4]), (u8 [0xB77C, 0xC778, 0xD504, 0xB80C, 0xC988, 0x20, 0xBE0C, 0xB77C, 0xC6B4])]),
     (''cony'', (u8 [0xCF54, 0xB2C8]), ''line'', [(u8 [0xCF54, 0xB2C8]), (u8 [0xB77C, 0xC778, 0xD504, 0xB80C, 0xC988, 0x20, 0xCF54, 0xB2C8])]),
     (''sally'', (u8 [0xC0D0, 0xB9AC]), ''line'', [(u8 [0xC0D0, 0xB9AC]), (u8 [0xB77C, 0xC778, 0xD504, 0xB80C, 0xC988, 0x20, 0xC0D0, 0xB9AC])]),
     (''bt21'', ''BT21'', ''line'', [''BT21'', (u8 [0xBE44, 0xD2F0, 0xC774, 0xC2ED, 0xC77C]), (u8 [0xD0C0, 0xD0C0]), (u8 [0x42, 0x54, 0x32, 0x31, 0x20, 0xC778, 0xD615])]),
     (''mickey'', (u8 [0xBBF8, 0xD0A4, 0xB9C8, 0xC6B0, 0xC2A4]), ''disney'', [(u8 [0xBBF8, 0xD0A4, 0xB9C8, 0xC6B0, 0xC2A4]), (u8 [0xBBF8, 0xB2C8, 0xB9C8, 0xC6B0, 0xC2A4])]),
     (''winnie'', (u8 [0xACF0, 0xB3CC, 0xC774, 0xD478]), ''disney'', [(u8 [0xACF0, 0xB3CC, 0xC774, 0xD478]), (u8 [0xC704, 0xB2C8, 0xB354, 0xD478])]),
     (''stitch'', (u8 [0xC2A4, 0xD2F0, 0xCE58]), ''disney'', [(u8 [0xC2A4, 0xD2F0, 0xCE58]), (u8 [0xC2A4, 0xD2F0, 0xCE58, 0x20, 0xC778, 0xD615]), (u8 [0xB9B4, 0xB85C, 0x20, 0xC564, 0x20, 0xC2A4, 0xD2F0, 0xCE58])]),
     (''frozen'', (u8 [0xACA8, 0xC6B8, 0xC655, 0xAD6D]), ''disney'', [(u8 [0xACA8, 0xC6B8, 0xC655, 0xAD6D]), (u8 [0xC5D8, 0xC0AC]), (u8 [0xC62C, 0xB77C, 0xD504])]),
     (''toystory'', (u8 [0xD1A0, 0xC774, 0xC2A4, 0xD1A0, 0xB9AC]), ''disney'', [(u8 [0xD1A0, 0xC774, 0xC2A4, 0xD1A0, 0xB9AC]), (u8 [0xC6B0, 0xB514]), (u8 [0xBC84, 0xC988])]),
     (''insideout'', (u8 [0xC778, 0xC0AC, 0xC774, 0xB4DC, 0xC544, 0xC6C3]), ''disney'', [(u8 [0xC778, 0xC0AC, 0xC774, 0xB4DC, 0xC544, 0xC6C3]), (u8 [0xBE59, 0xBD09])]),
     (''zootopia'', (u8 [0xC8FC, 0xD1A0, 0xD53C, 0xC544]), ''disney'', [(u8 [0xC8FC, 0xD1A0, 0xD53C, 0xC544]), (u8 [0xC8FC, 0xB514, 0x20, 0xD649, 0xC2A4]), (u8 [0xB2C9, 0x20, 0xC640, 0xC77C, 0xB4DC])]),
     (''chiikawa'', (u8 [0xBA3C, 0xC791, 0xADC0]), ''jpchar'', [(u8 [0xBA3C, 0xC791, 0xADC0]), (u8 [0xCE58, 0xC774, 0xCE74, 0xC640]), (u8 [0xD558, 0xCE58, 0xC640, 0xB808]), (u8 [0xC6B0, 0xC0AC, 0xAE30]), (u8 [0xBA3C, 0xAC00, 0x20, 0xC791, 0xACE0, 0x20, 0xADC0, 0xC5EC, 0xC6B4, 0x20, 0xB140, 0xC11D])]),
     (''rilakkuma'', (u8 [0xB9AC, 0xB77D, 0xCFE0, 0xB9C8]), ''jpchar'', [(u8 [0xB9AC, 0xB77D, 0xCFE0, 0xB9C8])]),
     (''sumikko'', (u8 [0xC2A4, 0xBC0B, 0xCF54, 0xAD6C, 0xB77C, 0xC2DC]), ''jpchar'', [(u8 [0xC2A4, 0xBC0B, 0xCF54, 0xAD6C, 0xB77C, 0xC2DC]), (u8 [0xC2A4, 0xBBF8, 0xCF54, 0xAD6C, 0xB77C, 0xC2DC]), (u8 [0xC2A4, 0xBC0B, 0xCF54])]),
     (''doraemon'', (u8 [0xB3C4, 0xB77C, 0xC5D0, 0xBABD]), ''jpchar'', [(u8 [0xB3C4, 0xB77C, 0xC5D0, 0xBABD])]),
     (''totoro'', (u8 [0xD1A0, 0xD1A0, 0xB85C]), ''jpchar'', [(u8 [0xD1A0, 0xD1A0, 0xB85C]), (u8 [0xC774, 0xC6C3, 0xC9D1, 0x20, 0xD1A0, 0xD1A0, 0xB85C])]),
     (''molang'', (u8 [0xBAB0, 0xB791]), ''jpchar'', [(u8 [0xBAB0, 0xB791]), (u8 [0xBAB0, 0xB791, 0xC774])]),
     (''jujutsu'', (u8 [0xC8FC, 0xC220, 0xD68C, 0xC804]), ''anime'', [(u8 [0xC8FC, 0xC220, 0xD68C, 0xC804]), (u8 [0xACE0, 0xC8E0, 0x20, 0xC0AC, 0xD1A0, 0xB8E8])]),
     (''demonslayer'', (u8 [0xADC0, 0xBA78, 0xC758, 0x20, 0xCE7C, 0xB0A0]), ''anime'', [(u8 [0xADC0, 0xBA78, 0xC758, 0x20, 0xCE7C, 0xB0A0]), (u8 [0xADC0, 0xCE7C]), (u8 [0xB124, 0xC988, 0xCF54]), (u8 [0xD0C4, 0xC9C0, 0xB85C])]),
     (''chainsawman'', (u8 [0xCCB4, 0xC778, 0xC18C, 0xB9E8]), ''anime'', [(u8 [0xCCB4, 0xC778, 0xC18C, 0xB9E8]), (u8 [0xD30C, 0xC6CC]), (u8 [0xD3EC, 0xCE58, 0xD0C0])]),
     (''onepiece'', (u8 [0xC6D0, 0xD53C, 0xC2A4]), ''anime'', [(u8 [0xC6D0, 0xD53C, 0xC2A4]), (u8 [0xB8E8, 0xD53C, 0x20, 0xC6D0, 0xD53C, 0xC2A4]), (u8 [0xCD78, 0xD30C])]),
     (''naruto'', (u8 [0xB098, 0xB8E8, 0xD1A0]), ''anime'', [(u8 [0xB098, 0xB8E8, 0xD1A0])]),
     (''bluelock'', (u8 [0xBE14, 0xB8E8, 0xB85D]), ''anime'', [(u8 [0xBE14, 0xB8E8, 0xB85D])]),
     (''haikyuu'', (u8 [0xD558, 0xC774, 0xD050]), ''anime'', [(u8 [0xD558, 0xC774, 0xD050])]),
     (''spyfamily'', (u8 [0xC2A4, 0xD30C, 0xC774, 0x20, 0xD328, 0xBC00, 0xB9AC]), ''anime'', [(u8 [0xC2A4, 0xD30C, 0xC774, 0x20, 0xD328, 0xBC00, 0xB9AC]), (u8 [0xC544, 0xB0D0]), (u8 [0xC544, 0xB0D0, 0x20, 0xC778, 0xD615])]),
     (''labubu'', (u8 [0xB77C, 0xBD80, 0xBD80]), ''popmart'', [(u8 [0xB77C, 0xBD80, 0xBD80]), ''labubu'', (u8 [0xB77C, 0xBDF0, 0xBDF0]), (u8 [0xB77C, 0xBD80, 0xBD80, 0x20, 0xC778, 0xD615])]),
     (''molly'', (u8 [0xBAB0, 0xB9AC]), ''popmart'', [(u8 [0xD31D, 0xB9C8, 0xD2B8, 0x20, 0xBAB0, 0xB9AC])]),
     (''dimoo'', (u8 [0xB514, 0xBB34]), ''popmart'', [(u8 [0xB514, 0xBB34]), ''dimoo'']),
     (''skullpanda'', (u8 [0xC2A4, 0xCEEC, 0xD310, 0xB2E4]), ''popmart'', [(u8 [0xC2A4, 0xCEEC, 0xD310, 0xB2E4])]),
     (''pinojelly'', (u8 [0xD53C, 0xB178, 0xC824, 0xB9AC]), ''popmart'', [(u8 [0xD53C, 0xB178, 0xC824, 0xB9AC])]),
     (''crybaby'', (u8 [0xD06C, 0xB77C, 0xC774, 0xBCA0, 0xC774, 0xBE44]), ''popmart'', [(u8 [0xD06C, 0xB77C, 0xC774, 0xBCA0, 0xC774, 0xBE44]), ''crybaby'']),
     (''mario'', (u8 [0xC288, 0xD37C, 0xB9C8, 0xB9AC, 0xC624]), ''game'', [(u8 [0xC288, 0xD37C, 0xB9C8, 0xB9AC, 0xC624]), (u8 [0xB9C8, 0xB9AC, 0xC624, 0x20, 0xC778, 0xD615])]),
     (''kirby'', (u8 [0xCEE4, 0xBE44]), ''game'', [(u8 [0xCEE4, 0xBE44]), (u8 [0xBCC4, 0xC758, 0xCEE4, 0xBE44])]),
     (''animalcrossing'', (u8 [0xB3D9, 0xBB3C, 0xC758, 0x20, 0xC232]), ''game'', [(u8 [0xB3D9, 0xBB3C, 0xC758, 0x20, 0xC232]), (u8 [0xBAA8, 0xB3D9, 0xC232])]),
     (''minecraft'', (u8 [0xB9C8, 0xC778, 0xD06C, 0xB798, 0xD504, 0xD2B8]), ''game'', [(u8 [0xB9C8, 0xC778, 0xD06C, 0xB798, 0xD504, 0xD2B8]), (u8 [0xB9C8, 0xD06C, 0x20, 0xC778, 0xD615])]),
     (''snoopy'', (u8 [0xC2A4, 0xB204, 0xD53C]), ''etc'', [(u8 [0xC2A4, 0xB204, 0xD53C]), (u8 [0xD53C, 0xB108, 0xCE20])]),
     (''minions'', (u8 [0xBBF8, 0xB2C8, 0xC5B8, 0xC988]), ''etc'', [(u8 [0xBBF8, 0xB2C8, 0xC5B8, 0xC988]), (u8 [0xBBF8, 0xB2C8, 0xC5B8])]),
     (''jellycat'', (u8 [0xC824, 0xB9AC, 0xCEA3]), ''etc'', [(u8 [0xC824, 0xB9AC, 0xCEA3]), ''jellycat'']),
     (''sonnyangel'', (u8 [0xC18C, 0xB2C8, 0xC5D4, 0xC824]), ''etc'', [(u8 [0xC18C, 0xB2C8, 0xC5D4, 0xC824])]),
     (''pingu'', (u8 [0xD551, 0xAD6C]), ''etc'', [(u8 [0xD551, 0xAD6C]), (u8 [0xD551, 0xAD6C, 0x20, 0xC778, 0xD615])]),
     (''capybara'', (u8 [0xCE74, 0xD53C, 0xBC14, 0xB77C]), ''etc'', [(u8 [0xCE74, 0xD53C, 0xBC14, 0xB77C]), (u8 [0xCE74, 0xD53C, 0xBC14, 0xB77C, 0x20, 0xC778, 0xD615])])]"

definition CharacterByCode :: "string \<Rightarrow> Character option" where
  "CharacterByCode code = find (\<lambda>c. ch_Code c = code) characters"

text \<open>The panic on a missing anchor is \<open>None\<close>.\<close>

definition AnchorCharacter :: "Character option" where
  "AnchorCharacter = CharacterByCode AnchorCharacterCode"

section \<open>Cutting the watch list\<close>

text \<open>The loop \<open>for i := 0; i < len(rest); i += perBatch\<close>, one batch per turn.\<close>

function batches :: "Character \<Rightarrow> nat \<Rightarrow> Character list \<Rightarrow> Character list list" where
  "batches anchor perBatch rest =
    (if rest = [] \<or> perBatch = 0 then []
     else (anchor # take perBatch rest) # batches anchor perBatch (drop perBatch rest))"
  by pat_completeness auto
termination
  by (relation "measure (\<lambda>(_, _, rest). length rest)") auto

declare batches.simps [simp del]

definition TrendBatches :: "Character list \<Rightarrow> Character list list option" where
  "TrendBatches xs = map_option (\<lambda>anchor.
     batches anchor (naverGroupsPerRequest - 1) (filter (\<lambda>c. ch_Code c \<noteq> ch_Code anchor) xs))
     AnchorCharacter"

section \<open>The batches\<close>

lemma batches_Nil [simp]: "batches a k [] = []"
  by (simp add: batches.simps [of a k])

lemma batches_step: "rest \<noteq> [] \<Longrightarrow> 0 < k \<Longrightarrow>
    batches a k rest = (a # take k rest) # batches a k (drop k rest)"
  by (simp add: batches.simps [of a k rest])

lemma batches_concat: "0 < k \<Longrightarrow> concat (map tl (batches a k rest)) = rest"
proof (induction a k rest rule: batches.induct)
  case (1 a k rest)
  then show ?case by (cases "rest = []") (simp_all add: batches_step)
qed

lemma batches_shape:
  "0 < k \<Longrightarrow> list_all (\<lambda>b. hd b = a \<and> 2 \<le> length b \<and> length b \<le> Suc k) (batches a k rest)"
proof (induction a k rest rule: batches.induct)
  case (1 a k rest)
  then show ?case
    by (cases "rest = []") (simp_all add: batches_step Suc_le_eq min_def)
qed

lemma batches_full:
  "0 < k \<Longrightarrow> list_all (\<lambda>b. length b = Suc k) (butlast (batches a k rest))"
proof (induction a k rest rule: batches.induct)
  case (1 a k rest)
  show ?case
  proof (cases "length rest \<le> k")
    case True
    then show ?thesis using 1(2) by (cases "rest = []") (simp_all add: batches_step)
  next
    case False
    then have ne: "rest \<noteq> []" "drop k rest \<noteq> []" by auto
    with 1 have "list_all (\<lambda>b. length b = Suc k) (butlast (batches a k (drop k rest)))" by simp
    with False ne 1(2) show ?thesis
      by (simp add: batches_step)
  qed
qed

lemma AnchorCharacter_eval:
  "\<exists>a. AnchorCharacter = Some a \<and> ch_Code a = AnchorCharacterCode"
proof -
  have "\<exists>c \<in> set characters. ch_Code c = AnchorCharacterCode"
    unfolding characters_def list.map list.set
    by (rule bexI [rotated], rule insertI2, rule insertI2, rule insertI2, rule insertI2, rule insertI1)
      (simp add: character_def AnchorCharacterCode_def)
  then obtain a where a: "AnchorCharacter = Some a"
    by (cases AnchorCharacter) (auto simp: AnchorCharacter_def CharacterByCode_def find_None_iff)
  then have "ch_Code a = AnchorCharacterCode"
    by (auto simp: AnchorCharacter_def CharacterByCode_def find_Some_iff)
  with a show ?thesis by blast
qed

text \<open>
  The trend requests: the anchor always exists, every request starts with it and holds
  one to four watched characters beside it, all requests but the last are full, and together
  they cover the watch list without the anchor, each entry once and in its order.
\<close>

theorem TrendBatches_cover:
  "\<exists>a bs. AnchorCharacter = Some a \<and> TrendBatches xs = Some bs
     \<and> concat (map tl bs) = filter (\<lambda>c. ch_Code c \<noteq> AnchorCharacterCode) xs
     \<and> list_all (\<lambda>b. hd b = a \<and> 2 \<le> length b \<and> length b \<le> 5) bs
     \<and> list_all (\<lambda>b. length b = 5) (butlast bs)"
proof -
  from AnchorCharacter_eval obtain a where
    a: "AnchorCharacter = Some a" "ch_Code a = AnchorCharacterCode" by blast
  let ?r = "filter (\<lambda>c. ch_Code c \<noteq> AnchorCharacterCode) xs"
  have "TrendBatches xs = Some (batches a 4 ?r)"
    by (simp add: TrendBatches_def a naverGroupsPerRequest_def)
  with a(1) show ?thesis
    using batches_concat [of 4 a ?r] batches_shape [of 4 a ?r] batches_full [of 4 a ?r]
    by (intro exI [of _ a] exI [of _ "batches a 4 ?r"]) simp
qed

end
