(* ===== verification/Crypto_Box.thy ===== *)
theory Crypto_Box
  imports Prelude Go_Text
begin

text \<open>
  \<^verbatim>\<open>internal/crypto/crypto.go\<close>: encryption of personal data at rest, the keyed hash used
  for lookups, the canonical form of phone numbers, and the masks shown on lists. The
  AES-GCM cipher and HMAC-SHA256 are parameters; the framing around them is modelled.
\<close>

section \<open>Sealing and opening\<close>

definition KeyLen :: nat where "KeyLen = 32"

text \<open>An AEAD as \<open>crypto/cipher\<close> offers it, already keyed.\<close>

record AEAD =
  NonceSize :: nat
  Seal :: "string \<Rightarrow> string \<Rightarrow> string"
  Open :: "string \<Rightarrow> string \<Rightarrow> string option"

datatype crypto_error = BadKeyLength nat | KeySetupFailed | NonceFailed | CiphertextTooShort | OpenFailed

definition NewCipher :: "(string \<Rightarrow> AEAD option) \<Rightarrow> string \<Rightarrow> (crypto_error, AEAD) result" where
  "NewCipher gcm key =
    (if length key \<noteq> KeyLen then Inl (BadKeyLength (length key))
     else case gcm key of None \<Rightarrow> Inl KeySetupFailed | Some a \<Rightarrow> Inr a)"

text \<open>The nonce is fresh random bytes; \<open>None\<close> is a failing random source.\<close>

definition Encrypt :: "AEAD \<Rightarrow> string option \<Rightarrow> string \<Rightarrow> (crypto_error, string) result" where
  "Encrypt a rnd plain =
    (case rnd of None \<Rightarrow> Inl NonceFailed | Some nonce \<Rightarrow> Inr (nonce @ Seal a nonce plain))"

definition Decrypt :: "AEAD \<Rightarrow> string \<Rightarrow> (crypto_error, string) result" where
  "Decrypt a ct =
    (let ns = NonceSize a
     in if length ct < ns then Inl CiphertextTooShort
        else case Open a (take ns ct) (drop ns ct) of
          None \<Rightarrow> Inl OpenFailed | Some plain \<Rightarrow> Inr plain)"

text \<open>\<open>hmac pepper value\<close> is HMAC-SHA256.\<close>

definition NewHasher :: "string \<Rightarrow> (crypto_error, string) result" where
  "NewHasher pepper = (if length pepper \<noteq> KeyLen then Inl (BadKeyLength (length pepper)) else Inr pepper)"

definition Hash :: "(string \<Rightarrow> string \<Rightarrow> string) \<Rightarrow> string \<Rightarrow> string \<Rightarrow> string" where
  "Hash hmac pepper value = hmac pepper value"

section \<open>Phone and account numbers\<close>

text \<open>\<open>nonDigit.ReplaceAllString(s, "")\<close>\<close>

definition digits_only :: "string \<Rightarrow> string" where
  "digits_only s = filter is_digit s"

text \<open>The characters of \<open>phoneShape\<close>, each at least once.\<close>

definition phone_char :: "char \<Rightarrow> bool" where
  "phone_char c \<longleftrightarrow> is_digit c \<or> c \<in> set ''+-.() ''"

definition phoneShape :: "string \<Rightarrow> bool" where
  "phoneShape s \<longleftrightarrow> s \<noteq> [] \<and> list_all phone_char s"

definition mobilePrefixes :: "string list" where
  "mobilePrefixes = [''010'', ''011'', ''016'', ''017'', ''018'', ''019'']"

datatype phone_error = PhoneHasLetters | PhoneLength | Phone010Length | PhoneNotMobile

definition NormalizePhone :: "string \<Rightarrow> (phone_error, string) result" where
  "NormalizePhone s =
    (if s = [] \<or> \<not> phoneShape s then Inl PhoneHasLetters
     else let d0 = digits_only s;
              d = (if HasPrefix d0 ''82'' \<and> 11 \<le> length d0 then ''0'' @ drop 2 d0 else d0)
          in if length d < 10 \<or> 11 < length d then Inl PhoneLength
             else if HasPrefix d ''010'' \<and> length d \<noteq> 11 then Inl Phone010Length
             else if list_ex (HasPrefix d) mobilePrefixes then Inr d
             else Inl PhoneNotMobile)"

definition NormalizeAccount :: "string \<Rightarrow> string" where
  "NormalizeAccount s = digits_only s"

definition MaskPhone :: "string \<Rightarrow> string" where
  "MaskPhone s =
    (let d = digits_only s
     in if length d < 10 \<or> 11 < length d then ''***''
        else let mid = drop 3 (take (length d - 4) d)
             in take 3 d @ ''-'' @ replicate (length mid) (CHR ''*'') @ ''-'' @ drop (length d - 4) d)"

definition MaskAccount :: "string \<Rightarrow> string" where
  "MaskAccount s =
    (let d = digits_only s
     in if length d < 4 then ''***''
        else replicate (length d - 4) (CHR ''*'') @ drop (length d - 4) d)"

section \<open>Properties of the canonical forms\<close>

lemma digits_only_id: "list_all is_digit d \<Longrightarrow> digits_only d = d"
  by (simp add: digits_only_def list_all_iff filter_id_conv)

lemma digits_only_digits: "list_all is_digit (digits_only s)"
  by (simp add: digits_only_def list_all_iff)

lemma phoneShape_digits: "list_all is_digit d \<Longrightarrow> d \<noteq> [] \<Longrightarrow> phoneShape d"
  by (auto simp: phoneShape_def phone_char_def list_all_iff)

text \<open>The part of \<open>NormalizePhone\<close> that only sees the digits.\<close>

definition phone_digits :: "string \<Rightarrow> (phone_error, string) result" where
  "phone_digits d0 =
    (let d = (if HasPrefix d0 ''82'' \<and> 11 \<le> length d0 then ''0'' @ drop 2 d0 else d0)
     in if length d < 10 \<or> 11 < length d then Inl PhoneLength
        else if HasPrefix d ''010'' \<and> length d \<noteq> 11 then Inl Phone010Length
        else if list_ex (HasPrefix d) mobilePrefixes then Inr d
        else Inl PhoneNotMobile)"

lemma NormalizePhone_digits:
  "phoneShape s \<Longrightarrow> NormalizePhone s = phone_digits (digits_only s)"
  by (simp add: NormalizePhone_def phone_digits_def phoneShape_def Let_def)

lemma mobile_not_82: "list_ex (HasPrefix d) mobilePrefixes \<Longrightarrow> \<not> HasPrefix d ''82''"
  by (cases d) (auto simp: mobilePrefixes_def HasPrefix_def)

lemma phone_digits_ok:
  assumes "phone_digits d0 = Inr d"
  shows "length d \<in> {10, 11}" "HasPrefix d ''010'' \<longrightarrow> length d = 11"
    "list_ex (HasPrefix d) mobilePrefixes" "d = d0 \<or> d = ''0'' @ drop 2 d0"
  using assms by (auto simp: phone_digits_def Let_def split: if_splits)

text \<open>
  An accepted phone number is in canonical form: ten or eleven digits with a mobile
  prefix, eleven for 010; normalising it again changes nothing; and only the digits of the
  input matter, so that any two admissible spellings of one number are treated alike.
\<close>

theorem NormalizePhone_canonical:
  assumes "NormalizePhone s = Inr d"
  shows "list_all is_digit d \<and> length d \<in> {10, 11} \<and> list_ex (HasPrefix d) mobilePrefixes
    \<and> (HasPrefix d ''010'' \<longrightarrow> length d = 11)
    \<and> NormalizePhone d = Inr d
    \<and> (\<forall>t. phoneShape t \<and> digits_only t = digits_only s \<longrightarrow> NormalizePhone t = Inr d)"
proof -
  from assms have sh: "phoneShape s" by (auto simp: NormalizePhone_def split: if_splits)
  with assms have pd: "phone_digits (digits_only s) = Inr d" by (simp add: NormalizePhone_digits)
  note ok = phone_digits_ok [OF pd]
  have dig: "list_all is_digit d"
  proof -
    have "is_digit x" if "x \<in> set (drop 2 (digits_only s))" for x
      using in_set_dropD [OF that] by (simp add: digits_only_def)
    moreover have "is_digit (CHR ''0'')" by code_simp
    ultimately show ?thesis
      using ok(4) digits_only_digits [of s] by (auto simp: list_all_iff)
  qed
  moreover have "NormalizePhone d = Inr d"
  proof -
    have "d \<noteq> []" using ok(1) by auto
    with dig have "NormalizePhone d = phone_digits d"
      by (simp add: NormalizePhone_digits phoneShape_digits digits_only_id)
    also have "\<dots> = Inr d"
      using ok mobile_not_82 [OF ok(3)] by (auto simp: phone_digits_def Let_def)
    finally show ?thesis .
  qed
  moreover have "NormalizePhone t = Inr d" if "phoneShape t" "digits_only t = digits_only s" for t
    using that pd by (simp add: NormalizePhone_digits)
  ultimately show ?thesis using ok by blast
qed

lemma NormalizePhone_canonical_witness:
  "NormalizePhone ''+82 10-1234-5678'' = Inr ''01012345678''
    \<and> NormalizePhone ''01012345678'' = Inr ''01012345678''
    \<and> NormalizePhone ''82.10.1234.5678'' = Inr ''01012345678''"
proof -
  have n: "NormalizePhone ''+82 10-1234-5678'' = Inr ''01012345678''" by code_simp
  have "phoneShape ''82.10.1234.5678''" by code_simp
  moreover have "digits_only ''82.10.1234.5678'' = digits_only ''+82 10-1234-5678''" by code_simp
  ultimately show ?thesis using NormalizePhone_canonical [OF n] n by blast
qed

text \<open>
  A mask shows nothing but what it is meant to show: two phone numbers of the same length
  with the same first three and last four digits, and two account numbers of the same length
  with the same last four digits, look the same; with fewer digits nothing is shown.
\<close>

theorem masks_hide:
  assumes "length (digits_only s) = length (digits_only t)"
    and "drop (length (digits_only s) - 4) (digits_only s)
      = drop (length (digits_only t) - 4) (digits_only t)"
  shows "MaskAccount s = MaskAccount t
    \<and> (take 3 (digits_only s) = take 3 (digits_only t) \<longrightarrow> MaskPhone s = MaskPhone t)"
  using assms by (simp add: MaskAccount_def MaskPhone_def Let_def)

lemma masks_hide_witness:
  "MaskAccount ''010-1234-5678'' = MaskAccount ''010 9999 5678''
    \<and> MaskPhone ''010-1234-5678'' = MaskPhone ''010 9999 5678''"
proof -
  have d: "digits_only ''010-1234-5678'' = ''01012345678''" "digits_only ''010 9999 5678'' = ''01099995678''"
    by code_simp+
  show ?thesis using masks_hide [of "''010-1234-5678''" "''010 9999 5678''"] by (simp add: d)
qed

text \<open>
  What was encrypted is decrypted to the same text, whatever nonce was drawn, provided
  the cipher opens what it sealed under a nonce of its size (which AES-GCM does); input too
  short to hold a nonce is refused before the cipher sees it.
\<close>

theorem Decrypt_Encrypt:
  assumes "\<And>n p. length n = NonceSize a \<Longrightarrow> Open a n (Seal a n p) = Some p"
    and "length nonce = NonceSize a"
  shows "(\<exists>ct. Encrypt a (Some nonce) plain = Inr ct \<and> Decrypt a ct = Inr plain)
    \<and> (length short < NonceSize a \<longrightarrow> Decrypt a short = Inl CiphertextTooShort)"
  using assms by (simp add: Encrypt_def Decrypt_def Let_def)

definition demo_aead :: AEAD where
  "demo_aead = \<lparr>NonceSize = 2, Seal = (\<lambda>n p. rev p @ n),
     Open = (\<lambda>n c. if drop (length c - 2) c = n then Some (rev (take (length c - 2) c)) else None)\<rparr>"

lemma Decrypt_Encrypt_witness:
  "(\<exists>ct. Encrypt demo_aead (Some ''ab'') ''hello'' = Inr ct \<and> Decrypt demo_aead ct = Inr ''hello'')
    \<and> Decrypt demo_aead ''x'' = Inl CiphertextTooShort"
proof -
  have "length ''x'' < NonceSize demo_aead" by (simp add: demo_aead_def)
  with Decrypt_Encrypt [of demo_aead "''ab''" "''hello''" "''x''"] show ?thesis
    by (simp add: demo_aead_def)
qed

end
