(* ===== verification/Store_Tables.thy ===== *)
theory Store_Tables
  imports Domain_Claim Domain_Risk Domain_Machine Domain_Trade Crypto_Box Go_Time
begin

text \<open>
  The PostgreSQL schema of \<^verbatim>\<open>internal/store/migrations\<close> as a record of tables, each a list of
  rows in insertion order, and the transaction wrapper of \<^verbatim>\<open>internal/store/store.go\<close>. A
  statement is a function on the database that may fail; \<open>tx\<close> undoes a failed one.
\<close>

section \<open>Rows\<close>

record StoreRow =
  st_id :: string
  st_name :: string
  st_phone :: "string option"
  st_type :: StoreType
  st_payout_provider :: string
  st_payout_template :: string
  st_payout_bank_code :: string
  st_payout_account_enc :: "string option"
  st_region_code :: string
  st_region_detail :: string
  st_biz_no :: string

record UserRow =
  us_id :: string
  us_store :: string
  us_email :: string
  us_password_hash :: string
  us_name :: string
  us_phone :: string
  us_active :: bool
  us_failed :: int
  us_locked_until :: "instant option"
  us_created :: instant

record ClaimRow =
  c_id :: string
  c_store :: string
  c_machine :: string
  c_issue :: IssueType
  c_amount :: int
  c_description :: string
  c_phone_enc :: string
  c_phone_hash :: string
  c_bank :: string
  c_account_enc :: string
  c_account_hash :: string
  c_holder_enc :: string
  c_status :: Status
  c_risk_score :: int
  c_risk_reasons :: "RiskReason list"
  c_key :: string
  c_ip_hash :: "string option"
  c_user_agent :: string
  c_payment :: PaymentMethod
  c_last4 :: string
  c_guess :: "instant option"
  c_created :: instant
  c_resolved :: "instant option"
  c_resolved_by :: "string option"
  c_paid_at :: "instant option"
  c_payout :: string
  c_paid_amount :: "int option"

record PhotoRow =
  ph_id :: string
  ph_claim :: string
  ph_key :: string
  ph_type :: string
  ph_size :: int
  ph_expires :: instant

record FlagRow =
  fl_hash :: string
  fl_kind :: string
  fl_store :: string
  fl_status :: string
  fl_note :: string
  fl_by :: "string option"
  fl_updated :: instant

record PurchaseRow =
  pu_id :: string
  pu_store :: string
  pu_by :: "string option"
  pu_name :: string
  pu_key :: string
  pu_vendor :: string
  pu_unit :: int
  pu_qty :: int
  pu_ship :: int
  pu_at :: instant
  pu_receipt :: string
  pu_idem :: string
  pu_created :: instant

record AdjustRow =
  ad_id :: string
  ad_store :: string
  ad_by :: "string option"
  ad_key :: string
  ad_delta :: int
  ad_counted :: int
  ad_note :: string
  ad_created :: instant

record ListingRow =
  ls_id :: string
  ls_store :: string
  ls_by :: "string option"
  ls_name :: string
  ls_key :: string
  ls_kind :: ListingKind
  ls_qty :: int
  ls_price :: int
  ls_note :: string
  ls_region :: string
  ls_region_detail :: string
  ls_status :: string
  ls_reports :: int
  ls_expires :: instant
  ls_created :: instant
  ls_closed :: "instant option"

record ListingContactRow =
  lc_listing :: string
  lc_store :: string
  lc_user :: "string option"
  lc_created :: instant

record ListingReportRow =
  lr_listing :: string
  lr_store :: string
  lr_reason :: string
  lr_created :: instant

record PushRow =
  ps_id :: string
  ps_store :: string
  ps_user :: string
  ps_endpoint :: string
  ps_p256dh :: string
  ps_auth :: string
  ps_failures :: int
  ps_last_sent :: "instant option"

record db =
  t_stores :: "StoreRow list"
  t_users :: "UserRow list"
  t_machines :: "Machine list"
  t_claims :: "ClaimRow list"
  t_photos :: "PhotoRow list"
  t_events :: "Event list"
  t_flags :: "FlagRow list"
  t_purchases :: "PurchaseRow list"
  t_adjust :: "AdjustRow list"
  t_listings :: "ListingRow list"
  t_lcontacts :: "ListingContactRow list"
  t_reports :: "ListingReportRow list"
  t_push :: "PushRow list"
  t_versions :: "string list"

definition empty_db :: db where
  "empty_db = \<lparr>t_stores = [], t_users = [], t_machines = [], t_claims = [], t_photos = [],
     t_events = [], t_flags = [], t_purchases = [], t_adjust = [], t_listings = [],
     t_lcontacts = [], t_reports = [], t_push = [], t_versions = []\<rparr>"

section \<open>Statements and transactions\<close>

datatype db_error =
    ErrNotFound | ErrDuplicate | ErrLocked | DbFailure | UniqueViolation
  | CryptoFailure crypto_error | BadInput string

text \<open>A statement gives an error or a value, and the database it leaves.\<close>

type_synonym 'a sql = "db \<Rightarrow> (db_error, 'a) result \<times> db"

text \<open>
  \<open>Store.tx\<close>: the function runs inside a transaction; on its error, or when the commit
  fails, the transaction is rolled back and nothing has changed.
\<close>

definition tx :: "bool \<Rightarrow> 'a sql \<Rightarrow> 'a sql" where
  "tx commit_ok fn d =
    (case fn d of
       (Inl e, _) \<Rightarrow> (Inl e, d)
     | (Inr v, d') \<Rightarrow> if commit_ok then (Inr v, d') else (Inl DbFailure, d))"

definition and_then :: "'a sql \<Rightarrow> ('a \<Rightarrow> 'b sql) \<Rightarrow> 'b sql" where
  "and_then m f d = (case m d of (Inl e, d') \<Rightarrow> (Inl e, d') | (Inr v, d') \<Rightarrow> f v d')"

definition sql_ok :: "'a \<Rightarrow> 'a sql" where
  "sql_ok v d = (Inr v, d)"

text \<open>A list of statements, stopping at the first error.\<close>

fun run_all :: "unit sql list \<Rightarrow> unit sql" where
  "run_all [] = sql_ok ()"
| "run_all (s # ss) = and_then s (\<lambda>_. run_all ss)"

lemma tx_cases:
  "tx ok fn d = (r, d') \<Longrightarrow> (\<exists>e. r = Inl e \<and> d' = d) \<or> (\<exists>v. r = Inr v \<and> fn d = (Inr v, d') \<and> ok)"
  by (auto simp: tx_def split: prod.splits sum.splits if_splits)

lemma tx_Inr: "tx ok fn d = (Inr v, d') \<longleftrightarrow> fn d = (Inr v, d') \<and> ok"
  by (auto simp: tx_def split: prod.splits sum.splits if_splits)

lemma and_then_Inr:
  "and_then m f d = (Inr v, d') \<longleftrightarrow> (\<exists>u d1. m d = (Inr u, d1) \<and> f u d1 = (Inr v, d'))"
  by (auto simp: and_then_def split: prod.splits sum.splits)

lemma run_all_Inr_Cons:
  "run_all (s # ss) d = (Inr v, d') \<longleftrightarrow> (\<exists>u d1. s d = (Inr u, d1) \<and> run_all ss d1 = (Inr v, d'))"
  by (simp add: and_then_Inr)

lemma sql_ok_simp [simp]: "sql_ok v d = (Inr v, d)"
  by (simp add: sql_ok_def)

text \<open>\<open>crypt3\<close>: a plain text as ciphertext and lookup hash.\<close>

record Sec =
  sec_aead :: AEAD
  sec_hash :: "string \<Rightarrow> string"

definition crypt3 :: "Sec \<Rightarrow> string option \<Rightarrow> string \<Rightarrow> (db_error, string \<times> string) result" where
  "crypt3 k rnd plain =
    (case Encrypt (sec_aead k) rnd plain of
       Inl e \<Rightarrow> Inl (CryptoFailure e) | Inr enc \<Rightarrow> Inr (enc, sec_hash k plain))"

definition nilUUID :: "string \<Rightarrow> string option" where
  "nilUUID s = (if s = [] then None else Some s)"

definition coalesce :: "'a option \<Rightarrow> 'a \<Rightarrow> 'a" where
  "coalesce x y = (case x of None \<Rightarrow> y | Some v \<Rightarrow> v)"

lemma coalesce_simps [simp]: "coalesce None y = y" "coalesce (Some v) y = v"
  by (simp_all add: coalesce_def)

end
