(* ===== verification/Store_Claims.thy ===== *)
theory Store_Claims
  imports Store_Tables
begin

text \<open>
  \<^verbatim>\<open>internal/store/claim.go\<close>: filing a claim in one transaction behind an idempotency key,
  reading it back with its history, and recording a state change together with its audit
  event. Statement failures are flags; generated ids and clock readings are inputs.
\<close>

section \<open>Filing a claim\<close>

record PhotoInput =
  pi_ObjectKey :: string
  pi_ContentType :: string
  pi_SizeBytes :: int
  pi_ExpiresAt :: instant

record CreateClaimInput =
  ci_StoreID :: string
  ci_MachineID :: string
  ci_IssueType :: IssueType
  ci_AmountKRW :: int
  ci_Description :: string
  ci_PaymentMethod :: PaymentMethod
  ci_CardLast4 :: string
  ci_PaidAtGuess :: instant
  ci_Phone :: string
  ci_BankCode :: string
  ci_Account :: string
  ci_Holder :: string
  ci_Status :: Status
  ci_RiskScore :: int
  ci_RiskReasons :: "RiskReason list"
  ci_IdempotencyKey :: string
  ci_IP :: string
  ci_UserAgent :: string
  ci_Photos :: "PhotoInput list"

record CreateClaimResult =
  cr_ID :: string
  cr_Status :: Status
  cr_CreatedAt :: instant
  cr_Existing :: bool

text \<open>
  What the outside decides during one attempt: the generated ids, the database and process
  clocks, which statements fail, and what other transactions commit in between.
\<close>

record attempt_env =
  ae_claim_id :: string
  ae_photo_id :: "nat \<Rightarrow> string"
  ae_db_now :: instant
  ae_now :: instant
  ae_fail_insert :: bool
  ae_fail_photo :: "nat \<Rightarrow> bool"
  ae_fail_event :: bool
  ae_commit_ok :: bool
  ae_before_select :: "db \<Rightarrow> db"
  ae_fail_select :: bool
  ae_before_retry :: "db \<Rightarrow> db"

text \<open>\<open>INSERT \<dots> ON CONFLICT (store_id, idempotency_key) DO NOTHING RETURNING \<dots>\<close>\<close>

definition same_key :: "string \<Rightarrow> string \<Rightarrow> ClaimRow \<Rightarrow> bool" where
  "same_key storeID key r \<longleftrightarrow> c_store r = storeID \<and> c_key r = key"

definition insert_claim :: "bool \<Rightarrow> ClaimRow \<Rightarrow> ClaimRow option sql" where
  "insert_claim fail row d =
    (if fail \<or> c_amount row \<le> 0 then (Inl DbFailure, d)
     else if list_ex (same_key (c_store row) (c_key row)) (t_claims d) then (Inr None, d)
     else if list_ex (\<lambda>r. c_id r = c_id row) (t_claims d) then (Inl UniqueViolation, d)
     else if \<not> list_ex (\<lambda>m. mc_ID m = c_machine row) (t_machines d) then (Inl DbFailure, d)
     else (Inr (Some row), d\<lparr>t_claims := t_claims d @ [row]\<rparr>))"

definition insert_photo :: "bool \<Rightarrow> PhotoRow \<Rightarrow> unit sql" where
  "insert_photo fail p d =
    (if fail then (Inl DbFailure, d) else (Inr (), d\<lparr>t_photos := t_photos d @ [p]\<rparr>))"

text \<open>The event table has the actor's kind and id, not the name.\<close>

definition event_row :: "Event \<Rightarrow> Event" where
  "event_row ev = ev\<lparr>ev_Actor := (ev_Actor ev)\<lparr>act_Name := []\<rparr>\<rparr>"

definition insertEvent :: "bool \<Rightarrow> Event \<Rightarrow> unit sql" where
  "insertEvent fail ev d =
    (if fail \<or> \<not> list_ex (\<lambda>r. c_id r = ev_ClaimID ev) (t_claims d) then (Inl DbFailure, d)
     else (Inr (), d\<lparr>t_events := t_events d @ [event_row ev]\<rparr>))"

definition AppendEvent :: "bool \<Rightarrow> Event \<Rightarrow> unit sql" where
  "AppendEvent fail ev = insertEvent fail ev"

definition new_claim_row ::
  "attempt_env \<Rightarrow> CreateClaimInput \<Rightarrow> string \<times> string \<Rightarrow> string \<times> string \<Rightarrow> string \<Rightarrow> string option \<Rightarrow> ClaimRow" where
  "new_claim_row e i phone account holderEnc ipHash =
    \<lparr>c_id = ae_claim_id e, c_store = ci_StoreID i, c_machine = ci_MachineID i,
     c_issue = ci_IssueType i, c_amount = ci_AmountKRW i, c_description = ci_Description i,
     c_phone_enc = fst phone, c_phone_hash = snd phone, c_bank = ci_BankCode i,
     c_account_enc = fst account, c_account_hash = snd account, c_holder_enc = holderEnc,
     c_status = ci_Status i, c_risk_score = ci_RiskScore i, c_risk_reasons = ci_RiskReasons i,
     c_key = ci_IdempotencyKey i, c_ip_hash = ipHash, c_user_agent = ci_UserAgent i,
     c_payment = ci_PaymentMethod i, c_last4 = ci_CardLast4 i, c_guess = nilTime (ci_PaidAtGuess i),
     c_created = ae_db_now e, c_resolved = None, c_resolved_by = None, c_paid_at = None,
     c_payout = [], c_paid_amount = None\<rparr>"

definition photo_row :: "attempt_env \<Rightarrow> string \<Rightarrow> nat \<times> PhotoInput \<Rightarrow> PhotoRow" where
  "photo_row e claimID kp = (case kp of (k, p) \<Rightarrow>
     \<lparr>ph_id = ae_photo_id e k, ph_claim = claimID, ph_key = pi_ObjectKey p,
      ph_type = pi_ContentType p, ph_size = pi_SizeBytes p, ph_expires = pi_ExpiresAt p\<rparr>)"

definition create_event :: "attempt_env \<Rightarrow> string \<Rightarrow> Status \<Rightarrow> Event" where
  "create_event e claimID st = NewEvent (ae_now e) claimID
     \<lparr>act_Kind = ActorCustomer, act_ID = [], act_Name = []\<rparr> ActionCreate [] st []"

text \<open>The function that runs inside the transaction.\<close>

definition create_body :: "attempt_env \<Rightarrow> ClaimRow \<Rightarrow> PhotoInput list \<Rightarrow> CreateClaimResult sql" where
  "create_body e row photos =
    and_then (insert_claim (ae_fail_insert e) row) (\<lambda>ret.
      case ret of
        None \<Rightarrow> (\<lambda>d. (Inl ErrDuplicate, d))
      | Some r \<Rightarrow>
          and_then (run_all (map (\<lambda>kp. insert_photo (ae_fail_photo e (fst kp)) (photo_row e (c_id r) kp))
            (List.enumerate 0 photos))) (\<lambda>_.
          and_then (insertEvent (ae_fail_event e) (create_event e (c_id r) (c_status r))) (\<lambda>_.
          sql_ok \<lparr>cr_ID = c_id r, cr_Status = c_status r, cr_CreatedAt = c_created r,
                  cr_Existing = False\<rparr>)))"

definition create_tx :: "attempt_env \<Rightarrow> ClaimRow \<Rightarrow> PhotoInput list \<Rightarrow> CreateClaimResult sql" where
  "create_tx e row photos = tx (ae_commit_ok e) (create_body e row photos)"

definition claimByIdempotencyKey ::
  "bool \<Rightarrow> string \<Rightarrow> string \<Rightarrow> db \<Rightarrow> (db_error, CreateClaimResult option) result" where
  "claimByIdempotencyKey fail storeID key d =
    (if fail then Inl DbFailure
     else Inr (map_option (\<lambda>r. \<lparr>cr_ID = c_id r, cr_Status = c_status r,
         cr_CreatedAt = c_created r, cr_Existing = False\<rparr>)
       (find (same_key storeID key) (t_claims d))))"

text \<open>The loop over the attempts; the list of environments is its bound.\<close>

fun create_attempts ::
  "attempt_env list \<Rightarrow> (attempt_env \<Rightarrow> ClaimRow) \<Rightarrow> CreateClaimInput \<Rightarrow> CreateClaimResult sql" where
  "create_attempts [] mk i d = (Inl ErrDuplicate, d)"
| "create_attempts (e # es) mk i d =
    (case create_tx e (mk e) (ci_Photos i) d of
       (Inr res, d1) \<Rightarrow> (Inr res, d1)
     | (Inl err, d1) \<Rightarrow>
        if err \<noteq> ErrDuplicate then (Inl err, d1)
        else let d2 = ae_before_select e d1
             in case claimByIdempotencyKey (ae_fail_select e) (ci_StoreID i) (ci_IdempotencyKey i) d2 of
                  Inl err2 \<Rightarrow> (Inl err2, d2)
                | Inr (Some existing) \<Rightarrow> (Inr (existing\<lparr>cr_Existing := True\<rparr>), d2)
                | Inr None \<Rightarrow> create_attempts es mk i (ae_before_retry e d2))"

definition CreateClaim ::
  "Sec \<Rightarrow> string option \<times> string option \<times> string option \<Rightarrow> attempt_env \<times> attempt_env
     \<Rightarrow> CreateClaimInput \<Rightarrow> CreateClaimResult sql" where
  "CreateClaim k nonces es i d =
    (case crypt3 k (fst nonces) (ci_Phone i) of Inl err \<Rightarrow> (Inl err, d) | Inr phone \<Rightarrow>
     (case crypt3 k (fst (snd nonces)) (ci_Account i) of Inl err \<Rightarrow> (Inl err, d) | Inr account \<Rightarrow>
     (case Encrypt (sec_aead k) (snd (snd nonces)) (ci_Holder i) of
        Inl err \<Rightarrow> (Inl (CryptoFailure err), d) | Inr holderEnc \<Rightarrow>
      (let ipHash = (if ci_IP i \<noteq> [] then Some (sec_hash k (ci_IP i)) else None)
       in create_attempts [fst es, snd es]
            (\<lambda>e. new_claim_row e i phone account holderEnc ipHash) i d))))"

section \<open>Reading a claim\<close>

record ClaimDetail =
  cd_Claim :: Claim
  cd_MachineLabel :: string
  cd_MachineCode :: string
  cd_RiskReasons :: "RiskReason list"
  cd_ApprovedBy :: string
  cd_PaidBy :: string
  cd_Phone :: string
  cd_BankCode :: string
  cd_Account :: string
  cd_Holder :: string
  cd_Photos :: "PhotoRow list"
  cd_Events :: "Event list"
  cd_PhoneClaims30d :: int
  cd_PhonePaidTotal30d :: int

definition photosFor :: "string \<Rightarrow> db \<Rightarrow> PhotoRow list" where
  "photosFor claimID d = filter (\<lambda>p. ph_claim p = claimID) (t_photos d)"

text \<open>The join with \<open>users\<close> puts the actor's current name back.\<close>

definition with_name :: "db \<Rightarrow> Event \<Rightarrow> Event" where
  "with_name d e = e\<lparr>ev_Actor := (ev_Actor e)\<lparr>act_Name :=
     (case find (\<lambda>u. us_id u = act_ID (ev_Actor e)) (t_users d) of None \<Rightarrow> [] | Some u \<Rightarrow> us_name u)\<rparr>\<rparr>"

definition eventsFor :: "string \<Rightarrow> db \<Rightarrow> Event list" where
  "eventsFor claimID d =
     map (with_name d) (sort_key ev_At (filter (\<lambda>e. ev_ClaimID e = claimID) (t_events d)))"

text \<open>A row of \<open>claims\<close> as the domain's claim.\<close>

definition claim_of :: "ClaimRow \<Rightarrow> Claim" where
  "claim_of r = \<lparr>cl_ID = c_id r, cl_StoreID = c_store r, cl_MachineID = c_machine r,
     cl_IssueType = c_issue r, cl_PaymentMethod = c_payment r, cl_AmountKRW = c_amount r,
     cl_Description = c_description r, cl_CardLast4 = c_last4 r, cl_PaidAtGuess = deref (c_guess r),
     cl_Status = c_status r, cl_RiskScore = c_risk_score r, cl_CreatedAt = c_created r,
     cl_ResolvedAt = deref (c_resolved r), cl_PaidAt = deref (c_paid_at r),
     cl_PayoutMethod = c_payout r, cl_PaidAmountKRW = coalesce (c_paid_amount r) 0\<rparr>"

text \<open>Who approved and who paid: the last transition event into each state.\<close>

definition event_who :: "Event \<Rightarrow> string" where
  "event_who e = (if act_Name (ev_Actor e) = [] \<and> act_Kind (ev_Actor e) = ActorLink
     then ''Slack '' @ u8 [0xB9C1, 0xD06C] else act_Name (ev_Actor e))"

definition handler_of :: "Event \<Rightarrow> string \<times> string \<Rightarrow> string \<times> string" where
  "handler_of e acc =
    (if ev_Action e \<noteq> ActionTransition then acc
     else if ev_To e = StatusApproved then (event_who e, snd acc)
     else if ev_To e = StatusPaid then (fst acc, event_who e) else acc)"

text \<open>What was paid for a claim: the amount recorded, or else the one asked for.\<close>

definition paid_sum :: "ClaimRow list \<Rightarrow> int" where
  "paid_sum rs = sum_list (map (\<lambda>r. coalesce (c_paid_amount r) (c_amount r))
     (filter (\<lambda>r. c_status r = StatusPaid) rs))"

definition phone_history :: "string \<Rightarrow> instant \<Rightarrow> db \<Rightarrow> int \<times> int" where
  "phone_history hash now d =
    (let rs = filter (\<lambda>r. c_phone_hash r = hash \<and> now - 30 * Day < c_created r) (t_claims d)
     in (int (length rs), paid_sum rs))"

definition find_claim :: "string \<Rightarrow> string \<Rightarrow> db \<Rightarrow> ClaimRow option" where
  "find_claim storeID cid d = find (\<lambda>r. c_id r = cid \<and> c_store r = storeID) (t_claims d)"

definition find_machine :: "string \<Rightarrow> db \<Rightarrow> Machine option" where
  "find_machine mid d = find (\<lambda>m. mc_ID m = mid) (t_machines d)"

text \<open>
  \<open>fail\<close> numbers the queries of the call; \<open>now\<close> is the database clock and \<open>at\<close> the process
  clock of the audit event. A view that cannot be recorded does not stop the read.
\<close>

definition ClaimByID ::
  "Sec \<Rightarrow> (nat \<Rightarrow> bool) \<Rightarrow> instant \<Rightarrow> instant \<Rightarrow> string \<Rightarrow> string \<Rightarrow> Actor \<Rightarrow> ClaimDetail sql" where
  "ClaimByID k fail now at storeID cid by' d =
    (if fail 0 then (Inl DbFailure, d) else
     case find_claim storeID cid d of None \<Rightarrow> (Inl ErrNotFound, d) | Some r \<Rightarrow>
     (case find_machine (c_machine r) d of None \<Rightarrow> (Inl ErrNotFound, d) | Some m \<Rightarrow>
     (case Decrypt (sec_aead k) (c_phone_enc r) of Inl e \<Rightarrow> (Inl (CryptoFailure e), d) | Inr phone \<Rightarrow>
     (case Decrypt (sec_aead k) (c_account_enc r) of Inl e \<Rightarrow> (Inl (CryptoFailure e), d) | Inr account \<Rightarrow>
     (case Decrypt (sec_aead k) (c_holder_enc r) of Inl e \<Rightarrow> (Inl (CryptoFailure e), d) | Inr holder \<Rightarrow>
      if fail 1 \<or> fail 2 \<or> fail 3 then (Inl DbFailure, d)
      else
        (let evs = eventsFor cid d;
             (approvedBy, paidBy) = fold handler_of evs ([], []);
             (n, total) = phone_history (c_phone_hash r) now d;
             det = \<lparr>cd_Claim = claim_of r, cd_MachineLabel = mc_Label m, cd_MachineCode = mc_Code m,
                    cd_RiskReasons = c_risk_reasons r, cd_ApprovedBy = approvedBy, cd_PaidBy = paidBy,
                    cd_Phone = phone, cd_BankCode = c_bank r, cd_Account = account, cd_Holder = holder,
                    cd_Photos = photosFor cid d, cd_Events = evs,
                    cd_PhoneClaims30d = n, cd_PhonePaidTotal30d = total\<rparr>;
             d' = (if act_Kind by' = [] then d
                   else snd (AppendEvent (fail 4) (NewEvent at cid by' ActionViewContact [] []
                     (u8 [0xACC4, 0xC88C, 0xB7, 0xC5F0, 0xB77D, 0xCC98, 0x20, 0xC5F4, 0xB78C])) d))
         in (Inr det, d')))))))"

section \<open>Changing its state\<close>

definition update_claim :: "Claim \<Rightarrow> Event \<Rightarrow> ClaimRow \<Rightarrow> ClaimRow" where
  "update_claim c ev r = r\<lparr>
     c_status := cl_Status c,
     c_resolved := (case nilTime (cl_ResolvedAt c) of None \<Rightarrow> c_resolved r | Some t \<Rightarrow> Some t),
     c_paid_at := (case nilTime (cl_PaidAt c) of None \<Rightarrow> c_paid_at r | Some t \<Rightarrow> Some t),
     c_payout := (if cl_PayoutMethod c = [] then c_payout r else cl_PayoutMethod c),
     c_paid_amount := (if cl_PaidAmountKRW c = 0 then c_paid_amount r else Some (cl_PaidAmountKRW c)),
     c_resolved_by := (case nilUUID (act_ID (ev_Actor ev)) of None \<Rightarrow> c_resolved_by r | Some u \<Rightarrow> Some u)\<rparr>"

definition matches_update :: "string \<Rightarrow> Claim \<Rightarrow> Event \<Rightarrow> ClaimRow \<Rightarrow> bool" where
  "matches_update storeID c ev r \<longleftrightarrow>
     c_id r = cl_ID c \<and> c_store r = storeID \<and> c_status r = ev_From ev"

text \<open>\<open>UPDATE claims \<dots> WHERE id = \<dots> AND store_id = \<dots> AND status = \<dots>\<close>; the value is the row count.\<close>

definition update_status :: "bool \<Rightarrow> string \<Rightarrow> Claim \<Rightarrow> Event \<Rightarrow> nat sql" where
  "update_status fail storeID c ev d =
    (if fail \<or> cl_PaidAmountKRW c < 0 \<and> list_ex (matches_update storeID c ev) (t_claims d)
     then (Inl DbFailure, d)
     else (Inr (length (filter (matches_update storeID c ev) (t_claims d))),
           d\<lparr>t_claims := map (\<lambda>r. if matches_update storeID c ev r then update_claim c ev r else r)
               (t_claims d)\<rparr>))"

definition ApplyTransition ::
  "(nat \<Rightarrow> bool) \<Rightarrow> bool \<Rightarrow> string \<Rightarrow> Claim \<Rightarrow> Event \<Rightarrow> unit sql" where
  "ApplyTransition fail commit_ok storeID c ev = tx commit_ok
    (and_then (update_status (fail 0) storeID c ev) (\<lambda>affected.
       if affected = 0 then (\<lambda>d. (Inl ErrNotFound, d)) else insertEvent (fail 1) ev))"


section \<open>What the statements do\<close>

lemma insert_claim_Inr:
  "insert_claim fail row d = (Inr ret, d') \<longleftrightarrow>
     \<not> fail \<and> 0 < c_amount row \<and>
     (if \<exists>r \<in> set (t_claims d). same_key (c_store row) (c_key row) r then ret = None \<and> d' = d
      else c_id row \<notin> c_id ` set (t_claims d) \<and> c_machine row \<in> mc_ID ` set (t_machines d)
        \<and> ret = Some row \<and> d' = d\<lparr>t_claims := t_claims d @ [row]\<rparr>)"
  unfolding insert_claim_def list_ex_key by (auto simp: list_ex_iff)

lemma insert_photo_Inr:
  "insert_photo fail p d = (Inr v, d') \<longleftrightarrow> \<not> fail \<and> d' = d\<lparr>t_photos := t_photos d @ [p]\<rparr>"
  by (cases v) (auto simp: insert_photo_def)

lemma insert_photos:
  "run_all (map (\<lambda>kp. insert_photo (f kp) (g kp)) kps) d = (Inr v, d') \<Longrightarrow>
     d' = d\<lparr>t_photos := t_photos d @ map g kps\<rparr>"
proof (induction kps arbitrary: d)
  case Nil
  then show ?case by simp
next
  case (Cons kp kps)
  from Cons.prems obtain d1 where "d1 = d\<lparr>t_photos := t_photos d @ [g kp]\<rparr>"
    and "run_all (map (\<lambda>kp. insert_photo (f kp) (g kp)) kps) d1 = (Inr v, d')"
    by (auto simp: run_all_Inr_Cons insert_photo_Inr simp del: run_all.simps)
  with Cons.IH [of d1] show ?case by simp
qed

lemma insertEvent_Inr:
  "insertEvent fail ev d = (Inr v, d') \<longleftrightarrow>
     \<not> fail \<and> ev_ClaimID ev \<in> c_id ` set (t_claims d) \<and> d' = d\<lparr>t_events := t_events d @ [event_row ev]\<rparr>"
  unfolding insertEvent_def list_ex_key by (cases v) auto

lemma insertEvent_db:
  "snd (insertEvent fail ev d) = d
   \<or> (ev_ClaimID ev \<in> c_id ` set (t_claims d)
      \<and> snd (insertEvent fail ev d) = d\<lparr>t_events := t_events d @ [event_row ev]\<rparr>)"
  unfolding insertEvent_def list_ex_key by auto

text \<open>The only two outcomes of the filing transaction.\<close>

definition created_db :: "attempt_env \<Rightarrow> ClaimRow \<Rightarrow> PhotoInput list \<Rightarrow> db \<Rightarrow> db" where
  "created_db e row photos d = d\<lparr>t_claims := t_claims d @ [row],
     t_photos := t_photos d @ map (photo_row e (c_id row)) (List.enumerate 0 photos),
     t_events := t_events d @ [event_row (create_event e (c_id row) (c_status row))]\<rparr>"

lemma create_tx_Inr:
  assumes "create_tx e row photos d = (Inr res, d')"
  shows "d' = created_db e row photos d"
    and "res = \<lparr>cr_ID = c_id row, cr_Status = c_status row, cr_CreatedAt = c_created row, cr_Existing = False\<rparr>"
    and "\<forall>r \<in> set (t_claims d). \<not> same_key (c_store row) (c_key row) r"
    and "c_id row \<notin> c_id ` set (t_claims d)" and "0 < c_amount row"
proof -
  from assms obtain ret d1 where ins: "insert_claim (ae_fail_insert e) row d = (Inr ret, d1)"
    and rest: "(case ret of None \<Rightarrow> (\<lambda>d. (Inl ErrDuplicate, d))
      | Some r \<Rightarrow>
          and_then (run_all (map (\<lambda>kp. insert_photo (ae_fail_photo e (fst kp)) (photo_row e (c_id r) kp))
            (List.enumerate 0 photos))) (\<lambda>_.
          and_then (insertEvent (ae_fail_event e) (create_event e (c_id r) (c_status r))) (\<lambda>_.
          sql_ok \<lparr>cr_ID = c_id r, cr_Status = c_status r, cr_CreatedAt = c_created r,
                  cr_Existing = False\<rparr>))) d1 = (Inr res, d')"
    by (auto simp: create_tx_def tx_Inr create_body_def and_then_Inr)
  from rest obtain r where ret: "ret = Some r" by (cases ret) auto
  with ins have row: "r = row" "d1 = d\<lparr>t_claims := t_claims d @ [row]\<rparr>"
    "\<forall>r \<in> set (t_claims d). \<not> same_key (c_store row) (c_key row) r"
    "c_id row \<notin> c_id ` set (t_claims d)" "0 < c_amount row"
    by (auto simp: insert_claim_Inr split: if_splits)
  show "\<forall>r \<in> set (t_claims d). \<not> same_key (c_store row) (c_key row) r"
    "c_id row \<notin> c_id ` set (t_claims d)" "0 < c_amount row" by (fact row)+
  from rest ret row(1) obtain u2 d2 u3 d3 where
    ph: "run_all (map (\<lambda>kp. insert_photo (ae_fail_photo e (fst kp)) (photo_row e (c_id row) kp))
            (List.enumerate 0 photos)) d1 = (Inr u2, d2)"
    and ev: "insertEvent (ae_fail_event e) (create_event e (c_id row) (c_status row)) d2 = (Inr u3, d3)"
    and fin: "sql_ok \<lparr>cr_ID = c_id row, cr_Status = c_status row, cr_CreatedAt = c_created row,
                  cr_Existing = False\<rparr> d3 = (Inr res, d')"
    by (auto simp: and_then_Inr)
  from insert_photos [OF ph] have d2: "d2 = d1\<lparr>t_photos := t_photos d1
      @ map (photo_row e (c_id row)) (List.enumerate 0 photos)\<rparr>" .
  from ev fin d2 row(2) show "d' = created_db e row photos d"
    by (simp add: insertEvent_Inr created_db_def)
  from fin show "res = \<lparr>cr_ID = c_id row, cr_Status = c_status row, cr_CreatedAt = c_created row,
      cr_Existing = False\<rparr>" by simp
qed

lemma create_tx_db:
  "create_tx e row photos d = (r, d') \<Longrightarrow> d' = d \<or> (\<exists>res. r = Inr res)"
  using tx_cases unfolding create_tx_def by blast

text \<open>A successful state change touches the one row it is about and appends its event.\<close>

definition applied_db :: "string \<Rightarrow> Claim \<Rightarrow> Event \<Rightarrow> db \<Rightarrow> db" where
  "applied_db storeID c ev d = d\<lparr>
     t_claims := map (\<lambda>r. if matches_update storeID c ev r then update_claim c ev r else r) (t_claims d),
     t_events := t_events d @ [event_row ev]\<rparr>"

lemma ApplyTransition_Inr:
  assumes "ApplyTransition fail ok storeID c ev d = (Inr u, d')"
  shows "d' = applied_db storeID c ev d" and "\<exists>r \<in> set (t_claims d). matches_update storeID c ev r"
    and "ev_ClaimID ev \<in> c_id ` set (t_claims d)"
proof -
  from assms obtain n d1 where upd: "update_status (fail 0) storeID c ev d = (Inr n, d1)"
    and n: "n \<noteq> 0" and ev: "insertEvent (fail 1) ev d1 = (Inr u, d')"
    by (auto simp: ApplyTransition_def tx_Inr and_then_Inr split: if_splits)
  from upd have d1: "d1 = d\<lparr>t_claims := map (\<lambda>r. if matches_update storeID c ev r then update_claim c ev r else r)
      (t_claims d)\<rparr>" and len: "n = length (filter (matches_update storeID c ev) (t_claims d))"
    by (auto simp: update_status_def split: if_splits)
  from ev d1 show "d' = applied_db storeID c ev d" by (simp add: insertEvent_Inr applied_db_def)
  from n len show "\<exists>r \<in> set (t_claims d). matches_update storeID c ev r"
    by (auto simp: filter_empty_conv)
  have "c_id (update_claim c ev r) = c_id r" for r by (simp add: update_claim_def)
  then show "ev_ClaimID ev \<in> c_id ` set (t_claims d)"
    using ev d1 by (force simp: insertEvent_Inr split: if_splits)
qed

lemma ApplyTransition_db:
  "ApplyTransition fail ok storeID c ev d = (r, d') \<Longrightarrow> d' = d \<or> r = Inr ()"
  unfolding ApplyTransition_def using tx_cases by fastforce

section \<open>Idempotency\<close>

text \<open>
  What other transactions may do to the claims in between: change rows, add rows, but never
  remove one or change its id or key (no statement of the program does).
\<close>

definition idkey :: "ClaimRow \<Rightarrow> string \<times> string \<times> string" where
  "idkey r = (c_id r, c_store r, c_key r)"

definition extends :: "db \<Rightarrow> db \<Rightarrow> bool" where
  "extends d d' \<longleftrightarrow> take (length (t_claims d)) (map idkey (t_claims d')) = map idkey (t_claims d)"

definition friendly :: "attempt_env \<Rightarrow> bool" where
  "friendly e \<longleftrightarrow> (\<forall>d. extends d (ae_before_select e d)) \<and> (\<forall>d. extends d (ae_before_retry e d))"

definition quiet :: "attempt_env \<Rightarrow> bool" where
  "quiet e \<longleftrightarrow> (\<forall>d. ae_before_select e d = d) \<and> (\<forall>d. ae_before_retry e d = d)"

text \<open>The claim a key leads to.\<close>

definition key_lookup :: "string \<Rightarrow> string \<Rightarrow> db \<Rightarrow> string option" where
  "key_lookup storeID key d = map_option c_id (find (same_key storeID key) (t_claims d))"

lemma key_lookup_idkey:
  "key_lookup s k d = map_option fst (find (\<lambda>x. snd x = (s, k)) (map idkey (t_claims d)))"
proof -
  have "map_option c_id (find (same_key s k) rs) = map_option fst (find (\<lambda>x. snd x = (s, k)) (map idkey rs))"
    for rs by (induction rs) (auto simp: same_key_def idkey_def)
  then show ?thesis by (simp add: key_lookup_def)
qed

lemma find_append: "find P (xs @ ys) = (case find P xs of None \<Rightarrow> find P ys | Some x \<Rightarrow> Some x)"
  by (induction xs) auto

lemma key_lookup_extends:
  assumes "extends d d'" and "key_lookup s k d = Some cid"
  shows "key_lookup s k d' = Some cid"
proof -
  from assms(1) obtain ex where "map idkey (t_claims d') = map idkey (t_claims d) @ ex"
    unfolding extends_def by (metis append_take_drop_id)
  with assms(2) show ?thesis by (auto simp: key_lookup_idkey find_append)
qed

lemma extends_refl [simp]: "extends d d"
  by (simp add: extends_def)

lemma create_tx_taken:
  assumes "key_lookup (c_store row) (c_key row) d = Some cid"
  shows "\<exists>e2. create_tx e row photos d = (Inl e2, d)"
proof (cases "create_tx e row photos d")
  case (Pair r d')
  from assms obtain r0 where "r0 \<in> set (t_claims d)" "same_key (c_store row) (c_key row) r0"
    by (auto simp: key_lookup_def dest: find_Some_in)
  then have "r \<noteq> Inr v" for v using create_tx_Inr(3) Pair by blast
  then show ?thesis using Pair create_tx_db [OF Pair] by (cases r) auto
qed

lemma attempts_find:
  assumes "create_attempts es mk i d = (Inr res, d')"
    and "\<And>e. e \<in> set es \<Longrightarrow> friendly e"
    and "\<And>e. c_store (mk e) = ci_StoreID i \<and> c_key (mk e) = ci_IdempotencyKey i"
  shows "key_lookup (ci_StoreID i) (ci_IdempotencyKey i) d' = Some (cr_ID res)"
  using assms(1,2)
proof (induction es arbitrary: d)
  case Nil
  then show ?case by simp
next
  case (Cons e es)
  let ?s = "ci_StoreID i" and ?k = "ci_IdempotencyKey i"
  obtain r1 d1 where t: "create_tx e (mk e) (ci_Photos i) d = (r1, d1)" by fastforce
  show ?case
  proof (cases r1)
    case (Inr v)
    with Cons.prems t have v: "v = res" "d1 = d'" by simp_all
    note tx = create_tx_Inr [OF t [unfolded Inr]]
    have "find (same_key ?s ?k) (t_claims d) = None"
      using tx(3) assms(3) [of e] by (auto simp: find_None_iff)
    then have "find (same_key ?s ?k) (t_claims d @ [mk e]) = Some (mk e)"
      using assms(3) [of e] by (simp add: find_append same_key_def)
    then show ?thesis using tx(1,2) v by (simp add: key_lookup_def created_db_def)
  next
    case (Inl err)
    with t create_tx_db [OF t] have "d1 = d" by auto
    let ?d2 = "ae_before_select e d"
    from Cons.prems t Inl \<open>d1 = d\<close> have err: "err = ErrDuplicate" by (auto split: if_splits)
    show ?thesis
    proof (cases "claimByIdempotencyKey (ae_fail_select e) ?s ?k ?d2")
      case (Inl e2)
      with Cons.prems t \<open>r1 = Inl err\<close> \<open>d1 = d\<close> err show ?thesis by (simp add: Let_def)
    next
      case (Inr o2)
      show ?thesis
      proof (cases o2)
        case None
        with Cons.prems t \<open>r1 = Inl err\<close> \<open>d1 = d\<close> err Inr
        have "create_attempts es mk i (ae_before_retry e ?d2) = (Inr res, d')"
          by (simp add: Let_def)
        with Cons.IH Cons.prems(2) show ?thesis by simp
      next
        case (Some ex)
        with Cons.prems t \<open>r1 = Inl err\<close> \<open>d1 = d\<close> err Inr
        have "res = ex\<lparr>cr_Existing := True\<rparr>" "d' = ?d2" by (simp_all add: Let_def)
        with Inr Some show ?thesis
          by (auto simp: claimByIdempotencyKey_def key_lookup_def split: if_splits)
      qed
    qed
  qed
qed

lemma CreateClaim_attempts:
  assumes "CreateClaim k nonces es i d = (Inr res, d')"
  shows "\<exists>mk. create_attempts [fst es, snd es] mk i d = (Inr res, d')
    \<and> (\<forall>e. \<exists>ph ac ho ip. mk e = new_claim_row e i ph ac ho ip)"
  using assms unfolding CreateClaim_def Let_def by (fastforce split: sum.splits)

text \<open>A claim that is new was written by one of the attempts.\<close>

lemma created_by_attempt:
  assumes "create_attempts es mk i d = (Inr res, d')" "\<not> cr_Existing res"
  shows "\<exists>e d0. create_tx e (mk e) (ci_Photos i) d0 = (Inr res, d')"
  using assms
proof (induction es arbitrary: d)
  case (Cons e es)
  obtain r d1 where tx: "create_tx e (mk e) (ci_Photos i) d = (r, d1)" by fastforce
  show ?case
  proof (cases r)
    case (Inr res1)
    with Cons.prems tx show ?thesis by (auto intro!: exI [of _ e] exI [of _ d])
  next
    case (Inl err)
    with Cons.prems tx Cons.IH show ?thesis
      by (auto simp: Let_def split: if_splits sum.splits option.splits)
  qed
qed simp

lemma create_tx_machine:
  assumes "create_tx e row photos d = (Inr res, d')"
  shows "c_machine row \<in> mc_ID ` set (t_machines d)"
  using assms unfolding create_tx_def create_body_def tx_Inr and_then_Inr
  by (auto simp: insert_claim_Inr sql_ok_simp split: if_splits option.splits)

text \<open>The row of a new claim: what was typed, sealed.\<close>

definition sealed :: "Sec \<Rightarrow> string option \<Rightarrow> string \<Rightarrow> string \<Rightarrow> bool" where
  "sealed k nonce plain ct \<longleftrightarrow> Encrypt (sec_aead k) nonce plain = Inr ct"

lemma CreateClaim_row:
  assumes "CreateClaim k nonces es i d = (Inr res, d')" "\<not> cr_Existing res"
  shows "\<exists>e d0 row. d' = created_db e row (ci_Photos i) d0
    \<and> c_id row \<notin> c_id ` set (t_claims d0) \<and> c_machine row \<in> mc_ID ` set (t_machines d0) \<and> 0 < c_amount row
    \<and> cr_ID res = c_id row \<and> c_store row = ci_StoreID i \<and> c_amount row = ci_AmountKRW i
    \<and> c_payment row = ci_PaymentMethod i \<and> c_bank row = ci_BankCode i \<and> c_status row = ci_Status i
    \<and> c_paid_amount row = None
    \<and> sealed k (fst nonces) (ci_Phone i) (c_phone_enc row)
    \<and> sealed k (fst (snd nonces)) (ci_Account i) (c_account_enc row)
    \<and> sealed k (snd (snd nonces)) (ci_Holder i) (c_holder_enc row)"
proof -
  from assms(1) obtain ph ac ho ip where
    crypt: "crypt3 k (fst nonces) (ci_Phone i) = Inr ph" "crypt3 k (fst (snd nonces)) (ci_Account i) = Inr ac"
      "Encrypt (sec_aead k) (snd (snd nonces)) (ci_Holder i) = Inr ho"
    and run: "create_attempts [fst es, snd es] (\<lambda>e. new_claim_row e i ph ac ho ip) i d = (Inr res, d')"
    unfolding CreateClaim_def Let_def by (fastforce split: sum.splits)
  from created_by_attempt [OF run assms(2)] obtain e d0 where
    tx: "create_tx e (new_claim_row e i ph ac ho ip) (ci_Photos i) d0 = (Inr res, d')" by blast
  note c = create_tx_Inr [OF tx] create_tx_machine [OF tx]
  have "sealed k (fst nonces) (ci_Phone i) (fst ph)" "sealed k (fst (snd nonces)) (ci_Account i) (fst ac)"
    "sealed k (snd (snd nonces)) (ci_Holder i) ho"
    using crypt by (auto simp: crypt3_def sealed_def split: sum.splits)
  with c show ?thesis
    by (intro exI [of _ e] exI [of _ d0] exI [of _ "new_claim_row e i ph ac ho ip"]) (simp add: new_claim_row_def)
qed

lemma CreateClaim_lookup:
  assumes "CreateClaim k nonces es i d = (Inr res, d')" and "friendly (fst es)" and "friendly (snd es)"
  shows "key_lookup (ci_StoreID i) (ci_IdempotencyKey i) d' = Some (cr_ID res)"
proof -
  from CreateClaim_attempts [OF assms(1)] obtain mk where
    a: "create_attempts [fst es, snd es] mk i d = (Inr res, d')"
    and mk: "\<forall>e. \<exists>ph ac ho ip. mk e = new_claim_row e i ph ac ho ip" by blast
  have "c_store (mk e) = ci_StoreID i \<and> c_key (mk e) = ci_IdempotencyKey i" for e
  proof -
    from mk obtain ph ac ho ip where "mk e = new_claim_row e i ph ac ho ip" by blast
    then show ?thesis by (simp add: new_claim_row_def)
  qed
  from attempts_find [OF a _ this] assms(2,3) show ?thesis by auto
qed

text \<open>
  C6. Filing twice files once: once a claim was accepted under a key, every later accepted
  call of the same store with the same key, from any other form and through any retries and
  interleaved transactions that neither remove claims nor rename their keys, answers with the
  id of that first claim, marked as existing; and when nothing interferes it leaves the
  database as it found it.
\<close>

theorem CreateClaim_idempotent:
  assumes first: "CreateClaim k1 nonces1 es1 i1 d0 = (Inr res1, d1)"
    and later: "extends d1 d2" "CreateClaim k2 nonces2 es2 i2 d2 = (Inr res2, d3)"
    and key: "ci_StoreID i2 = ci_StoreID i1" "ci_IdempotencyKey i2 = ci_IdempotencyKey i1"
    and env: "friendly (fst es1)" "friendly (snd es1)" "friendly (fst es2)" "friendly (snd es2)"
  shows "cr_ID res2 = cr_ID res1 \<and> cr_Existing res2 \<and> (quiet (fst es2) \<longrightarrow> d3 = d2)"
proof -
  let ?s = "ci_StoreID i1" and ?k = "ci_IdempotencyKey i1"
  have l2: "key_lookup ?s ?k d2 = Some (cr_ID res1)"
    using key_lookup_extends [OF later(1) CreateClaim_lookup [OF first env(1,2)]] .
  from CreateClaim_attempts [OF later(2)] obtain mk where
    a: "create_attempts [fst es2, snd es2] mk i2 d2 = (Inr res2, d3)"
    and mk: "\<forall>e. \<exists>ph ac ho ip. mk e = new_claim_row e i2 ph ac ho ip" by blast
  from mk obtain ph ac ho ip where "mk (fst es2) = new_claim_row (fst es2) i2 ph ac ho ip" by blast
  then have row: "c_store (mk (fst es2)) = ?s" "c_key (mk (fst es2)) = ?k"
    by (simp_all add: new_claim_row_def key)
  obtain e2 where t: "create_tx (fst es2) (mk (fst es2)) (ci_Photos i2) d2 = (Inl e2, d2)"
    using create_tx_taken [of "mk (fst es2)" d2 "cr_ID res1" "fst es2" "ci_Photos i2"] l2 row by auto
  let ?d = "ae_before_select (fst es2) d2"
  have l3: "key_lookup ?s ?k ?d = Some (cr_ID res1)"
    using key_lookup_extends [OF _ l2] env(3) by (simp add: friendly_def)
  then obtain r where r: "find (same_key ?s ?k) (t_claims ?d) = Some r" "c_id r = cr_ID res1"
    by (auto simp: key_lookup_def)
  with a t key have "cr_ID res2 = cr_ID res1 \<and> cr_Existing res2 \<and> d3 = ?d"
    by (auto simp: Let_def claimByIdempotencyKey_def split: if_splits)
  then show ?thesis by (simp add: quiet_def)
qed

definition demo_sec :: Sec where
  "demo_sec = \<lparr>sec_aead = demo_aead, sec_hash = rev\<rparr>"

definition demo_env :: "string \<Rightarrow> attempt_env" where
  "demo_env cid = \<lparr>ae_claim_id = cid, ae_photo_id = (\<lambda>k. Itoa (int k)), ae_db_now = 1000, ae_now = 1000,
     ae_fail_insert = False, ae_fail_photo = (\<lambda>_. False), ae_fail_event = False, ae_commit_ok = True,
     ae_before_select = (\<lambda>d. d), ae_fail_select = False, ae_before_retry = (\<lambda>d. d)\<rparr>"

definition demo_input :: CreateClaimInput where
  "demo_input = \<lparr>ci_StoreID = ''s1'', ci_MachineID = ''m1'', ci_IssueType = ''cash_eaten'',
     ci_AmountKRW = 3000, ci_Description = [], ci_PaymentMethod = PaymentCash, ci_CardLast4 = [],
     ci_PaidAtGuess = zero_time, ci_Phone = ''01012345678'', ci_BankCode = ''088'',
     ci_Account = ''110123456789'', ci_Holder = ''Kim'', ci_Status = StatusPending, ci_RiskScore = 0,
     ci_RiskReasons = [], ci_IdempotencyKey = ''key-1'', ci_IP = [], ci_UserAgent = [],
     ci_Photos = [\<lparr>pi_ObjectKey = ''p/1.jpg'', pi_ContentType = ''image/jpeg'', pi_SizeBytes = 10,
       pi_ExpiresAt = 2000\<rparr>]\<rparr>"

definition demo_db :: db where
  "demo_db = empty_db\<lparr>t_machines := [\<lparr>mc_ID = ''m1'', mc_StoreID = ''s1'', mc_Code = ''ABCDEF'',
     mc_Label = ''3'', mc_Location = [], mc_Active = True\<rparr>]\<rparr>"

definition demo_file :: "string \<Rightarrow> db \<Rightarrow> (db_error, CreateClaimResult) result \<times> db" where
  "demo_file cid = CreateClaim demo_sec (Some ''ab'', Some ''cd'', Some ''ef'')
     (demo_env cid, demo_env cid) demo_input"

lemmas demo_eval = demo_file_def CreateClaim_def crypt3_def Encrypt_def demo_sec_def demo_aead_def
  demo_env_def demo_input_def demo_db_def empty_db_def create_tx_def create_body_def tx_def
  and_then_def insert_claim_def insert_photo_def insertEvent_def new_claim_row_def
  create_event_def NewEvent_def photo_row_def Let_def

lemma demo_first: "\<exists>d1. demo_file ''c1'' demo_db = (Inr \<lparr>cr_ID = ''c1'', cr_Status = StatusPending,
    cr_CreatedAt = 1000, cr_Existing = False\<rparr>, d1) \<and> length (t_claims d1) = 1 \<and> length (t_photos d1) = 1"
  by (simp add: demo_eval)

lemma demo_second: "is_ok (fst (demo_file ''c2'' (snd (demo_file ''c1'' demo_db))))"
  by (simp add: demo_eval claimByIdempotencyKey_def same_key_def)

lemma CreateClaim_idempotent_witness:
  "\<exists>d1 res2. demo_file ''c1'' demo_db = (Inr \<lparr>cr_ID = ''c1'', cr_Status = StatusPending,
       cr_CreatedAt = 1000, cr_Existing = False\<rparr>, d1)
     \<and> demo_file ''c2'' d1 = (Inr res2, d1) \<and> cr_ID res2 = ''c1'' \<and> cr_Existing res2"
proof -
  from demo_first obtain d1 where d1: "demo_file ''c1'' demo_db = (Inr \<lparr>cr_ID = ''c1'',
      cr_Status = StatusPending, cr_CreatedAt = 1000, cr_Existing = False\<rparr>, d1)" by blast
  have fr: "friendly (demo_env x)" "quiet (demo_env x)" for x
    by (simp_all add: friendly_def quiet_def demo_env_def)
  obtain res2 d3 where second: "demo_file ''c2'' d1 = (Inr res2, d3)"
    using demo_second d1 by (cases "demo_file ''c2'' d1") (auto elim: is_okE)
  from CreateClaim_idempotent [OF d1 [unfolded demo_file_def] extends_refl second [unfolded demo_file_def]]
  have "cr_ID res2 = ''c1'' \<and> cr_Existing res2 \<and> d3 = d1" using fr by simp
  with d1 second show ?thesis by blast
qed

section \<open>All or nothing\<close>

lemma quiet_attempts:
  assumes "\<And>e. e \<in> set es \<Longrightarrow> quiet e" and "create_attempts es mk i d = (r, d')"
  shows "case r of Inl _ \<Rightarrow> d' = d
    | Inr res \<Rightarrow> (if cr_Existing res then d' = d
        else (\<exists>e \<in> set es. d' = created_db e (mk e) (ci_Photos i) d \<and> cr_ID res = c_id (mk e)))"
  using assms
proof (induction es arbitrary: d)
  case Nil
  then show ?case by auto
next
  case (Cons e es)
  obtain r1 d1 where t: "create_tx e (mk e) (ci_Photos i) d = (r1, d1)" by fastforce
  have q: "ae_before_select e x = x" "ae_before_retry e x = x" for x
    using Cons.prems(1) [of e] by (simp_all add: quiet_def)
  show ?case
  proof (cases r1)
    case (Inr v)
    note tx = create_tx_Inr [OF t [unfolded Inr]]
    from Cons.prems(2) t Inr have "r = Inr v" "d' = d1" by simp_all
    with tx(1,2) show ?thesis by auto
  next
    case (Inl err)
    with t create_tx_db [OF t] have d1: "d1 = d" by auto
    consider "r = Inl err" "d' = d" | e2 where "r = Inl e2" "d' = d"
      | ex where "r = Inr (ex\<lparr>cr_Existing := True\<rparr>)" "d' = d"
      | "create_attempts es mk i d = (r, d')"
      using Cons.prems(2) t Inl d1 q by (auto simp: Let_def split: if_splits sum.splits option.splits)
    then show ?thesis
    proof cases
      case 4
      from Cons.IH [OF Cons.prems(1) 4] show ?thesis by (auto split: sum.splits)
    qed auto
  qed
qed

text \<open>
  C19. Filing is all or nothing: when no other transaction interferes, a failed call, at
  whatever statement it failed, leaves the database unchanged; an accepted one that is not a
  repetition adds exactly the claim's row, its photos and its creation event, with the
  amount, the state and the key of the input and nothing paid; a repetition adds nothing.
\<close>

theorem CreateClaim_all_or_nothing:
  assumes "quiet (fst es)" and "quiet (snd es)"
  shows "case CreateClaim k nonces es i d of
      (Inl err, d') \<Rightarrow> d' = d
    | (Inr res, d') \<Rightarrow> (if cr_Existing res then d' = d
        else (\<exists>e row. d' = created_db e row (ci_Photos i) d \<and> c_id row = cr_ID res
          \<and> c_store row = ci_StoreID i \<and> c_key row = ci_IdempotencyKey i
          \<and> c_amount row = ci_AmountKRW i \<and> c_status row = ci_Status i
          \<and> c_paid_at row = None \<and> c_paid_amount row = None))"
proof (cases "CreateClaim k nonces es i d")
  case (Pair r d')
  show ?thesis
  proof (cases r)
    case (Inr res)
    from CreateClaim_attempts [OF Pair [unfolded Inr]] obtain mk where
      a: "create_attempts [fst es, snd es] mk i d = (Inr res, d')"
      and mk: "\<forall>e. \<exists>ph ac ho ip. mk e = new_claim_row e i ph ac ho ip" by blast
    have q: "\<And>e. e \<in> set [fst es, snd es] \<Longrightarrow> quiet e" using assms by auto
    have row: "c_store (mk e) = ci_StoreID i" "c_key (mk e) = ci_IdempotencyKey i"
      "c_amount (mk e) = ci_AmountKRW i" "c_status (mk e) = ci_Status i"
      "c_paid_at (mk e) = None" "c_paid_amount (mk e) = None" for e
    proof -
      from mk obtain ph ac ho ip where "mk e = new_claim_row e i ph ac ho ip" by blast
      then show "c_store (mk e) = ci_StoreID i" "c_key (mk e) = ci_IdempotencyKey i"
        "c_amount (mk e) = ci_AmountKRW i" "c_status (mk e) = ci_Status i"
        "c_paid_at (mk e) = None" "c_paid_amount (mk e) = None" by (simp_all add: new_claim_row_def)
    qed
    from quiet_attempts [OF q a] Pair Inr row show ?thesis by (auto split: if_splits) metis+
  next
    case (Inl err)
    have "d' = d"
    proof -
      have "create_attempts [fst es, snd es] mk i d = (Inl err, d') \<Longrightarrow> d' = d" for mk
        using quiet_attempts [of "[fst es, snd es]" mk i d "Inl err" d'] assms by auto
      with Pair Inl show ?thesis
        unfolding CreateClaim_def Let_def by (auto split: sum.splits)
    qed
    with Pair Inl show ?thesis by simp
  qed
qed

lemma CreateClaim_all_or_nothing_witness:
  "case demo_file ''c1'' demo_db of
      (Inl err, d') \<Rightarrow> d' = demo_db
    | (Inr res, d') \<Rightarrow> (if cr_Existing res then d' = demo_db
        else (\<exists>e row. d' = created_db e row (ci_Photos demo_input) demo_db \<and> c_id row = cr_ID res
          \<and> c_store row = ci_StoreID demo_input \<and> c_key row = ci_IdempotencyKey demo_input
          \<and> c_amount row = ci_AmountKRW demo_input \<and> c_status row = ci_Status demo_input
          \<and> c_paid_at row = None \<and> c_paid_amount row = None))"
  unfolding demo_file_def
  by (rule CreateClaim_all_or_nothing) (simp_all add: quiet_def demo_env_def)

end
