(* ===== verification/Claim_Ledger.thy ===== *)
theory Claim_Ledger
  imports Store_Claims
begin

text \<open>
  The invariant of the claims tables: what a row may look like in each state, and that the
  audit events of a claim are its history. Filing, changing a state and appending a view
  event keep it.
\<close>

section \<open>Well-formed rows\<close>

definition initial_states :: "Status set" where
  "initial_states = {StatusPending, StatusNeedsReview, StatusOnHold}"

text \<open>A card payment is voided at the terminal, anything else is transferred.\<close>

definition method_ok :: "PaymentMethod \<Rightarrow> string \<Rightarrow> bool" where
  "method_ok pay meth \<longleftrightarrow>
     (if pay = PaymentCard then meth = PayoutCardVoid else meth \<in> {PayoutDeeplink, PayoutManual})"

definition paid_ok :: "ClaimRow \<Rightarrow> bool" where
  "paid_ok r \<longleftrightarrow>
     (if c_status r = StatusPaid
      then (\<exists>k. c_paid_amount r = Some k \<and> 1 \<le> k \<and> k \<le> c_amount r)
        \<and> c_paid_at r \<noteq> None \<and> method_ok (c_payment r) (c_payout r)
      else c_paid_amount r = None \<and> c_paid_at r = None \<and> c_payout r = [])"

definition row_ok :: "ClaimRow \<Rightarrow> bool" where
  "row_ok r \<longleftrightarrow> c_status r \<in> set AllStatuses \<and> 0 < c_amount r \<and> paid_ok r
     \<and> (c_resolved r \<noteq> None) = IsTerminal (c_status r)"

section \<open>The audit log\<close>

definition trail :: "Event list \<Rightarrow> string \<Rightarrow> (Status \<times> Status) list" where
  "trail evs cid = map edge
     (filter (\<lambda>e. ev_ClaimID e = cid \<and> ev_Action e = ActionTransition) evs)"

definition births :: "Event list \<Rightarrow> string \<Rightarrow> Event list" where
  "births evs cid = filter (\<lambda>e. ev_ClaimID e = cid \<and> ev_Action e = ActionCreate) evs"

definition log_ok :: "Event list \<Rightarrow> ClaimRow \<Rightarrow> bool" where
  "log_ok evs r \<longleftrightarrow> (\<exists>e0. births evs (c_id r) = [e0] \<and> ev_To e0 \<in> initial_states
     \<and> walk transitions (ev_To e0) (trail evs (c_id r)) (c_status r))"

definition claim_key :: "ClaimRow \<Rightarrow> string \<times> string" where
  "claim_key r = (c_store r, c_key r)"

definition ledger_ok :: "db \<Rightarrow> bool" where
  "ledger_ok d \<longleftrightarrow> distinct (map c_id (t_claims d)) \<and> distinct (map claim_key (t_claims d))
     \<and> (\<forall>r \<in> set (t_claims d). row_ok r \<and> log_ok (t_events d) r)
     \<and> (\<forall>e \<in> set (t_events d). ev_ClaimID e \<in> c_id ` set (t_claims d))"

lemma event_row_simps [simp]:
  "ev_ClaimID (event_row e) = ev_ClaimID e" "ev_Action (event_row e) = ev_Action e"
  "ev_From (event_row e) = ev_From e" "ev_To (event_row e) = ev_To e" "ev_At (event_row e) = ev_At e"
  "ev_Note (event_row e) = ev_Note e"
  by (simp_all add: event_row_def)

lemma edge_event_row [simp]: "edge (event_row e) = edge e"
  by (simp add: edge_def)

lemma trail_snoc: "trail (evs @ [e]) cid = trail evs cid
    @ (if ev_ClaimID e = cid \<and> ev_Action e = ActionTransition then [edge e] else [])"
  by (simp add: trail_def)

lemma births_snoc: "births (evs @ [e]) cid = births evs cid
    @ (if ev_ClaimID e = cid \<and> ev_Action e = ActionCreate then [e] else [])"
  by (simp add: births_def)

lemma log_unknown:
  "cid \<notin> ev_ClaimID ` set evs \<Longrightarrow> trail evs cid = [] \<and> births evs cid = []"
  by (auto simp: trail_def births_def filter_empty_conv)

text \<open>An event that neither creates nor changes a claim leaves every log as it was.\<close>

lemma log_ok_other_action:
  "ev_Action e \<noteq> ActionTransition \<Longrightarrow> ev_Action e \<noteq> ActionCreate \<Longrightarrow>
     log_ok (evs @ [e]) r = log_ok evs r"
  by (simp add: log_ok_def trail_snoc births_snoc)

lemma log_ok_other_claim:
  "ev_ClaimID e \<noteq> c_id r \<Longrightarrow> log_ok (evs @ [e]) r = log_ok evs r"
  by (simp add: log_ok_def trail_snoc births_snoc)

section \<open>The operations keep it\<close>

lemma ledger_empty: "t_claims d = [] \<Longrightarrow> t_events d = [] \<Longrightarrow> ledger_ok d"
  by (simp add: ledger_ok_def)

lemma new_row_ok:
  assumes "st \<in> initial_states" and "0 < c_amount row" and "c_status row = st"
    and "c_resolved row = None" and "c_paid_at row = None" and "c_payout row = []"
    and "c_paid_amount row = None"
  shows "row_ok row"
  using assms by (auto simp: row_ok_def paid_ok_def initial_states_def IsTerminal_def)

text \<open>What every freshly built row has.\<close>

definition fresh_row :: "ClaimRow \<Rightarrow> bool" where
  "fresh_row row \<longleftrightarrow> c_status row \<in> initial_states \<and> c_resolved row = None \<and> c_paid_at row = None
     \<and> c_payout row = [] \<and> c_paid_amount row = None"

lemma fresh_new_claim_row:
  "ci_Status i \<in> initial_states \<Longrightarrow> fresh_row (new_claim_row e i ph ac ho ip)"
  by (simp add: fresh_row_def new_claim_row_def)

lemma create_event_simps [simp]:
  "ev_ClaimID (create_event e cid st) = cid" "ev_Action (create_event e cid st) = ActionCreate"
  "ev_To (create_event e cid st) = st"
  by (simp_all add: create_event_def NewEvent_def)

lemma ledger_create:
  assumes "ledger_ok d" and "fresh_row row" and "create_tx e row photos d = (res, d')"
  shows "ledger_ok d'"
proof (cases res)
  case (Inl err)
  with create_tx_db [OF assms(3)] assms(1) show ?thesis by auto
next
  case (Inr v)
  note tx = create_tx_Inr [OF assms(3) [unfolded Inr]]
  note inv = assms(1) [unfolded ledger_ok_def]
  let ?ev = "event_row (create_event e (c_id row) (c_status row))"
  have d': "t_claims d' = t_claims d @ [row]" "t_events d' = t_events d @ [?ev]"
    using tx(1) by (simp_all add: created_db_def)
  have key: "claim_key row \<notin> claim_key ` set (t_claims d)"
    using tx(3) by (auto simp: claim_key_def same_key_def)
  have "c_id row \<notin> ev_ClaimID ` set (t_events d)" using inv tx(4) by auto
  then have "log_ok (t_events d @ [?ev]) row"
    using assms(2) by (simp add: log_ok_def trail_snoc births_snoc log_unknown fresh_row_def)
  moreover have "row_ok row"
    using assms(2) tx(5) by (intro new_row_ok [of "c_status row"]) (auto simp: fresh_row_def)
  moreover have "log_ok (t_events d @ [?ev]) r" if "r \<in> set (t_claims d)" for r
  proof -
    have "c_id r \<noteq> c_id row" using that tx(4) by (metis imageI)
    then show ?thesis using inv that by (subst log_ok_other_claim) auto
  qed
  ultimately show ?thesis
    using inv tx(4) key unfolding ledger_ok_def d' by auto
qed

lemma ledger_append:
  assumes "ledger_ok d" and "ev_Action ev = ActionViewContact"
  shows "ledger_ok (snd (AppendEvent fail ev d))"
  using insertEvent_db [of fail ev d] assms
  unfolding AppendEvent_def by (auto simp: ledger_ok_def log_ok_other_action)

text \<open>
  A change is sound when its event is an edge of the table that starts at the row's state,
  is about the same claim, and the updated row is well formed.
\<close>

definition sound_change :: "Claim \<Rightarrow> Event \<Rightarrow> ClaimRow \<Rightarrow> bool" where
  "sound_change c ev r \<longleftrightarrow> ev_ClaimID ev = cl_ID c \<and> ev_Action ev = ActionTransition
     \<and> ev_To ev = cl_Status c \<and> cl_Status c \<in> set (transitions (ev_From ev))
     \<and> row_ok (update_claim c ev r)"

lemma update_claim_simps [simp]:
  "c_id (update_claim c ev r) = c_id r" "c_store (update_claim c ev r) = c_store r"
  "c_key (update_claim c ev r) = c_key r" "c_status (update_claim c ev r) = cl_Status c"
  "c_amount (update_claim c ev r) = c_amount r" "c_payment (update_claim c ev r) = c_payment r"
  by (simp_all add: update_claim_def)

lemma ledger_apply:
  assumes inv: "ledger_ok d"
    and sound: "\<And>r. r \<in> set (t_claims d) \<Longrightarrow> matches_update storeID c ev r \<Longrightarrow> sound_change c ev r"
    and step: "ApplyTransition fail ok storeID c ev d = (res, d')"
  shows "ledger_ok d'"
proof (cases res)
  case (Inl e)
  with ApplyTransition_db [OF step] inv show ?thesis by auto
next
  case (Inr u)
  note tx = ApplyTransition_Inr [OF step [unfolded Inr]]
  let ?f = "\<lambda>r. if matches_update storeID c ev r then update_claim c ev r else r"
  have d': "t_claims d' = map ?f (t_claims d)" "t_events d' = t_events d @ [event_row ev]"
    using tx(1) by (simp_all add: applied_db_def)
  from tx(2) obtain r0 where r0: "r0 \<in> set (t_claims d)" "matches_update storeID c ev r0" by blast
  note s0 = sound [OF r0, unfolded sound_change_def]
  have same: "r = r0" if "r \<in> set (t_claims d)" "c_id r = cl_ID c" for r
    using that r0 inv by (auto simp: ledger_ok_def matches_update_def distinct_map inj_on_def)
  have ids: "map c_id (map ?f (t_claims d)) = map c_id (t_claims d)"
    "map claim_key (map ?f (t_claims d)) = map claim_key (t_claims d)"
    by (simp_all add: claim_key_def)
  have img: "c_id ` set (map ?f (t_claims d)) = c_id ` set (t_claims d)"
    using arg_cong [OF ids(1), of set] unfolding set_map .
  have rows: "row_ok (?f r) \<and> log_ok (t_events d @ [event_row ev]) (?f r)"
    if r: "r \<in> set (t_claims d)" for r
  proof (cases "matches_update storeID c ev r")
    case True
    note s = sound [OF r True, unfolded sound_change_def]
    from inv r have "log_ok (t_events d) r" by (simp add: ledger_ok_def)
    then obtain e0 where e0: "births (t_events d) (c_id r) = [e0]" "ev_To e0 \<in> initial_states"
      and w: "walk transitions (ev_To e0) (trail (t_events d) (c_id r)) (c_status r)"
      by (auto simp: log_ok_def)
    from True have fr: "c_status r = ev_From ev" "c_id r = cl_ID c" by (simp_all add: matches_update_def)
    have "walk transitions (ev_To e0) (trail (t_events d) (c_id r) @ [edge ev]) (cl_Status c)"
      using walk_snoc [OF w, of "cl_Status c"] s fr by (simp add: edge_def)
    then show ?thesis using True s fr e0 by (simp add: log_ok_def trail_snoc births_snoc)
  next
    case False
    from inv r have ok: "row_ok r" "log_ok (t_events d) r" by (simp_all add: ledger_ok_def)
    have "c_id r \<noteq> cl_ID c" using same [OF r] r0 False by auto
    then show ?thesis using False ok s0 by (simp add: log_ok_other_claim)
  qed
  show ?thesis
    unfolding ledger_ok_def d' ids img
  proof (intro conjI ballI)
    show "distinct (map c_id (t_claims d))" "distinct (map claim_key (t_claims d))"
      using inv by (simp_all add: ledger_ok_def)
    fix r' assume "r' \<in> set (map ?f (t_claims d))"
    then obtain r where "r \<in> set (t_claims d)" "r' = ?f r" by (auto simp only: set_map)
    then show "row_ok r'" "log_ok (t_events d @ [event_row ev]) r'" using rows by blast+
  next
    fix e assume "e \<in> set (t_events d @ [event_row ev])"
    then show "ev_ClaimID e \<in> c_id ` set (t_claims d)"
      using inv tx(3) by (auto simp: ledger_ok_def)
  qed
qed

text \<open>The events of one claim, from the log: at most one payment, the last thing that happened.\<close>

lemma log_paid_once:
  assumes "log_ok evs r"
  shows "length (filter (\<lambda>e. ev_ClaimID e = c_id r \<and> ev_Action e = ActionTransition
      \<and> ev_To e = StatusPaid) evs) \<le> 1"
proof -
  from assms obtain e0 :: Event where "walk transitions (ev_To e0) (trail evs (c_id r)) (c_status r)"
    unfolding log_ok_def by blast
  from claim_graph.walk_terminal_once [OF this, of StatusPaid]
  have "length (filter (\<lambda>x. snd x = StatusPaid) (trail evs (c_id r))) \<le> 1"
    by (simp add: IsTerminal_def)
  also have "filter (\<lambda>x. snd x = StatusPaid) (trail evs (c_id r)) = map edge
      (filter (\<lambda>e. ev_ClaimID e = c_id r \<and> ev_Action e = ActionTransition \<and> ev_To e = StatusPaid) evs)"
    by (simp add: trail_def filter_map comp_def edge_def conj_ac)
  finally show ?thesis by simp
qed

end
