(* ===== verification/Http_Claims.thy ===== *)
theory Http_Claims
  imports Claim_Ledger
begin

text \<open>
  \<^verbatim>\<open>internal/httpapi/admin_claims.go\<close>: the handlers that approve, reject, hold and pay a
  claim. A handler reads the claim, decides on its copy, and writes only if the state is
  still the one it read. The last section runs such handlers concurrently with new claims
  and shows what always holds of the claims tables.
\<close>

section \<open>Requests and replies\<close>

text \<open>The standing of a request: the store it may touch and the actor the audit log names.\<close>

record access =
  ac_store :: string
  ac_actor :: Actor
  ac_via_link :: bool

text \<open>An HTTP answer: an error with its status and code, or the body of a success.\<close>

datatype 'a reply = Failed nat string | Done 'a

definition badRequest :: "'a reply" where "badRequest = Failed 400 ''invalid_request''"
definition notFound :: "'a reply" where "notFound = Failed 404 ''not_found''"
definition unauthorized :: "'a reply" where "unauthorized = Failed 401 ''unauthorized''"
definition internalError :: "'a reply" where "internalError = Failed 500 ''internal_error''"
definition conflict :: "string \<Rightarrow> 'a reply" where "conflict code = Failed 409 code"

record transitionRequest =
  tr_Note :: string
  tr_Method :: string
  tr_AmountKrw :: int

definition empty_request :: transitionRequest where
  "empty_request = \<lparr>tr_Note = [], tr_Method = [], tr_AmountKrw = 0\<rparr>"

text \<open>The body of a request as the decoder sees it.\<close>

datatype body = EmptyBody | Malformed | Decoded transitionRequest

section \<open>Marking as paid\<close>

datatype pay_error = CardNeedsVoid | CashCannotVoid | MethodMissing | AmountMissing | AmountOverClaim int

definition choose_method :: "Claim \<Rightarrow> transitionRequest \<Rightarrow> (pay_error, Claim) result" where
  "choose_method c req =
    (if cl_PaymentMethod c = PaymentCard then
       (if tr_Method req \<noteq> PayoutCardVoid then Inl CardNeedsVoid
        else Inr (c\<lparr>cl_PayoutMethod := tr_Method req\<rparr>))
     else if tr_Method req = PayoutDeeplink \<or> tr_Method req = PayoutManual then
       Inr (c\<lparr>cl_PayoutMethod := tr_Method req\<rparr>)
     else if tr_Method req = PayoutCardVoid then Inl CashCannotVoid
     else Inl MethodMissing)"

definition mark_paid_extra :: "Claim \<Rightarrow> transitionRequest \<Rightarrow> (pay_error, Claim) result" where
  "mark_paid_extra c req =
    (case choose_method c req of Inl e \<Rightarrow> Inl e
     | Inr c1 \<Rightarrow>
        (let paid = (if tr_AmountKrw req = 0 then cl_AmountKRW c1 else tr_AmountKrw req)
         in if paid \<le> 0 then Inl AmountMissing
            else if cl_AmountKRW c1 < paid then Inl (AmountOverClaim (cl_AmountKRW c1))
            else Inr (c1\<lparr>cl_PaidAmountKRW := paid\<rparr>)))"

type_synonym extra = "Claim \<Rightarrow> transitionRequest \<Rightarrow> (pay_error, Claim) result"

section \<open>The shared handler\<close>

text \<open>What the handler decides on the copy of the claim it has read.\<close>

definition decide ::
  "instant \<Rightarrow> access \<Rightarrow> transitionRequest \<Rightarrow> Status \<Rightarrow> extra option \<Rightarrow> Claim
     \<Rightarrow> ((string \<times> Status) reply, Claim \<times> Event) result" where
  "decide now a req to extra c =
    (case (case extra of None \<Rightarrow> Inr c | Some f \<Rightarrow> f c req) of
       Inl _ \<Rightarrow> Inl badRequest
     | Inr c1 \<Rightarrow>
        (case Transition now c1 to (ac_actor a) (TrimSpace (tr_Note req)) of
           (_, Inl _) \<Rightarrow> Inl (conflict ''invalid_transition'')
         | (c2, Inr ev) \<Rightarrow> Inr (c2, ev)))"

text \<open>Writing the decision down, and the answer.\<close>

definition commit_decision ::
  "(nat \<Rightarrow> bool) \<Rightarrow> bool \<Rightarrow> access \<Rightarrow> Claim \<Rightarrow> Event \<Rightarrow> db \<Rightarrow> (string \<times> Status) reply \<times> db" where
  "commit_decision fail ok a c ev d =
    (case ApplyTransition fail ok (ac_store a) c ev d of
       (Inl e, d') \<Rightarrow> (if e = ErrNotFound then conflict ''stale'' else internalError, d')
     | (Inr _, d') \<Rightarrow> (Done (cl_ID c, cl_Status c), d'))"

text \<open>
  One request: \<open>te_between\<close> is what other requests commit between its read and its write.
\<close>

record transition_env =
  te_fail_read :: "nat \<Rightarrow> bool"
  te_db_now :: instant
  te_between :: "db \<Rightarrow> db"
  te_now :: instant
  te_fail_write :: "nat \<Rightarrow> bool"
  te_commit_ok :: bool

definition no_actor :: Actor where "no_actor = \<lparr>act_Kind = [], act_ID = [], act_Name = []\<rparr>"

definition transition ::
  "Sec \<Rightarrow> transition_env \<Rightarrow> access \<Rightarrow> string \<Rightarrow> body \<Rightarrow> Status \<Rightarrow> extra option \<Rightarrow> db
     \<Rightarrow> (string \<times> Status) reply \<times> db" where
  "transition k e a cid b to extra d =
    (case b of Malformed \<Rightarrow> (badRequest, d)
     | _ \<Rightarrow>
      (let req = (case b of Decoded r \<Rightarrow> r | _ \<Rightarrow> empty_request)
       in case ClaimByID k (te_fail_read e) (te_db_now e) (te_now e) (ac_store a) cid no_actor d of
            (Inl err, d1) \<Rightarrow> (if err = ErrNotFound then notFound else internalError, d1)
          | (Inr det, d1) \<Rightarrow>
             (case decide (te_now e) a req to extra (cd_Claim det) of
                Inl answer \<Rightarrow> (answer, d1)
              | Inr (c, ev) \<Rightarrow>
                  commit_decision (te_fail_write e) (te_commit_ok e) a c ev (te_between e d1))))"

text \<open>The four routes as one enumeration: the target state and the extra check of each.\<close>

datatype action = Approve | Reject | Hold | MarkPaid

fun target :: "action \<Rightarrow> Status" where
  "target Approve = StatusApproved"
| "target Reject = StatusRejected"
| "target Hold = StatusOnHold"
| "target MarkPaid = StatusPaid"

fun extra_of :: "action \<Rightarrow> extra option" where
  "extra_of MarkPaid = Some mark_paid_extra"
| "extra_of _ = None"

definition handleApprove where "handleApprove k e a cid b = transition k e a cid b StatusApproved None"
definition handleReject where "handleReject k e a cid b = transition k e a cid b StatusRejected None"
definition handleHold where "handleHold k e a cid b = transition k e a cid b StatusOnHold None"
definition handleMarkPaid where
  "handleMarkPaid k e a cid b = transition k e a cid b StatusPaid (Some mark_paid_extra)"

section \<open>What a decision contains\<close>

lemma mark_paid_extra_Inr:
  assumes "mark_paid_extra c req = Inr c1"
  shows "\<exists>m k. c1 = c\<lparr>cl_PayoutMethod := m, cl_PaidAmountKRW := k\<rparr> \<and> 1 \<le> k \<and> k \<le> cl_AmountKRW c
    \<and> method_ok (cl_PaymentMethod c) m"
proof -
  from assms obtain c0 where c0: "choose_method c req = Inr c0"
    by (auto simp: mark_paid_extra_def split: sum.splits)
  then have m: "c0 = c\<lparr>cl_PayoutMethod := tr_Method req\<rparr>" "method_ok (cl_PaymentMethod c) (tr_Method req)"
    by (auto simp: choose_method_def method_ok_def split: if_splits)
  let ?k = "if tr_AmountKrw req = 0 then cl_AmountKRW c else tr_AmountKrw req"
  from assms c0 m(1) have "c1 = c\<lparr>cl_PayoutMethod := tr_Method req, cl_PaidAmountKRW := ?k\<rparr>"
    "1 \<le> ?k" "?k \<le> cl_AmountKRW c"
    by (auto simp: mark_paid_extra_def Let_def split: if_splits)
  with m(2) show ?thesis by blast
qed

lemma decide_Inr:
  assumes "decide now a req to extra c = Inr (c2, ev)"
  shows "\<exists>c1. (case extra of None \<Rightarrow> Inr c | Some f \<Rightarrow> f c req) = Inr c1
    \<and> act_Kind (ac_actor a) \<noteq> [] \<and> to \<in> set (transitions (cl_Status c1))
    \<and> c2 = c1\<lparr>cl_Status := to, cl_ResolvedAt := (if IsTerminal to then now else cl_ResolvedAt c1),
             cl_PaidAt := (if to = StatusPaid then now else cl_PaidAt c1)\<rparr>
    \<and> ev = NewEvent now (cl_ID c1) (ac_actor a) ActionTransition (cl_Status c1) to (TrimSpace (tr_Note req))"
proof -
  from assms obtain c1 where c1: "(case extra of None \<Rightarrow> Inr c | Some f \<Rightarrow> f c req) = Inr c1"
    and t: "Transition now c1 to (ac_actor a) (TrimSpace (tr_Note req)) = (c2, Inr ev)"
    by (auto simp: decide_def split: sum.splits prod.splits)
  from t have g: "act_Kind (ac_actor a) \<noteq> []" "to \<in> set (transitions (cl_Status c1))"
    using Transition_Inr_iff [of now c1 to "ac_actor a" "TrimSpace (tr_Note req)"] by simp_all
  from t c1 g show ?thesis by (simp add: Transition_ok [OF g])
qed

text \<open>The read of a handler leaves the database alone and gives the row's own data.\<close>

lemma ClaimByID_row:
  assumes "ClaimByID k fail now at storeID cid by' d = (Inr det, d')"
  shows "\<exists>r. find_claim storeID cid d = Some r \<and> cd_Claim det = claim_of r"
  using assms unfolding ClaimByID_def Let_def
  by (auto split: if_splits option.splits sum.splits prod.splits)

lemma find_claim_in:
  "find_claim storeID cid d = Some r \<Longrightarrow> r \<in> set (t_claims d) \<and> c_id r = cid \<and> c_store r = storeID"
  unfolding find_claim_def by (drule find_Some_in) simp

section \<open>Handlers running concurrently\<close>

text \<open>
  The database, and for every request in flight the claim it has read. A step is one atomic
  piece of a request: filing a claim, reading one, recording a view, writing a decision taken
  on what was read earlier, or a statement that touches neither claims nor their events.
\<close>

record sys =
  sy_db :: db
  sy_read :: "nat \<Rightarrow> (access \<times> Claim) option"

inductive step :: "sys \<Rightarrow> sys \<Rightarrow> bool" where
  step_file: "create_tx e (new_claim_row e i ph ac ho ip) (ci_Photos i) (sy_db s) = (r, d')
    \<Longrightarrow> ci_Status i = rs_Status (Evaluate ri p) \<Longrightarrow> step s (s\<lparr>sy_db := d'\<rparr>)"
| step_read: "find_claim (ac_store a) cid (sy_db s) = Some row
    \<Longrightarrow> step s (s\<lparr>sy_read := (sy_read s)(t := Some (a, claim_of row))\<rparr>)"
| step_view: "ev_Action ev = ActionViewContact
    \<Longrightarrow> step s (s\<lparr>sy_db := snd (AppendEvent fail ev (sy_db s))\<rparr>)"
| step_write: "sy_read s t = Some (a, c) \<Longrightarrow> \<not> IsZero now
    \<Longrightarrow> decide now a req (target act) (extra_of act) c = Inr (c2, ev)
    \<Longrightarrow> commit_decision fail ok a c2 ev (sy_db s) = (answer, d')
    \<Longrightarrow> step s (s\<lparr>sy_db := d', sy_read := (sy_read s)(t := None)\<rparr>)"
| step_other: "t_claims d' = t_claims (sy_db s) \<Longrightarrow> t_events d' = t_events (sy_db s)
    \<Longrightarrow> step s (s\<lparr>sy_db := d'\<rparr>)"

inductive reach :: "sys \<Rightarrow> bool" where
  reach_start: "t_claims (sy_db s) = [] \<Longrightarrow> t_events (sy_db s) = [] \<Longrightarrow> sy_read s = (\<lambda>_. None) \<Longrightarrow> reach s"
| reach_step: "reach s \<Longrightarrow> step s s' \<Longrightarrow> reach s'"

inductive_cases step_cases: "step s s'"

text \<open>What a stale copy still knows about its row.\<close>

definition frame :: "ClaimRow \<Rightarrow> string \<times> string \<times> PaymentMethod \<times> int" where
  "frame r = (c_id r, c_store r, c_payment r, c_amount r)"

definition copy_ok :: "db \<Rightarrow> access \<times> Claim \<Rightarrow> bool" where
  "copy_ok d ac = (case ac of (a, c) \<Rightarrow>
     (cl_ID c, ac_store a, cl_PaymentMethod c, cl_AmountKRW c) \<in> frame ` set (t_claims d)
     \<and> (cl_Status c \<noteq> StatusPaid \<longrightarrow> cl_PayoutMethod c = [] \<and> cl_PaidAmountKRW c = 0 \<and> IsZero (cl_PaidAt c))
     \<and> (\<not> IsTerminal (cl_Status c) \<longrightarrow> IsZero (cl_ResolvedAt c)))"

definition sys_ok :: "sys \<Rightarrow> bool" where
  "sys_ok s \<longleftrightarrow> ledger_ok (sy_db s) \<and> (\<forall>t x. sy_read s t = Some x \<longrightarrow> copy_ok (sy_db s) x)"

lemma copy_ok_mono:
  "copy_ok d x \<Longrightarrow> frame ` set (t_claims d) \<subseteq> frame ` set (t_claims d') \<Longrightarrow> copy_ok d' x"
  by (auto simp: copy_ok_def)

lemma copy_of_row:
  assumes "row_ok r" and "r \<in> set (t_claims d)" and "c_store r = ac_store a"
  shows "copy_ok d (a, claim_of r)"
  using assms
  by (auto simp: copy_ok_def claim_of_def frame_def row_ok_def paid_ok_def IsZero_def image_iff
      split: if_splits intro!: bexI [of _ r])

lemma frame_update [simp]: "frame (update_claim c ev r) = frame r"
  by (simp add: frame_def)

lemma frames_applied: "frame ` set (t_claims (applied_db st c ev d)) = frame ` set (t_claims d)"
proof -
  have "map frame (t_claims (applied_db st c ev d)) = map frame (t_claims d)"
    by (simp add: applied_db_def)
  then show ?thesis by (metis set_map)
qed

text \<open>A decision taken on a copy is sound for the row, if the row still has the copy's state.\<close>

lemma decision_sound:
  assumes inv: "ledger_ok d" and copy: "copy_ok d (a, c)" and now: "\<not> IsZero now"
    and dec: "decide now a req (target act) (extra_of act) c = Inr (c2, ev)"
    and r: "r \<in> set (t_claims d)" "matches_update (ac_store a) c2 ev r"
  shows "sound_change c2 ev r"
proof -
  from decide_Inr [OF dec] obtain c1 where
    x: "(case extra_of act of None \<Rightarrow> Inr c | Some f \<Rightarrow> f c req) = Inr c1"
    and edge: "target act \<in> set (transitions (cl_Status c1))"
    and c2: "c2 = c1\<lparr>cl_Status := target act,
        cl_ResolvedAt := (if IsTerminal (target act) then now else cl_ResolvedAt c1),
        cl_PaidAt := (if target act = StatusPaid then now else cl_PaidAt c1)\<rparr>"
    and ev: "ev = NewEvent now (cl_ID c1) (ac_actor a) ActionTransition (cl_Status c1) (target act)
        (TrimSpace (tr_Note req))" by blast
  have c1: "cl_Status c1 = cl_Status c \<and> cl_ID c1 = cl_ID c \<and> cl_ResolvedAt c1 = cl_ResolvedAt c
      \<and> cl_PaidAt c1 = cl_PaidAt c
      \<and> (if act = MarkPaid then 1 \<le> cl_PaidAmountKRW c1 \<and> cl_PaidAmountKRW c1 \<le> cl_AmountKRW c
           \<and> method_ok (cl_PaymentMethod c) (cl_PayoutMethod c1) else c1 = c)"
  proof (cases "act = MarkPaid")
    case True
    with x have "mark_paid_extra c req = Inr c1" by simp
    from mark_paid_extra_Inr [OF this] True show ?thesis by auto
  next
    case False
    with x have "c1 = c" by (cases act) simp_all
    with False show ?thesis by simp
  qed
  have from_live: "\<not> IsTerminal (cl_Status c)" "cl_Status c \<noteq> StatusPaid"
    using edge c1 transitions_terminal [of "cl_Status c"] by (auto simp: IsTerminal_def)
  from r(2) c1 have rid: "c_id r = cl_ID c" "c_store r = ac_store a" "c_status r = cl_Status c"
    by (simp_all add: matches_update_def c2 ev NewEvent_def)
  from inv r(1) have rok: "row_ok r" by (simp add: ledger_ok_def)
  have fr: "c_payment r = cl_PaymentMethod c" "c_amount r = cl_AmountKRW c"
  proof -
    from copy have "(cl_ID c, ac_store a, cl_PaymentMethod c, cl_AmountKRW c) \<in> frame ` set (t_claims d)"
      by (simp add: copy_ok_def)
    then obtain r' where r': "r' \<in> set (t_claims d)"
      "frame r' = (cl_ID c, ac_store a, cl_PaymentMethod c, cl_AmountKRW c)"
      by (metis imageE)
    then have "r' = r" using r(1) rid(1) inv by (auto simp: ledger_ok_def distinct_map inj_on_def frame_def)
    with r'(2) show "c_payment r = cl_PaymentMethod c" "c_amount r = cl_AmountKRW c"
      by (simp_all add: frame_def)
  qed
  have blank: "c_paid_amount r = None" "c_paid_at r = None" "c_payout r = []" "c_resolved r = None"
    using rok rid(3) from_live by (auto simp: row_ok_def paid_ok_def)
  from copy from_live have cz: "cl_PayoutMethod c = []" "cl_PaidAmountKRW c = 0" "nilTime (cl_PaidAt c) = None"
    "nilTime (cl_ResolvedAt c) = None" by (auto simp: copy_ok_def nilTime_def)
  have tgt: "(target act = StatusPaid) = (act = MarkPaid)"
    by (cases act) (simp_all add: StatusPaid_def StatusApproved_def StatusRejected_def StatusOnHold_def)
  have known: "target act \<in> set AllStatuses" by (cases act) simp_all
  have nn: "nilTime now = Some now" using now by (simp add: nilTime_def)
  have "row_ok (update_claim c2 ev r)"
  proof (cases "act = MarkPaid")
    case True
    have "cl_PayoutMethod c1 \<noteq> []" using c1 True
      by (auto simp: method_ok_def PayoutDeeplink_def PayoutManual_def PayoutCardVoid_def split: if_splits)
    then show ?thesis using True c1 rok blank fr nn
      by (auto simp: row_ok_def paid_ok_def update_claim_def c2 IsTerminal_def)
  next
    case False
    then have "target act \<noteq> StatusPaid" "c1 = c" using tgt c1 by simp_all
    then show ?thesis using rok blank cz nn known
      by (auto simp: row_ok_def paid_ok_def update_claim_def c2)
  qed
  then show ?thesis using edge c1
    by (simp add: sound_change_def c2 ev NewEvent_def)
qed

lemma Evaluate_initial: "rs_Status (Evaluate ri p) \<in> initial_states"
  using Evaluate_status_cases by (auto simp: initial_states_def)

lemma frames_created: "frame ` set (t_claims d) \<subseteq> frame ` set (t_claims (created_db e row ph d))"
  by (auto simp: created_db_def)

lemma commit_decision_db:
  assumes "commit_decision fail ok a c ev d = (answer, d')"
  shows "\<exists>res. ApplyTransition fail ok (ac_store a) c ev d = (res, d')"
  using assms by (auto simp: commit_decision_def split: prod.splits sum.splits)

lemma ApplyTransition_frames:
  assumes "ApplyTransition fail ok st c ev d = (res, d')"
  shows "frame ` set (t_claims d') = frame ` set (t_claims d)"
proof (cases res)
  case (Inl e)
  with ApplyTransition_db [OF assms] show ?thesis by auto
next
  case (Inr u)
  from ApplyTransition_Inr(1) [OF assms [unfolded Inr]] show ?thesis by (simp add: frames_applied)
qed

lemma step_sys_ok:
  assumes "step s s'" and "sys_ok s"
  shows "sys_ok s'"
  using assms
proof (cases rule: step.cases)
  case (step_file e i ph ac ho ip r d' ri p)
  have "fresh_row (new_claim_row e i ph ac ho ip)"
    using step_file(3) Evaluate_initial by (simp add: fresh_new_claim_row)
  from ledger_create [OF _ this step_file(2)] assms(2) have "ledger_ok d'" by (simp add: sys_ok_def)
  moreover have "frame ` set (t_claims (sy_db s)) \<subseteq> frame ` set (t_claims d')"
  proof (cases r)
    case (Inl x)
    with create_tx_db [OF step_file(2)] show ?thesis by auto
  next
    case (Inr v)
    from create_tx_Inr(1) [OF step_file(2) [unfolded Inr]] show ?thesis by (simp add: frames_created)
  qed
  ultimately show ?thesis using assms(2) step_file(1) copy_ok_mono by (fastforce simp: sys_ok_def)
next
  case (step_read a cid row t)
  from find_claim_in [OF step_read(2)] assms(2)
  have "copy_ok (sy_db s) (a, claim_of row)"
    by (intro copy_of_row) (auto simp: sys_ok_def ledger_ok_def)
  with assms(2) step_read(1) show ?thesis by (auto simp: sys_ok_def)
next
  case (step_view ev fail)
  have "t_claims (snd (AppendEvent fail ev (sy_db s))) = t_claims (sy_db s)"
    using insertEvent_db [of fail ev "sy_db s"] by (auto simp: AppendEvent_def)
  with ledger_append [OF _ step_view(2)] assms(2) step_view(1) copy_ok_mono show ?thesis
    by (fastforce simp: sys_ok_def)
next
  case (step_write t a c now req act c2 ev fail ok answer d')
  from assms(2) have inv: "ledger_ok (sy_db s)" by (simp add: sys_ok_def)
  from assms(2) step_write(2) have copy: "copy_ok (sy_db s) (a, c)" by (auto simp: sys_ok_def)
  from commit_decision_db [OF step_write(5)] obtain res where
    ap: "ApplyTransition fail ok (ac_store a) c2 ev (sy_db s) = (res, d')" by blast
  have "ledger_ok d'"
    by (rule ledger_apply [OF inv _ ap]) (rule decision_sound [OF inv copy step_write(3,4)])
  with ApplyTransition_frames [OF ap] assms(2) step_write(1) copy_ok_mono show ?thesis
    by (fastforce simp: sys_ok_def)
next
  case (step_other d')
  with assms(2) show ?thesis by (auto simp: sys_ok_def ledger_ok_def copy_ok_def)
qed

lemma reach_sys_ok: "reach s \<Longrightarrow> sys_ok s"
proof (induction rule: reach.induct)
  case (reach_start s)
  then show ?case by (simp add: sys_ok_def ledger_empty)
next
  case (reach_step s s')
  then show ?case using step_sys_ok by blast
qed

lemma reach_ledger: "reach s \<Longrightarrow> ledger_ok (sy_db s)"
  using reach_sys_ok by (simp add: sys_ok_def)

text \<open>The payments in the audit log, and how they show in the row.\<close>

definition payments :: "db \<Rightarrow> string \<Rightarrow> Event list" where
  "payments d cid = filter (\<lambda>e. ev_ClaimID e = cid \<and> ev_Action e = ActionTransition
     \<and> ev_To e = StatusPaid) (t_events d)"

lemma walk_ends:
  "walk transitions s es t \<Longrightarrow> es \<noteq> [] \<Longrightarrow> snd (last es) = t"
  by (induction transitions s es t rule: walk.induct) auto

lemma log_paid_iff:
  assumes "log_ok (t_events d) r"
  shows "(payments d (c_id r) \<noteq> []) = (c_status r = StatusPaid)"
proof -
  let ?tr = "trail (t_events d) (c_id r)"
  from assms obtain e0 :: Event where e0: "ev_To e0 \<in> initial_states"
    and w: "walk transitions (ev_To e0) ?tr (c_status r)"
    unfolding log_ok_def by blast
  have pay: "(payments d (c_id r) \<noteq> []) = (StatusPaid \<in> snd ` set ?tr)"
    by (force simp: payments_def trail_def edge_def filter_empty_conv)
  show ?thesis
  proof
    assume "payments d (c_id r) \<noteq> []"
    with pay obtain us x vs where "?tr = us @ (x, StatusPaid) # vs"
      by (auto simp: in_set_conv_decomp)
    with w claim_graph.walk_terminal_last [of "ev_To e0" us x StatusPaid vs "c_status r"]
    show "c_status r = StatusPaid" by (simp add: IsTerminal_def)
  next
    assume paid: "c_status r = StatusPaid"
    have "?tr \<noteq> []" using w paid e0 by (auto simp: initial_states_def)
    with walk_ends [OF w this] paid have "StatusPaid \<in> snd ` set ?tr"
      by (metis image_eqI last_in_set)
    with pay show "payments d (c_id r) \<noteq> []" by simp
  qed
qed

section \<open>Progress\<close>

lemma commit_decision_ok:
  assumes "r \<in> set (t_claims d)" and "matches_update (ac_store a) c ev r"
    and "ev_ClaimID ev = c_id r" and "0 \<le> cl_PaidAmountKRW c"
  shows "commit_decision (\<lambda>_. False) True a c ev d
    = (Done (cl_ID c, cl_Status c), applied_db (ac_store a) c ev d)"
proof -
  let ?d1 = "d\<lparr>t_claims := map (\<lambda>r. if matches_update (ac_store a) c ev r then update_claim c ev r else r)
      (t_claims d)\<rparr>"
  have u: "update_status False (ac_store a) c ev d
      = (Inr (length (filter (matches_update (ac_store a) c ev) (t_claims d))), ?d1)"
    using assms(4) by (simp add: update_status_def)
  have n: "length (filter (matches_update (ac_store a) c ev) (t_claims d)) \<noteq> 0"
    using assms(1,2) by (auto simp: filter_empty_conv)
  have "ev_ClaimID ev \<in> c_id ` set (t_claims ?d1)"
    using assms(1,2,3) by (intro image_eqI [of _ _ "update_claim c ev r"]) auto
  then have "insertEvent False ev ?d1 = (Inr (), applied_db (ac_store a) c ev d)"
    by (simp add: insertEvent_Inr applied_db_def)
  then show ?thesis
    using u n by (simp add: commit_decision_def ApplyTransition_def tx_def and_then_def)
qed

text \<open>A request that asks for nothing impossible, on the state its copy shows.\<close>

definition valid_request :: "action \<Rightarrow> transitionRequest \<Rightarrow> Claim \<Rightarrow> bool" where
  "valid_request act req c \<longleftrightarrow> target act \<in> set (transitions (cl_Status c))
     \<and> (act = MarkPaid \<longrightarrow> method_ok (cl_PaymentMethod c) (tr_Method req)
          \<and> 0 \<le> tr_AmountKrw req \<and> tr_AmountKrw req \<le> cl_AmountKRW c \<and> 0 < cl_AmountKRW c)"

lemma mark_paid_extra_ok:
  assumes "method_ok (cl_PaymentMethod c) (tr_Method req)" "0 \<le> tr_AmountKrw req"
    "tr_AmountKrw req \<le> cl_AmountKRW c" "0 < cl_AmountKRW c"
  shows "mark_paid_extra c req = Inr (c\<lparr>cl_PayoutMethod := tr_Method req,
    cl_PaidAmountKRW := (if tr_AmountKrw req = 0 then cl_AmountKRW c else tr_AmountKrw req)\<rparr>)"
  using assms by (auto simp: mark_paid_extra_def choose_method_def method_ok_def Let_def split: if_splits)

lemma decide_ok:
  assumes "valid_request act req c" and "act_Kind (ac_actor a) \<noteq> []" and "0 \<le> cl_PaidAmountKRW c"
  shows "\<exists>c2 ev. decide now a req (target act) (extra_of act) c = Inr (c2, ev)
    \<and> cl_ID c2 = cl_ID c \<and> cl_Status c2 = target act \<and> 0 \<le> cl_PaidAmountKRW c2
    \<and> ev_From ev = cl_Status c \<and> ev_ClaimID ev = cl_ID c
    \<and> (act = MarkPaid \<longrightarrow> cl_PaidAmountKRW c2
          = (if tr_AmountKrw req = 0 then cl_AmountKRW c else tr_AmountKrw req)
        \<and> cl_PayoutMethod c2 = tr_Method req)"
proof -
  define c1 where "c1 = (if act = MarkPaid then c\<lparr>cl_PayoutMethod := tr_Method req,
    cl_PaidAmountKRW := (if tr_AmountKrw req = 0 then cl_AmountKRW c else tr_AmountKrw req)\<rparr> else c)"
  have x: "(case extra_of act of None \<Rightarrow> Inr c | Some f \<Rightarrow> f c req) = Inr c1"
  proof (cases "act = MarkPaid")
    case True
    with assms(1) have "mark_paid_extra c req = Inr c1"
      unfolding c1_def by (simp add: mark_paid_extra_ok valid_request_def)
    with True show ?thesis by simp
  next
    case False
    then show ?thesis by (cases act) (simp_all add: c1_def)
  qed
  have c1: "cl_Status c1 = cl_Status c" "cl_ID c1 = cl_ID c" "0 \<le> cl_PaidAmountKRW c1"
    "act = MarkPaid \<longrightarrow> cl_PaidAmountKRW c1 = (if tr_AmountKrw req = 0 then cl_AmountKRW c else tr_AmountKrw req)
      \<and> cl_PayoutMethod c1 = tr_Method req"
    using assms(1,3) by (auto simp: c1_def valid_request_def)
  have edge: "target act \<in> set (transitions (cl_Status c1))"
    using assms(1) c1 by (simp add: valid_request_def)
  from x c1 show ?thesis
    by (simp add: decide_def Transition_ok [OF assms(2) edge] NewEvent_def)
qed

lemma reach_progress:
  assumes "reach s" and r: "r \<in> set (t_claims (sy_db s))" "valid_request act req (claim_of r)"
  shows "\<exists>s' r'. reach s' \<and> r' \<in> set (t_claims (sy_db s')) \<and> c_status r' = target act \<and> frame r' = frame r"
proof -
  let ?a = "\<lparr>ac_store = c_store r, ac_actor = \<lparr>act_Kind = ActorOwner, act_ID = [], act_Name = []\<rparr>,
    ac_via_link = False\<rparr>" and ?c = "claim_of r"
  from reach_ledger [OF assms(1)] have inv: "ledger_ok (sy_db s)" .
  then have rok: "row_ok r" using r(1) by (simp add: ledger_ok_def)
  have find: "find_claim (ac_store ?a) (c_id r) (sy_db s) = Some r"
  proof -
    have "find (\<lambda>x. c_id x = c_id r) (t_claims (sy_db s)) = Some r"
      using find_key_unique [of c_id "t_claims (sy_db s)" r] inv r(1) by (simp add: ledger_ok_def)
    moreover have "(c_id x = c_id r \<and> c_store x = c_store r) = (c_id x = c_id r)"
      if "x \<in> set (t_claims (sy_db s))" for x
      using that r(1) inv by (auto simp: ledger_ok_def distinct_map inj_on_def)
    ultimately show ?thesis by (simp add: find_claim_def cong: find_cong)
  qed
  let ?s1 = "s\<lparr>sy_read := (sy_read s)(0 := Some (?a, ?c))\<rparr>"
  have s1: "reach ?s1" by (rule reach_step [OF assms(1) step_read [OF find]])
  have "0 \<le> cl_PaidAmountKRW ?c"
    using rok by (auto simp: claim_of_def row_ok_def paid_ok_def split: if_splits)
  from decide_ok [OF r(2) _ this, of ?a 1] obtain c2 ev where
    dec: "decide 1 ?a req (target act) (extra_of act) ?c = Inr (c2, ev)"
    and c2: "cl_ID c2 = cl_ID ?c" "cl_Status c2 = target act" "0 \<le> cl_PaidAmountKRW c2"
      "ev_From ev = cl_Status ?c" "ev_ClaimID ev = cl_ID ?c" by auto
  have m: "matches_update (ac_store ?a) c2 ev r" using c2 by (simp add: matches_update_def claim_of_def)
  have com: "commit_decision (\<lambda>_. False) True ?a c2 ev (sy_db ?s1)
      = (Done (cl_ID c2, cl_Status c2), applied_db (ac_store ?a) c2 ev (sy_db s))"
    using commit_decision_ok [OF r(1) m _ c2(3)] c2(5) by (simp add: claim_of_def)
  let ?s2 = "?s1\<lparr>sy_db := applied_db (ac_store ?a) c2 ev (sy_db s), sy_read := (sy_read ?s1)(0 := None)\<rparr>"
  have "step ?s1 ?s2"
    by (rule step_write [OF _ _ dec com]) (simp_all add: IsZero_def zero_time_def Second_def)
  then have "reach ?s2" by (rule reach_step [OF s1])
  moreover have "update_claim c2 ev r \<in> set (t_claims (sy_db ?s2))"
    using r(1) m by (force simp: applied_db_def)
  ultimately show ?thesis using c2(2)
    by (intro exI [of _ ?s2] exI [of _ "update_claim c2 ev r"]) simp
qed

lemma reach_pending: "\<exists>s r. reach s \<and> r \<in> set (t_claims (sy_db s)) \<and> c_status r = StatusPending
    \<and> frame r = (''c1'', ''s1'', PaymentCash, 3000)"
proof -
  let ?s0 = "\<lparr>sy_db = demo_db, sy_read = (\<lambda>_. None)\<rparr>"
  let ?row = "new_claim_row (demo_env ''c1'') demo_input (''x'', ''h'') (''a'', ''g'') ''o'' None"
  have s0: "reach ?s0" by (rule reach_start) (simp_all add: demo_db_def empty_db_def)
  have ev: "rs_Status (Evaluate sample_input DefaultPolicy) = StatusPending"
  proof -
    have "fired sample_input DefaultPolicy = []"
      by (simp add: fired_def rules_def List.map_filter_def ruleManual_def ruleRepeat_def
          ruleAccountSharing_def rulePayoutCeiling_def ruleHighAmount_def sample_input_def DefaultPolicy_def)
    then show ?thesis by (simp add: Evaluate_fields)
  qed
  obtain r d' where t: "create_tx (demo_env ''c1'') ?row (ci_Photos demo_input) demo_db = (r, d')"
    and d': "t_claims d' = [?row]"
    by (simp add: demo_eval)
  have "reach (?s0\<lparr>sy_db := d'\<rparr>)"
    by (rule reach_step [OF s0], rule step_file [where p = DefaultPolicy and ri = sample_input and i = demo_input])
      (use t ev in \<open>simp_all add: demo_input_def\<close>)
  moreover have "c_status ?row = StatusPending" "frame ?row = (''c1'', ''s1'', PaymentCash, 3000)"
    by (simp_all add: new_claim_row_def frame_def demo_env_def demo_input_def)
  ultimately show ?thesis using d' by (intro exI [of _ "?s0\<lparr>sy_db := d'\<rparr>"] exI [of _ ?row]) simp
qed

lemma reach_paid: "\<exists>s r. reach s \<and> r \<in> set (t_claims (sy_db s)) \<and> c_status r = StatusPaid"
proof -
  from reach_pending obtain s1 r1 where 1: "reach s1" "r1 \<in> set (t_claims (sy_db s1))"
    "c_status r1 = StatusPending" "frame r1 = (''c1'', ''s1'', PaymentCash, 3000)" by blast
  have "valid_request Approve empty_request (claim_of r1)"
    using 1(3) by (simp add: valid_request_def claim_of_def transitions_def)
  from reach_progress [OF 1(1,2) this] obtain s2 r2 where 2: "reach s2"
    "r2 \<in> set (t_claims (sy_db s2))" "c_status r2 = StatusApproved" "frame r2 = frame r1" by auto
  have "valid_request MarkPaid (empty_request\<lparr>tr_Method := PayoutManual\<rparr>) (claim_of r2)"
    using 2(3,4) 1(4)
    by (simp add: valid_request_def claim_of_def transitions_def method_ok_def frame_def empty_request_def)
  from reach_progress [OF 2(1,2) this] show ?thesis by auto
qed

section \<open>The properties of the reachable states\<close>

text \<open>
  C1. No claim is ever refunded twice. In every state the system can reach, with any number
  of requests in flight that decide on copies read earlier, any statement failing and any
  interleaving, the audit log of a claim has at most one payment, and it has one exactly when
  the claim's row says paid.
\<close>

theorem refunded_at_most_once:
  assumes "reach s" and "r \<in> set (t_claims (sy_db s))"
  shows "length (payments (sy_db s) (c_id r)) = (if c_status r = StatusPaid then 1 else 0)"
proof -
  from reach_ledger [OF assms(1)] assms(2) have log: "log_ok (t_events (sy_db s)) r"
    by (simp add: ledger_ok_def)
  have "length (payments (sy_db s) (c_id r)) \<le> 1"
    using log_paid_once [OF log] by (simp add: payments_def)
  moreover have "length xs \<noteq> 0 \<longleftrightarrow> xs \<noteq> []" for xs :: "Event list" by simp
  ultimately show ?thesis using log_paid_iff [OF log]
    by (metis One_nat_def le_SucE le_zero_eq length_0_conv)
qed

lemma refunded_at_most_once_witness:
  "\<exists>s r. reach s \<and> r \<in> set (t_claims (sy_db s)) \<and> c_status r = StatusPaid
    \<and> length (payments (sy_db s) (c_id r)) = 1"
proof -
  from reach_paid obtain s r where s: "reach s" "r \<in> set (t_claims (sy_db s))" "c_status r = StatusPaid"
    by blast
  from refunded_at_most_once [OF s(1,2)] s(3) have "length (payments (sy_db s) (c_id r)) = 1" by simp
  with s show ?thesis by blast
qed

text \<open>
  C4. What the books say is consistent in every reachable state: a claim is paid exactly when
  an amount, a time and a method are recorded; the amount is positive and not above the
  claimed one; a card payment was voided and any other transferred; a claim is resolved
  exactly in the two terminal states; and no two claims share an id or an idempotency key of
  one store.
\<close>

theorem books_consistent:
  assumes "reach s"
  shows "list_all row_ok (t_claims (sy_db s))
    \<and> distinct (map c_id (t_claims (sy_db s))) \<and> distinct (map claim_key (t_claims (sy_db s)))"
  using reach_ledger [OF assms] by (simp add: ledger_ok_def list_all_iff)

lemma books_consistent_witness:
  "\<exists>s r. reach s \<and> r \<in> set (t_claims (sy_db s)) \<and> c_status r = StatusPaid \<and> row_ok r"
proof -
  from reach_paid obtain s r where "reach s" "r \<in> set (t_claims (sy_db s))" "c_status r = StatusPaid"
    by blast
  with books_consistent [of s] show ?thesis by (auto simp: list_all_iff)
qed

text \<open>
  C5. The audit log is complete and gapless in every reachable state: each claim has one
  creation event, into an initial state, and its transition events, in the order they were
  recorded, lead from there along edges of the transition table to the state in its row.
\<close>

theorem audit_log_is_history:
  assumes "reach s"
  shows "list_all (log_ok (t_events (sy_db s))) (t_claims (sy_db s))"
  using reach_ledger [OF assms] by (simp add: ledger_ok_def list_all_iff)

lemma audit_log_is_history_witness:
  "\<exists>s r. reach s \<and> r \<in> set (t_claims (sy_db s)) \<and> c_status r = StatusPaid \<and> log_ok (t_events (sy_db s)) r"
proof -
  from reach_paid obtain s r where "reach s" "r \<in> set (t_claims (sy_db s))" "c_status r = StatusPaid"
    by blast
  with audit_log_is_history [of s] show ?thesis by (auto simp: list_all_iff)
qed

end
