(* ===== verification/Payout_Links.thy ===== *)
theory Payout_Links
  imports Prelude Go_Text Crypto_Box "HOL-Library.List_Lexorder" "HOL-Library.Char_ord"
begin

text \<open>
  \<^verbatim>\<open>internal/payout\<close>: the banks a customer may name, the transfer apps an owner may choose,
  and the deep links that open such an app with bank, account and amount filled in. The
  templates come from the settings; every value put into one is escaped.
\<close>

section \<open>Banks and providers\<close>

record Bank =
  bk_Code :: string
  bk_Name :: string
  bk_Short :: string

definition banks :: "Bank list" where
  "banks = map (\<lambda>(c, n, s). \<lparr>bk_Code = c, bk_Name = n, bk_Short = s\<rparr>)
    [(''090'', (u8 [0xD1A0, 0xC2A4, 0xBC45, 0xD06C]), (u8 [0xD1A0, 0xC2A4])), (''089'', (u8 [0xCF00, 0xC774, 0xBC45, 0xD06C]), (u8 [0xCF00, 0xC774, 0xBC45, 0xD06C])),
     (''092'', (u8 [0xCE74, 0xCE74, 0xC624, 0xBC45, 0xD06C]), (u8 [0xCE74, 0xCE74, 0xC624])), (''004'', (u8 [0xAD6D, 0xBBFC, 0xC740, 0xD589]), (u8 [0xAD6D, 0xBBFC])),
     (''088'', (u8 [0xC2E0, 0xD55C, 0xC740, 0xD589]), (u8 [0xC2E0, 0xD55C])), (''020'', (u8 [0xC6B0, 0xB9AC, 0xC740, 0xD589]), (u8 [0xC6B0, 0xB9AC])),
     (''081'', (u8 [0xD558, 0xB098, 0xC740, 0xD589]), (u8 [0xD558, 0xB098])), (''011'', (u8 [0xB18D, 0xD611, 0xC740, 0xD589]), (u8 [0xB18D, 0xD611])),
     (''003'', (u8 [0xAE30, 0xC5C5, 0xC740, 0xD589]), (u8 [0xAE30, 0xC5C5])), (''023'', (u8 [0x53, 0x43, 0xC81C, 0xC77C, 0xC740, 0xD589]), (u8 [0x53, 0x43, 0xC81C, 0xC77C])),
     (''027'', (u8 [0xD55C, 0xAD6D, 0xC528, 0xD2F0, 0xC740, 0xD589]), (u8 [0xC528, 0xD2F0])), (''031'', (u8 [0xB300, 0xAD6C, 0xC740, 0xD589]), (u8 [0xB300, 0xAD6C])),
     (''032'', (u8 [0xBD80, 0xC0B0, 0xC740, 0xD589]), (u8 [0xBD80, 0xC0B0])), (''034'', (u8 [0xAD11, 0xC8FC, 0xC740, 0xD589]), (u8 [0xAD11, 0xC8FC])),
     (''035'', (u8 [0xC81C, 0xC8FC, 0xC740, 0xD589]), (u8 [0xC81C, 0xC8FC])), (''037'', (u8 [0xC804, 0xBD81, 0xC740, 0xD589]), (u8 [0xC804, 0xBD81])),
     (''039'', (u8 [0xACBD, 0xB0A8, 0xC740, 0xD589]), (u8 [0xACBD, 0xB0A8])), (''045'', (u8 [0xC0C8, 0xB9C8, 0xC744, 0xAE08, 0xACE0]), (u8 [0xC0C8, 0xB9C8, 0xC744])),
     (''048'', (u8 [0xC2E0, 0xD611]), (u8 [0xC2E0, 0xD611])), (''071'', (u8 [0xC6B0, 0xCCB4, 0xAD6D]), (u8 [0xC6B0, 0xCCB4, 0xAD6D])),
     (''007'', (u8 [0xC218, 0xD611, 0xC740, 0xD589]), (u8 [0xC218, 0xD611]))]"

definition BankByCode :: "string \<Rightarrow> Bank option" where
  "BankByCode code = find (\<lambda>b. bk_Code b = code) banks"

record Provider =
  pv_ID :: string
  pv_Label :: string
  pv_Prefills :: bool
  pv_Note :: string
  pv_Template :: string

definition ProviderNone :: string where "ProviderNone = ''none''"
definition ProviderCustom :: string where "ProviderCustom = ''custom''"

definition providers :: "Provider list" where
  "providers =
    [\<lparr>pv_ID = ProviderNone, pv_Label = (u8 [0xC0AC, 0xC6A9, 0x20, 0xC548, 0x20, 0xD568]), pv_Prefills = False,
      pv_Note = (u8 [0xACC4, 0xC88C, 0xBC88, 0xD638, 0x20, 0xBCF5, 0xC0AC, 0x20, 0xBC84, 0xD2BC, 0xB9CC, 0x20, 0xD45C, 0xC2DC, 0xD569, 0xB2C8, 0xB2E4, 0x2E, 0x20, 0xC740, 0xD589, 0x20, 0xC571, 0xC740, 0x20, 0xC9C1, 0xC811, 0x20, 0xC5EC, 0xC138, 0xC694, 0x2E]), pv_Template = []\<rparr>,
     \<lparr>pv_ID = ''toss'', pv_Label = (u8 [0xD1A0, 0xC2A4]), pv_Prefills = True,
      pv_Note = (u8 [0xC740, 0xD589, 0xB7, 0xACC4, 0xC88C, 0xB7, 0xAE08, 0xC561, 0xC774, 0x20, 0xC790, 0xB3D9, 0xC73C, 0xB85C, 0x20, 0xCC44, 0xC6CC, 0xC9D1, 0xB2C8, 0xB2E4, 0x2E]),
      pv_Template = ''supertoss://send?bank={bankShort}&accountNo={account}&amount={amount}''\<rparr>,
     \<lparr>pv_ID = ''kakaobank'', pv_Label = (u8 [0xCE74, 0xCE74, 0xC624, 0xBC45, 0xD06C]), pv_Prefills = False,
      pv_Note = (u8 [0xC571, 0xB9CC, 0x20, 0xC5F4, 0xB9BD, 0xB2C8, 0xB2E4, 0x2E, 0x20, 0xACC4, 0xC88C, 0xC640, 0x20, 0xAE08, 0xC561, 0xC740, 0x20, 0xC9C1, 0xC811, 0x20, 0xC785, 0xB825, 0xD574, 0xC57C, 0x20, 0xD569, 0xB2C8, 0xB2E4, 0x20, 0x2014, 0x20, 0xC790, 0xB3D9, 0x20, 0xC785, 0xB825, 0xB418, 0xB294, 0x20, 0xACF5, 0xAC1C, 0x20, 0xBC29, 0xC2DD, 0xC774, 0x20, 0xD655, 0xC778, 0xB418, 0xC9C0, 0x20, 0xC54A, 0xC558, 0xC2B5, 0xB2C8, 0xB2E4, 0x2E]),
      pv_Template = ''kakaobank://''\<rparr>,
     \<lparr>pv_ID = ProviderCustom, pv_Label = (u8 [0xC9C1, 0xC811, 0x20, 0xC785, 0xB825]), pv_Prefills = True,
      pv_Note = (u8 [0xB525, 0xB9C1, 0xD06C, 0x20, 0xC8FC, 0xC18C, 0xB97C, 0x20, 0xC9C1, 0xC811, 0x20, 0xB123, 0xC2B5, 0xB2C8, 0xB2E4, 0x2E, 0x20, 0xCE58, 0xD658, 0x20, 0xD1A0, 0xD070, 0x3A, 0x20, 0x7B, 0x62, 0x61, 0x6E, 0x6B, 0x53, 0x68, 0x6F, 0x72, 0x74, 0x7D, 0x20, 0x7B, 0x62, 0x61, 0x6E, 0x6B, 0x4E, 0x61, 0x6D, 0x65, 0x7D, 0x20, 0x7B, 0x62, 0x61, 0x6E, 0x6B, 0x7D, 0x20, 0x7B, 0x61, 0x63, 0x63, 0x6F, 0x75, 0x6E, 0x74, 0x7D, 0x20, 0x7B, 0x61, 0x6D, 0x6F, 0x75, 0x6E, 0x74, 0x7D, 0x20, 0x7B, 0x68, 0x6F, 0x6C, 0x64, 0x65, 0x72, 0x7D]),
      pv_Template = []\<rparr>]"

definition ProviderByID :: "string \<Rightarrow> Provider option" where
  "ProviderByID i = find (\<lambda>p. pv_ID p = i) providers"

definition TemplateFor :: "string \<Rightarrow> string \<Rightarrow> string" where
  "TemplateFor provider custom =
    (if provider = ProviderCustom then custom
     else case ProviderByID provider of None \<Rightarrow> []
       | Some p \<Rightarrow> if pv_ID p = ProviderNone then [] else pv_Template p)"

section \<open>Escaping and replacing\<close>

text \<open>\<open>url.QueryEscape\<close>: letters, digits and four marks stay, a blank becomes a plus.\<close>

definition unreserved :: "char \<Rightarrow> bool" where
  "unreserved c \<longleftrightarrow> is_digit c \<or> (65 \<le> byte c \<and> byte c \<le> 90) \<or> (97 \<le> byte c \<and> byte c \<le> 122)
     \<or> c \<in> set ''-_.~''"

definition hex_digit :: "nat \<Rightarrow> char" where
  "hex_digit n = (if n < 10 then char_of (48 + n) else char_of (55 + n))"

definition escape_byte :: "char \<Rightarrow> string" where
  "escape_byte c = (if unreserved c then [c] else if c = CHR '' '' then ''+''
     else [CHR ''%'', hex_digit (byte c div 16), hex_digit (byte c mod 16)])"

definition QueryEscape :: "string \<Rightarrow> string" where
  "QueryEscape s = concat (map escape_byte s)"

text \<open>
  A \<open>strings.Replacer\<close> with non-empty old strings none of which is a prefix of another: at
  each position the key that matches is replaced, and the scan goes on after it.
\<close>

function replace_all :: "(string \<times> string) list \<Rightarrow> string \<Rightarrow> string" where
  "replace_all ps [] = []"
| "replace_all ps (c # s) =
    (case find (\<lambda>p. fst p \<noteq> [] \<and> HasPrefix (c # s) (fst p)) ps of
       Some p \<Rightarrow> snd p @ replace_all ps (drop (length (fst p)) (c # s))
     | None \<Rightarrow> c # replace_all ps s)"
  by pat_completeness auto
termination
  by (relation "measure (\<lambda>(_, s). length s)") (auto simp: find_Some_iff)

declare replace_all.simps(2) [simp del]

section \<open>Deep links\<close>

record Link =
  lk_Provider :: string
  lk_Label :: string
  lk_URL :: string

record PayoutRequest =
  rq_BankCode :: string
  rq_AccountNo :: string
  rq_Holder :: string
  rq_AmountKRW :: int

definition providerLabels :: "string \<rightharpoonup> string" where
  "providerLabels = map_of
    [(''toss'', (u8 [0xD1A0, 0xC2A4, 0xB85C, 0x20, 0xBCF4, 0xB0B4, 0xAE30])), (''kakaobank'', (u8 [0xCE74, 0xCE74, 0xC624, 0xBC45, 0xD06C, 0xB85C, 0x20, 0xBCF4, 0xB0B4, 0xAE30])),
     (''kbank'', (u8 [0xCF00, 0xC774, 0xBC45, 0xD06C, 0xB85C, 0x20, 0xBCF4, 0xB0B4, 0xAE30]))]"

text \<open>The template map of a \<open>Deeplink\<close> as an association list with distinct keys.\<close>

type_synonym Deeplink = "(string \<times> string) list"

definition NewDeeplink :: "(string \<times> string) list \<Rightarrow> Deeplink" where
  "NewDeeplink templates = filter (\<lambda>kv. TrimSpace (snd kv) \<noteq> []) templates"

datatype link_error = AmountInvalid | BankUnknown string | AccountEmpty

definition replacements :: "Bank \<Rightarrow> string \<Rightarrow> PayoutRequest \<Rightarrow> (string \<times> string) list" where
  "replacements bank account r =
    [(''{bank}'', QueryEscape (bk_Code bank)), (''{bankName}'', QueryEscape (bk_Name bank)),
     (''{bankShort}'', QueryEscape (bk_Short bank)), (''{account}'', QueryEscape account),
     (''{amount}'', QueryEscape (Itoa (rq_AmountKRW r))), (''{holder}'', QueryEscape (rq_Holder r))]"

definition Links :: "Deeplink \<Rightarrow> PayoutRequest \<Rightarrow> (link_error, Link list) result" where
  "Links dl r =
    (if rq_AmountKRW r \<le> 0 then Inl AmountInvalid
     else case BankByCode (rq_BankCode r) of None \<Rightarrow> Inl (BankUnknown (rq_BankCode r))
     | Some bank \<Rightarrow>
        (let account = digits_only (rq_AccountNo r)
         in if account = [] then Inl AccountEmpty
            else if dl = [] then Inr []
            else Inr (map (\<lambda>p. \<lparr>lk_Provider = p,
                   lk_Label = (case providerLabels p of Some l \<Rightarrow> l | None \<Rightarrow> p),
                   lk_URL = replace_all (replacements bank account r)
                     (case map_of dl p of Some t \<Rightarrow> t | None \<Rightarrow> [])\<rparr>)
                 (sort (map fst dl)))))"

section \<open>What the links contain\<close>

text \<open>The characters an escaped value may hold.\<close>

definition harmless :: "char \<Rightarrow> bool" where
  "harmless c \<longleftrightarrow> unreserved c \<or> c = CHR ''+'' \<or> c = CHR ''%''"

lemma hex_digit_unreserved: "n < 16 \<Longrightarrow> unreserved (hex_digit n)"
  by (auto simp: unreserved_def hex_digit_def is_digit_def byte_def of_char_of)

lemma byte_nibbles: "byte c div 16 < 16" "byte c mod 16 < 16"
  using byte_less [of c] by (simp_all add: less_mult_imp_div_less)

lemma escape_byte_harmless: "c \<in> set (escape_byte x) \<Longrightarrow> harmless c"
  using hex_digit_unreserved [OF byte_nibbles(1) [of x]] hex_digit_unreserved [OF byte_nibbles(2) [of x]]
  by (auto simp: escape_byte_def harmless_def split: if_splits)

lemma QueryEscape_harmless: "c \<in> set (QueryEscape s) \<Longrightarrow> harmless c"
  using escape_byte_harmless by (auto simp: QueryEscape_def)

lemma find_map: "find P (map f xs) = map_option f (find (\<lambda>x. P (f x)) xs)"
  by (induction xs) auto

lemma replace_all_skeleton:
  assumes "\<And>p c. p \<in> set ps \<Longrightarrow> c \<in> set (snd p) \<Longrightarrow> harmless c"
  shows "filter (\<lambda>c. \<not> harmless c) (replace_all ps t)
    = filter (\<lambda>c. \<not> harmless c) (replace_all (map (\<lambda>p. (fst p, [])) ps) t)"
  using assms
proof (induction ps t rule: replace_all.induct)
  case (1 ps)
  then show ?case by simp
next
  case (2 ps c s)
  let ?P = "\<lambda>p. fst p \<noteq> [] \<and> HasPrefix (c # s) (fst p)"
  show ?case
  proof (cases "find ?P ps")
    case None
    with 2 show ?thesis by (simp add: replace_all.simps(2) find_map)
  next
    case (Some p)
    then have "p \<in> set ps" by (auto dest: find_Some_in)
    then have "filter (\<lambda>c. \<not> harmless c) (snd p) = []"
      using 2(3) by (auto simp: filter_empty_conv)
    with 2 Some show ?thesis by (simp add: replace_all.simps(2) find_map)
  qed
qed

lemma replacements_harmless:
  "p \<in> set (replacements bank account r) \<Longrightarrow> c \<in> set (snd p) \<Longrightarrow> harmless c"
  using QueryEscape_harmless by (auto simp: replacements_def)

text \<open>Reading an escaped value back, as the app that is opened does.\<close>

definition hex_val :: "char \<Rightarrow> nat" where
  "hex_val c = (if byte c < 58 then byte c - 48 else byte c - 55)"

fun unescape :: "string \<Rightarrow> string" where
  "unescape [] = []"
| "unescape (c # s) =
    (if c = CHR ''+'' then CHR '' '' # unescape s
     else if c = CHR ''%'' then
       (case s of a # b # t \<Rightarrow> char_of (16 * hex_val a + hex_val b) # unescape t | _ \<Rightarrow> [])
     else c # unescape s)"

lemma hex_val_digit: "n < 16 \<Longrightarrow> hex_val (hex_digit n) = n"
  by (auto simp: hex_val_def hex_digit_def byte_char_of)

lemma unreserved_plain: "unreserved c \<Longrightarrow> c \<noteq> CHR ''+'' \<and> c \<noteq> CHR ''%''"
  by (auto simp: unreserved_def is_digit_def byte_def)

lemma unescape_byte: "unescape (escape_byte c @ t) = c # unescape t"
proof -
  have "char_of (16 * (byte c div 16) + byte c mod 16) = c"
    by (simp add: mult_div_mod_eq)
  then show ?thesis
    by (auto simp: escape_byte_def hex_val_digit byte_nibbles dest: unreserved_plain)
qed

text \<open>
  Escaping loses nothing and lets nothing out: a value is read back exactly as it was,
  so that two different values never look the same in a link, and its escaped form consists
  of letters, digits and the characters - _ . ~ + % only.
\<close>

theorem QueryEscape_roundtrip:
  "unescape (QueryEscape s) = s \<and> list_all harmless (QueryEscape s)"
proof -
  have "unescape (QueryEscape s) = s"
    by (induction s) (simp_all add: QueryEscape_def unescape_byte)
  then show ?thesis using QueryEscape_harmless by (auto simp: list_all_iff)
qed

text \<open>
  The transfer links of a claim: they are only made for a positive amount, a known bank
  and an account with a digit; there is one per template, in the order of the app names; and
  no value put into a template can change its structure: the characters that delimit the
  parts of a link are those of the template with all its values left empty.
\<close>

theorem Links_shape:
  assumes "Links dl r = Inr ls" and "distinct (map fst dl)"
  shows "0 < rq_AmountKRW r \<and> BankByCode (rq_BankCode r) \<noteq> None \<and> digits_only (rq_AccountNo r) \<noteq> []
    \<and> map lk_Provider ls = sort (map fst dl)
    \<and> list_all (\<lambda>l. \<exists>t bank. (lk_Provider l, t) \<in> set dl
        \<and> filter (\<lambda>c. \<not> harmless c) (lk_URL l) = filter (\<lambda>c. \<not> harmless c)
            (replace_all (map (\<lambda>p. (fst p, [])) (replacements bank (digits_only (rq_AccountNo r)) r)) t)) ls"
proof -
  from assms(1) obtain bank where g: "0 < rq_AmountKRW r" "BankByCode (rq_BankCode r) = Some bank"
    "digits_only (rq_AccountNo r) \<noteq> []"
    by (auto simp: Links_def Let_def split: if_splits option.splits)
  have ls: "ls = map (\<lambda>p. \<lparr>lk_Provider = p,
      lk_Label = (case providerLabels p of Some l \<Rightarrow> l | None \<Rightarrow> p),
      lk_URL = replace_all (replacements bank (digits_only (rq_AccountNo r)) r)
        (case map_of dl p of Some t \<Rightarrow> t | None \<Rightarrow> [])\<rparr>) (sort (map fst dl))"
    using assms(1) g by (auto simp: Links_def Let_def split: if_splits)
  have "\<exists>t b. (lk_Provider l, t) \<in> set dl
      \<and> filter (\<lambda>c. \<not> harmless c) (lk_URL l) = filter (\<lambda>c. \<not> harmless c)
          (replace_all (map (\<lambda>p. (fst p, [])) (replacements b (digits_only (rq_AccountNo r)) r)) t)"
    if "l \<in> set ls" for l
  proof -
    from that have "lk_Provider l \<in> fst ` set dl"
      and url: "lk_URL l = replace_all (replacements bank (digits_only (rq_AccountNo r)) r)
        (case map_of dl (lk_Provider l) of Some t \<Rightarrow> t | None \<Rightarrow> [])"
      unfolding ls by (auto intro: rev_image_eqI)
    then obtain p where p: "p \<in> fst ` set dl" "lk_Provider l = p" by blast
    then obtain t where t: "(p, t) \<in> set dl" by auto
    with assms(2) have "map_of dl p = Some t" by simp
    with p url replace_all_skeleton [of "replacements bank (digits_only (rq_AccountNo r)) r" t,
        OF replacements_harmless]
    show ?thesis using t by (intro exI [of _ t] exI [of _ bank]) simp
  qed
  then show ?thesis using g ls by (simp add: list_all_iff comp_def)
qed

definition demo_payout :: PayoutRequest where
  "demo_payout = \<lparr>rq_BankCode = ''088'', rq_AccountNo = ''110-123'', rq_Holder = ''A & B'', rq_AmountKRW = 3000\<rparr>"

lemma Links_shape_witness:
  "\<exists>ls. Links [(''x'', ''app://s?h={holder}'')] demo_payout = Inr ls \<and> map lk_Provider ls = [''x'']"
proof -
  have d: "digits_only (rq_AccountNo demo_payout) = ''110123''"
    by (simp add: demo_payout_def) code_simp
  obtain ls where ls: "Links [(''x'', ''app://s?h={holder}'')] demo_payout = Inr ls"
    using d by (simp add: Links_def demo_payout_def BankByCode_def banks_def)
  from Links_shape [OF this] ls show ?thesis by auto
qed

end
