(* ===== verification/Store_Accounts.thy ===== *)
theory Store_Accounts
  imports Store_Tables
begin

text \<open>
  \<^verbatim>\<open>internal/store/user.go\<close>: the accounts of a store and the store's own settings. Password
  hashing (bcrypt) is a parameter; the lockout after repeated failures, the rule that the
  last account of a store stays active, and the joint creation of a store with its first
  account are modelled.
\<close>

section \<open>Accounts\<close>

record User =
  u_ID :: string
  u_StoreID :: string
  u_Email :: string
  u_Name :: string
  u_Phone :: string
  u_Active :: bool

definition maxLoginFailures :: int where "maxLoginFailures = 5"
definition lockDuration :: duration where "lockDuration = 15 * Minute"

text \<open>
  \<open>bc_generate\<close> is \<open>bcrypt.GenerateFromPassword\<close> with its salt already drawn, \<open>bc_compare\<close>
  is \<open>CompareHashAndPassword\<close>, true when they match.
\<close>

record Bcrypt =
  bc_generate :: "string \<Rightarrow> string option"
  bc_compare :: "string \<Rightarrow> string \<Rightarrow> bool"

definition user_of :: "UserRow \<Rightarrow> User" where
  "user_of r = \<lparr>u_ID = us_id r, u_StoreID = us_store r, u_Email = us_email r, u_Name = us_name r,
     u_Phone = us_phone r, u_Active = us_active r\<rparr>"

definition insert_user :: "bool \<Rightarrow> UserRow \<Rightarrow> unit sql" where
  "insert_user fail u d =
    (if fail then (Inl DbFailure, d)
     else if us_email u \<in> us_email ` set (t_users d) \<or> us_id u \<in> us_id ` set (t_users d)
       then (Inl UniqueViolation, d)
     else if us_store u \<notin> st_id ` set (t_stores d) then (Inl DbFailure, d)
     else (Inr (), d\<lparr>t_users := t_users d @ [u]\<rparr>))"

definition new_user :: "string \<Rightarrow> instant \<Rightarrow> string \<Rightarrow> string \<Rightarrow> string \<Rightarrow> string \<Rightarrow> string \<Rightarrow> UserRow" where
  "new_user uid now storeID email hash name phone =
    \<lparr>us_id = uid, us_store = storeID, us_email = email, us_password_hash = hash, us_name = name,
     us_phone = phone, us_active = True, us_failed = 0, us_locked_until = None, us_created = now\<rparr>"

definition CreateUser ::
  "Bcrypt \<Rightarrow> bool \<Rightarrow> string \<Rightarrow> instant \<Rightarrow> string \<Rightarrow> string \<Rightarrow> string \<Rightarrow> string \<Rightarrow> string \<Rightarrow> User sql" where
  "CreateUser bc fail uid now storeID email password name phone d =
    (if rune_count password < 8 then (Inl (BadInput ''password''), d)
     else case bc_generate bc password of None \<Rightarrow> (Inl (BadInput ''hash''), d)
     | Some hash \<Rightarrow>
        (case insert_user fail (new_user uid now storeID email hash name phone) d of
           (Inl UniqueViolation, d') \<Rightarrow> (Inl (BadInput ''email''), d')
         | (Inl e, d') \<Rightarrow> (Inl e, d')
         | (Inr _, d') \<Rightarrow> (Inr (user_of (new_user uid now storeID email hash name phone)), d')))"

text \<open>An \<open>UPDATE users \<dots> WHERE \<dots>\<close> with the number of rows it touched.\<close>

definition update_users :: "bool \<Rightarrow> (UserRow \<Rightarrow> bool) \<Rightarrow> (UserRow \<Rightarrow> UserRow) \<Rightarrow> nat sql" where
  "update_users fail P f d =
    (if fail then (Inl DbFailure, d)
     else (Inr (length (filter P (t_users d))),
           d\<lparr>t_users := map (\<lambda>u. if P u then f u else u) (t_users d)\<rparr>))"

definition SetPassword ::
  "Bcrypt \<Rightarrow> (nat \<Rightarrow> nat) \<Rightarrow> bool \<Rightarrow> string \<Rightarrow> string \<Rightarrow> unit sql" where
  "SetPassword bc lc fail email0 password d =
    (if rune_count password < 8 then (Inl (BadInput ''password''), d)
     else if 72 < length password then (Inl (BadInput ''password''), d)
     else case bc_generate bc password of None \<Rightarrow> (Inl (BadInput ''hash''), d)
     | Some hash \<Rightarrow>
        (let email = TrimSpace (ToLower lc email0)
         in case update_users fail (\<lambda>u. us_email u = email)
              (\<lambda>u. u\<lparr>us_password_hash := hash, us_failed := 0, us_locked_until := None\<rparr>) d of
              (Inl e, d') \<Rightarrow> (Inl e, d')
            | (Inr n, d') \<Rightarrow> if n = 0 then (Inl ErrNotFound, d') else (Inr (), d')))"

definition UpdateUser :: "bool \<Rightarrow> string \<Rightarrow> string \<Rightarrow> string \<Rightarrow> string \<Rightarrow> User sql" where
  "UpdateUser fail storeID userID name phone d =
    (let P = (\<lambda>u. us_id u = userID \<and> us_store u = storeID); f = (\<lambda>u. u\<lparr>us_name := name, us_phone := phone\<rparr>)
     in case update_users fail P f d of
          (Inl e, d') \<Rightarrow> (Inl e, d')
        | (Inr _, d') \<Rightarrow> (case find P (t_users d') of
             None \<Rightarrow> (Inl ErrNotFound, d') | Some u \<Rightarrow> (Inr (user_of u), d')))"

text \<open>Active accounts first, each group in the order of creation.\<close>

definition ListUsers :: "string \<Rightarrow> db \<Rightarrow> User list" where
  "ListUsers storeID d = map user_of
     (let us = sort_key us_created (filter (\<lambda>u. us_store u = storeID) (t_users d))
      in filter us_active us @ filter (\<lambda>u. \<not> us_active u) us)"

text \<open>The count and the update are separate statements.\<close>

definition others_active :: "string \<Rightarrow> string \<Rightarrow> db \<Rightarrow> nat" where
  "others_active storeID userID d =
     length (filter (\<lambda>u. us_store u = storeID \<and> us_active u \<and> us_id u \<noteq> userID) (t_users d))"

definition set_active_row :: "bool \<Rightarrow> string \<Rightarrow> string \<Rightarrow> bool \<Rightarrow> unit sql" where
  "set_active_row fail storeID userID active d =
    (case update_users fail (\<lambda>u. us_id u = userID \<and> us_store u = storeID) (\<lambda>u. u\<lparr>us_active := active\<rparr>) d of
       (Inl e, d') \<Rightarrow> (Inl e, d')
     | (Inr n, d') \<Rightarrow> if n = 0 then (Inl ErrNotFound, d') else (Inr (), d'))"

definition SetUserActive ::
  "bool \<times> bool \<Rightarrow> (db \<Rightarrow> db) \<Rightarrow> string \<Rightarrow> string \<Rightarrow> bool \<Rightarrow> unit sql" where
  "SetUserActive fails between storeID userID active d =
    (if \<not> active \<and> fst fails then (Inl DbFailure, d)
     else if \<not> active \<and> others_active storeID userID d = 0 then (Inl (BadInput ''last''), d)
     else set_active_row (snd fails) storeID userID active (if active then d else between d))"

section \<open>Logging in\<close>

definition recordLoginFailure :: "bool \<Rightarrow> instant \<Rightarrow> string \<Rightarrow> int \<Rightarrow> unit sql" where
  "recordLoginFailure fail now userID count d =
    (let lockedUntil = (if maxLoginFailures \<le> count then Some (now + lockDuration) else None)
     in case update_users fail (\<lambda>u. us_id u = userID)
          (\<lambda>u. u\<lparr>us_failed := count, us_locked_until := lockedUntil\<rparr>) d of
          (Inl e, d') \<Rightarrow> (Inl e, d') | (Inr _, d') \<Rightarrow> (Inr (), d'))"

definition Authenticate ::
  "Bcrypt \<Rightarrow> bool \<times> bool \<Rightarrow> instant \<Rightarrow> string \<Rightarrow> string \<Rightarrow> User sql" where
  "Authenticate bc fails now email password d =
    (if fst fails then (Inl DbFailure, d) else
     case find (\<lambda>u. us_email u = email) (t_users d) of None \<Rightarrow> (Inl ErrNotFound, d)
     | Some u \<Rightarrow>
        if (case us_locked_until u of None \<Rightarrow> False | Some t \<Rightarrow> now < t) then (Inl ErrLocked, d)
        else if \<not> us_active u then (Inl ErrNotFound, d)
        else if \<not> bc_compare bc (us_password_hash u) password then
          (case recordLoginFailure (snd fails) now (us_id u) (us_failed u + 1) d of
             (Inl e, d') \<Rightarrow> (Inl e, d') | (Inr _, d') \<Rightarrow> (Inl ErrNotFound, d'))
        else if 0 < us_failed u then
          (case update_users (snd fails) (\<lambda>x. us_id x = us_id u)
             (\<lambda>x. x\<lparr>us_failed := 0, us_locked_until := None\<rparr>) d of
             (Inl e, d') \<Rightarrow> (Inl e, d') | (Inr _, d') \<Rightarrow> (Inr (user_of u), d'))
        else (Inr (user_of u), d))"

definition UserByID :: "bool \<Rightarrow> string \<Rightarrow> db \<Rightarrow> (db_error, User) result" where
  "UserByID fail uid d =
    (if fail then Inl DbFailure
     else case find (\<lambda>u. us_id u = uid \<and> us_active u) (t_users d) of
       None \<Rightarrow> Inl ErrNotFound | Some u \<Rightarrow> Inr (user_of u))"

section \<open>Stores\<close>

record StoreDetail =
  sd_ID :: string
  sd_Name :: string
  sd_Phone :: string
  sd_Type :: StoreType
  sd_PayoutProvider :: string
  sd_PayoutTemplate :: string
  sd_PayoutBankCode :: string
  sd_PayoutAccount :: string
  sd_RegionCode :: string
  sd_RegionDetail :: string
  sd_BizNo :: string

definition CanPostListing :: "StoreDetail \<Rightarrow> bool" where
  "CanPostListing x \<longleftrightarrow> sd_RegionCode x \<noteq> [] \<and> sd_BizNo x \<noteq> []"

definition StoreByID :: "Sec \<Rightarrow> bool \<Rightarrow> string \<Rightarrow> db \<Rightarrow> (db_error, StoreDetail) result" where
  "StoreByID k fail sid d =
    (if fail then Inl DbFailure else
     case find (\<lambda>s. st_id s = sid) (t_stores d) of None \<Rightarrow> Inl ErrNotFound
     | Some s \<Rightarrow>
       (case (case st_payout_account_enc s of
                None \<Rightarrow> Inr []
              | Some enc \<Rightarrow> if enc = [] then Inr [] else Decrypt (sec_aead k) enc) of
          Inl e \<Rightarrow> Inl (CryptoFailure e)
        | Inr account \<Rightarrow> Inr
           \<lparr>sd_ID = st_id s, sd_Name = st_name s, sd_Phone = coalesce (st_phone s) [], sd_Type = st_type s,
            sd_PayoutProvider = st_payout_provider s, sd_PayoutTemplate = st_payout_template s,
            sd_PayoutBankCode = st_payout_bank_code s, sd_PayoutAccount = account,
            sd_RegionCode = st_region_code s, sd_RegionDetail = st_region_detail s, sd_BizNo = st_biz_no s\<rparr>))"

record StoreProfile =
  sp_Name :: string
  sp_Phone :: string
  sp_Type :: StoreType
  sp_RegionCode :: string
  sp_RegionDetail :: string
  sp_BizNo :: string

definition update_stores :: "bool \<Rightarrow> string \<Rightarrow> (StoreRow \<Rightarrow> StoreRow) \<Rightarrow> nat sql" where
  "update_stores fail sid f d =
    (if fail then (Inl DbFailure, d)
     else (Inr (length (filter (\<lambda>s. st_id s = sid) (t_stores d))),
           d\<lparr>t_stores := map (\<lambda>s. if st_id s = sid then f s else s) (t_stores d)\<rparr>))"

text \<open>The check constraint of the schema on the kind of store.\<close>

definition UpdateStore :: "Sec \<Rightarrow> bool \<times> bool \<Rightarrow> string \<Rightarrow> StoreProfile \<Rightarrow> StoreDetail sql" where
  "UpdateStore k fails sid p d =
    (if sp_Type p \<noteq> [] \<and> \<not> ValidStoreType (sp_Type p) \<and> sid \<in> st_id ` set (t_stores d)
     then (Inl DbFailure, d)
     else case update_stores (fst fails) sid
       (\<lambda>s. s\<lparr>st_name := sp_Name p, st_phone := Some (sp_Phone p), st_region_code := sp_RegionCode p,
              st_region_detail := sp_RegionDetail p, st_biz_no := sp_BizNo p,
              st_type := (if sp_Type p = [] then st_type s else sp_Type p)\<rparr>) d of
       (Inl e, d') \<Rightarrow> (Inl e, d')
     | (Inr n, d') \<Rightarrow> if n = 0 then (Inl ErrNotFound, d')
         else (StoreByID k (snd fails) sid d', d'))"

record PayoutSettings =
  py_Provider :: string
  py_Template :: string
  py_BankCode :: string
  py_Account :: string

definition UpdatePayoutSettings ::
  "Sec \<Rightarrow> string option \<Rightarrow> bool \<times> bool \<Rightarrow> string \<Rightarrow> PayoutSettings \<Rightarrow> StoreDetail sql" where
  "UpdatePayoutSettings k rnd fails sid p d =
    (case (if py_Account p \<noteq> [] then map_sum id Some (Encrypt (sec_aead k) rnd (py_Account p))
           else Inr None) of
       Inl e \<Rightarrow> (Inl (CryptoFailure e), d)
     | Inr enc \<Rightarrow>
        (case update_stores (fst fails) sid
           (\<lambda>s. s\<lparr>st_payout_provider := py_Provider p, st_payout_template := py_Template p,
                  st_payout_bank_code := py_BankCode p, st_payout_account_enc := enc\<rparr>) d of
           (Inl e, d') \<Rightarrow> (Inl e, d')
         | (Inr n, d') \<Rightarrow> if n = 0 then (Inl ErrNotFound, d')
             else (StoreByID k (snd fails) sid d', d')))"

definition new_store :: "string \<Rightarrow> string \<Rightarrow> string \<Rightarrow> StoreType \<Rightarrow> StoreRow" where
  "new_store sid name phone ty =
    \<lparr>st_id = sid, st_name = name, st_phone = Some phone, st_type = ty, st_payout_provider = [],
     st_payout_template = [], st_payout_bank_code = [], st_payout_account_enc = None,
     st_region_code = [], st_region_detail = [], st_biz_no = []\<rparr>"

definition insert_store :: "bool \<Rightarrow> StoreRow \<Rightarrow> unit sql" where
  "insert_store fail s d =
    (if fail \<or> st_id s \<in> st_id ` set (t_stores d) then (Inl DbFailure, d)
     else (Inr (), d\<lparr>t_stores := t_stores d @ [s]\<rparr>))"

text \<open>A taken email rolls the new store back with it.\<close>

definition CreateStoreWithOwner ::
  "Bcrypt \<Rightarrow> bool \<times> bool \<times> bool \<Rightarrow> string \<times> string \<Rightarrow> instant \<Rightarrow> string \<Rightarrow> string \<Rightarrow> StoreType
     \<Rightarrow> string \<Rightarrow> string \<Rightarrow> string \<Rightarrow> (string \<times> User) sql" where
  "CreateStoreWithOwner bc fails ids now storeName storePhone storeType email password name d =
    (if rune_count password < 8 then (Inl (BadInput ''password''), d)
     else case bc_generate bc password of None \<Rightarrow> (Inl (BadInput ''hash''), d)
     | Some hash \<Rightarrow>
        tx (snd (snd fails))
          (and_then (insert_store (fst fails) (new_store (fst ids) storeName storePhone
              (NormalizeStoreType storeType))) (\<lambda>_.
           (\<lambda>d1. case insert_user (fst (snd fails)) (new_user (snd ids) now (fst ids) email hash name []) d1 of
              (Inl UniqueViolation, d2) \<Rightarrow> (Inl (BadInput ''email''), d2)
            | (Inl e, d2) \<Rightarrow> (Inl e, d2)
            | (Inr _, d2) \<Rightarrow> (Inr (fst ids, user_of (new_user (snd ids) now (fst ids) email hash name [])), d2)))) d)"

record AdminUserRow =
  au_Email :: string
  au_Name :: string
  au_StoreName :: string
  au_Active :: bool
  au_LockedUntil :: "instant option"
  au_CreatedAt :: instant

definition ListAllUsers :: "db \<Rightarrow> AdminUserRow list" where
  "ListAllUsers d = List.map_filter (\<lambda>u.
     map_option (\<lambda>s. \<lparr>au_Email = us_email u, au_Name = us_name u, au_StoreName = st_name s,
        au_Active = us_active u, au_LockedUntil = us_locked_until u, au_CreatedAt = us_created u\<rparr>)
       (find (\<lambda>s. st_id s = us_store u) (t_stores d)))
     (sort_key us_created (t_users d))"

section \<open>Frames of the updates\<close>

lemma find_map_if:
  assumes "\<And>x. Q (if P x then f x else x) = Q x"
  shows "find Q (map (\<lambda>x. if P x then f x else x) xs) = map_option (\<lambda>x. if P x then f x else x) (find Q xs)"
  using assms by (induction xs) auto

definition login_row :: "string \<Rightarrow> db \<Rightarrow> UserRow option" where
  "login_row email d = find (\<lambda>u. us_email u = email) (t_users d)"

lemma update_users_login_row:
  assumes "update_users fail P f d = (Inr n, d')" and "\<And>u. us_email (f u) = us_email u"
  shows "login_row email d' = map_option (\<lambda>u. if P u then f u else u) (login_row email d)"
proof -
  from assms(1) have d': "t_users d' = map (\<lambda>u. if P u then f u else u) (t_users d)"
    by (auto simp: update_users_def split: if_splits)
  show ?thesis unfolding login_row_def d' by (rule find_map_if) (simp add: assms(2))
qed

section \<open>Lockout\<close>

text \<open>One wrong guess on an account that is not locked.\<close>

lemma wrong_guess:
  assumes "login_row email d = Some u" "us_locked_until u = None" "us_active u"
    "\<not> bc_compare bc (us_password_hash u) pw"
  shows "\<exists>d'. Authenticate bc (False, False) t email pw d = (Inl ErrNotFound, d')
    \<and> login_row email d' = Some (u\<lparr>us_failed := us_failed u + 1, us_locked_until :=
        (if 5 \<le> us_failed u + 1 then Some (t + lockDuration) else None)\<rparr>)"
proof -
  define lock where "lock = (if 5 \<le> us_failed u + 1 then Some (t + lockDuration) else None)"
  let ?f = "\<lambda>x. x\<lparr>us_failed := us_failed u + 1, us_locked_until := lock\<rparr>"
  let ?d' = "d\<lparr>t_users := map (\<lambda>x. if us_id x = us_id u then ?f x else x) (t_users d)\<rparr>"
  obtain n where upd: "update_users False (\<lambda>x. us_id x = us_id u) ?f d = (Inr n, ?d')"
    by (simp add: update_users_def)
  have rec: "recordLoginFailure False t (us_id u) (us_failed u + 1) d = (Inr (), ?d')"
    by (cases "4 \<le> us_failed u")
      (simp_all add: recordLoginFailure_def maxLoginFailures_def lock_def update_users_def)
  have "Authenticate bc (False, False) t email pw d = (Inl ErrNotFound, ?d')"
    using assms rec by (simp add: Authenticate_def login_row_def)
  moreover have "login_row email ?d' = Some (?f u)"
    using update_users_login_row [OF upd, of email] assms(1) by simp
  ultimately show ?thesis unfolding lock_def by blast
qed

definition guesses :: "Bcrypt \<Rightarrow> string \<Rightarrow> (instant \<times> string) list \<Rightarrow> db \<Rightarrow> db" where
  "guesses bc email tps d = fold (\<lambda>(t, p) d. snd (Authenticate bc (False, False) t email p d)) tps d"

lemma few_guesses:
  assumes "login_row email d = Some u" "us_locked_until u = None" "us_active u"
    "list_all (\<lambda>(t, p). \<not> bc_compare bc (us_password_hash u) p) tps"
    "us_failed u + int (length tps) < 5"
  shows "login_row email (guesses bc email tps d)
    = Some (u\<lparr>us_failed := us_failed u + int (length tps), us_locked_until := None\<rparr>)"
  using assms
proof (induction tps arbitrary: d u)
  case Nil
  then show ?case by (cases u) (simp add: guesses_def)
next
  case (Cons tp tps)
  obtain t p where tp: "tp = (t, p)" by (cases tp)
  from wrong_guess [OF Cons.prems(1-3), of bc p t] Cons.prems(4,5) tp obtain d' where
    d': "Authenticate bc (False, False) t email p d = (Inl ErrNotFound, d')"
      "login_row email d' = Some (u\<lparr>us_failed := us_failed u + 1, us_locked_until := None\<rparr>)" by auto
  from Cons.IH [OF d'(2)] Cons.prems(3-5) tp
  have "login_row email (guesses bc email tps d')
    = Some (u\<lparr>us_failed := us_failed u + 1 + int (length tps), us_locked_until := None\<rparr>)" by simp
  then show ?case using d'(1) tp by (simp add: guesses_def ac_simps)
qed


definition demo_bcrypt :: Bcrypt where
  "demo_bcrypt = \<lparr>bc_generate = (\<lambda>p. Some (rev p)), bc_compare = (\<lambda>h p. h = rev p)\<rparr>"

definition demo_account :: UserRow where
  "demo_account = new_user ''u1'' 0 ''s1'' ''a@b'' (rev ''secret12'') ''Kim'' []"


section \<open>The last account\<close>

definition has_active :: "string \<Rightarrow> db \<Rightarrow> bool" where
  "has_active storeID d \<longleftrightarrow> (\<exists>u \<in> set (t_users d). us_store u = storeID \<and> us_active u)"

lemma set_active_row_users:
  assumes "set_active_row fail storeID userID active d = (r, d')"
  shows "t_users d' = t_users d \<or> t_users d' = map (\<lambda>u. if us_id u = userID \<and> us_store u = storeID
     then u\<lparr>us_active := active\<rparr> else u) (t_users d)"
  using assms by (auto simp: set_active_row_def update_users_def split: if_splits)

text \<open>
  C21. A store never locks itself out: when nobody else changes its accounts between the
  count and the update, switching an account on or off leaves every store that had an active
  account with one.
\<close>

theorem last_account_stays:
  assumes "has_active storeID d"
  shows "has_active storeID (snd (SetUserActive fails id st userID active d))"
proof (cases "SetUserActive fails id st userID active d")
  case (Pair r d')
  show ?thesis
  proof (cases "active = False \<and> (fst fails \<or> others_active st userID d = 0)")
    case True
    then have "snd (SetUserActive fails id st userID active d) = d"
      by (auto simp: SetUserActive_def)
    with assms show ?thesis by simp
  next
    case False
    then have "SetUserActive fails id st userID active d = set_active_row (snd fails) st userID active d"
      by (cases active) (simp_all add: SetUserActive_def)
    with Pair have s: "set_active_row (snd fails) st userID active d = (r, d')" by simp
    have "has_active storeID d'"
    proof (cases "t_users d' = t_users d")
      case True
      with assms show ?thesis by (simp add: has_active_def)
    next
      case changed: False
      let ?f = "\<lambda>u. if us_id u = userID \<and> us_store u = st then u\<lparr>us_active := active\<rparr> else u"
      from set_active_row_users [OF s] changed have d': "t_users d' = map ?f (t_users d)" by auto
      obtain u where u: "u \<in> set (t_users d)" "us_store u = storeID" "us_active u"
        "active \<or> \<not> (us_id u = userID \<and> us_store u = st)"
      proof (cases "active \<or> storeID \<noteq> st")
        case True
        with assms that show ?thesis by (auto simp: has_active_def)
      next
        case off: False
        with False have "others_active st userID d \<noteq> 0" by auto
        with off that show ?thesis by (auto simp: others_active_def filter_empty_conv)
      qed
      then have "us_store (?f u) = storeID" "us_active (?f u)" "?f u \<in> set (t_users d')"
        unfolding d' by auto
      then show ?thesis unfolding has_active_def by blast
    qed
    with Pair show ?thesis by simp
  qed
qed

lemma last_account_stays_witness:
  "has_active ''s1'' (snd (SetUserActive (False, False) id ''s1'' ''u1'' False
     (empty_db\<lparr>t_users := [demo_account]\<rparr>)))"
  by (rule last_account_stays) (simp add: has_active_def demo_account_def new_user_def)

text \<open>
  Two requests that count before either of them updates do lock the store out: each still
  sees the other's account as active.
\<close>

definition race_db :: db where
  "race_db = empty_db\<lparr>t_users := [demo_account, new_user ''u2'' 0 ''s1'' ''c@d'' [] ''Lee'' []]\<rparr>"

lemma deactivation_race:
  "has_active ''s1'' race_db
   \<and> fst (SetUserActive (False, False) (\<lambda>d. snd (SetUserActive (False, False) id ''s1'' ''u1'' False d))
        ''s1'' ''u2'' False race_db) = Inr ()
   \<and> \<not> has_active ''s1'' (snd (SetUserActive (False, False)
        (\<lambda>d. snd (SetUserActive (False, False) id ''s1'' ''u1'' False d)) ''s1'' ''u2'' False race_db))"
  by (simp add: race_db_def SetUserActive_def set_active_row_def update_users_def others_active_def
      has_active_def demo_account_def new_user_def empty_db_def)

end
