(* ===== verification/Go_Base64.thy ===== *)
theory Go_Base64
  imports Go_Text
begin

text \<open>
  Go's \<^verbatim>\<open>base64.RawURLEncoding\<close> and \<^verbatim>\<open>hex.EncodeToString\<close>, and the interface \<open>text_codec\<close> that
  the signed tokens rely on: what was encoded decodes to itself, and the encoding never
  contains the separator of the tokens.
\<close>

section \<open>The alphabet\<close>

definition b64_char :: "nat \<Rightarrow> char" where
  "b64_char v = char_of (if v < 26 then 65 + v else if v < 52 then 71 + v
     else if v < 62 then v - 4 else if v = 62 then 45 else 95)"

definition b64_val :: "char \<Rightarrow> nat option" where
  "b64_val c = (let b = byte c in
     if 65 \<le> b \<and> b \<le> 90 then Some (b - 65) else if 97 \<le> b \<and> b \<le> 122 then Some (b - 71)
     else if 48 \<le> b \<and> b \<le> 57 then Some (b + 4) else if b = 45 then Some 62
     else if b = 95 then Some 63 else None)"

lemma b64_val_char: "v < 64 \<Longrightarrow> b64_val (b64_char v) = Some v"
  by (auto simp: b64_val_def b64_char_def byte_char_of Let_def)

lemma b64_char_byte: "v < 64 \<Longrightarrow> byte (b64_char v) \<notin> {10, 13, 46, 58}"
  by (auto simp: b64_char_def byte_char_of)

section \<open>Encoding and decoding\<close>

text \<open>Three bytes become four characters; a rest of one or two bytes becomes two or three.\<close>

fun sextets :: "nat list \<Rightarrow> nat list" where
  "sextets [] = []"
| "sextets [a] = [a div 4, a mod 4 * 16]"
| "sextets [a, b] = [a div 4, a mod 4 * 16 + b div 16, b mod 16 * 4]"
| "sextets (a # b # c # r) =
     [a div 4, a mod 4 * 16 + b div 16, b mod 16 * 4 + c div 64, c mod 64] @ sextets r"

text \<open>Decoding is lenient about the unused low bits of the last character, as in Go.\<close>

fun octets :: "nat list \<Rightarrow> nat list option" where
  "octets [] = Some []"
| "octets [p] = None"
| "octets [p, q] = Some [p * 4 + q div 16]"
| "octets [p, q, r] = Some [p * 4 + q div 16, q mod 16 * 16 + r div 4]"
| "octets (p # q # r # s # xs) =
     map_option (\<lambda>bs. (p * 4 + q div 16) # (q mod 16 * 16 + r div 4) # (r mod 4 * 64 + s) # bs)
       (octets xs)"

fun vals :: "string \<Rightarrow> nat list option" where
  "vals [] = Some []"
| "vals (c # cs) = (case b64_val c of None \<Rightarrow> None | Some v \<Rightarrow> map_option (\<lambda>vs. v # vs) (vals cs))"

definition RawURLEncode :: "string \<Rightarrow> string" where
  "RawURLEncode s = map b64_char (sextets (map byte s))"

text \<open>Line feeds and carriage returns are skipped.\<close>

definition RawURLDecode :: "string \<Rightarrow> string option" where
  "RawURLDecode s = (case vals (filter (\<lambda>c. byte c \<notin> {10, 13}) s) of None \<Rightarrow> None
     | Some vs \<Rightarrow> map_option (map char_of) (octets vs))"

text \<open>A number written as a multiple of \<open>k\<close> and a rest below \<open>k\<close>.\<close>

lemma split_digits:
  fixes k m r :: nat
  assumes "r < k"
  shows "(m * k + r) div k = m" and "(m * k + r) mod k = r"
  using assms by simp_all

lemma mod_le: "0 < k \<Longrightarrow> (n::nat) mod k \<le> k - 1"
  using mod_less_divisor [of k n] by linarith

lemma byte_parts:
  fixes b :: nat
  assumes "b < 256"
  shows "b div 4 < 64" and "b div 16 < 16" and "b div 64 < 4"
  using assms by (simp_all add: less_mult_imp_div_less)

lemma sextet_bounds:
  fixes a b :: nat
  assumes "b < 256"
  shows "a mod 4 * 16 + b div 16 < 64" and "a mod 16 * 4 + b div 64 < 64" and "a mod 4 * 16 < 64"
    and "a mod 16 * 4 < 64"
  using byte_parts [OF assms] mod_le [of 4 a] mod_le [of 16 a] by linarith+

lemma sextets_less: "list_all (\<lambda>b. b < 256) bs \<Longrightarrow> list_all (\<lambda>v. v < 64) (sextets bs)"
  by (induction bs rule: sextets.induct) (simp_all add: byte_parts sextet_bounds)

lemma octets_join:
  fixes a b c :: nat
  shows "b < 256 \<Longrightarrow> a div 4 * 4 + (a mod 4 * 16 + b div 16) div 16 = a"
    and "b < 256 \<Longrightarrow> c < 256 \<Longrightarrow>
      (a mod 4 * 16 + b div 16) mod 16 * 16 + (b mod 16 * 4 + c div 64) div 4 = b"
    and "c < 256 \<Longrightarrow> (b mod 16 * 4 + c div 64) mod 4 * 64 + c mod 64 = c"
  by (simp_all only: split_digits byte_parts div_mult_mod_eq)

lemma octets_ends:
  fixes a b :: nat
  shows "a div 4 * 4 + a mod 4 * 16 div 16 = a"
    and "b < 256 \<Longrightarrow> (a mod 4 * 16 + b div 16) mod 16 * 16 + b mod 16 * 4 div 4 = b"
  by (simp_all add: split_digits byte_parts div_mult_mod_eq del: mult_div_mod_eq)

lemma octets_sextets: "list_all (\<lambda>b. b < 256) bs \<Longrightarrow> octets (sextets bs) = Some bs"
proof (induction bs rule: sextets.induct)
  case (2 a)
  then show ?case by (simp add: octets_ends)
next
  case (3 a b)
  then show ?case using octets_join(1) [of b a] octets_ends(2) [of b a] by simp
next
  case (4 a b c r)
  then show ?case
    using octets_join(1) [of b a] octets_join(2) [of c b a] octets_join(3) [of c b] by simp
qed simp

lemma vals_map: "list_all (\<lambda>v. v < 64) vs \<Longrightarrow> vals (map b64_char vs) = Some vs"
  by (induction vs) (simp_all add: b64_val_char)

lemma RawURLDecode_Encode: "RawURLDecode (RawURLEncode s) = Some s"
proof -
  have b: "list_all (\<lambda>b. b < 256) (map byte s)" by (simp add: list_all_iff)
  note v = sextets_less [OF b]
  have "filter (\<lambda>c. byte c \<notin> {10, 13}) (RawURLEncode s) = RawURLEncode s"
    using v b64_char_byte by (auto simp: RawURLEncode_def list_all_iff filter_id_conv)
  then show ?thesis
    by (simp add: RawURLDecode_def RawURLEncode_def vals_map [OF v] octets_sextets [OF b] comp_def)
qed

lemma RawURLEncode_chars: "c \<in> set (RawURLEncode s) \<Longrightarrow> byte c \<notin> {10, 13, 46, 58}"
  using sextets_less [of "map byte s"] b64_char_byte
  by (auto simp: RawURLEncode_def list_all_iff)

text \<open>Lower-case hexadecimal.\<close>

definition HexEncode :: "string \<Rightarrow> string" where
  "HexEncode s = concat (map (\<lambda>c. [''0123456789abcdef'' ! (byte c div 16), ''0123456789abcdef'' ! (byte c mod 16)]) s)"

section \<open>The interface of the tokens\<close>

locale text_codec =
  fixes enc :: "string \<Rightarrow> string"
    and dec :: "string \<Rightarrow> string option"
    and sep :: char
  assumes dec_enc: "dec (enc s) = Some s"
    and enc_sep: "sep \<notin> set (enc s)"
begin

lemma split_first: "Cut (enc b @ sep # rest) sep = Some (enc b, rest)"
  by (rule Cut_append) (rule enc_sep)

lemma split_last: "CutLast (rest @ sep # enc b) sep = Some (rest, enc b)"
  by (rule CutLast_append) (rule enc_sep)

lemma enc_inj: "enc a = enc b \<longleftrightarrow> a = b"
  by (metis dec_enc option.inject)

end

interpretation b64: text_codec RawURLEncode RawURLDecode "CHR ''.''"
proof unfold_locales
  show "RawURLDecode (RawURLEncode s) = Some s" for s by (rule RawURLDecode_Encode)
  show "CHR ''.'' \<notin> set (RawURLEncode s)" for s
    using RawURLEncode_chars [of "CHR ''.''" s] by (auto simp: byte_def)
qed

end
