(* ===== verification/Http_Access.thy ===== *)
theory Http_Access
  imports Go_Base64 Store_Accounts Http_Claims
begin

text \<open>
  Who may do what: the session cookie (\<^verbatim>\<open>internal/httpapi/session.go\<close>), the signed link to one
  claim (\<^verbatim>\<open>claimtoken.go\<close>), the guards that put an access into the request (\<^verbatim>\<open>auth.go\<close>) and
  the route table (\<^verbatim>\<open>server.go\<close>). HMAC-SHA256 under the configured secret is the parameter
  \<open>mac\<close>; nothing is assumed of it: where forging matters, the theorems exhibit the two
  different messages with the same tag that a forger would need.
\<close>

section \<open>Times in tokens\<close>

text \<open>
  \<open>time.Unix(sec, 0)\<close>: the seconds are shifted to the epoch of Go's \<open>time.Time\<close> in a 64-bit
  integer, which wraps for absurdly late times.
\<close>

definition time_Unix :: "int \<Rightarrow> instant" where
  "time_Unix n = (i64 (n + 62135596800) - 62135596800) * Second"

definition token_range :: "instant \<Rightarrow> bool" where
  "token_range t \<longleftrightarrow> \<bar>t\<bar> < 2 ^ 61 * Second"

lemma time_Unix_Unix:
  assumes "token_range t"
  shows "time_Unix (Unix t) = t div Second * Second" and "in_i64 (Unix t)"
proof -
  have S: "Second = 1000000000" by (simp add: Second_def)
  from assms have lo: "- (2 ^ 61) * Second \<le> t" and hi: "t < 2 ^ 61 * Second"
    by (auto simp: token_range_def abs_less_iff)
  have "- (2 ^ 61) \<le> t div Second" using zdiv_mono1 [OF lo, of Second] by (simp add: S)
  moreover have "t div Second < 2 ^ 61" using hi by (simp add: S div_less_iff_less_mult)
  ultimately show "in_i64 (Unix t)" "time_Unix (Unix t) = t div Second * Second"
    by (auto simp: in_i64_def int_min_def int_max_def Unix_def time_Unix_def i64_small)
qed

section \<open>Session cookies\<close>

datatype token_error = BadToken | TokenExpired

definition sessionLifetime :: duration where "sessionLifetime = 14 * 24 * Hour"

definition session_payload :: "string \<Rightarrow> instant \<Rightarrow> string" where
  "session_payload userID expiresAt = userID @ ''.'' @ Itoa (Unix expiresAt)"

definition session_encode :: "(string \<Rightarrow> string) \<Rightarrow> string \<Rightarrow> instant \<Rightarrow> string" where
  "session_encode mac userID expiresAt =
    (let payload = session_payload userID expiresAt
     in payload @ ''.'' @ RawURLEncode (mac payload))"

definition session_decode :: "(string \<Rightarrow> string) \<Rightarrow> string \<Rightarrow> instant \<Rightarrow> (token_error, string) result" where
  "session_decode mac token now =
    (case CutLast token CHR ''.'' of None \<Rightarrow> Inl BadToken
     | Some (payload, sigStr) \<Rightarrow>
      (case RawURLDecode sigStr of None \<Rightarrow> Inl BadToken
       | Some sig \<Rightarrow> if sig \<noteq> mac payload then Inl BadToken else
         (case CutLast payload CHR ''.'' of None \<Rightarrow> Inl BadToken
          | Some (userID, expStr) \<Rightarrow>
            (case Atoi expStr of None \<Rightarrow> Inl BadToken
             | Some ex \<Rightarrow> if time_Unix ex < now then Inl TokenExpired
                 else if userID = [] then Inl BadToken else Inr userID))))"

section \<open>Links to one claim\<close>

definition claimTokenTTL :: duration where "claimTokenTTL = 7 * 24 * Hour"

definition claimTokenPurpose :: string where "claimTokenPurpose = ''clawhub:claim-link:v1:''"

definition link_payload :: "string \<Rightarrow> instant \<Rightarrow> string" where
  "link_payload storeID expiresAt = storeID @ '':'' @ Itoa (Unix expiresAt)"

text \<open>The message under the tag: the purpose, the claim, a zero byte, and the payload.\<close>

definition link_message :: "string \<Rightarrow> string \<Rightarrow> string" where
  "link_message claimID payload = claimTokenPurpose @ claimID @ [CHR 0x00] @ payload"

definition link_encode :: "(string \<Rightarrow> string) \<Rightarrow> string \<Rightarrow> string \<Rightarrow> instant \<Rightarrow> string" where
  "link_encode mac storeID claimID expiresAt =
    (let payload = link_payload storeID expiresAt
     in RawURLEncode payload @ ''.'' @ RawURLEncode (mac (link_message claimID payload)))"

definition link_decode ::
  "(string \<Rightarrow> string) \<Rightarrow> string \<Rightarrow> string \<Rightarrow> instant \<Rightarrow> (token_error, string) result" where
  "link_decode mac token claimID now =
    (case Cut token CHR ''.'' of None \<Rightarrow> Inl BadToken
     | Some (bodyStr, sigStr) \<Rightarrow>
      (case RawURLDecode bodyStr of None \<Rightarrow> Inl BadToken
       | Some body' \<Rightarrow>
        (case RawURLDecode sigStr of None \<Rightarrow> Inl BadToken
         | Some sig \<Rightarrow> if sig \<noteq> mac (link_message claimID body') then Inl BadToken else
           (case Cut body' CHR '':'' of None \<Rightarrow> Inl BadToken
            | Some (storeID, expStr) \<Rightarrow> if storeID = [] then Inl BadToken else
              (case Atoi expStr of None \<Rightarrow> Inl BadToken
               | Some ex \<Rightarrow> if time_Unix ex < now then Inl TokenExpired else Inr storeID)))))"

text \<open>\<open>strings.TrimRight(s, "/")\<close> and the address put into a notification.\<close>

definition TrimRightSlash :: "string \<Rightarrow> string" where
  "TrimRightSlash s = rev (dropWhile (\<lambda>c. c = CHR ''/'') (rev s))"

definition claimLinkURL :: "(string \<Rightarrow> string) \<Rightarrow> string \<Rightarrow> instant \<Rightarrow> string \<Rightarrow> string \<Rightarrow> string" where
  "claimLinkURL mac baseURL now storeID claimID =
    TrimRightSlash baseURL @ ''/admin/claims/'' @ claimID @ ''?t=''
      @ link_encode mac storeID claimID (now + claimTokenTTL)"

section \<open>The shared contract of the two tokens\<close>

text \<open>
  A credential is issued for a subject (nobody, or one claim), names a bearer and carries an
  expiry, kept to the second. \<open>fit\<close> says for which subjects and bearers the format is
  unambiguous.
\<close>

locale credential =
  fixes issue :: "'subject \<Rightarrow> string \<Rightarrow> instant \<Rightarrow> string"
    and check :: "string \<Rightarrow> 'subject \<Rightarrow> instant \<Rightarrow> (token_error, string) result"
    and fit :: "'subject \<Rightarrow> string \<Rightarrow> bool"
  assumes check_issue: "fit s b \<Longrightarrow> token_range e \<Longrightarrow>
    check (issue s b e) s now = (if from_Unix (Unix e) < now then Inl TokenExpired else Inr b)"
begin

text \<open>A credential issued for a while is good for that while, short of its last second.\<close>

lemma good_until:
  assumes "fit s b" "token_range (t0 + ttl)" "now \<le> t0 + ttl - Second"
  shows "check (issue s b (t0 + ttl)) s now = Inr b"
  using assms from_Unix_Unix_gt [of "t0 + ttl"] by (simp add: check_issue)

lemma dead_after:
  assumes "fit s b" "token_range (t0 + ttl)" "t0 + ttl < now"
  shows "check (issue s b (t0 + ttl)) s now = Inl TokenExpired"
  using assms from_Unix_Unix_le [of "t0 + ttl"] by (simp add: check_issue)

text \<open>Two credentials for one subject that read the same name the same bearer.\<close>

lemma bearer_unique:
  assumes "fit s b" "fit s b'" "token_range e" "token_range e'" "issue s b e = issue s b' e'"
    and "now \<le> from_Unix (Unix e)" and "now \<le> from_Unix (Unix e')"
  shows "b = b'"
  using check_issue [OF assms(1,3), of now] check_issue [OF assms(2,4), of now] assms(5-7) by simp

end

lemma Itoa_no_sep: "CHR ''.'' \<notin> set (Itoa n) \<and> CHR '':'' \<notin> set (Itoa n)"
  using Itoa_chars [of "CHR ''.''" n] Itoa_chars [of "CHR '':''" n] digit_not_sign by auto

lemma session_check_issue:
  assumes "b \<noteq> []" and "token_range e"
  shows "session_decode mac (session_encode mac b e) now
    = (if from_Unix (Unix e) < now then Inl TokenExpired else Inr b)"
proof -
  let ?p = "session_payload b e"
  have 1: "CutLast (session_encode mac b e) CHR ''.'' = Some (?p, RawURLEncode (mac ?p))"
    using b64.split_last [of ?p "mac ?p"] by (simp add: session_encode_def Let_def)
  have 2: "CutLast ?p CHR ''.'' = Some (b, Itoa (Unix e))"
    using CutLast_append [of "CHR ''.''" "Itoa (Unix e)" b] Itoa_no_sep by (simp add: session_payload_def)
  have "time_Unix (Unix e) = from_Unix (Unix e)"
    using time_Unix_Unix(1) [OF assms(2)] by (simp add: from_Unix_def Unix_def)
  with assms(1) show ?thesis
    by (simp add: session_decode_def 1 2 b64.dec_enc Atoi_Itoa [OF time_Unix_Unix(2) [OF assms(2)]])
qed

lemma link_decode_issued:
  assumes "storeID \<noteq> []" and "CHR '':'' \<notin> set storeID" and "token_range e"
  shows "link_decode mac (link_encode mac storeID claimID e) claimID' now
    = (if mac (link_message claimID (link_payload storeID e))
          \<noteq> mac (link_message claimID' (link_payload storeID e)) then Inl BadToken
       else if from_Unix (Unix e) < now then Inl TokenExpired else Inr storeID)"
proof -
  let ?p = "link_payload storeID e"
  let ?s = "mac (link_message claimID ?p)"
  have 1: "Cut (link_encode mac storeID claimID e) CHR ''.'' = Some (RawURLEncode ?p, RawURLEncode ?s)"
    using b64.split_first [of ?p "RawURLEncode ?s"] by (simp add: link_encode_def Let_def)
  have 2: "Cut ?p CHR '':'' = Some (storeID, Itoa (Unix e))"
    using Cut_append [OF assms(2), of "Itoa (Unix e)"] by (simp add: link_payload_def)
  have "time_Unix (Unix e) = from_Unix (Unix e)"
    using time_Unix_Unix(1) [OF assms(3)] by (simp add: from_Unix_def Unix_def)
  with assms(1) show ?thesis
    by (simp add: link_decode_def 1 2 b64.dec_enc Atoi_Itoa [OF time_Unix_Unix(2) [OF assms(3)]])
qed

interpretation session_token: credential "\<lambda>_::unit. session_encode mac" "\<lambda>token _. session_decode mac token"
  "\<lambda>_ b. b \<noteq> []" for mac
  by unfold_locales (rule session_check_issue)

interpretation link_token: credential "\<lambda>c s. link_encode mac s c" "link_decode mac"
  "\<lambda>_ s. s \<noteq> [] \<and> CHR '':'' \<notin> set s" for mac
  by unfold_locales (simp add: link_decode_issued)

section \<open>Guards\<close>

text \<open>The parts of a request the guards read: cookie, token header, query token, path id.\<close>

record credentials =
  cr_cookie :: "string option"
  cr_header :: string
  cr_query :: string
  cr_path_id :: string

datatype cookie_out = SetSession string instant bool | ClearSession bool

definition secureCookies :: "string \<Rightarrow> bool" where
  "secureCookies baseURL = HasPrefix baseURL ''https://''"

definition setSessionCookie :: "(string \<Rightarrow> string) \<Rightarrow> string \<Rightarrow> instant \<Rightarrow> string \<Rightarrow> cookie_out" where
  "setSessionCookie mac baseURL now userID =
    (let ex = now + sessionLifetime in SetSession (session_encode mac userID ex) ex (secureCookies baseURL))"

definition clearSessionCookie :: "string \<Rightarrow> cookie_out" where
  "clearSessionCookie baseURL = ClearSession (secureCookies baseURL)"

definition claimTokenFrom :: "credentials \<Rightarrow> string" where
  "claimTokenFrom r = (if cr_header r \<noteq> [] then cr_header r else cr_query r)"

definition userFromSession :: "(string \<Rightarrow> string) \<Rightarrow> bool \<Rightarrow> instant \<Rightarrow> credentials \<Rightarrow> db \<Rightarrow> User option" where
  "userFromSession mac fail now r d =
    (case cr_cookie r of None \<Rightarrow> None
     | Some v \<Rightarrow>
      (case session_decode mac v now of Inl _ \<Rightarrow> None
       | Inr userID \<Rightarrow> (case UserByID fail userID d of Inl _ \<Rightarrow> None | Inr u \<Rightarrow> Some u)))"

definition owner_access :: "User \<Rightarrow> access" where
  "owner_access u = \<lparr>ac_store = u_StoreID u,
     ac_actor = \<lparr>act_Kind = ActorOwner, act_ID = u_ID u, act_Name = []\<rparr>, ac_via_link = False\<rparr>"

definition link_access :: "string \<Rightarrow> access" where
  "link_access storeID = \<lparr>ac_store = storeID,
     ac_actor = \<lparr>act_Kind = ActorLink, act_ID = [], act_Name = []\<rparr>, ac_via_link = True\<rparr>"

text \<open>A handler sees the access the guard has put into the context.\<close>

type_synonym 'a handler = "access \<Rightarrow> db \<Rightarrow> 'a reply \<times> db"

definition authed ::
  "(string \<Rightarrow> string) \<Rightarrow> string \<Rightarrow> bool \<Rightarrow> instant \<Rightarrow> 'a handler \<Rightarrow> credentials \<Rightarrow> db
     \<Rightarrow> ('a reply \<times> db) \<times> cookie_out list" where
  "authed mac baseURL fail now next' r d =
    (case userFromSession mac fail now r d of
       None \<Rightarrow> ((unauthorized, d), if cr_cookie r \<noteq> None then [clearSessionCookie baseURL] else [])
     | Some u \<Rightarrow> (next' (owner_access u) d, []))"

definition claimScoped ::
  "(string \<Rightarrow> string) \<Rightarrow> bool \<Rightarrow> instant \<Rightarrow> 'a handler \<Rightarrow> credentials \<Rightarrow> db \<Rightarrow> 'a reply \<times> db" where
  "claimScoped mac fail now next' r d =
    (case userFromSession mac fail now r d of
       Some u \<Rightarrow> next' (owner_access u) d
     | None \<Rightarrow>
        (let token = claimTokenFrom r
         in if token = [] then (unauthorized, d)
            else case link_decode mac token (cr_path_id r) now of
              Inl _ \<Rightarrow> (Failed 401 ''invalid_link'', d)
            | Inr storeID \<Rightarrow> next' (link_access storeID) d))"

section \<open>Logging in and out\<close>

record userResponse =
  me_id :: string
  me_email :: string
  me_name :: string
  me_phone :: string

definition user_response :: "User \<Rightarrow> userResponse" where
  "user_response u = \<lparr>me_id = u_ID u, me_email = u_Email u, me_name = u_Name u, me_phone = u_Phone u\<rparr>"

text \<open>The body is the decoded pair of email and password, or nothing when it is malformed.\<close>

definition handleLogin ::
  "(string \<Rightarrow> string) \<Rightarrow> string \<Rightarrow> Bcrypt \<Rightarrow> (nat \<Rightarrow> nat) \<Rightarrow> bool \<times> bool \<Rightarrow> instant \<Rightarrow> instant
     \<Rightarrow> (string \<times> string) option \<Rightarrow> db \<Rightarrow> (userResponse reply \<times> db) \<times> cookie_out list" where
  "handleLogin mac baseURL bc lc fails t now req d =
    (case req of None \<Rightarrow> ((badRequest, d), [])
     | Some (email, password) \<Rightarrow>
      (case Authenticate bc fails t (TrimSpace (ToLower lc email)) password d of
         (Inl e, d') \<Rightarrow> ((if e = ErrLocked then Failed 429 ''locked'' else Failed 401 ''invalid_credentials'', d'), [])
       | (Inr u, d') \<Rightarrow> ((Done (user_response u), d'), [setSessionCookie mac baseURL now (u_ID u)])))"

definition handleLogout :: "string \<Rightarrow> string reply \<times> cookie_out list" where
  "handleLogout baseURL = (Done ''ok'', [clearSessionCookie baseURL])"

section \<open>Routes\<close>

text \<open>The patterns of the router, segment by segment, with the guard around each handler.\<close>

datatype segment = Lit string | Wild

datatype guard = Open | LimitClaims | LimitSignup | Authed | ClaimScoped

type_synonym route = "string \<times> segment list \<times> guard \<times> string"

definition routes :: "route list" where
  "routes =
    [(''GET'', [Lit ''healthz''], Open, ''healthz''),
     (''GET'', [Lit ''api'', Lit ''public'', Lit ''machines'', Wild], Open, ''handleMachineByCode''),
     (''GET'', [Lit ''api'', Lit ''public'', Lit ''banks''], Open, ''handleBanks''),
     (''GET'', [Lit ''api'', Lit ''public'', Lit ''claims'', Wild], Open, ''handlePublicClaimStatus''),
     (''POST'', [Lit ''api'', Lit ''public'', Lit ''claims''], LimitClaims, ''handleCreateClaim''),
     (''GET'', [Lit ''api'', Lit ''public'', Lit ''signup''], Open, ''handleSignupStatus''),
     (''POST'', [Lit ''api'', Lit ''public'', Lit ''signup''], LimitSignup, ''handleSignup''),
     (''POST'', [Lit ''api'', Lit ''admin'', Lit ''login''], Open, ''handleLogin''),
     (''POST'', [Lit ''api'', Lit ''admin'', Lit ''logout''], Open, ''handleLogout''),
     (''GET'', [Lit ''api'', Lit ''admin'', Lit ''me''], Authed, ''handleMe''),
     (''GET'', [Lit ''api'', Lit ''admin'', Lit ''push'', Lit ''key''], Authed, ''handlePushKey''),
     (''POST'', [Lit ''api'', Lit ''admin'', Lit ''push'', Lit ''subscribe''], Authed, ''handlePushSubscribe''),
     (''POST'', [Lit ''api'', Lit ''admin'', Lit ''push'', Lit ''unsubscribe''], Authed, ''handlePushUnsubscribe''),
     (''GET'', [Lit ''api'', Lit ''admin'', Lit ''home''], Authed, ''handleHome''),
     (''GET'', [Lit ''api'', Lit ''admin'', Lit ''claims''], Authed, ''handleListClaims''),
     (''GET'', [Lit ''api'', Lit ''admin'', Lit ''claims'', Wild], ClaimScoped, ''handleClaimDetail''),
     (''POST'', [Lit ''api'', Lit ''admin'', Lit ''claims'', Wild, Lit ''approve''], ClaimScoped, ''handleApprove''),
     (''POST'', [Lit ''api'', Lit ''admin'', Lit ''claims'', Wild, Lit ''reject''], ClaimScoped, ''handleReject''),
     (''POST'', [Lit ''api'', Lit ''admin'', Lit ''claims'', Wild, Lit ''hold''], ClaimScoped, ''handleHold''),
     (''POST'', [Lit ''api'', Lit ''admin'', Lit ''claims'', Wild, Lit ''mark-paid''], ClaimScoped, ''handleMarkPaid''),
     (''GET'', [Lit ''api'', Lit ''admin'', Lit ''claims'', Wild, Lit ''payout-links''], ClaimScoped, ''handlePayoutLinks''),
     (''GET'', [Lit ''api'', Lit ''admin'', Lit ''claims'', Wild, Lit ''photos'', Wild], ClaimScoped, ''handlePhoto''),
     (''GET'', [Lit ''api'', Lit ''admin'', Lit ''machines''], Authed, ''handleListMachines''),
     (''POST'', [Lit ''api'', Lit ''admin'', Lit ''machines''], Authed, ''handleCreateMachine''),
     (''PATCH'', [Lit ''api'', Lit ''admin'', Lit ''machines'', Wild], Authed, ''handleUpdateMachine''),
     (''GET'', [Lit ''api'', Lit ''admin'', Lit ''machines'', Wild, Lit ''qr.png''], Authed, ''handleMachineQR''),
     (''GET'', [Lit ''api'', Lit ''admin'', Lit ''contacts''], Authed, ''handleListContacts''),
     (''PATCH'', [Lit ''api'', Lit ''admin'', Lit ''contacts'', Wild], Authed, ''handleSetContactStatus''),
     (''GET'', [Lit ''api'', Lit ''admin'', Lit ''stats'', Lit ''daily''], Authed, ''handleDailyStats''),
     (''GET'', [Lit ''api'', Lit ''admin'', Lit ''stats'', Lit ''settlement''], Authed, ''handleSettlement''),
     (''GET'', [Lit ''api'', Lit ''admin'', Lit ''stats'', Lit ''settlement.csv''], Authed, ''handleSettlementCSV''),
     (''GET'', [Lit ''api'', Lit ''admin'', Lit ''inventory''], Authed, ''handleInventory''),
     (''GET'', [Lit ''api'', Lit ''admin'', Lit ''inventory'', Wild], Authed, ''handleInventoryItem''),
     (''POST'', [Lit ''api'', Lit ''admin'', Lit ''inventory'', Wild, Lit ''count''], Authed, ''handleCountInventory''),
     (''GET'', [Lit ''api'', Lit ''admin'', Lit ''purchases''], Authed, ''handleListPurchases''),
     (''POST'', [Lit ''api'', Lit ''admin'', Lit ''purchases''], Authed, ''handleCreatePurchase''),
     (''GET'', [Lit ''api'', Lit ''admin'', Lit ''suggestions''], Authed, ''handleSuggestions''),
     (''PATCH'', [Lit ''api'', Lit ''admin'', Lit ''me''], Authed, ''handleUpdateMe''),
     (''GET'', [Lit ''api'', Lit ''admin'', Lit ''store''], Authed, ''handleGetStore''),
     (''PATCH'', [Lit ''api'', Lit ''admin'', Lit ''store''], Authed, ''handleUpdateStore''),
     (''GET'', [Lit ''api'', Lit ''admin'', Lit ''regions''], Authed, ''handleRegions''),
     (''GET'', [Lit ''api'', Lit ''admin'', Lit ''market''], Authed, ''handleListMarket''),
     (''POST'', [Lit ''api'', Lit ''admin'', Lit ''market''], Authed, ''handleCreateListing''),
     (''GET'', [Lit ''api'', Lit ''admin'', Lit ''market'', Lit ''mine''], Authed, ''handleMyListings''),
     (''GET'', [Lit ''api'', Lit ''admin'', Lit ''market'', Wild], Authed, ''handleMarketDetail''),
     (''POST'', [Lit ''api'', Lit ''admin'', Lit ''market'', Wild, Lit ''contact''], Authed, ''handleListingContact''),
     (''POST'', [Lit ''api'', Lit ''admin'', Lit ''market'', Wild, Lit ''close''], Authed, ''handleCloseListing''),
     (''POST'', [Lit ''api'', Lit ''admin'', Lit ''market'', Wild, Lit ''report''], Authed, ''handleReportListing''),
     (''GET'', [Lit ''api'', Lit ''admin'', Lit ''payout-settings''], Authed, ''handleGetPayoutSettings''),
     (''PATCH'', [Lit ''api'', Lit ''admin'', Lit ''payout-settings''], Authed, ''handleUpdatePayoutSettings''),
     (''GET'', [Lit ''api'', Lit ''admin'', Lit ''users''], Authed, ''handleListUsers''),
     (''POST'', [Lit ''api'', Lit ''admin'', Lit ''users''], Authed, ''handleCreateUser''),
     (''PATCH'', [Lit ''api'', Lit ''admin'', Lit ''users'', Wild], Authed, ''handleSetUserActive'')]"

fun seg_meets :: "segment \<Rightarrow> segment \<Rightarrow> bool" where
  "seg_meets (Lit a) (Lit b) \<longleftrightarrow> a = b"
| "seg_meets _ _ \<longleftrightarrow> True"

fun seg_covers :: "segment \<Rightarrow> segment \<Rightarrow> bool" where
  "seg_covers Wild _ \<longleftrightarrow> True"
| "seg_covers (Lit a) (Lit b) \<longleftrightarrow> a = b"
| "seg_covers (Lit a) Wild \<longleftrightarrow> False"

text \<open>
  Go's \<open>ServeMux\<close> panics when it registers two patterns of one method that some path matches,
  unless one of them is strictly more specific.
\<close>

definition clash :: "route \<Rightarrow> route \<Rightarrow> bool" where
  "clash a b \<longleftrightarrow> fst a = fst b \<and> list_all2 seg_meets (fst (snd a)) (fst (snd b))
     \<and> (list_all2 seg_covers (fst (snd a)) (fst (snd b)) \<longleftrightarrow> list_all2 seg_covers (fst (snd b)) (fst (snd a)))"

fun no_clash :: "route list \<Rightarrow> bool" where
  "no_clash [] \<longleftrightarrow> True"
| "no_clash (r # rs) \<longleftrightarrow> list_all (\<lambda>x. \<not> clash r x) rs \<and> no_clash rs"

text \<open>What an unauthenticated visitor may reach, and what the holder of a claim link may reach.\<close>

definition is_admin :: "route \<Rightarrow> bool" where
  "is_admin r \<longleftrightarrow> take 2 (fst (snd r)) = [Lit ''api'', Lit ''admin'']"


section \<open>What the tokens guarantee\<close>

lemma session_decode_Inr:
  assumes "session_decode mac token now = Inr u"
  shows "\<exists>payload sigStr ex. token = payload @ CHR ''.'' # sigStr \<and> CHR ''.'' \<notin> set sigStr
    \<and> RawURLDecode sigStr = Some (mac payload)
    \<and> payload = u @ CHR ''.'' # ex \<and> u \<noteq> []"
proof -
  from assms obtain p sg where 1: "CutLast token CHR ''.'' = Some (p, sg)"
    by (auto simp: session_decode_def split: option.splits)
  with assms obtain ex where 2: "RawURLDecode sg = Some (mac p)" "CutLast p CHR ''.'' = Some (u, ex)" "u \<noteq> []"
    by (auto simp: session_decode_def split: option.splits if_splits)
  from CutLast_SomeD [OF 1] CutLast_SomeD [OF 2(2)] 2 show ?thesis by blast
qed

lemma link_decode_Inr:
  assumes "link_decode mac token c now = Inr st"
  shows "\<exists>bodyStr sigStr b. token = bodyStr @ CHR ''.'' # sigStr \<and> CHR ''.'' \<notin> set bodyStr
    \<and> RawURLDecode bodyStr = Some b \<and> RawURLDecode sigStr = Some (mac (link_message c b))
    \<and> (\<exists>expStr ex. Cut b CHR '':'' = Some (st, expStr) \<and> Atoi expStr = Some ex \<and> now \<le> time_Unix ex) \<and> st \<noteq> []"
proof -
  from assms obtain bs sg where 1: "Cut token CHR ''.'' = Some (bs, sg)"
    by (auto simp: link_decode_def split: option.splits)
  with assms obtain b where 2: "RawURLDecode bs = Some b" "RawURLDecode sg = Some (mac (link_message c b))"
    by (auto simp: link_decode_def split: option.splits if_splits)
  with 1 assms obtain es ex where 3: "Cut b CHR '':'' = Some (st, es)" "Atoi es = Some ex"
    "now \<le> time_Unix ex" "st \<noteq> []"
    by (auto simp: link_decode_def split: option.splits if_splits)
  show ?thesis
    by (intro exI [of _ bs] exI [of _ sg] exI [of _ b] conjI exI [of _ es] exI [of _ ex])
      (use Cut_SomeD [OF 1] 2 3 in simp_all)
qed

lemma vals_no_dot: "vals s = Some vs \<Longrightarrow> CHR ''.'' \<notin> set s"
proof (induction s arbitrary: vs)
  case (Cons c cs)
  have "b64_val CHR ''.'' = None" by (simp add: b64_val_def byte_def)
  with Cons show ?case by (auto split: option.splits)
qed simp

lemma RawURLDecode_no_dot: "RawURLDecode s = Some t \<Longrightarrow> CHR ''.'' \<notin> set s"
  by (auto simp: RawURLDecode_def byte_def split: option.splits dest!: vals_no_dot)

text \<open>
  C12. A claim link opens one claim: a token accepted for two claims names the same store for
  both, and either the two claims are the same one, or it exhibits a collision of the message
  authentication code on two different messages. Nothing is assumed of the code.
\<close>

theorem link_opens_one_claim:
  assumes "link_decode mac token c now = Inr st" and "link_decode mac token c' now' = Inr st'"
  shows "st = st' \<and> (c = c' \<or> (\<exists>b. RawURLDecode (takeWhile (\<lambda>x. x \<noteq> CHR ''.'') token) = Some b
    \<and> link_message c b \<noteq> link_message c' b \<and> mac (link_message c b) = mac (link_message c' b)))"
proof -
  from link_decode_Inr [OF assms(1)] obtain bs sg b where
    1: "token = bs @ CHR ''.'' # sg" "CHR ''.'' \<notin> set bs" "RawURLDecode bs = Some b"
      "RawURLDecode sg = Some (mac (link_message c b))" "\<exists>es. Cut b CHR '':'' = Some (st, es)" by blast
  from link_decode_Inr [OF assms(2)] obtain bs' sg' b' where
    2: "token = bs' @ CHR ''.'' # sg'" "CHR ''.'' \<notin> set bs'" "RawURLDecode bs' = Some b'"
      "RawURLDecode sg' = Some (mac (link_message c' b'))" "\<exists>es. Cut b' CHR '':'' = Some (st', es)" by blast
  from Cut_append [OF 1(2), of sg] Cut_append [OF 2(2), of sg'] 1(1) 2(1)
  have "bs' = bs" "sg' = sg" by simp_all
  with 1 2 have "b' = b" "mac (link_message c b) = mac (link_message c' b)" "st = st'" by auto
  moreover have "takeWhile (\<lambda>x. x \<noteq> CHR ''.'') token = bs"
    using Cut_append [OF 1(2), of sg] 1(1) by (simp add: Cut_def)
  ultimately show ?thesis using 1(3) by (auto simp: link_message_def)
qed

text \<open>
  Session cookies and claim links cannot be mistaken for each other although one key signs
  both: no string is accepted as both, and a link that carries the tag of the session of any
  user whose id does not begin with the purpose prefix exhibits a collision of the
  authentication code.
\<close>

theorem tokens_do_not_mix:
  assumes "link_decode mac token c now = Inr st"
  shows "\<not> is_ok (session_decode mac token now')
    \<and> (\<exists>b tag. RawURLDecode (tl (dropWhile (\<lambda>x. x \<noteq> CHR ''.'') token)) = Some tag \<and> tag = mac (link_message c b)
        \<and> (\<not> HasPrefix userID claimTokenPurpose \<longrightarrow> tag = mac (session_payload userID e)
            \<longrightarrow> link_message c b \<noteq> session_payload userID e))"
proof -
  from link_decode_Inr [OF assms(1)] obtain bs sg b where
    1: "token = bs @ CHR ''.'' # sg" "CHR ''.'' \<notin> set bs" "RawURLDecode bs = Some b"
      "RawURLDecode sg = Some (mac (link_message c b))" by blast
  have "\<not> is_ok (session_decode mac token now')"
  proof
    assume "is_ok (session_decode mac token now')"
    then obtain u where "session_decode mac token now' = Inr u" by (rule is_okE)
    from session_decode_Inr [OF this] obtain p s ex where
      2: "token = (u @ CHR ''.'' # ex) @ CHR ''.'' # s" by blast
    have "sg = tl (dropWhile (\<lambda>x. x \<noteq> CHR ''.'') token)"
      using Cut_append [OF 1(2), of sg] 1(1) by (simp add: Cut_def)
    also have "CHR ''.'' \<in> set \<dots>" unfolding 2 by (induction u) auto
    finally show False using RawURLDecode_no_dot [OF 1(4)] by simp
  qed
  moreover have "tl (dropWhile (\<lambda>x. x \<noteq> CHR ''.'') token) = sg"
    using Cut_append [OF 1(2), of sg] 1(1) by (simp add: Cut_def)
  moreover have "link_message c b \<noteq> session_payload userID e" if "\<not> HasPrefix userID claimTokenPurpose"
  proof
    assume eq: "link_message c b = session_payload userID e"
    let ?k = "length claimTokenPurpose"
    have nodot: "CHR ''.'' \<notin> set claimTokenPurpose" by (simp add: claimTokenPurpose_def)
    have t: "take ?k (userID @ CHR ''.'' # Itoa (Unix e)) = claimTokenPurpose"
      using arg_cong [OF eq, of "take ?k"] by (simp add: link_message_def session_payload_def)
    show False
    proof (cases "?k \<le> length userID")
      case True
      with t that show False by (simp add: HasPrefix_def)
    next
      case False
      then have "CHR ''.'' \<in> set (take ?k (userID @ CHR ''.'' # Itoa (Unix e)))"
        by (cases "?k - length userID") auto
      with t nodot show False by simp
    qed
  qed
  ultimately show ?thesis using 1(4) by blast
qed

definition demo_mac :: "string \<Rightarrow> string" where "demo_mac m = rev m"

lemma demo_link:
  "link_decode demo_mac (link_encode demo_mac ''s1'' ''c1'' (100 * Second)) ''c1'' 0 = Inr ''s1''"
  using link_token.check_issue [of "''s1''" "100 * Second" demo_mac "''c1''" 0]
  by (simp add: token_range_def Second_def from_Unix_def Unix_def)

lemma link_opens_one_claim_witness:
  "\<exists>token. link_decode demo_mac token ''c1'' 0 = Inr ''s1'' \<and> ''s1'' = ''s1'' \<and> (''c1'' = ''c1'' \<or>
    (\<exists>b. RawURLDecode (takeWhile (\<lambda>x. x \<noteq> CHR ''.'') token) = Some b
    \<and> link_message ''c1'' b \<noteq> link_message ''c1'' b \<and> demo_mac (link_message ''c1'' b) = demo_mac (link_message ''c1'' b)))"
  using demo_link link_opens_one_claim [OF demo_link demo_link] by blast

lemma tokens_do_not_mix_witness:
  "\<not> is_ok (session_decode demo_mac (link_encode demo_mac ''s1'' ''c1'' (100 * Second)) 0)"
  using tokens_do_not_mix [OF demo_link, of 0 "''u1''" 0] by blast

text \<open>
  Lifetimes: the cookie set at login admits its user for fourteen days, the link of a
  notification admits its store for seven, each short of the last second, and after that both
  are refused as expired.
\<close>

theorem credential_lifetimes:
  assumes "userID \<noteq> []" and "storeID \<noteq> []" and "CHR '':'' \<notin> set storeID"
    and "token_range (t0 + sessionLifetime)" and "token_range (t0 + claimTokenTTL)"
    and "setSessionCookie mac baseURL t0 userID = SetSession cookie ex secure"
  shows "ex = t0 + 14 * Day
    \<and> session_decode mac cookie (t0 + 14 * Day - Second - \<bar>before\<bar>) = Inr userID
    \<and> session_decode mac cookie (t0 + 14 * Day + 1 + \<bar>after\<bar>) = Inl TokenExpired
    \<and> link_decode mac (link_encode mac storeID c (t0 + claimTokenTTL)) c (t0 + 7 * Day - Second - \<bar>before\<bar>) = Inr storeID
    \<and> link_decode mac (link_encode mac storeID c (t0 + claimTokenTTL)) c (t0 + 7 * Day + 1 + \<bar>after\<bar>) = Inl TokenExpired"
proof -
  have ttl: "sessionLifetime = 14 * Day" "claimTokenTTL = 7 * Day"
    by (simp_all add: sessionLifetime_def claimTokenTTL_def Day_def)
  from assms(6) have c: "cookie = session_encode mac userID (t0 + sessionLifetime)" "ex = t0 + sessionLifetime"
    by (auto simp: setSessionCookie_def Let_def)
  show ?thesis
    using session_token.good_until [of userID t0 sessionLifetime "t0 + 14 * Day - Second - \<bar>before\<bar>" mac]
      session_token.dead_after [of userID t0 sessionLifetime "t0 + 14 * Day + 1 + \<bar>after\<bar>" mac]
      link_token.good_until [of storeID t0 claimTokenTTL "t0 + 7 * Day - Second - \<bar>before\<bar>" mac c]
      link_token.dead_after [of storeID t0 claimTokenTTL "t0 + 7 * Day + 1 + \<bar>after\<bar>" mac c]
      assms(1-5) unfolding c ttl by simp
qed

lemma credential_lifetimes_witness:
  "session_decode demo_mac (session_encode demo_mac ''u1'' (0 + sessionLifetime)) (0 + 14 * Day - Second - \<bar>0\<bar>) = Inr ''u1''"
  using credential_lifetimes [of "''u1''" "''s1''" 0 demo_mac "[]"
      "session_encode demo_mac ''u1'' (0 + sessionLifetime)" "0 + sessionLifetime" False 0 0 "''c1''"]
  by (simp add: token_range_def sessionLifetime_def claimTokenTTL_def duration_defs setSessionCookie_def
      Let_def secureCookies_def HasPrefix_def)

section \<open>What a link can change\<close>

lemma extra_keeps_id:
  assumes "(case extra_of act of None \<Rightarrow> Inr c | Some f \<Rightarrow> f c req) = Inr c1"
  shows "cl_ID c1 = cl_ID c"
  using assms by (cases act) (auto dest: mark_paid_extra_Inr)

text \<open>A handler of a transition touches the row and the events of the claim it names only.\<close>

definition only_claim :: "string \<Rightarrow> string \<Rightarrow> db \<Rightarrow> db \<Rightarrow> bool" where
  "only_claim storeID cid d d' \<longleftrightarrow>
     (\<exists>cs evs. d' = d\<lparr>t_claims := cs, t_events := evs\<rparr>
       \<and> list_all2 (\<lambda>r r'. r' = r \<or> c_id r = cid \<and> c_store r = storeID) (t_claims d) cs
       \<and> (\<exists>new. evs = t_events d @ new \<and> list_all (\<lambda>e. ev_ClaimID e = cid) new))"

lemma only_claim_refl [simp]: "only_claim st cid d d"
  unfolding only_claim_def
  by (intro exI [of _ "t_claims d"] exI [of _ "t_events d"]) (simp add: list_all2_same)

lemma commit_only_claim:
  assumes "cl_ID c = cid" and "ev_ClaimID ev = cid"
  shows "only_claim (ac_store a) cid d (snd (commit_decision fail ok a c ev d))"
proof (cases "ApplyTransition fail ok (ac_store a) c ev d")
  case (Pair r d')
  then have s: "snd (commit_decision fail ok a c ev d) = d'"
    by (simp add: commit_decision_def split: sum.splits)
  show ?thesis
  proof (cases r)
    case (Inl e)
    with ApplyTransition_db [OF Pair] s show ?thesis by simp
  next
    case (Inr u)
    from ApplyTransition_Inr(1) [OF Pair [unfolded Inr]]
    have d': "d' = applied_db (ac_store a) c ev d" .
    show ?thesis unfolding s d' only_claim_def applied_db_def
      by (intro exI conjI) (auto simp: list_all2_map2 assms matches_update_def intro!: list_all2_refl)
  qed
qed

lemma ClaimByID_silent:
  assumes "ClaimByID k fail now at storeID cid no_actor d = (res, d')"
  shows "d' = d"
  using assms unfolding ClaimByID_def Let_def no_actor_def
  by (auto split: if_splits option.splits sum.splits prod.splits)

lemma transition_only_claim:
  assumes "te_between e = id"
  shows "only_claim (ac_store a) cid d (snd (transition k e a cid b (target act) (extra_of act) d))"
proof (cases "ClaimByID k (te_fail_read e) (te_db_now e) (te_now e) (ac_store a) cid no_actor d")
  case (Pair r d1)
  from ClaimByID_silent [OF Pair] have d1: "d1 = d" .
  show ?thesis
  proof (cases r)
    case (Inl x)
    with Pair d1 show ?thesis by (cases b) (simp_all add: transition_def)
  next
    case (Inr det)
    from ClaimByID_row [OF Pair [unfolded Inr]] obtain row where
      row: "find_claim (ac_store a) cid d = Some row" "cd_Claim det = claim_of row" by blast
    then have id: "cl_ID (cd_Claim det) = cid"
      using find_claim_in [OF row(1)] by (simp add: claim_of_def)
    have "only_claim (ac_store a) cid d (snd (case decide (te_now e) a req (target act) (extra_of act) (cd_Claim det) of
        Inl answer \<Rightarrow> (answer, d) | Inr (c, ev) \<Rightarrow> commit_decision (te_fail_write e) (te_commit_ok e) a c ev (te_between e d)))" for req
    proof (cases "decide (te_now e) a req (target act) (extra_of act) (cd_Claim det)")
      case (Inr p)
      obtain c2 ev where p: "p = (c2, ev)" by (cases p)
      from decide_Inr [OF Inr [unfolded p]] obtain c1 where
        c1: "(case extra_of act of None \<Rightarrow> Inr (cd_Claim det) | Some f \<Rightarrow> f (cd_Claim det) req) = Inr c1"
        and "cl_ID c2 = cl_ID c1" "ev_ClaimID ev = cl_ID c1" by (auto simp: NewEvent_def)
      with extra_keeps_id [OF c1] id show ?thesis using commit_only_claim assms by (simp add: Inr p)
    qed simp
    with Pair Inr d1 show ?thesis by (cases b) (simp_all add: transition_def)
  qed
qed

text \<open>
  C11. A visitor without a session reaches one claim at most: whatever transition is asked for,
  either the token is good for exactly the claim named in the path, and then only that claim
  of the token's store and its log can change, signed by the link actor; or nothing changes
  and the answer is an error 401.
\<close>

theorem link_changes_one_claim:
  assumes "te_between e = id" and "userFromSession mac fail now r d = None"
    and "claimScoped mac fail now (\<lambda>a. transition k e a (cr_path_id r) b (target act) (extra_of act)) r d
      = (answer, d')"
  shows "(\<exists>storeID. link_decode mac (claimTokenFrom r) (cr_path_id r) now = Inr storeID
      \<and> only_claim storeID (cr_path_id r) d d'
      \<and> (answer, d') = transition k e (link_access storeID) (cr_path_id r) b (target act) (extra_of act) d)
    \<or> d' = d \<and> answer \<in> {unauthorized, Failed 401 ''invalid_link''}"
proof (cases "claimTokenFrom r = []")
  case True
  with assms(2,3) show ?thesis by (simp add: claimScoped_def)
next
  case False
  show ?thesis
  proof (cases "link_decode mac (claimTokenFrom r) (cr_path_id r) now")
    case (Inl x)
    with False assms(2,3) show ?thesis by (simp add: claimScoped_def)
  next
    case (Inr st)
    with False assms(2,3)
    have t: "transition k e (link_access st) (cr_path_id r) b (target act) (extra_of act) d = (answer, d')"
      by (simp add: claimScoped_def)
    with transition_only_claim [OF assms(1), of "link_access st" "cr_path_id r" d k b act]
    show ?thesis using Inr by (simp add: link_access_def)
  qed
qed

definition demo_transition_env :: transition_env where
  "demo_transition_env = \<lparr>te_fail_read = (\<lambda>_. False), te_db_now = 5, te_between = id, te_now = 5,
     te_fail_write = (\<lambda>_. False), te_commit_ok = True\<rparr>"

definition demo_visitor :: credentials where
  "demo_visitor = \<lparr>cr_cookie = None, cr_header = ''forged'', cr_query = [], cr_path_id = ''c1''\<rparr>"

lemma link_changes_one_claim_witness:
  "claimScoped demo_mac False 0 (\<lambda>a. transition demo_sec demo_transition_env a ''c1'' EmptyBody
     (target Approve) (extra_of Approve)) demo_visitor demo_db = (Failed 401 ''invalid_link'', demo_db)"
proof -
  have bad: "link_decode demo_mac (claimTokenFrom demo_visitor) (cr_path_id demo_visitor) 0 = Inl BadToken"
    by (simp add: demo_visitor_def claimTokenFrom_def link_decode_def Cut_def)
  have "claimScoped demo_mac False 0 (\<lambda>a. transition demo_sec demo_transition_env a (cr_path_id demo_visitor)
      EmptyBody (target Approve) (extra_of Approve)) demo_visitor demo_db = (Failed 401 ''invalid_link'', demo_db)"
    using bad by (simp add: claimScoped_def userFromSession_def demo_visitor_def claimTokenFrom_def)
  note this [simplified demo_visitor_def credentials.simps, folded demo_visitor_def]
  moreover have "userFromSession demo_mac False 0 demo_visitor demo_db = None"
    by (simp add: userFromSession_def demo_visitor_def)
  ultimately show ?thesis
    using link_changes_one_claim [of demo_transition_env demo_mac False 0 demo_visitor demo_db demo_sec
        EmptyBody Approve "Failed 401 ''invalid_link''" demo_db]
    by (simp add: demo_transition_env_def demo_visitor_def)
qed

end
