(* ===== verification/Cache_Memory.thy ===== *)
theory Cache_Memory
  imports Go_Time "HOL-Library.AList"
begin

text \<open>
  \<^verbatim>\<open>internal/cache/cache.go\<close>: the in-memory cache behind rate limits and once-a-day flags, and
  the two contracts its users rely on, stated as locales and interpreted on it. The lock of
  \<open>Memory\<close> makes each operation one atomic function on the table; the clock reading under the
  lock is an argument.
\<close>

section \<open>The table\<close>

record entry =
  en_val :: string
  en_count :: int
  en_expiresAt :: instant

type_synonym memory = "(string \<times> entry) list"

definition NewMemory :: memory where "NewMemory = []"

definition sweep :: "instant \<Rightarrow> memory \<Rightarrow> memory" where
  "sweep now m = filter (\<lambda>(k, e). \<not> en_expiresAt e < now) m"

definition Incr :: "instant \<Rightarrow> string \<Rightarrow> duration \<Rightarrow> memory \<Rightarrow> int \<times> memory" where
  "Incr now key ttl m =
    (case map_of m key of
       None \<Rightarrow> (1, AList.update key \<lparr>en_val = [], en_count = 1, en_expiresAt = now + ttl\<rparr> m)
     | Some e \<Rightarrow>
         if en_expiresAt e < now
         then (1, AList.update key \<lparr>en_val = [], en_count = 1, en_expiresAt = now + ttl\<rparr> m)
         else (en_count e + 1, AList.update key (e\<lparr>en_count := en_count e + 1\<rparr>) m))"

definition SetNX :: "instant \<Rightarrow> string \<Rightarrow> string \<Rightarrow> duration \<Rightarrow> memory \<Rightarrow> bool \<times> memory" where
  "SetNX now key val ttl m =
    (if (case map_of m key of None \<Rightarrow> False | Some e \<Rightarrow> \<not> en_expiresAt e < now) then (False, m)
     else
       (let m' = AList.update key \<lparr>en_val = val, en_count = 0, en_expiresAt = now + ttl\<rparr> m
        in (True, if 1000 < length m' then sweep now m' else m')))"

definition Get :: "instant \<Rightarrow> string \<Rightarrow> memory \<Rightarrow> string option" where
  "Get now key m =
    (case map_of m key of None \<Rightarrow> None
     | Some e \<Rightarrow> if en_expiresAt e < now then None else Some (en_val e))"

text \<open>Go's map has one entry per key; every operation keeps it so.\<close>

definition one_per_key :: "memory \<Rightarrow> bool" where
  "one_per_key m \<longleftrightarrow> distinct (map fst m)"

lemma one_per_key_New: "one_per_key NewMemory"
  by (simp add: one_per_key_def NewMemory_def)

lemma one_per_key_sweep: "one_per_key m \<Longrightarrow> one_per_key (sweep now m)"
  by (auto simp: one_per_key_def sweep_def distinct_map_filter)

lemma one_per_key_update: "one_per_key m \<Longrightarrow> one_per_key (AList.update k e m)"
  by (simp add: one_per_key_def distinct_update)

lemma one_per_key_ops:
  assumes "one_per_key m"
  shows "one_per_key (snd (Incr now key ttl m))" and "one_per_key (snd (SetNX now key val ttl m))"
  using assms
  by (auto simp: Incr_def SetNX_def Let_def one_per_key_update one_per_key_sweep split: option.splits)

lemma map_of_filter_snd:
  "distinct (map fst m) \<Longrightarrow>
    map_of (filter (\<lambda>(k, e). P e) m) k = (case map_of m k of None \<Rightarrow> None | Some e \<Rightarrow> if P e then Some e else None)"
  by (induction m) (auto split: option.splits simp: map_of_eq_None_iff)

lemma map_of_sweep:
  assumes "one_per_key m"
  shows "map_of (sweep now m) k
    = (case map_of m k of None \<Rightarrow> None | Some e \<Rightarrow> if en_expiresAt e < now then None else Some e)"
  using map_of_filter_snd [of m "\<lambda>e. \<not> en_expiresAt e < now" k] assms
  by (simp add: sweep_def one_per_key_def split: option.splits)

section \<open>Counting windows\<close>

text \<open>
  The contract of a rate limit: a counter per key that is opened with a lifetime, grows while
  it lives and never has its lifetime extended. \<open>view\<close> is what is stored under a key.
\<close>

locale window_counter =
  fixes incr :: "instant \<Rightarrow> 'k \<Rightarrow> duration \<Rightarrow> 'st \<Rightarrow> int \<times> 'st"
    and view :: "'k \<Rightarrow> 'st \<Rightarrow> (int \<times> instant) option"
  assumes incr_own: "view k (snd (incr now k ttl st))
      = (case view k st of Some (c, e) \<Rightarrow> if now \<le> e then Some (c + 1, e) else Some (1, now + ttl)
         | None \<Rightarrow> Some (1, now + ttl))"
    and incr_result: "fst (incr now k ttl st)
      = (case view k st of Some (c, e) \<Rightarrow> if now \<le> e then c + 1 else 1 | None \<Rightarrow> 1)"
    and incr_other: "k' \<noteq> k \<Longrightarrow> view k' (snd (incr now k ttl st)) = view k' st"
begin

text \<open>
  A run of requests, each a time, a key and what is done to the state once it is let through;
  a request is let through if its count is within the limit.
\<close>

fun admissions :: "int \<Rightarrow> duration \<Rightarrow> (instant \<times> 'k \<times> ('st \<Rightarrow> 'st)) list \<Rightarrow> 'st \<Rightarrow> ('k \<times> bool) list" where
  "admissions limit ttl [] st = []"
| "admissions limit ttl ((t, k, f) # rs) st =
     (let (n, st') = incr t k ttl st; ok = n \<le> limit
      in (k, ok) # admissions limit ttl rs (if ok then f st' else st'))"

definition admitted :: "'k \<Rightarrow> ('k \<times> bool) list \<Rightarrow> nat" where
  "admitted k as = length (filter (\<lambda>a. a = (k, True)) as)"

lemma admitted_Cons: "admitted k (a # as) = (if a = (k, True) then 1 else 0) + admitted k as"
  by (simp add: admitted_def)

text \<open>What a key may still get before time \<open>b\<close>, from what is stored under it.\<close>

definition credit :: "int \<Rightarrow> instant \<Rightarrow> (int \<times> instant) option \<Rightarrow> int" where
  "credit limit b v = (case v of None \<Rightarrow> limit
     | Some (c, e) \<Rightarrow> max 0 (limit - c) + (if e < b then limit else 0))"

lemma admitted_le_credit:
  assumes "0 \<le> limit"
    and "\<And>t x f. (t, x, f) \<in> set rs \<Longrightarrow> b \<le> t + ttl \<and> t \<le> b \<and> (\<forall>s. view k (f s) = view k s)"
  shows "int (admitted k (admissions limit ttl rs st)) \<le> credit limit b (view k st)"
  using assms(2)
proof (induction rs arbitrary: st)
  case Nil
  then show ?case using assms(1) by (simp add: admitted_def credit_def split: option.splits)
next
  case (Cons r rs)
  obtain t x f where r: "r = (t, x, f)" by (cases r)
  obtain n st1 where i: "incr t x ttl st = (n, st1)" by fastforce
  define st2 where "st2 = (if n \<le> limit then f st1 else st1)"
  have v: "view k st2 = view k (snd (incr t x ttl st))" using Cons.prems [of t x f] r i by (simp add: st2_def)
  have step: "admissions limit ttl (r # rs) st = (x, n \<le> limit) # admissions limit ttl rs st2"
    using r i by (simp add: st2_def)
  have IH: "int (admitted k (admissions limit ttl rs st2)) \<le> credit limit b (view k (snd (incr t x ttl st)))"
    using Cons.IH [of st2] Cons.prems v by auto
  have b: "b \<le> t + ttl" "t \<le> b" using Cons.prems [of t x f] r by auto
  have n: "n = fst (incr t x ttl st)" using i by simp
  show ?case
  proof (cases "x = k")
    case False
    with IH step show ?thesis by (simp add: admitted_Cons incr_other)
  next
    case True
    show ?thesis
    proof (cases "view k st")
      case None
      with IH b assms(1) True show ?thesis
        unfolding step n by (auto simp: admitted_Cons incr_own incr_result credit_def)
    next
      case (Some ce)
      with IH b assms(1) True show ?thesis
        unfolding step n
        by (cases ce; cases "t \<le> snd ce") (auto simp: admitted_Cons incr_own incr_result credit_def)
    qed
  qed
qed

text \<open>
  Within any stretch no longer than the window a key gets at most twice the limit: what was
  left of the running window, and one new window. From a key that has no counter it gets at
  most the limit.
\<close>

lemma admitted_bound:
  assumes "0 \<le> limit"
    and "\<And>t x f. (t, x, f) \<in> set rs \<Longrightarrow> a \<le> t \<and> t \<le> a + ttl \<and> (\<forall>s. view k (f s) = view k s)"
  shows "view k st = None \<Longrightarrow> int (admitted k (admissions limit ttl rs st)) \<le> limit"
    and "(\<And>c e. view k st = Some (c, e) \<Longrightarrow> 0 \<le> c) \<Longrightarrow>
      int (admitted k (admissions limit ttl rs st)) \<le> 2 * limit"
proof -
  have m: "int (admitted k (admissions limit ttl rs st)) \<le> credit limit (a + ttl) (view k st)"
    using assms(2) by (intro admitted_le_credit assms(1)) auto
  show "view k st = None \<Longrightarrow> int (admitted k (admissions limit ttl rs st)) \<le> limit"
    using m by (simp add: credit_def)
  show "(\<And>c e. view k st = Some (c, e) \<Longrightarrow> 0 \<le> c) \<Longrightarrow>
      int (admitted k (admissions limit ttl rs st)) \<le> 2 * limit"
    using m assms(1) by (cases "view k st") (auto simp: credit_def split: prod.splits if_splits)
qed

text \<open>Nobody is locked out by hammering: once the window has passed, the next request is admitted.\<close>

lemma window_reopens:
  assumes "view k st = Some (c, e)" "e < now" "1 \<le> limit"
  shows "fst (incr now k ttl st) \<le> limit"
  using assms by (simp add: incr_result)

end

definition counter_view :: "string \<Rightarrow> memory \<Rightarrow> (int \<times> instant) option" where
  "counter_view k m = map_option (\<lambda>e. (en_count e, en_expiresAt e)) (map_of m k)"

interpretation memory_counter: window_counter Incr counter_view
  by unfold_locales (auto simp: Incr_def counter_view_def update_conv split: option.splits)

section \<open>Flags raised once\<close>

text \<open>
  The contract of "at most once per period": raising a flag succeeds exactly when it is not
  standing, a raised flag stands for its lifetime, and no call takes down a standing flag.
\<close>

locale once_flag =
  fixes raise :: "instant \<Rightarrow> 'k \<Rightarrow> duration \<Rightarrow> 'st \<Rightarrow> bool \<times> 'st"
    and standing :: "instant \<Rightarrow> 'k \<Rightarrow> 'st \<Rightarrow> bool"
    and inv :: "'st \<Rightarrow> bool"
  assumes raise_inv: "inv st \<Longrightarrow> inv (snd (raise now k ttl st))"
    and raise_result: "inv st \<Longrightarrow> fst (raise now k ttl st) \<longleftrightarrow> \<not> standing now k st"
    and raise_stands: "inv st \<Longrightarrow> fst (raise now k ttl st) \<Longrightarrow> now \<le> t \<Longrightarrow> t \<le> now + ttl
      \<Longrightarrow> standing t k (snd (raise now k ttl st))"
    and raise_keeps: "inv st \<Longrightarrow> now \<le> t \<Longrightarrow> standing t k' st \<Longrightarrow> standing t k' (snd (raise now k ttl st))"
    and raise_other: "inv st \<Longrightarrow> now \<le> t \<Longrightarrow> k' \<noteq> k \<Longrightarrow> standing t k' (snd (raise now k ttl st)) \<Longrightarrow> standing t k' st"
begin

fun raises :: "duration \<Rightarrow> (instant \<times> 'k) list \<Rightarrow> 'st \<Rightarrow> ('k \<times> bool) list" where
  "raises ttl [] st = []"
| "raises ttl ((t, k) # rs) st = (k, fst (raise t k ttl st)) # raises ttl rs (snd (raise t k ttl st))"

definition raised :: "'k \<Rightarrow> ('k \<times> bool) list \<Rightarrow> nat" where
  "raised k as = length (filter (\<lambda>a. a = (k, True)) as)"

lemma raised_Cons: "raised k (a # as) = (if a = (k, True) then 1 else 0) + raised k as"
  by (simp add: raised_def)

lemma raised_standing:
  assumes "inv st" "sorted (map fst rs)" "\<forall>r \<in> set rs. now \<le> fst r \<and> fst r \<le> b"
    and "\<And>t. now \<le> t \<Longrightarrow> t \<le> b \<Longrightarrow> standing t k st"
  shows "raised k (raises ttl rs st) = 0"
  using assms
proof (induction rs arbitrary: st now)
  case Nil
  then show ?case by (simp add: raised_def)
next
  case (Cons r rs)
  obtain t x where r: "r = (t, x)" by (cases r)
  from Cons.prems(3) r have t: "now \<le> t" "t \<le> b" by auto
  have "raised k (raises ttl rs (snd (raise t x ttl st))) = 0"
  proof (rule Cons.IH [of _ t])
    show "inv (snd (raise t x ttl st))" using Cons.prems(1) by (rule raise_inv)
    show "sorted (map fst rs)" "\<forall>r \<in> set rs. t \<le> fst r \<and> fst r \<le> b"
      using Cons.prems(2,3) r by auto
    show "standing u k (snd (raise t x ttl st))" if "t \<le> u" "u \<le> b" for u
      using Cons.prems(1,4) t that by (intro raise_keeps) auto
  qed
  moreover have "\<not> (x = k \<and> fst (raise t x ttl st))"
    using Cons.prems(1,4) t by (simp add: raise_result)
  ultimately show ?case using r by (auto simp: raised_Cons)
qed

lemma raised_once:
  assumes "inv st" "sorted (map fst rs)" "\<forall>r \<in> set rs. now \<le> fst r \<and> fst r \<le> now + ttl"
  shows "raised k (raises ttl rs st) \<le> 1"
  using assms
proof (induction rs arbitrary: st)
  case Nil
  then show ?case by (simp add: raised_def)
next
  case (Cons r rs)
  obtain t x where r: "r = (t, x)" by (cases r)
  let ?st = "snd (raise t x ttl st)"
  from Cons.prems(3) r have t: "now \<le> t" "t \<le> now + ttl" by auto
  have rest: "sorted (map fst rs)" "\<forall>r \<in> set rs. t \<le> fst r \<and> fst r \<le> now + ttl"
    using Cons.prems(2,3) r by auto
  show ?case
  proof (cases "x = k \<and> fst (raise t x ttl st)")
    case True
    have "raised k (raises ttl rs ?st) = 0"
    proof (rule raised_standing [OF raise_inv [OF Cons.prems(1)] rest])
      show "standing u k ?st" if "t \<le> u" "u \<le> now + ttl" for u
        using raise_stands [OF Cons.prems(1), of t k ttl u] True that t by auto
    qed
    with True r show ?thesis by (simp add: raised_Cons)
  next
    case False
    have "raised k (raises ttl rs ?st) \<le> 1"
      using Cons.IH [OF raise_inv [OF Cons.prems(1)]] Cons.prems(2,3) by simp
    with False r show ?thesis by (auto simp: raised_Cons)
  qed
qed

text \<open>The first of them does get through, if the flag was down.\<close>

lemma raised_first:
  assumes "inv st" "\<not> standing t k st"
  shows "raised k (raises ttl ((t, k) # rs) st) \<ge> 1"
  using assms by (simp add: raised_Cons raise_result)

end

definition flag_live :: "instant \<Rightarrow> string \<Rightarrow> memory \<Rightarrow> bool" where
  "flag_live now k m = (case map_of m k of None \<Rightarrow> False | Some e \<Rightarrow> now \<le> en_expiresAt e)"

lemma SetNX_map_of:
  assumes "one_per_key m"
  shows "SetNX now k v ttl m = (if flag_live now k m then (False, m) else (True, snd (SetNX now k v ttl m)))"
    and "\<not> flag_live now k m \<Longrightarrow> map_of (snd (SetNX now k v ttl m)) x
      = (let y = (if x = k then Some \<lparr>en_val = v, en_count = 0, en_expiresAt = now + ttl\<rparr> else map_of m x)
         in if 1000 < length (AList.update k \<lparr>en_val = v, en_count = 0, en_expiresAt = now + ttl\<rparr> m)
            then (case y of None \<Rightarrow> None | Some e \<Rightarrow> if en_expiresAt e < now then None else Some e) else y)"
  using map_of_sweep [OF one_per_key_update [OF assms, of k "\<lparr>en_val = v, en_count = 0, en_expiresAt = now + ttl\<rparr>"], of now x]
  by (auto simp: SetNX_def flag_live_def Let_def update_conv split: option.splits)

interpretation memory_flag: once_flag "\<lambda>now k. SetNX now k v" flag_live one_per_key for v
proof unfold_locales
  fix st :: memory and now t :: instant and k k' :: string and ttl :: duration
  assume inv: "one_per_key st"
  show "one_per_key (snd (SetNX now k v ttl st))" by (rule one_per_key_ops(2) [OF inv])
  show res: "fst (SetNX now k v ttl st) = (\<not> flag_live now k st)"
    using SetNX_map_of(1) [OF inv, of now k v ttl] by (metis fst_conv)
  note m = SetNX_map_of(2) [OF inv, of now k v ttl]
  show "flag_live t k (snd (SetNX now k v ttl st))"
    if "fst (SetNX now k v ttl st)" "now \<le> t" "t \<le> now + ttl"
    using that m [of k] res by (auto simp: flag_live_def Let_def)
  show "flag_live t k' (snd (SetNX now k v ttl st))" if "now \<le> t" "flag_live t k' st"
  proof (cases "flag_live now k st")
    case True
    with that SetNX_map_of(1) [OF inv, of now k v ttl] show ?thesis by (metis snd_conv)
  next
    case False
    have "k' \<noteq> k" using that False by (auto simp: flag_live_def split: option.splits)
    with m [of k'] False that show ?thesis
      by (auto simp: flag_live_def Let_def split: option.splits)
  qed
  show "flag_live t k' st" if "now \<le> t" "k' \<noteq> k" "flag_live t k' (snd (SetNX now k v ttl st))"
  proof (cases "flag_live now k st")
    case True
    with that SetNX_map_of(1) [OF inv, of now k v ttl] show ?thesis by (metis snd_conv)
  next
    case False
    with m [of k'] that show ?thesis
      by (auto simp: flag_live_def Let_def split: option.splits if_splits)
  qed
qed

section \<open>Memory use\<close>

text \<open>
  Counting never removes an entry: a process that only counts keeps one entry for every key
  it has ever seen, expired or not.
\<close>

definition count_all :: "(instant \<times> string \<times> duration) list \<Rightarrow> memory \<Rightarrow> memory" where
  "count_all rs m = fold (\<lambda>(t, k, ttl) m. snd (Incr t k ttl m)) rs m"

lemma Incr_keys: "fst ` set (snd (Incr now key ttl m)) = insert key (fst ` set m)"
  by (auto simp: Incr_def dom_update split: option.splits)

lemma count_all_keeps:
  "fst ` set (count_all rs NewMemory) = (\<lambda>(t, k, ttl). k) ` set rs"
proof -
  have "fst ` set (count_all rs m) = (\<lambda>(t, k, ttl). k) ` set rs \<union> fst ` set m" for m
  proof (induction rs arbitrary: m)
    case (Cons r rs)
    obtain t k ttl where r: "r = (t, k, ttl)" by (cases r) auto
    have "count_all (r # rs) m = count_all rs (snd (Incr t k ttl m))"
      by (simp add: count_all_def r)
    then show ?case by (simp add: Cons.IH r Incr_keys)
  qed (simp add: count_all_def)
  then show ?thesis by (simp add: NewMemory_def)
qed

end
