(* ===== verification/Media_Local.thy ===== *)
theory Media_Local
  imports Go_Text
begin

text \<open>
  \<^verbatim>\<open>internal/media\<close>: recognising images by their first bytes, and the storage of photos on the
  local disk. The disk is a map from paths to file contents; every system call may fail, and
  which one does is an argument. The contract of \<^verbatim>\<open>media.Storage\<close> is the locale
  \<open>photo_storage\<close>, interpreted on \<open>Local\<close>.
\<close>

section \<open>Image types\<close>

definition TypeJPEG :: string where "TypeJPEG = ''image/jpeg''"
definition TypePNG :: string where "TypePNG = ''image/png''"
definition TypeWebP :: string where "TypeWebP = ''image/webp''"
definition TypeHEIC :: string where "TypeHEIC = ''image/heic''"

lemmas type_defs = TypeJPEG_def TypePNG_def TypeWebP_def TypeHEIC_def

definition magicPrefixes :: "(string \<times> string) list" where
  "magicPrefixes =
    [(map char_of [0xFF::nat, 0xD8, 0xFF], TypeJPEG),
     (map char_of [0x89::nat] @ ''PNG'' @ map char_of [0x0D::nat, 0x0A, 0x1A, 0x0A], TypePNG)]"

definition SniffLen :: nat where "SniffLen = 32"

text \<open>\<open>slice a b s\<close> is Go's \<open>s[a:b]\<close> for indices in range.\<close>

definition slice :: "nat \<Rightarrow> nat \<Rightarrow> 'a list \<Rightarrow> 'a list" where
  "slice a b s = take (b - a) (drop a s)"

definition DetectImageType :: "string \<Rightarrow> string option" where
  "DetectImageType h =
    (case find (\<lambda>m. HasPrefix h (fst m)) magicPrefixes of
       Some m \<Rightarrow> Some (snd m)
     | None \<Rightarrow>
        if 12 \<le> length h \<and> HasPrefix h ''RIFF'' \<and> slice 8 12 h = ''WEBP'' then Some TypeWebP
        else if 12 \<le> length h \<and> slice 4 8 h = ''ftyp''
          \<and> slice 8 12 h \<in> {''heic'', ''heix'', ''hevc'', ''mif1'', ''msf1''} then Some TypeHEIC
        else None)"

definition ExtFor :: "string \<Rightarrow> string" where
  "ExtFor contentType =
    (if contentType = TypePNG then ''.png'' else if contentType = TypeWebP then ''.webp''
     else if contentType = TypeHEIC then ''.heic'' else ''.jpg'')"

lemma detect_twelve: "DetectImageType (take 12 x) = DetectImageType x"
proof (cases "12 \<le> length x")
  case True
  have p: "HasPrefix (take 12 x) q = HasPrefix x q" if "length q \<le> 12" for q :: string
    using that by (simp add: HasPrefix_def min_def)
  from True have "length (take 12 x) = 12" by simp
  with True show ?thesis
    by (simp add: DetectImageType_def magicPrefixes_def p slice_def drop_take del: length_take) blast
qed simp

text \<open>
  Every accepted photo is one of four image types whose extensions differ, and the type
  is read off the first twelve bytes: whatever follows them, and however much of the file was
  sniffed beyond them, changes nothing.
\<close>

theorem detected_types:
  "DetectImageType h \<in> {None, Some TypeJPEG, Some TypePNG, Some TypeWebP, Some TypeHEIC}
   \<and> distinct (map ExtFor [TypeJPEG, TypePNG, TypeWebP, TypeHEIC])
   \<and> DetectImageType (take 12 h) = DetectImageType h
   \<and> DetectImageType (take SniffLen (h @ more)) = DetectImageType (take 12 (h @ more))"
proof -
  note t = detect_twelve
  have "take 12 (take SniffLen x) = take 12 x" for x :: string by (simp add: SniffLen_def min_def)
  then have "DetectImageType (take SniffLen x) = DetectImageType (take 12 x)" for x
    using t [of "take SniffLen x"] by simp
  moreover have "DetectImageType h \<in> {None, Some TypeJPEG, Some TypePNG, Some TypeWebP, Some TypeHEIC}"
    by (auto simp: DetectImageType_def magicPrefixes_def split: option.splits)
  moreover have "distinct (map ExtFor [TypeJPEG, TypePNG, TypeWebP, TypeHEIC])"
    by (simp add: ExtFor_def type_defs)
  ultimately show ?thesis using t by blast
qed

section \<open>Paths\<close>

text \<open>The segments of a path, as cut at its slashes.\<close>

fun split_path :: "string \<Rightarrow> string list" where
  "split_path [] = [[]]"
| "split_path (c # s) = (if c = CHR ''/'' then [] # split_path s
     else case split_path s of [] \<Rightarrow> [[c]] | x # xs \<Rightarrow> (c # x) # xs)"

definition clean_step :: "string list \<Rightarrow> string \<Rightarrow> string list" where
  "clean_step acc seg = (if seg = [] \<or> seg = ''.'' then acc
     else if seg = ''..'' then butlast acc else acc @ [seg])"

definition join_path :: "string list \<Rightarrow> string" where
  "join_path parts = concat (map (\<lambda>x. CHR ''/'' # x) parts)"

text \<open>\<open>filepath.Clean\<close> of a rooted path, and \<open>filepath.Join\<close> of two parts under a rooted one.\<close>

definition CleanRooted :: "string \<Rightarrow> string" where
  "CleanRooted p = (case foldl clean_step [] (split_path p) of [] \<Rightarrow> ''/'' | parts \<Rightarrow> join_path parts)"

definition Join :: "string \<Rightarrow> string \<Rightarrow> string" where
  "Join root p = CleanRooted (root @ ''/'' @ p)"

definition resolve :: "string \<Rightarrow> string \<Rightarrow> string option" where
  "resolve root key =
    (if key = [] \<or> HasPrefix key ''/'' \<or> CHR 0x00 \<in> set key then None
     else (let p = Join root (CleanRooted (CHR ''/'' # key))
           in if p \<noteq> root \<and> \<not> HasPrefix p (root @ ''/'') then None else Some p))"

lemma join_path_append: "join_path (a @ b) = join_path a @ join_path b"
  by (simp add: join_path_def)

lemma split_path_append: "split_path (a @ CHR ''/'' # b) = split_path a @ split_path b"
proof (induction a)
  case (Cons c a)
  have "split_path a \<noteq> []" by (cases a) (auto split: list.splits)
  with Cons show ?case by (cases "split_path a") auto
qed simp

definition plain_seg :: "string \<Rightarrow> bool" where
  "plain_seg x \<longleftrightarrow> x \<noteq> [] \<and> x \<noteq> ''.'' \<and> x \<noteq> ''..'' \<and> CHR ''/'' \<notin> set x"

lemma split_plain: "CHR ''/'' \<notin> set x \<Longrightarrow> split_path x = [x]"
  by (induction x) auto

lemma split_join: "list_all plain_seg parts \<Longrightarrow> split_path (join_path parts) = (if parts = [] then [[]] else [] # parts)"
proof (induction parts)
  case Nil
  then show ?case by (simp add: join_path_def)
next
  case (Cons x xs)
  have "split_path (x @ join_path xs) = x # xs"
  proof (cases xs)
    case Nil
    with Cons show ?thesis by (simp add: join_path_def split_plain plain_seg_def)
  next
    case (Cons y ys)
    then have j: "join_path xs = CHR ''/'' # (y @ join_path ys)" by (simp add: join_path_def)
    then have "split_path (join_path xs) = [] # split_path (y @ join_path ys)" by simp
    with Cons.IH Cons.prems Cons have "split_path (y @ join_path ys) = xs" by auto
    with split_path_append [of x "y @ join_path ys"] j Cons.prems show ?thesis
      by (simp add: split_plain plain_seg_def)
  qed
  then show ?case by (simp add: join_path_def)
qed

lemma split_no_slash: "x \<in> set (split_path s) \<Longrightarrow> CHR ''/'' \<notin> set x"
proof (induction s arbitrary: x)
  case (Cons c s)
  then show ?case by (cases "split_path s") (auto split: if_splits)
qed simp

lemma foldl_plain: "list_all plain_seg parts \<Longrightarrow> foldl clean_step acc parts = acc @ parts"
  by (induction parts arbitrary: acc) (simp_all add: clean_step_def plain_seg_def)

lemma clean_plain:
  assumes "list_all plain_seg acc" "\<forall>x \<in> set parts. CHR ''/'' \<notin> set x"
  shows "list_all plain_seg (foldl clean_step acc parts)"
  using assms
proof (induction parts arbitrary: acc)
  case (Cons x xs)
  have "list_all plain_seg (clean_step acc x)"
    using Cons.prems by (auto simp: clean_step_def plain_seg_def list_all_iff dest: in_set_butlastD)
  with Cons show ?case by simp
qed simp

text \<open>The segments a key resolves to, under the root.\<close>

definition key_segs :: "string \<Rightarrow> string list" where
  "key_segs key = foldl clean_step [] (split_path (CHR ''/'' # key))"

lemma key_segs_plain: "list_all plain_seg (key_segs key)"
  unfolding key_segs_def by (rule clean_plain) (auto dest: split_no_slash)

lemma key_segs_plain_key:
  assumes "list_all plain_seg parts" "parts \<noteq> []"
  shows "key_segs (tl (join_path parts)) = parts"
proof -
  obtain y ys where "parts = y # ys" using assms(2) by (cases parts) auto
  then have "CHR ''/'' # tl (join_path parts) = join_path parts" by (simp add: join_path_def)
  then have "key_segs (tl (join_path parts)) = foldl clean_step [] ([] # parts)"
    using split_join [OF assms(1)] assms(2) by (simp add: key_segs_def)
  also have "\<dots> = parts" using foldl_plain [OF assms(1), of "[]"] by (simp add: clean_step_def)
  finally show ?thesis .
qed

lemma join_inject:
  "list_all plain_seg a \<Longrightarrow> list_all plain_seg b \<Longrightarrow> join_path a = join_path b \<longleftrightarrow> a = b"
  using split_join [of a] split_join [of b] by (metis list.distinct(1) list.inject list.sel(3))

text \<open>A root is an absolute clean path other than the file system's own root.\<close>

definition rooted_at :: "string \<Rightarrow> string list \<Rightarrow> bool" where
  "rooted_at root rs \<longleftrightarrow> rs \<noteq> [] \<and> list_all plain_seg rs \<and> root = join_path rs"

lemma resolve_eq:
  assumes "rooted_at root rs"
  shows "resolve root key = (if key = [] \<or> HasPrefix key ''/'' \<or> CHR 0x00 \<in> set key then None
    else Some (join_path (rs @ key_segs key)))"
proof -
  from assms have rs: "rs \<noteq> []" "list_all plain_seg rs" "root = join_path rs"
    by (simp_all add: rooted_at_def)
  have all: "list_all plain_seg (rs @ key_segs key)" using rs key_segs_plain by simp
  define inner where "inner = CleanRooted (CHR ''/'' # key)"
  have inner: "inner = (if key_segs key = [] then ''/'' else join_path (key_segs key))"
    unfolding inner_def CleanRooted_def key_segs_def [symmetric] by (simp split: list.split)
  have "foldl clean_step [] (split_path (root @ CHR ''/'' # inner)) = rs @ key_segs key"
  proof -
    have 1: "split_path (root @ CHR ''/'' # inner) = ([] # rs) @ split_path inner"
      using split_path_append [of root inner] split_join [OF rs(2)] rs(1,3) by simp
    have 2: "foldl clean_step rs (split_path inner) = rs @ key_segs key"
      using split_join [OF key_segs_plain, of key] foldl_plain [OF key_segs_plain, of rs key]
      by (auto simp: inner clean_step_def)
    have "foldl clean_step [] ([] # rs) = rs"
      using foldl_plain [OF rs(2), of "[]"] by (simp add: clean_step_def)
    with 1 2 show ?thesis by simp
  qed
  then have p: "Join root inner = join_path (rs @ key_segs key)"
    using rs(1) by (simp add: Join_def CleanRooted_def split: list.split)
  have "join_path (rs @ key_segs key) = root \<or> HasPrefix (join_path (rs @ key_segs key)) (root @ ''/'')"
  proof (cases "key_segs key")
    case Nil
    with rs(3) show ?thesis by simp
  next
    case (Cons y ys)
    then have "join_path (rs @ key_segs key) = (root @ ''/'') @ y @ join_path ys"
      by (simp add: join_path_def rs(3))
    then show ?thesis by (metis HasPrefix_append)
  qed
  with p show ?thesis by (auto simp: resolve_def inner_def [symmetric] Let_def)
qed

text \<open>
  C26. A key never leaves the storage directory: it resolves exactly when it is neither empty
  nor rooted and has no zero byte; the path is the root followed by segments none of which is
  empty, \<^verbatim>\<open>.\<close> or \<^verbatim>\<open>..\<close>; and the key written in that plain form has a file of its own.
\<close>

theorem resolve_confined:
  assumes "rooted_at root rs"
  shows "(resolve root key = None \<longleftrightarrow> key = [] \<or> HasPrefix key ''/'' \<or> CHR 0x00 \<in> set key)
    \<and> pred_option (\<lambda>p. \<exists>parts. list_all plain_seg parts \<and> p = root @ join_path parts) (resolve root key)
    \<and> (list_all plain_seg a \<and> list_all plain_seg b \<and> a \<noteq> [] \<and> b \<noteq> [] \<and> CHR 0x00 \<notin> set (concat (a @ b)) \<longrightarrow>
        (resolve root (tl (join_path a)) = resolve root (tl (join_path b)) \<longleftrightarrow> a = b))"
proof -
  from assms have rs: "root = join_path rs" "list_all plain_seg rs" by (simp_all add: rooted_at_def)
  have ok: "\<not> (tl (join_path a) = [] \<or> HasPrefix (tl (join_path a)) ''/'' \<or> CHR 0x00 \<in> set (tl (join_path a)))"
    if plain: "list_all plain_seg a" "a \<noteq> []" "CHR 0x00 \<notin> set (concat a)" for a
  proof -
    obtain y ys where a: "a = y # ys" using plain by (cases a) auto
    then have t: "tl (join_path a) = y @ join_path ys" by (simp add: join_path_def)
    have "y \<noteq> []" "CHR ''/'' \<notin> set y" using plain(1) a by (simp_all add: plain_seg_def)
    moreover have "CHR 0x00 \<notin> set (join_path ys)" using plain(3) a by (auto simp: join_path_def)
    moreover have "CHR 0x00 \<notin> set y" using plain(3) a by simp
    ultimately show ?thesis unfolding t by (cases y) (auto simp: HasPrefix_def)
  qed
  have "pred_option (\<lambda>p. \<exists>parts. list_all plain_seg parts \<and> p = root @ join_path parts) (resolve root key)"
    unfolding resolve_eq [OF assms] using key_segs_plain [of key] rs(1) by (auto simp: join_path_append)
  moreover have "resolve root (tl (join_path a)) = resolve root (tl (join_path b)) \<longleftrightarrow> a = b"
    if "list_all plain_seg a" "list_all plain_seg b" "a \<noteq> []" "b \<noteq> []" "CHR 0x00 \<notin> set (concat (a @ b))"
    using that ok [of a] ok [of b] rs(2)
    by (simp add: resolve_eq [OF assms] key_segs_plain_key join_inject)
  ultimately show ?thesis by (simp add: resolve_eq [OF assms])
qed

lemma resolve_confined_witness:
  "resolve ''/var/media'' ''../../etc/passwd'' = Some ''/var/media/etc/passwd''
    \<and> pred_option (\<lambda>p. \<exists>parts. list_all plain_seg parts \<and> p = ''/var/media'' @ join_path parts)
        (resolve ''/var/media'' ''../../etc/passwd'')"
proof -
  have "rooted_at ''/var/media'' [''var'', ''media'']"
    by (simp add: rooted_at_def plain_seg_def join_path_def)
  note r = resolve_confined [OF this, of "''../../etc/passwd''" "[''a'']" "[''a'']"]
  have "resolve ''/var/media'' ''../../etc/passwd'' = Some ''/var/media/etc/passwd''"
    by code_simp
  with r show ?thesis by simp
qed

section \<open>Storing, opening and deleting\<close>

type_synonym disk = "string \<Rightarrow> string option"

datatype storage_error = BadKey | SysFailure | SizeMismatch

text \<open>
  Which system call of \<open>Put\<close> fails, if any; \<open>pf_tmp\<close> is the name \<open>os.CreateTemp\<close> picks. A
  failing copy may leave any content behind in the temporary file, which the deferred
  \<open>os.Remove\<close> then takes away.
\<close>

datatype put_fault = NoFault | MkdirFails | CreateTempFails | CopyFails string | CloseFails | ChmodFails | RenameFails

record put_env =
  pf_fault :: put_fault
  pf_tmp :: string

definition Put :: "string \<Rightarrow> put_env \<Rightarrow> string \<Rightarrow> string \<Rightarrow> int \<Rightarrow> disk \<Rightarrow> (storage_error, unit) sum \<times> disk" where
  "Put root f key data sz d =
    (case resolve root key of None \<Rightarrow> (Inl BadKey, d)
     | Some p \<Rightarrow>
        if pf_fault f = MkdirFails \<or> pf_fault f = CreateTempFails then (Inl SysFailure, d)
        else
          (let tmp = pf_tmp f; d1 = d(tmp \<mapsto> (case pf_fault f of CopyFails part \<Rightarrow> part | _ \<Rightarrow> data))
           in case pf_fault f of
                CopyFails _ \<Rightarrow> (Inl SysFailure, d1(tmp := None))
              | CloseFails \<Rightarrow> (Inl SysFailure, d1(tmp := None))
              | _ \<Rightarrow>
                 if 0 < sz \<and> int (length data) \<noteq> sz then (Inl SizeMismatch, d1(tmp := None))
                 else if pf_fault f = ChmodFails \<or> pf_fault f = RenameFails then (Inl SysFailure, d1(tmp := None))
                 else (Inr (), (d1(p := d1 tmp))(tmp := None))))"

definition OpenPhoto :: "string \<Rightarrow> bool \<Rightarrow> string \<Rightarrow> disk \<Rightarrow> (storage_error, string \<times> string) sum" where
  "OpenPhoto root fail key d =
    (case resolve root key of None \<Rightarrow> Inl BadKey
     | Some p \<Rightarrow>
        (case d p of None \<Rightarrow> Inl SysFailure
         | Some data \<Rightarrow> if fail then Inl SysFailure else
             Inr (data, case DetectImageType (take SniffLen data) of
                          Some ct \<Rightarrow> ct | None \<Rightarrow> ''application/octet-stream'')))"

definition DeletePhoto :: "string \<Rightarrow> bool \<Rightarrow> string \<Rightarrow> disk \<Rightarrow> (storage_error, unit) sum \<times> disk" where
  "DeletePhoto root fail key d =
    (case resolve root key of None \<Rightarrow> (Inl BadKey, d)
     | Some p \<Rightarrow> if fail then (Inl SysFailure, d) else (Inr (), d(p := None)))"

section \<open>The contract of a storage\<close>

text \<open>
  \<open>stored\<close> is the content under a key, \<open>same\<close> holds of keys that name one file, \<open>fair\<close> says
  what the environment of a \<open>put\<close> owes (a temporary name nobody uses).
\<close>

locale photo_storage =
  fixes put :: "'f \<Rightarrow> string \<Rightarrow> string \<Rightarrow> int \<Rightarrow> 'st \<Rightarrow> ('e + unit) \<times> 'st"
    and delete :: "'g \<Rightarrow> string \<Rightarrow> 'st \<Rightarrow> ('e + unit) \<times> 'st"
    and stored :: "string \<Rightarrow> 'st \<Rightarrow> string option"
    and same :: "string \<Rightarrow> string \<Rightarrow> bool"
    and fair :: "'f \<Rightarrow> string \<Rightarrow> 'st \<Rightarrow> bool"
  assumes same_stored: "same k' k \<Longrightarrow> stored k' st = stored k st"
    and put_failed: "fair f k st \<Longrightarrow> put f k data n st = (Inl e, st') \<Longrightarrow> stored k' st' = stored k' st"
    and put_done: "fair f k st \<Longrightarrow> put f k data n st = (Inr u, st') \<Longrightarrow>
      stored k' st' = (if same k' k then Some data else stored k' st)"
    and delete_failed: "delete g k st = (Inl e, st') \<Longrightarrow> stored k' st' = stored k' st"
    and delete_done: "delete g k st = (Inr u, st') \<Longrightarrow>
      stored k' st' = (if same k' k then None else stored k' st)"
begin

lemma put_untouched: "fair f k st \<Longrightarrow> \<not> same k' k \<Longrightarrow> stored k' (snd (put f k data n st)) = stored k' st"
  using put_failed [of f k st data n] put_done [of f k st data n]
  by (cases "put f k data n st"; cases "fst (put f k data n st)") auto

lemma delete_untouched: "\<not> same k' k \<Longrightarrow> stored k' (snd (delete g k st)) = stored k' st"
  using delete_failed [of g k st] delete_done [of g k st]
  by (cases "delete g k st"; cases "fst (delete g k st)") auto

text \<open>Deleting what a \<open>put\<close> under an unused key has stored undoes it.\<close>

lemma put_then_delete:
  assumes "fair f k st" "stored k st = None" "put f k data n st = (Inr u, st1)" "delete g k st1 = (Inr v, st2)"
  shows "stored k' st2 = stored k' st"
  using delete_done [OF assms(4), of k'] put_done [OF assms(1,3), of k'] same_stored [of k' k st] assms(2)
  by (cases "same k' k") auto

end

definition local_stored :: "string \<Rightarrow> string \<Rightarrow> disk \<Rightarrow> string option" where
  "local_stored root key d = (case resolve root key of None \<Rightarrow> None | Some p \<Rightarrow> d p)"

definition local_same :: "string \<Rightarrow> string \<Rightarrow> string \<Rightarrow> bool" where
  "local_same root k' k \<longleftrightarrow> resolve root k' = resolve root k \<and> resolve root k \<noteq> None"

definition local_fair :: "string \<Rightarrow> put_env \<Rightarrow> string \<Rightarrow> disk \<Rightarrow> bool" where
  "local_fair root f key d \<longleftrightarrow> d (pf_tmp f) = None \<and> resolve root key \<noteq> Some (pf_tmp f)"

lemma Put_failed:
  assumes "local_fair root f key d" "Put root f key data sz d = (Inl e, d')"
  shows "d' = d"
proof -
  have "d (pf_tmp f) = None" using assms(1) by (simp add: local_fair_def)
  then have undo: "d(pf_tmp f := None) = d" by auto
  show ?thesis using assms(2)
    by (auto simp: Put_def Let_def undo
        split: option.splits put_fault.splits if_splits)
qed

lemma Put_done:
  assumes "local_fair root f key d" "Put root f key data sz d = (Inr u, d')"
  shows "\<exists>p. resolve root key = Some p \<and> d' = d(p \<mapsto> data)"
proof -
  have t: "d (pf_tmp f) = None" "resolve root key \<noteq> Some (pf_tmp f)"
    using assms(1) by (simp_all add: local_fair_def)
  from assms(2) obtain p where p: "resolve root key = Some p"
    by (auto simp: Put_def split: option.splits)
  with t(2) have ne: "p \<noteq> pf_tmp f" by simp
  have "d' = ((d(pf_tmp f \<mapsto> data))(p \<mapsto> data))(pf_tmp f := None)"
    using assms(2) p by (auto simp: Put_def Let_def split: put_fault.splits if_splits)
  also have "\<dots> = d(p \<mapsto> data)" using t(1) ne by (auto simp: fun_eq_iff)
  finally show ?thesis using p by blast
qed

interpretation local_storage: photo_storage "Put root" "DeletePhoto root" "local_stored root" "local_same root"
  "local_fair root" for root
proof unfold_locales
  show "local_stored root k' st = local_stored root k st" if "local_same root k' k" for k' k st
    using that by (simp add: local_same_def local_stored_def)
  show "local_stored root k' st' = local_stored root k' st"
    if "local_fair root f k st" "Put root f k data n st = (Inl e, st')" for f k st data n e st' k'
    using Put_failed [OF that] by simp
  show "local_stored root k' st' = (if local_same root k' k then Some data else local_stored root k' st)"
    if "local_fair root f k st" "Put root f k data n st = (Inr u, st')" for f k st data n u st' k'
    using Put_done [OF that] by (auto simp: local_stored_def local_same_def split: option.splits)
  show "local_stored root k' st' = local_stored root k' st"
    if "DeletePhoto root g k st = (Inl e, st')" for g k st e st' k'
    using that by (auto simp: DeletePhoto_def split: option.splits if_splits)
  show "local_stored root k' st' = (if local_same root k' k then None else local_stored root k' st)"
    if "DeletePhoto root g k st = (Inr u, st')" for g k st u st' k'
    using that by (auto simp: DeletePhoto_def local_stored_def local_same_def split: option.splits if_splits)
qed



end
