(* ===== verification/Store_Queries.thy ===== *)
theory Store_Queries
  imports Store_Claims Go_Base64 "HOL-Library.List_Lexorder" "HOL-Library.Char_ord"
    "HOL-Library.Product_Lexorder"
begin

text \<open>
  The reading side of the store: the inbox with its pages (\<^verbatim>\<open>internal/store/query.go\<close>), the
  facts a new claim is judged by, contacts (\<^verbatim>\<open>contact.go\<close>) and machines (\<^verbatim>\<open>machine.go\<close>).
\<close>

section \<open>Ordered results\<close>

text \<open>\<open>ORDER BY key DESC\<close> on a key no two rows share.\<close>

definition newest_first :: "('a \<Rightarrow> 'k::linorder) \<Rightarrow> 'a list \<Rightarrow> 'a list" where
  "newest_first key xs = rev (sort_key key xs)"

lemma set_newest_first [simp]: "set (newest_first key xs) = set xs"
  by (simp add: newest_first_def)

lemma length_newest_first [simp]: "length (newest_first key xs) = length xs"
  by (simp add: newest_first_def)

lemma filter_newest_first: "filter P (newest_first key xs) = newest_first key (filter P xs)"
  by (simp add: newest_first_def rev_filter [symmetric] filter_sort)

lemma newest_first_strict:
  assumes "distinct (map key xs)"
  shows "sorted_wrt (\<lambda>a b. key b < key a) (newest_first key xs)"
proof -
  have "sorted (map key (sort_key key xs))" "distinct (map key (sort_key key xs))"
    using assms by (simp_all add: distinct_map)
  then have "sorted_wrt (<) (map key (sort_key key xs))" by (simp add: strict_sorted_iff)
  then show ?thesis by (simp add: newest_first_def sorted_wrt_rev sorted_wrt_map)
qed

text \<open>Behind an element of a strictly falling list come exactly the smaller ones.\<close>

lemma filter_behind:
  assumes "sorted_wrt (\<lambda>a b. key b < (key a :: 'k::linorder)) (p @ r # q)"
  shows "filter (\<lambda>y. key y < key r) (p @ r # q) = q"
proof -
  have "filter (\<lambda>y. key y < key r) p = []" "filter (\<lambda>y. key y < key r) q = q"
    using assms by (auto simp: sorted_wrt_append filter_empty_conv filter_id_conv dest: less_asym)
  then show ?thesis by simp
qed

section \<open>The inbox\<close>

record ClaimSummary =
  sm_ID :: string
  sm_MachineLabel :: string
  sm_MachineID :: string
  sm_IssueType :: IssueType
  sm_IssueLabel :: string
  sm_PaymentMethod :: PaymentMethod
  sm_PaymentLabel :: string
  sm_AmountKRW :: int
  sm_Status :: Status
  sm_StatusLabel :: string
  sm_RiskScore :: int
  sm_RiskReasons :: "RiskReason list"
  sm_PhoneMasked :: string
  sm_PhotoCount :: nat
  sm_CreatedAt :: instant

record ClaimFilter =
  cf_StoreID :: string
  cf_Statuses :: "Status list"
  cf_MachineID :: string
  cf_From :: instant
  cf_To :: instant
  cf_Cursor :: string
  cf_Limit :: int

definition defaultLimit :: int where "defaultLimit = 50"

text \<open>A cursor names the last row shown by its time and id; \<open>parse\<close> is \<open>time.Parse(RFC3339Nano, _)\<close>.\<close>

definition encodeCursor :: "instant \<Rightarrow> string \<Rightarrow> string" where
  "encodeCursor at cid = RawURLEncode (format_RFC3339Nano UTC at @ ''|'' @ cid)"

definition decodeCursor :: "(string \<Rightarrow> instant option) \<Rightarrow> string \<Rightarrow> (instant \<times> string) option" where
  "decodeCursor parse c =
    (case RawURLDecode c of None \<Rightarrow> None
     | Some raw \<Rightarrow>
        (case Cut raw CHR ''|'' of None \<Rightarrow> None
         | Some (a, b) \<Rightarrow> map_option (\<lambda>at. (at, b)) (parse a)))"

definition claim_matches :: "ClaimFilter \<Rightarrow> ClaimRow \<Rightarrow> bool" where
  "claim_matches f r \<longleftrightarrow> c_store r = cf_StoreID f
     \<and> (cf_Statuses f \<noteq> [] \<longrightarrow> c_status r \<in> set (cf_Statuses f))
     \<and> (cf_MachineID f \<noteq> [] \<longrightarrow> c_machine r = cf_MachineID f)
     \<and> (\<not> IsZero (cf_From f) \<longrightarrow> cf_From f \<le> c_created r)
     \<and> (\<not> IsZero (cf_To f) \<longrightarrow> c_created r < cf_To f)"

definition row_key :: "ClaimRow \<Rightarrow> instant \<times> string" where
  "row_key r = (c_created r, c_id r)"

text \<open>The rows of the query, before its limit; the join drops a claim without a machine.\<close>

definition matching_rows :: "ClaimFilter \<Rightarrow> (instant \<times> string) option \<Rightarrow> db \<Rightarrow> ClaimRow list" where
  "matching_rows f cur d = newest_first row_key
     (filter (\<lambda>r. claim_matches f r \<and> find_machine (c_machine r) d \<noteq> None
        \<and> (case cur of None \<Rightarrow> True | Some x \<Rightarrow> row_key r < x)) (t_claims d))"

definition summary_of :: "Sec \<Rightarrow> db \<Rightarrow> ClaimRow \<Rightarrow> (db_error, ClaimSummary) result" where
  "summary_of k d r =
    (case Decrypt (sec_aead k) (c_phone_enc r) of Inl e \<Rightarrow> Inl (CryptoFailure e)
     | Inr phone \<Rightarrow> Inr
        \<lparr>sm_ID = c_id r,
         sm_MachineLabel = (case find_machine (c_machine r) d of None \<Rightarrow> [] | Some m \<Rightarrow> mc_Label m),
         sm_MachineID = c_machine r, sm_IssueType = c_issue r, sm_IssueLabel = issue_Label (c_issue r),
         sm_PaymentMethod = c_payment r, sm_PaymentLabel = payment_Label (c_payment r),
         sm_AmountKRW = c_amount r, sm_Status = c_status r, sm_StatusLabel = status_Label (c_status r),
         sm_RiskScore = c_risk_score r, sm_RiskReasons = c_risk_reasons r,
         sm_PhoneMasked = MaskPhone phone,
         sm_PhotoCount = length (filter (\<lambda>p. ph_claim p = c_id r) (t_photos d)),
         sm_CreatedAt = c_created r\<rparr>)"

definition page_limit :: "ClaimFilter \<Rightarrow> nat" where
  "page_limit f = nat (if cf_Limit f \<le> 0 \<or> 200 < cf_Limit f then defaultLimit else cf_Limit f)"

definition ListClaims ::
  "Sec \<Rightarrow> (string \<Rightarrow> instant option) \<Rightarrow> bool \<Rightarrow> ClaimFilter \<Rightarrow> db
     \<Rightarrow> (db_error, ClaimSummary list \<times> string) result" where
  "ListClaims k parse fail f d =
    (case (if cf_Cursor f = [] then Inr None
           else case decodeCursor parse (cf_Cursor f) of
             None \<Rightarrow> Inl (BadInput ''cursor'') | Some x \<Rightarrow> Inr (Some x)) of
       Inl e \<Rightarrow> Inl e
     | Inr cur \<Rightarrow>
        if fail then Inl DbFailure else
        (case collect (summary_of k d) (take (page_limit f + 1) (matching_rows f cur d)) of
           Inl e \<Rightarrow> Inl e
         | Inr out \<Rightarrow>
            if page_limit f < length out
            then (let out' = take (page_limit f) out; l = last out'
                  in Inr (out', encodeCursor (sm_CreatedAt l) (sm_ID l)))
            else Inr (out, [])))"

section \<open>Walking through the pages\<close>

fun walk_pages ::
  "Sec \<Rightarrow> (string \<Rightarrow> instant option) \<Rightarrow> ClaimFilter \<Rightarrow> db \<Rightarrow> nat \<Rightarrow> string \<Rightarrow> ClaimSummary list list option" where
  "walk_pages k parse f d 0 cursor = None"
| "walk_pages k parse f d (Suc n) cursor =
    (case ListClaims k parse False (f\<lparr>cf_Cursor := cursor\<rparr>) d of
       Inl e \<Rightarrow> None
     | Inr (out, next') \<Rightarrow> if next' = [] then Some [out]
         else map_option (\<lambda>ps. out # ps) (walk_pages k parse f d n next'))"

lemma cursor_roundtrip:
  assumes "parse (format_RFC3339Nano UTC at) = Some at"
  shows "decodeCursor parse (encodeCursor at cid) = Some (at, cid)"
proof -
  have bar: "CHR ''|'' \<notin> set (format_RFC3339Nano UTC at)"
    using stamp_RFC3339Nano [of UTC at] by (auto simp: list_all_iff stamp_char_def is_digit_def byte_def)
  show ?thesis
    using Cut_append [OF bar, of cid] assms by (simp add: decodeCursor_def encodeCursor_def b64.dec_enc)
qed

lemma encodeCursor_nonempty [simp]: "encodeCursor at cid \<noteq> []"
proof
  assume "encodeCursor at cid = []"
  with b64.dec_enc [of "format_RFC3339Nano UTC at @ ''|'' @ cid"] b64.dec_enc [of "[]"]
  show False by (simp add: encodeCursor_def RawURLEncode_def RawURLDecode_def)
qed

lemma matching_rows_cursor:
  "matching_rows f (Some x) d = filter (\<lambda>r. row_key r < x) (matching_rows f None d)"
  by (simp add: matching_rows_def filter_newest_first conj_ac)

lemma matching_rows_strict:
  assumes "distinct (map c_id (t_claims d))"
  shows "sorted_wrt (\<lambda>a b. row_key b < row_key a) (matching_rows f cur d)"
proof -
  have "distinct (map row_key (t_claims d))"
    using assms by (auto simp: distinct_map inj_on_def row_key_def)
  then show ?thesis unfolding matching_rows_def
    by (intro newest_first_strict) (simp add: distinct_map_filter)
qed

lemma matching_rows_f [simp]: "matching_rows (f\<lparr>cf_Cursor := c\<rparr>) = matching_rows f"
  by (simp add: matching_rows_def claim_matches_def fun_eq_iff)

lemma page_limit_f [simp]: "page_limit (f\<lparr>cf_Cursor := c\<rparr>) = page_limit f"
  by (simp add: page_limit_def)

lemma page_limit_pos: "1 \<le> page_limit f"
  by (auto simp: page_limit_def defaultLimit_def)

lemma summary_of_Inr: "summary_of k d r = Inr s \<Longrightarrow> sm_ID s = c_id r \<and> sm_CreatedAt s = c_created r"
  by (auto simp: summary_of_def split: sum.splits)

definition cursor_after :: "ClaimRow list \<Rightarrow> string" where
  "cursor_after p = (if p = [] then [] else encodeCursor (c_created (last p)) (c_id (last p)))"

lemma ListClaims_after:
  assumes R: "matching_rows f None d = p @ q" and d: "distinct (map c_id (t_claims d))"
    and g: "\<And>r. r \<in> set (p @ q) \<Longrightarrow> summary_of k d r = Inr (g r)"
    and parse: "\<And>r. r \<in> set (p @ q) \<Longrightarrow> parse (format_RFC3339Nano UTC (c_created r)) = Some (c_created r)"
  shows "ListClaims k parse False (f\<lparr>cf_Cursor := cursor_after p\<rparr>) d
    = Inr (map g (take (page_limit f) q),
        if page_limit f < length q then cursor_after (p @ take (page_limit f) q) else [])"
proof -
  let ?L = "page_limit f"
  obtain cur where cur: "(if cursor_after p = [] then Inr None else case decodeCursor parse (cursor_after p) of
         None \<Rightarrow> Inl (BadInput ''cursor'') | Some x \<Rightarrow> Inr (Some x)) = Inr cur"
      "matching_rows f cur d = q"
  proof (cases "p = []")
    case True
    with R that show ?thesis by (simp add: cursor_after_def)
  next
    case False
    then obtain b l where p: "p = b @ [l]" by (cases p rule: rev_cases) auto
    then have "parse (format_RFC3339Nano UTC (c_created l)) = Some (c_created l)" using parse [of l] by simp
    note c = cursor_roundtrip [where parse = parse and at = "c_created l" and cid = "c_id l", OF this]
    have c: "cursor_after p \<noteq> []" "decodeCursor parse (cursor_after p) = Some (row_key l)"
      using c by (simp_all add: cursor_after_def p row_key_def)
    have "filter (\<lambda>r. row_key r < row_key l) (b @ l # q) = q"
      by (rule filter_behind) (use matching_rows_strict [OF d, of f None] R p in simp)
    then have "matching_rows f (Some (row_key l)) d = q"
      unfolding matching_rows_cursor using R p by simp
    with c that show ?thesis by simp
  qed
  have cc: "cf_Cursor (f\<lparr>cf_Cursor := cursor_after p\<rparr>) = cursor_after p" by simp
  have page: "ListClaims k parse False (f\<lparr>cf_Cursor := cursor_after p\<rparr>) d =
      (case collect (summary_of k d) (take (?L + 1) q) of
           Inl e \<Rightarrow> Inl e
         | Inr out \<Rightarrow>
            if ?L < length out
            then (let out' = take ?L out; l = last out'
                  in Inr (out', encodeCursor (sm_CreatedAt l) (sm_ID l)))
            else Inr (out, []))"
    by (simp only: ListClaims_def cc cur matching_rows_f page_limit_f sum.case if_False)
  have col: "collect (summary_of k d) (take (?L + 1) q) = Inr (map g (take (?L + 1) q))"
    by (rule collect_total) (use g in \<open>auto dest: in_set_takeD\<close>)
  have "summary_of k d (last (take ?L q)) = Inr (g (last (take ?L q)))" if "?L < length q"
  proof -
    have "take ?L q \<noteq> []" using that page_limit_pos [of f] by auto
    then have "last (take ?L q) \<in> set q" by (metis last_in_set in_set_takeD)
    then show ?thesis using g by simp
  qed
  then have l: "sm_CreatedAt (g (last (take ?L q))) = c_created (last (take ?L q))"
      "sm_ID (g (last (take ?L q))) = c_id (last (take ?L q))" if "?L < length q"
    using summary_of_Inr that by blast+
  have ne: "take ?L q \<noteq> []" if "?L < length q" using that page_limit_pos [of f] by auto
  show ?thesis
  proof (cases "?L < length q")
    case True
    have t: "take ?L (map g (take (Suc ?L) q)) = map g (take ?L q)" by (simp add: take_map min_def)
    show ?thesis
      using col l [OF True] ne [OF True] True
      by (simp add: page Let_def t last_map cursor_after_def [of "p @ _"])
  next
    case False
    then show ?thesis using col by (simp add: page)
  qed
qed

lemma walk_pages_after:
  assumes d: "distinct (map c_id (t_claims d))"
    and R: "matching_rows f None d = p @ q"
    and g: "\<And>r. r \<in> set (p @ q) \<Longrightarrow> summary_of k d r = Inr (g r)"
    and parse: "\<And>r. r \<in> set (p @ q) \<Longrightarrow> parse (format_RFC3339Nano UTC (c_created r)) = Some (c_created r)"
    and n: "length q < n"
  shows "\<exists>ps. walk_pages k parse f d n (cursor_after p) = Some ps \<and> concat ps = map g q
    \<and> list_all (\<lambda>x. length x \<le> page_limit f) ps"
  using R g parse n
proof (induction n arbitrary: p q)
  case (Suc n)
  let ?L = "page_limit f"
  note page = ListClaims_after [OF Suc.prems(1) d Suc.prems(2,3)]
  show ?case
  proof (cases "?L < length q")
    case False
    with page show ?thesis by simp
  next
    case True
    then have ne: "take ?L q \<noteq> []" using page_limit_pos [of f] by auto
    have nz: "cursor_after (p @ take ?L q) \<noteq> []" using ne by (simp add: cursor_after_def)
    have "\<exists>ps. walk_pages k parse f d n (cursor_after (p @ take ?L q)) = Some ps
        \<and> concat ps = map g (drop ?L q) \<and> list_all (\<lambda>x. length x \<le> ?L) ps"
    proof (rule Suc.IH)
      show "matching_rows f None d = (p @ take ?L q) @ drop ?L q" using Suc.prems(1) by simp
      show "length (drop ?L q) < n" using Suc.prems(4) True page_limit_pos [of f] by simp
    qed (use Suc.prems(2,3) in simp_all)
    then obtain ps where ps: "walk_pages k parse f d n (cursor_after (p @ take ?L q)) = Some ps"
      "concat ps = map g (drop ?L q)" "list_all (\<lambda>x. length x \<le> ?L) ps" by blast
    with page True nz have "walk_pages k parse f d (Suc n) (cursor_after p) = Some (map g (take ?L q) # ps)"
      by simp
    moreover have "concat (map g (take ?L q) # ps) = map g q"
      using ps(2) by (simp add: map_append [symmetric] del: map_append)
    ultimately show ?thesis using ps(3)
      by (intro exI [of _ "map g (take ?L q) # ps"]) (simp del: walk_pages.simps)
  qed
qed simp

text \<open>
  C9. The inbox shows every claim once: following the cursors from the first page ends, and the
  pages, none longer than the limit, are together exactly the matching claims from the newest
  to the oldest, none twice and none skipped (with no writes in between, readable phone
  numbers, and \<^verbatim>\<open>time.Parse\<close> reading back what \<^verbatim>\<open>Format\<close> wrote).
\<close>

theorem inbox_complete:
  assumes "distinct (map c_id (t_claims d))"
    and "\<And>r. r \<in> set (t_claims d) \<Longrightarrow> is_ok (summary_of k d r)"
    and "\<And>r. r \<in> set (t_claims d) \<Longrightarrow> parse (format_RFC3339Nano UTC (c_created r)) = Some (c_created r)"
  shows "\<exists>ps. walk_pages k parse f d (length (t_claims d) + 1) [] = Some ps
    \<and> map (\<lambda>s. (sm_CreatedAt s, sm_ID s)) (concat ps) = map row_key (matching_rows f None d)
    \<and> sorted_wrt (\<lambda>a b. row_key b < row_key a) (matching_rows f None d)
    \<and> set (matching_rows f None d) = {r \<in> set (t_claims d). claim_matches f r \<and> find_machine (c_machine r) d \<noteq> None}
    \<and> list_all (\<lambda>x. length x \<le> page_limit f) ps"
proof -
  let ?R = "matching_rows f None d"
  define g where "g r = (case summary_of k d r of Inr s \<Rightarrow> s)" for r
  have sub: "set ?R \<subseteq> set (t_claims d)" by (auto simp: matching_rows_def)
  have g: "summary_of k d r = Inr (g r)" if "r \<in> set ?R" for r
  proof -
    from that sub assms(2) [of r] have "is_ok (summary_of k d r)" by blast
    then show ?thesis by (rule is_okE) (simp add: g_def)
  qed
  have len: "length ?R < length (t_claims d) + 1"
    by (simp add: matching_rows_def less_Suc_eq_le)
  have "\<exists>ps. walk_pages k parse f d (length (t_claims d) + 1) (cursor_after []) = Some ps
      \<and> concat ps = map g ?R \<and> list_all (\<lambda>x. length x \<le> page_limit f) ps"
    by (rule walk_pages_after [OF assms(1)]) (use g sub assms(3) len in auto)
  moreover have "map (\<lambda>s. (sm_CreatedAt s, sm_ID s)) (map g ?R) = map row_key ?R"
    using summary_of_Inr [OF g] by (simp add: row_key_def)
  ultimately show ?thesis
    using matching_rows_strict [OF assms(1), of f None]
    by (auto simp: cursor_after_def matching_rows_def)
qed

text \<open>A parser that reads back the stamps of one database.\<close>

definition demo_parse :: "db \<Rightarrow> string \<Rightarrow> instant option" where
  "demo_parse d s = map_option c_created (find (\<lambda>r. format_RFC3339Nano UTC (c_created r) = s) (t_claims d))"

definition demo_inbox :: db where
  "demo_inbox = demo_db\<lparr>t_claims := map (\<lambda>(cid, t). (new_claim_row (demo_env cid) demo_input
     (''ab'' @ rev ''01012345678'' @ ''ab'', []) ([], []) [] None)\<lparr>c_created := t\<rparr>) [(''c1'', 1), (''c2'', 1)]\<rparr>"

lemma inbox_complete_witness:
  "\<exists>ps. walk_pages demo_sec (demo_parse demo_inbox)
      \<lparr>cf_StoreID = ''s1'', cf_Statuses = [], cf_MachineID = [], cf_From = zero_time, cf_To = zero_time,
        cf_Cursor = [], cf_Limit = 1\<rparr> demo_inbox (length (t_claims demo_inbox) + 1) [] = Some ps"
proof -
  have ids: "distinct (map c_id (t_claims demo_inbox))"
    by (simp add: demo_inbox_def new_claim_row_def demo_env_def)
  have ok: "is_ok (summary_of demo_sec demo_inbox r)" if "r \<in> set (t_claims demo_inbox)" for r
    using that by (auto simp: demo_inbox_def new_claim_row_def summary_of_def Decrypt_def demo_sec_def
        demo_aead_def Let_def)
  have ps: "demo_parse demo_inbox (format_RFC3339Nano UTC (c_created r)) = Some (c_created r)"
    if "r \<in> set (t_claims demo_inbox)" for r
    using that by (auto simp: demo_parse_def demo_inbox_def)
  from inbox_complete [OF ids ok ps] show ?thesis by blast
qed

section \<open>The facts a new claim is judged by\<close>

definition window30d :: duration where "window30d = 30 * 24 * Hour"

record RiskQuery =
  rq_StoreID :: string
  rq_MachineID :: string
  rq_Phone :: string
  rq_Account :: string
  rq_Now :: instant

text \<open>The loop keeps the strongest of the flags it reads; a state it does not know ranks lowest.\<close>

definition contact_rank :: "string \<Rightarrow> nat" where
  "contact_rank s = (if s = ContactWatch then 1 else if s = ContactBlocked then 2 else 0)"

definition strongestContactStatus :: "bool \<Rightarrow> string \<Rightarrow> string \<Rightarrow> string \<Rightarrow> db \<Rightarrow> (db_error, string) result" where
  "strongestContactStatus fail storeID phoneHash accountHash d =
    (if fail then Inl DbFailure else
     Inr (fold (\<lambda>f best. if contact_rank best < contact_rank (fl_status f) then fl_status f else best)
       (filter (\<lambda>f. fl_store f = storeID \<and> (fl_kind f = ''phone'' \<and> fl_hash f = phoneHash
          \<or> fl_kind f = ''account'' \<and> fl_hash f = accountHash)) (t_flags d)) ContactNormal))"

text \<open>\<open>fail\<close> numbers the five queries.\<close>

definition RiskFactsFor :: "Sec \<Rightarrow> (nat \<Rightarrow> bool) \<Rightarrow> RiskQuery \<Rightarrow> db \<Rightarrow> (db_error, RiskInput) result" where
  "RiskFactsFor k fail q d =
    (let phoneHash = sec_hash k (rq_Phone q); accountHash = sec_hash k (rq_Account q);
         since = rq_Now q - window30d;
         recent = filter (\<lambda>r. c_phone_hash r = phoneHash \<and> since \<le> c_created r) (t_claims d);
         others = c_phone_hash ` set (filter (\<lambda>r. c_account_hash r = accountHash
                    \<and> c_phone_hash r \<noteq> phoneHash) (t_claims d));
         same = filter (\<lambda>r. c_phone_hash r = phoneHash \<and> c_machine r = rq_MachineID q) (t_claims d)
     in if fail 0 \<or> fail 1 \<or> fail 2 then Inl DbFailure else
        (case strongestContactStatus (fail 3) (rq_StoreID q) phoneHash accountHash d of
           Inl e \<Rightarrow> Inl e
         | Inr status \<Rightarrow> Inr
            \<lparr>ri_AmountKRW = 0, ri_PhoneClaims30d = int (length recent) + 1,
             ri_PhonePaidTotal30d = paid_sum recent,
             ri_AccountDistinctPhones = int (card others) + 1,
             ri_HasAccount = (rq_Account q \<noteq> []), ri_ManualStatus = status,
             ri_LastSameMachineAt = (if same = [] then zero_time else Max (c_created ` set same)),
             ri_Now = rq_Now q\<rparr>))"

lemma strongest_fold:
  assumes "b \<in> {ContactNormal, ContactWatch, ContactBlocked}"
  shows "fold (\<lambda>f best. if contact_rank best < contact_rank (fl_status f) then fl_status f else best) fs b
     = (if b = ContactBlocked \<or> list_ex (\<lambda>f. fl_status f = ContactBlocked) fs then ContactBlocked
        else if b = ContactWatch \<or> list_ex (\<lambda>f. fl_status f = ContactWatch) fs then ContactWatch
        else ContactNormal)"
  using assms
proof (induction fs arbitrary: b)
  case (Cons f fs)
  show ?case
  proof (cases "contact_rank b < contact_rank (fl_status f)")
    case True
    then have "fl_status f \<in> {ContactNormal, ContactWatch, ContactBlocked}"
      by (auto simp: contact_rank_def split: if_splits)
    with Cons True show ?thesis by (auto simp: contact_rank_def split: if_splits)
  next
    case False
    with Cons show ?thesis by (auto simp: contact_rank_def split: if_splits)
  qed
qed auto

section \<open>Contacts\<close>

record ContactSummary =
  cs_IdentityHash :: string
  cs_PhoneMasked :: string
  cs_ClaimCount :: nat
  cs_PaidCount :: nat
  cs_PaidTotalKRW :: int
  cs_ManualStatus :: string
  cs_Note :: string
  cs_LastClaimAt :: instant

text \<open>One group per phone hash: the flag joined to it is unique by the table's key.\<close>

definition contact_of :: "Sec \<Rightarrow> string \<Rightarrow> db \<Rightarrow> string \<Rightarrow> (db_error, ContactSummary) result" where
  "contact_of k storeID d hash =
    (let rs = filter (\<lambda>r. c_store r = storeID \<and> c_phone_hash r = hash) (t_claims d);
         flag = find (\<lambda>f. fl_hash f = hash \<and> fl_kind f = ''phone'' \<and> fl_store f = storeID) (t_flags d)
     in case Decrypt (sec_aead k) (c_phone_enc (last (sort_key c_created rs))) of
          Inl e \<Rightarrow> Inl (CryptoFailure e)
        | Inr phone \<Rightarrow> Inr
           \<lparr>cs_IdentityHash = HexEncode hash, cs_PhoneMasked = MaskPhone phone,
            cs_ClaimCount = length rs,
            cs_PaidCount = length (filter (\<lambda>r. c_status r = StatusPaid) rs),
            cs_PaidTotalKRW = paid_sum rs,
            cs_ManualStatus = (case flag of None \<Rightarrow> ContactNormal | Some f \<Rightarrow> fl_status f),
            cs_Note = (case flag of None \<Rightarrow> [] | Some f \<Rightarrow> fl_note f),
            cs_LastClaimAt = Max (c_created ` set rs)\<rparr>)"

definition ListContacts :: "Sec \<Rightarrow> bool \<Rightarrow> string \<Rightarrow> db \<Rightarrow> (db_error, ContactSummary list) result" where
  "ListContacts k fail storeID d =
    (if fail then Inl DbFailure else
     (let own = filter (\<lambda>r. c_store r = storeID) (t_claims d);
          total = (\<lambda>h. length (filter (\<lambda>r. c_phone_hash r = h) own));
          newest = (\<lambda>h. Max (c_created ` set (filter (\<lambda>r. c_phone_hash r = h) own)))
      in collect (contact_of k storeID d)
           (newest_first (\<lambda>h. (total h, newest h)) (remdups (map c_phone_hash own)))))"

text \<open>\<open>INSERT \<dots> ON CONFLICT \<dots> DO UPDATE\<close>.\<close>

definition upsert_flag :: "FlagRow \<Rightarrow> FlagRow list \<Rightarrow> FlagRow list" where
  "upsert_flag f fs =
    (let same = (\<lambda>x. fl_hash x = fl_hash f \<and> fl_kind x = fl_kind f \<and> fl_store x = fl_store f)
     in if list_ex same fs then map (\<lambda>x. if same x then f else x) fs else fs @ [f])"

definition SetContactStatus ::
  "bool \<Rightarrow> instant \<Rightarrow> string \<Rightarrow> string \<Rightarrow> string \<Rightarrow> string \<Rightarrow> string \<Rightarrow> string \<Rightarrow> unit sql" where
  "SetContactStatus fail now storeID hash kind status note' by' d =
    (if ParseContactStatus status = None then (Inl (BadInput ''status''), d)
     else if kind \<noteq> ''phone'' \<and> kind \<noteq> ''account'' then (Inl (BadInput ''kind''), d)
     else if fail then (Inl DbFailure, d)
     else (Inr (), d\<lparr>t_flags := upsert_flag
       \<lparr>fl_hash = hash, fl_kind = kind, fl_store = storeID, fl_status = status, fl_note = note',
        fl_by = nilUUID by', fl_updated = now\<rparr> (t_flags d)\<rparr>))"

lemma upsert_flag_in: "f \<in> set (upsert_flag f fs)"
  by (auto simp: upsert_flag_def Let_def list_ex_iff)

lemma fold_strongest_blocked:
  assumes "f \<in> set (t_flags d)" "fl_store f = st" "fl_status f = ContactBlocked"
    and "fl_kind f = ''phone'' \<and> fl_hash f = ph \<or> fl_kind f = ''account'' \<and> fl_hash f = ac"
  shows "strongestContactStatus False st ph ac d = Inr ContactBlocked"
proof -
  let ?mine = "filter (\<lambda>f. fl_store f = st \<and> (fl_kind f = ''phone'' \<and> fl_hash f = ph
          \<or> fl_kind f = ''account'' \<and> fl_hash f = ac)) (t_flags d)"
  have "list_ex (\<lambda>f. fl_status f = ContactBlocked) ?mine"
    using assms by (auto simp: list_ex_iff)
  then show ?thesis by (simp add: strongestContactStatus_def strongest_fold)
qed

lemma Evaluate_status_blocked:
  assumes "ri_ManualStatus ri = ContactBlocked"
  shows "rs_Status (Evaluate ri p) = StatusOnHold"
proof -
  have "statusRank (rs_Status (Evaluate ri p)) = 2"
    unfolding Evaluate_rank rule_rank_exact max_flags using assms by simp
  then show ?thesis using Evaluate_status_cases [of ri p] by auto
qed

text \<open>
  C24. A block takes hold: once an owner has blocked a phone number or an account, a claim at
  that store with this number or this account is put on hold, whichever of the two it was,
  whatever else was flagged in between (as long as this flag was not changed), however small
  the amount.
\<close>

theorem blocked_contact_held:
  assumes "SetContactStatus False now st hash kind ContactBlocked note' by' d = (Inr (), d1)"
    and "set (t_flags d1) \<subseteq> set (t_flags d2)"
    and "kind = ''phone'' \<and> sec_hash k (rq_Phone q) = hash \<or> kind = ''account'' \<and> sec_hash k (rq_Account q) = hash"
    and "rq_StoreID q = st"
    and "RiskFactsFor k (\<lambda>_. False) q d2 = Inr facts"
  shows "rs_Status (Evaluate (facts\<lparr>ri_AmountKRW := amount\<rparr>) p) = StatusOnHold"
proof -
  let ?f = "\<lparr>fl_hash = hash, fl_kind = kind, fl_store = st, fl_status = ContactBlocked, fl_note = note',
        fl_by = nilUUID by', fl_updated = now\<rparr>"
  have "t_flags d1 = upsert_flag ?f (t_flags d)"
    using assms(1) by (auto simp: SetContactStatus_def split: if_splits)
  then have "?f \<in> set (t_flags d2)" using upsert_flag_in assms(2) by auto
  then have "strongestContactStatus False st (sec_hash k (rq_Phone q)) (sec_hash k (rq_Account q)) d2
      = Inr ContactBlocked"
    by (rule fold_strongest_blocked) (use assms(3) in auto)
  then have "ri_ManualStatus facts = ContactBlocked"
    using assms(4,5) by (auto simp: RiskFactsFor_def Let_def)
  then show ?thesis using Evaluate_status_blocked by simp
qed

lemma blocked_contact_held_witness:
  "rs_Status (Evaluate (case RiskFactsFor demo_sec (\<lambda>_. False)
      \<lparr>rq_StoreID = ''s1'', rq_MachineID = ''m1'', rq_Phone = ''010'', rq_Account = [], rq_Now = 9\<rparr>
      (snd (SetContactStatus False 5 ''s1'' ''010'' ''phone'' ContactBlocked [] [] demo_db)) of
      Inr facts \<Rightarrow> facts\<lparr>ri_AmountKRW := 100\<rparr>) DefaultPolicy) = StatusOnHold"
proof -
  let ?q = "\<lparr>rq_StoreID = ''s1'', rq_MachineID = ''m1'', rq_Phone = ''010'', rq_Account = [], rq_Now = 9\<rparr>"
  obtain d1 where d1: "SetContactStatus False 5 ''s1'' ''010'' ''phone'' ContactBlocked [] [] demo_db = (Inr (), d1)"
    by (simp add: SetContactStatus_def ParseContactStatus_def)
  obtain facts where "RiskFactsFor demo_sec (\<lambda>_. False) ?q d1 = Inr facts"
    by (simp add: RiskFactsFor_def strongestContactStatus_def Let_def)
  with blocked_contact_held [OF d1, of d1 demo_sec ?q facts 100 DefaultPolicy] d1
  show ?thesis by (simp add: demo_sec_def)
qed

end
