(* ===== verification/Store_Machines.thy ===== *)
theory Store_Machines
  imports Store_Claims Store_Accounts "HOL-Library.List_Lexorder" "HOL-Library.Char_ord"
    "HOL-Library.Product_Lexorder"
begin

text \<open>
  \<^verbatim>\<open>internal/store/machine.go\<close>: the machines of a store, looked up by the code on their sticker,
  listed with their recent activity, created with a fresh code and edited without ever
  changing it.
\<close>

section \<open>Looking machines up\<close>

record StoreInfo =
  si_Name :: string
  si_Phone :: string
  si_Type :: StoreType

text \<open>An inactive machine is not found; the join needs the machine's store.\<close>

definition MachineByCode :: "bool \<Rightarrow> string \<Rightarrow> db \<Rightarrow> (db_error, Machine \<times> StoreInfo) result" where
  "MachineByCode fail code d =
    (if fail then Inl DbFailure else
     case find (\<lambda>m. mc_Code m = code \<and> mc_Active m) (t_machines d) of None \<Rightarrow> Inl ErrNotFound
     | Some m \<Rightarrow>
        (case find (\<lambda>s. st_id s = mc_StoreID m) (t_stores d) of None \<Rightarrow> Inl ErrNotFound
         | Some s \<Rightarrow> Inr (m, \<lparr>si_Name = st_name s, si_Phone = coalesce (st_phone s) [], si_Type = st_type s\<rparr>)))"

definition MachineByID :: "bool \<Rightarrow> string \<Rightarrow> string \<Rightarrow> db \<Rightarrow> (db_error, Machine) result" where
  "MachineByID fail storeID mid d =
    (if fail then Inl DbFailure else
     case find (\<lambda>m. mc_ID m = mid \<and> mc_StoreID m = storeID) (t_machines d) of
       None \<Rightarrow> Inl ErrNotFound | Some m \<Rightarrow> Inr m)"

section \<open>Listing\<close>

record MachineStat =
  mt_Machine :: Machine
  mt_Claims7d :: nat
  mt_Claims24h :: nat
  mt_OpenClaims :: nat
  mt_Daily7d :: "nat list"

text \<open>\<open>z\<close> is the time zone of the database session, which dates the days; \<open>now\<close> its clock.\<close>

definition machineDaily7d :: "zone \<Rightarrow> instant \<Rightarrow> string \<Rightarrow> db \<Rightarrow> nat list" where
  "machineDaily7d z now machineID d =
    map (\<lambda>day. length (filter (\<lambda>r. c_machine r = machineID \<and> local_days z (c_created r) = day) (t_claims d)))
      [local_days z now - 6 .. local_days z now]"

definition machine_stat :: "zone \<Rightarrow> instant \<Rightarrow> db \<Rightarrow> Machine \<Rightarrow> MachineStat" where
  "machine_stat z now d m =
    (let rs = filter (\<lambda>r. c_machine r = mc_ID m) (t_claims d)
     in \<lparr>mt_Machine = m,
         mt_Claims7d = length (filter (\<lambda>r. now - 7 * Day < c_created r) rs),
         mt_Claims24h = length (filter (\<lambda>r. now - 24 * Hour < c_created r) rs),
         mt_OpenClaims = length (filter (\<lambda>r. c_status r \<in> {StatusPending, StatusNeedsReview, StatusOnHold, StatusApproved}) rs),
         mt_Daily7d = machineDaily7d z now (mc_ID m) d\<rparr>)"

definition ListMachines :: "zone \<Rightarrow> instant \<Rightarrow> (nat \<Rightarrow> bool) \<Rightarrow> string \<Rightarrow> db \<Rightarrow> (db_error, MachineStat list) result" where
  "ListMachines z now fail storeID d =
    (let ms = filter (\<lambda>m. mc_StoreID m = storeID) (t_machines d)
     in if fail 0 \<or> list_ex (\<lambda>i. fail (Suc i)) [0 ..< length ms] then Inl DbFailure
        else Inr (sort_key (\<lambda>s. (- int (mt_Claims24h s), mc_Label (mt_Machine s)))
               (map (machine_stat z now d) ms)))"

section \<open>Creating and editing\<close>

text \<open>One attempt: the random draws of the code, the id the database would give, a failing insert.\<close>

record machine_attempt =
  ma_draws :: "nat option list"
  ma_id :: string
  ma_fail :: bool

definition new_machine :: "string \<Rightarrow> string \<Rightarrow> string \<Rightarrow> string \<Rightarrow> string \<Rightarrow> Machine" where
  "new_machine mid storeID code label location =
    \<lparr>mc_ID = mid, mc_StoreID = storeID, mc_Code = code, mc_Label = label, mc_Location = location, mc_Active = True\<rparr>"

definition insert_machine :: "bool \<Rightarrow> Machine \<Rightarrow> unit sql" where
  "insert_machine fail m d =
    (if fail \<or> mc_StoreID m \<notin> st_id ` set (t_stores d) then (Inl DbFailure, d)
     else if list_ex (\<lambda>x. mc_Code x = mc_Code m \<or> mc_ID x = mc_ID m) (t_machines d) then (Inl UniqueViolation, d)
     else (Inr (), d\<lparr>t_machines := t_machines d @ [m]\<rparr>))"

fun create_machine_attempts :: "string \<Rightarrow> string \<Rightarrow> string \<Rightarrow> machine_attempt list \<Rightarrow> Machine sql" where
  "create_machine_attempts storeID label location [] d = (Inl (BadInput ''attempts''), d)"
| "create_machine_attempts storeID label location (a # as) d =
    (case GenerateMachineCode (ma_draws a) of None \<Rightarrow> (Inl (BadInput ''random''), d)
     | Some code \<Rightarrow>
        (let m = new_machine (ma_id a) storeID code label location
         in case insert_machine (ma_fail a) m d of
              (Inr _, d') \<Rightarrow> (Inr m, d')
            | (Inl UniqueViolation, d') \<Rightarrow> create_machine_attempts storeID label location as d'
            | (Inl e, d') \<Rightarrow> (Inl e, d')))"

text \<open>Five attempts, whatever the environment has in store after them.\<close>

definition CreateMachine :: "machine_attempt list \<Rightarrow> string \<Rightarrow> string \<Rightarrow> string \<Rightarrow> Machine sql" where
  "CreateMachine as storeID label location = create_machine_attempts storeID label location (take 5 as)"

definition UpdateMachine :: "bool \<Rightarrow> string \<Rightarrow> string \<Rightarrow> string \<Rightarrow> string \<Rightarrow> bool \<Rightarrow> unit sql" where
  "UpdateMachine fail storeID mid label location active d =
    (if fail then (Inl DbFailure, d)
     else
       (let hit = (\<lambda>m. mc_ID m = mid \<and> mc_StoreID m = storeID);
            d' = d\<lparr>t_machines := map (\<lambda>m. if hit m
                   then m\<lparr>mc_Label := label, mc_Location := location, mc_Active := active\<rparr> else m) (t_machines d)\<rparr>
        in if filter hit (t_machines d) = [] then (Inl ErrNotFound, d') else (Inr (), d')))"

section \<open>Codes on stickers\<close>

text \<open>The machine table: every code valid, no code and no id given twice.\<close>

definition codes_ok :: "db \<Rightarrow> bool" where
  "codes_ok d \<longleftrightarrow> distinct (map mc_Code (t_machines d)) \<and> distinct (map mc_ID (t_machines d))
     \<and> list_all (\<lambda>m. ValidateMachineCode (mc_Code m) = None) (t_machines d)"

lemma draw_code_valid:
  "draw_code k ds = Some s \<Longrightarrow> list_all (pred_option (\<lambda>n. n < 31)) ds \<Longrightarrow> length s = k \<and> set s \<subseteq> set codeAlphabet"
proof (induction k ds arbitrary: s rule: draw_code.induct)
  case (4 k n ds)
  have "length codeAlphabet = 31" by (simp add: codeAlphabet_def)
  with 4 have "codeAlphabet ! n \<in> set codeAlphabet" by (intro nth_mem) simp
  with 4 show ?case by auto
qed auto

lemma insert_machine_ok:
  assumes "insert_machine fail m d = (Inr u, d')"
  shows "d' = d\<lparr>t_machines := t_machines d @ [m]\<rparr>" "mc_Code m \<notin> mc_Code ` set (t_machines d)"
    "mc_ID m \<notin> mc_ID ` set (t_machines d)" "mc_StoreID m \<in> st_id ` set (t_stores d)"
  using assms by (auto simp: insert_machine_def list_ex_iff split: if_splits)

lemma attempts_result:
  assumes "create_machine_attempts storeID label location as d = (r, d')"
  shows "(\<exists>e. r = Inl e \<and> d' = d) \<or> (\<exists>a code u. a \<in> set as \<and> GenerateMachineCode (ma_draws a) = Some code
    \<and> r = Inr (new_machine (ma_id a) storeID code label location)
    \<and> insert_machine (ma_fail a) (new_machine (ma_id a) storeID code label location) d = (Inr u, d'))"
  using assms
proof (induction as)
  case (Cons a as)
  show ?case
  proof (cases "GenerateMachineCode (ma_draws a)")
    case None
    with Cons.prems show ?thesis by auto
  next
    case (Some code)
    let ?m = "new_machine (ma_id a) storeID code label location"
    obtain x d1 where x: "insert_machine (ma_fail a) ?m d = (x, d1)" by fastforce
    then have "d1 = d" if "x = Inl e" for e
      using that by (auto simp: insert_machine_def split: if_splits)
    with Cons Some x show ?thesis by (cases x) (auto split: db_error.splits)
  qed
qed auto

text \<open>
  C27. Stickers keep working: creating a machine gives it a code that is valid and that no other
  machine has, so that its sticker finds exactly this machine and its store, and every other
  sticker still finds what it found; renaming, moving or switching off a machine never changes
  its code. A failure changes nothing.
\<close>

theorem machine_codes:
  assumes "codes_ok d" and "list_all (\<lambda>a. list_all (pred_option (\<lambda>n. n < 31)) (ma_draws a)) as"
    and "CreateMachine as storeID label location d = (r, d')"
  shows "codes_ok d' \<and> (case r of Inl e \<Rightarrow> d' = d
      | Inr m \<Rightarrow> ValidateMachineCode (mc_Code m) = None
          \<and> map_sum id fst (MachineByCode False (mc_Code m) d') = Inr m \<and> mc_StoreID m = storeID
          \<and> mc_Label m = label
          \<and> (\<forall>c. c \<noteq> mc_Code m \<longrightarrow> MachineByCode False c d' = MachineByCode False c d))
    \<and> map mc_Code (t_machines (snd (UpdateMachine fail st mid l lo active d))) = map mc_Code (t_machines d)"
proof -
  have upd: "map mc_Code (t_machines (snd (UpdateMachine fail st mid l lo active d))) = map mc_Code (t_machines d)"
    by (simp add: UpdateMachine_def Let_def)
  from attempts_result [OF assms(3) [unfolded CreateMachine_def]]
  show ?thesis
  proof (elim disjE exE conjE)
    fix e assume "r = Inl e" "d' = d"
    with assms(1) upd show ?thesis by simp
  next
    fix a :: machine_attempt and code u
    let ?m = "new_machine (ma_id a) storeID code label location"
    assume a: "a \<in> set (take 5 as)" "GenerateMachineCode (ma_draws a) = Some code" "r = Inr ?m"
      "insert_machine (ma_fail a) ?m d = (Inr u, d')"
    note ins = insert_machine_ok [OF a(4)]
    have m: "mc_Code ?m = code" "mc_StoreID ?m = storeID" "mc_Active ?m" "mc_Label ?m = label"
      by (simp_all add: new_machine_def)
    from a(1) assms(2) have "list_all (pred_option (\<lambda>n. n < 31)) (ma_draws a)"
      by (auto simp: list_all_iff dest: in_set_takeD)
    with a(2) have valid: "ValidateMachineCode code = None"
      using draw_code_valid by (auto simp: GenerateMachineCode_def Validate_None_iff CodeLength_def)
    have ok: "codes_ok d'" using assms(1) ins valid m by (auto simp: codes_ok_def)
    obtain s where s: "find (\<lambda>s. st_id s = storeID) (t_stores d) = Some s"
      using ins(4) m(2) by (cases "find (\<lambda>s. st_id s = storeID) (t_stores d)") (auto simp: find_None_iff)
    have none: "find (\<lambda>x. mc_Code x = code \<and> mc_Active x) (t_machines d) = None"
      using ins(2) m(1) by (auto simp: find_None_iff)
    have found: "map_sum id fst (MachineByCode False code d') = Inr ?m"
      using none s m by (simp add: MachineByCode_def ins(1) find_append)
    have others: "MachineByCode False c d' = MachineByCode False c d" if "c \<noteq> code" for c
      using that m(1) by (simp add: MachineByCode_def ins(1) find_append split: option.split)
    show ?thesis using ok valid found others m upd a(3) by simp
  qed
qed

lemma machine_codes_witness:
  "codes_ok (snd (CreateMachine [\<lparr>ma_draws = replicate 6 (Some 1), ma_id = ''m9'', ma_fail = False\<rparr>] ''s1'' ''4'' []
     (demo_db\<lparr>t_stores := [new_store ''s1'' ''Shop'' [] ''claw'']\<rparr>)))"
proof -
  let ?d = "demo_db\<lparr>t_stores := [new_store ''s1'' ''Shop'' [] ''claw'']\<rparr>"
  let ?as = "[\<lparr>ma_draws = replicate 6 (Some 1), ma_id = ''m9'', ma_fail = False\<rparr>]"
  have "codes_ok ?d" by (simp add: codes_ok_def demo_db_def Validate_None_iff codeAlphabet_def)
  moreover have "list_all (\<lambda>a. list_all (pred_option (\<lambda>n. n < 31)) (ma_draws a)) ?as"
    by (simp add: list_all_iff)
  ultimately show ?thesis
    using machine_codes [of ?d ?as "''s1''" "''4''" "[]" "fst (CreateMachine ?as ''s1'' ''4'' [] ?d)"
        "snd (CreateMachine ?as ''s1'' ''4'' [] ?d)" False "[]" "[]" "[]" "[]" False]
    by (simp only: prod.collapse)
qed

end
