(* ===== verification/Notify_Push.thy ===== *)
theory Notify_Push
  imports Http_Access
begin

text \<open>
  Notifications: the notices and the two channels of \<^verbatim>\<open>internal/notify\<close> (Slack and web push), the
  fan-out over channels, the table of push subscriptions (\<^verbatim>\<open>internal/store/push.go\<close>) and the
  handlers that fill it (\<^verbatim>\<open>internal/httpapi/admin_push.go\<close>). What the network answers is an
  argument.
\<close>

section \<open>Notices\<close>

record ClaimNotice =
  cn_ClaimID :: string
  cn_StoreID :: string
  cn_URL :: string
  cn_MachineLabel :: string
  cn_IssueLabel :: string
  cn_PaymentLabel :: string
  cn_AmountKRW :: int
  cn_Status :: Status
  cn_RiskReasons :: "RiskReason list"
  cn_PhotoCount :: int
  cn_CreatedAt :: instant

record MachineNotice =
  mn_StoreID :: string
  mn_MachineLabel :: string
  mn_Count :: int
  mn_ByIssue :: "IssueType \<rightharpoonup> int"

record DigestNotice =
  dn_StoreID :: string
  dn_Day :: string
  dn_ClaimCount :: int
  dn_PaidCount :: int
  dn_PaidTotalKRW :: int
  dn_TopMachines :: "(string \<times> int) list"

text \<open>The plain thousands separator of this package and of \<^verbatim>\<open>httpapi\<close>.\<close>

definition comma_plain :: "int \<Rightarrow> string" where
  "comma_plain n = comma_loop False (Itoa n)"

section \<open>Slack\<close>

record slackMessage =
  sl_Text :: string
  sl_Blocks :: "string list"

definition nl :: string where "nl = [CHR 0x0A]"

definition slack_ClaimCreated :: "string \<Rightarrow> ClaimNotice \<Rightarrow> slackMessage" where
  "slack_ClaimCreated baseURL n =
    (let headline = ''*'' @ cn_MachineLabel n @ (u8 [0x2A, 0x20, 0xB7, 0x20]) @ cn_IssueLabel n @ (u8 [0x20, 0xB7, 0x20, 0x2A]) @ comma_plain (cn_AmountKRW n) @ (u8 [0xC6D0, 0x2A])
           @ (if cn_PaymentLabel n \<noteq> [] then (u8 [0x20, 0xB7, 0x20]) @ cn_PaymentLabel n @ (u8 [0x20, 0xACB0, 0xC81C]) else []);
         warning = (if cn_Status n = StatusOnHold \<or> cn_Status n = StatusNeedsReview
           then '':warning: *'' @ status_Label (cn_Status n) @ ''*'' @ nl else []);
         reasons = concat (map (\<lambda>r. nl @ (u8 [0x2022, 0x20]) @ rr_Message r) (cn_RiskReasons n));
         photos = (if 0 < cn_PhotoCount n then nl @ (u8 [0xC0AC, 0xC9C4, 0x20]) @ Itoa (cn_PhotoCount n) @ (u8 [0xC7A5, 0x20, 0xCCA8, 0xBD80]) else []);
         link = (if cn_URL n = [] then baseURL @ ''/admin/claims/'' @ cn_ClaimID n else cn_URL n)
     in \<lparr>sl_Text = ''['' @ status_Label (cn_Status n) @ ''] '' @ cn_MachineLabel n @ '' '' @ cn_IssueLabel n
           @ '' '' @ comma_plain (cn_AmountKRW n) @ (u8 [0xC6D0]),
         sl_Blocks = [warning @ headline @ reasons @ photos, ''<'' @ link @ (u8 [0x7C, 0xC5F4, 0xC5B4, 0xC11C, 0x20, 0xCC98, 0xB9AC, 0xD558, 0xAE30, 0x3E])]\<rparr>)"

fun join_with :: "string \<Rightarrow> string list \<Rightarrow> string" where
  "join_with sep [] = []"
| "join_with sep [x] = x"
| "join_with sep (x # y # ys) = x @ sep @ join_with sep (y # ys)"

definition slack_MachineAlert :: "MachineNotice \<Rightarrow> slackMessage" where
  "slack_MachineAlert n =
    (let parts = List.map_filter (\<lambda>it. case mn_ByIssue n it of None \<Rightarrow> None
           | Some c \<Rightarrow> if 0 < c then Some (issue_Label it @ '' '' @ Itoa c) else None) AllIssueTypes
     in \<lparr>sl_Text = mn_MachineLabel n @ (u8 [0x20, 0x32, 0x34, 0xC2DC, 0xAC04, 0x20, 0xB0B4, 0x20]) @ Itoa (mn_Count n) @ (u8 [0xAC74, 0x20, 0x2014, 0x20, 0xC810, 0xAC80, 0x20, 0xD544, 0xC694]),
         sl_Blocks = ['':wrench: *'' @ mn_MachineLabel n @ (u8 [0x2A, 0x20, 0xB7, 0x20, 0x32, 0x34, 0xC2DC, 0xAC04, 0x20, 0xB0B4, 0x20]) @ Itoa (mn_Count n)
           @ (u8 [0xAC74, 0x20, 0xC811, 0xC218, 0x20, 0x28]) @ join_with '', '' parts @ '')'' @ nl @ (u8 [0xC810, 0xAC80, 0xC774, 0x20, 0xD544, 0xC694, 0xD574, 0x20, 0xBCF4, 0xC785, 0xB2C8, 0xB2E4, 0x2E])]\<rparr>)"

definition slack_DailyDigest :: "DigestNotice \<Rightarrow> slackMessage" where
  "slack_DailyDigest n =
    (let top = (if dn_TopMachines n = [] then []
           else nl @ nl @ (u8 [0x2A, 0xC811, 0xC218, 0xAC00, 0x20, 0xB9CE, 0xC740, 0x20, 0xAE30, 0xACC4, 0x2A])
             @ concat (map (\<lambda>m. nl @ (u8 [0x2022, 0x20]) @ fst m @ (u8 [0x20, 0x2014, 0x20]) @ Itoa (snd m) @ (u8 [0xAC74])) (dn_TopMachines n)))
     in \<lparr>sl_Text = dn_Day n @ (u8 [0x20, 0xC694, 0xC57D, 0x3A, 0x20, 0xC811, 0xC218, 0x20]) @ Itoa (dn_ClaimCount n) @ (u8 [0xAC74, 0x2C, 0x20, 0xD658, 0xBD88, 0x20]) @ Itoa (dn_PaidCount n) @ (u8 [0xAC74]),
         sl_Blocks = [''*'' @ dn_Day n @ (u8 [0x20, 0xC694, 0xC57D, 0x2A]) @ nl @ (u8 [0xC811, 0xC218, 0x20]) @ Itoa (dn_ClaimCount n) @ (u8 [0xAC74, 0x20, 0xB7, 0x20, 0xD658, 0xBD88, 0x20])
           @ Itoa (dn_PaidCount n) @ (u8 [0xAC74, 0x20, 0xB7, 0x20]) @ comma_plain (dn_PaidTotalKRW n) @ (u8 [0xC6D0]) @ top]\<rparr>)"

text \<open>\<open>post\<close> succeeds on a status in the two hundreds; \<open>None\<close> is a network failure.\<close>

definition slack_post_ok :: "nat option \<Rightarrow> bool" where
  "slack_post_ok status = (case status of None \<Rightarrow> False | Some s \<Rightarrow> 200 \<le> s \<and> s < 300)"

section \<open>Several channels\<close>

text \<open>\<open>NewMulti\<close> leaves absent channels out; \<open>fan\<close> sends through every channel and joins the errors.\<close>

definition NewMulti :: "'t option list \<Rightarrow> 't list" where
  "NewMulti targets = List.map_filter id targets"

fun fan :: "('t \<Rightarrow> 'st \<Rightarrow> 'e option \<times> 'st) \<Rightarrow> 't list \<Rightarrow> 'st \<Rightarrow> 'e list \<times> 'st" where
  "fan send [] st = ([], st)"
| "fan send (t # ts) st =
    (case send t st of (e, st1) \<Rightarrow>
      (case fan send ts st1 of (es, st2) \<Rightarrow> (case e of None \<Rightarrow> es | Some x \<Rightarrow> x # es, st2)))"

lemma fan_all: "snd (fan send ts st) = fold (\<lambda>t s. snd (send t s)) ts st"
proof (induction ts arbitrary: st)
  case (Cons t ts)
  show ?case using Cons [of "snd (send t st)"] by (simp add: case_prod_beta)
qed simp

section \<open>The table of push subscriptions\<close>

record PushSubscription =
  sb_ID :: string
  sb_StoreID :: string
  sb_UserID :: string
  sb_Endpoint :: string
  sb_P256dh :: string
  sb_Auth :: string

text \<open>\<open>newID\<close> is the id the database would give a new row.\<close>

definition SavePushSubscription :: "bool \<Rightarrow> string \<Rightarrow> PushSubscription \<Rightarrow> unit sql" where
  "SavePushSubscription fail newID sub d =
    (if fail then (Inl DbFailure, d)
     else if sb_Endpoint sub \<in> ps_endpoint ` set (t_push d)
     then (Inr (), d\<lparr>t_push := map (\<lambda>r. if ps_endpoint r = sb_Endpoint sub
        then r\<lparr>ps_store := sb_StoreID sub, ps_user := sb_UserID sub, ps_p256dh := sb_P256dh sub,
               ps_auth := sb_Auth sub, ps_failures := 0\<rparr> else r) (t_push d)\<rparr>)
     else (Inr (), d\<lparr>t_push := t_push d @ [\<lparr>ps_id = newID, ps_store = sb_StoreID sub, ps_user = sb_UserID sub,
        ps_endpoint = sb_Endpoint sub, ps_p256dh = sb_P256dh sub, ps_auth = sb_Auth sub,
        ps_failures = 0, ps_last_sent = None\<rparr>]\<rparr>))"

definition DeletePushSubscription :: "bool \<Rightarrow> string \<Rightarrow> unit sql" where
  "DeletePushSubscription fail endpoint d =
    (if fail then (Inl DbFailure, d)
     else (Inr (), d\<lparr>t_push := filter (\<lambda>r. ps_endpoint r \<noteq> endpoint) (t_push d)\<rparr>))"

definition PushSubscriptionsFor :: "bool \<Rightarrow> string \<Rightarrow> db \<Rightarrow> (db_error, PushSubscription list) result" where
  "PushSubscriptionsFor fail storeID d =
    (if fail then Inl DbFailure
     else Inr (map (\<lambda>r. \<lparr>sb_ID = ps_id r, sb_StoreID = ps_store r, sb_UserID = ps_user r,
        sb_Endpoint = ps_endpoint r, sb_P256dh = ps_p256dh r, sb_Auth = ps_auth r\<rparr>)
      (filter (\<lambda>r. ps_store r = storeID) (t_push d))))"

text \<open>\<open>fails\<close> are the two statements; without a transaction, the first stands if the second fails.\<close>

definition MarkPushSent :: "bool \<times> bool \<Rightarrow> string \<Rightarrow> bool \<Rightarrow> instant \<Rightarrow> unit sql" where
  "MarkPushSent fails sid gone now d =
    (if \<not> gone then
       (if fst fails then (Inl DbFailure, d)
        else (Inr (), d\<lparr>t_push := map (\<lambda>r. if ps_id r = sid
               then r\<lparr>ps_failures := 0, ps_last_sent := Some now\<rparr> else r) (t_push d)\<rparr>))
     else if fst fails then (Inl DbFailure, d)
     else
      (let d1 = d\<lparr>t_push := map (\<lambda>r. if ps_id r = sid
               then r\<lparr>ps_failures := ps_failures r + 1\<rparr> else r) (t_push d)\<rparr>
       in if snd fails then (Inl DbFailure, d1)
          else (Inr (), d1\<lparr>t_push := filter (\<lambda>r. \<not> (ps_id r = sid \<and> 3 \<le> ps_failures r)) (t_push d1)\<rparr>)))"

section \<open>Web push\<close>

record pushPayload =
  pp_Title :: string
  pp_Body :: string
  pp_URL :: string
  pp_Tag :: string

definition push_ClaimCreated :: "string \<Rightarrow> ClaimNotice \<Rightarrow> pushPayload" where
  "push_ClaimCreated baseURL n =
    \<lparr>pp_Title = cn_MachineLabel n @ (u8 [0x20, 0xB7, 0x20]) @ cn_IssueLabel n,
     pp_Body = comma_plain (cn_AmountKRW n) @ (u8 [0xC6D0, 0x20, 0xB7, 0x20]) @ cn_PaymentLabel n,
     pp_URL = (if cn_URL n = [] then baseURL @ ''/admin/claims'' else cn_URL n),
     pp_Tag = ''claim-'' @ cn_ClaimID n\<rparr>"

definition push_MachineAlert :: "string \<Rightarrow> MachineNotice \<Rightarrow> pushPayload" where
  "push_MachineAlert baseURL n =
    \<lparr>pp_Title = mn_MachineLabel n @ (u8 [0x20, 0xC810, 0xAC80, 0xC774, 0x20, 0xD544, 0xC694, 0xD574, 0x20, 0xBCF4, 0xC5EC, 0xC694]),
     pp_Body = (u8 [0x32, 0x34, 0xC2DC, 0xAC04, 0x20, 0xB0B4, 0x20]) @ Itoa (mn_Count n) @ (u8 [0xAC74, 0x20, 0xC811, 0xC218, 0xB410, 0xC5B4, 0xC694, 0x2E]),
     pp_URL = baseURL @ ''/admin/machines'', pp_Tag = ''machine-'' @ mn_MachineLabel n\<rparr>"

text \<open>
  \<open>answer k\<close> is the HTTP status the push service gives to the k-th message, \<open>None\<close> if it could
  not be reached; the result is the list of messages sent with the subscription each went to.
\<close>

fun send_all ::
  "(nat \<Rightarrow> nat option) \<Rightarrow> (nat \<Rightarrow> bool \<times> bool) \<Rightarrow> (nat \<Rightarrow> instant) \<Rightarrow> nat \<Rightarrow> pushPayload
     \<Rightarrow> PushSubscription list \<Rightarrow> db \<Rightarrow> (PushSubscription \<times> pushPayload) list \<times> db" where
  "send_all answer fails now k p [] d = ([], d)"
| "send_all answer fails now k p (s # ss) d =
    (let d1 = (case answer k of None \<Rightarrow> d
         | Some status \<Rightarrow> snd (MarkPushSent (fails k) (sb_ID s) (status = 404 \<or> status = 410) (now k) d));
         (sent, d2) = send_all answer fails now (Suc k) p ss d1
     in ((s, p) # sent, d2))"

definition push_send ::
  "(nat \<Rightarrow> nat option) \<Rightarrow> (nat \<Rightarrow> bool \<times> bool) \<Rightarrow> (nat \<Rightarrow> instant) \<Rightarrow> bool \<Rightarrow> string \<Rightarrow> pushPayload
     \<Rightarrow> db \<Rightarrow> (db_error, (PushSubscription \<times> pushPayload) list) result \<times> db" where
  "push_send answer fails now fail_read storeID p d =
    (if storeID = [] then (Inl (BadInput ''store''), d)
     else case PushSubscriptionsFor fail_read storeID d of Inl e \<Rightarrow> (Inl e, d)
     | Inr subs \<Rightarrow> (case send_all answer fails now 0 p subs d of (sent, d') \<Rightarrow> (Inr sent, d')))"

section \<open>The handlers\<close>

record pushSubscribeRequest =
  pq_Endpoint :: string
  pq_P256dh :: string
  pq_Auth :: string

definition handlePushKey :: "string \<Rightarrow> string \<Rightarrow> (string \<times> bool) reply" where
  "handlePushKey pub priv = Done (pub, pub \<noteq> [] \<and> priv \<noteq> [])"

definition handlePushSubscribe :: "bool \<Rightarrow> string \<Rightarrow> User \<Rightarrow> pushSubscribeRequest option \<Rightarrow> db \<Rightarrow> string reply \<times> db" where
  "handlePushSubscribe fail newID u req d =
    (case req of None \<Rightarrow> (badRequest, d)
     | Some q \<Rightarrow>
      (let endpoint = TrimSpace (pq_Endpoint q)
       in if \<not> HasPrefix endpoint ''https://'' \<or> 2000 < length endpoint then (badRequest, d)
          else if pq_P256dh q = [] \<or> pq_Auth q = [] then (badRequest, d)
          else case SavePushSubscription fail newID
             \<lparr>sb_ID = [], sb_StoreID = u_StoreID u, sb_UserID = u_ID u, sb_Endpoint = endpoint,
              sb_P256dh = pq_P256dh q, sb_Auth = pq_Auth q\<rparr> d of
             (Inl _, d') \<Rightarrow> (internalError, d')
           | (Inr _, d') \<Rightarrow> (Done ''ok'', d')))"

definition handlePushUnsubscribe :: "bool \<Rightarrow> pushSubscribeRequest option \<Rightarrow> db \<Rightarrow> string reply \<times> db" where
  "handlePushUnsubscribe fail req d =
    (case req of None \<Rightarrow> (badRequest, d)
     | Some q \<Rightarrow>
      (case DeletePushSubscription fail (TrimSpace (pq_Endpoint q)) d of
         (Inl _, d') \<Rightarrow> (internalError, d') | (Inr _, d') \<Rightarrow> (Done ''ok'', d')))"

section \<open>What holds of subscriptions\<close>

text \<open>The table has unique ids and endpoints, and no row has used up its failures.\<close>

definition push_ok :: "db \<Rightarrow> bool" where
  "push_ok d \<longleftrightarrow> distinct (map ps_id (t_push d)) \<and> distinct (map ps_endpoint (t_push d))
     \<and> list_all (\<lambda>r. 0 \<le> ps_failures r \<and> ps_failures r < 3) (t_push d)"

text \<open>The outcomes of successive deliveries to one subscription: gone or not.\<close>

definition deliveries :: "string \<Rightarrow> (bool \<times> instant) list \<Rightarrow> db \<Rightarrow> db" where
  "deliveries sid outcomes d = fold (\<lambda>(gone, now) d. snd (MarkPushSent (False, False) sid gone now d)) outcomes d"

text \<open>Runs of \<open>gone\<close>: whether three in a row occur, given how many have just been seen.\<close>

fun three_gone :: "int \<Rightarrow> bool list \<Rightarrow> bool" where
  "three_gone n [] \<longleftrightarrow> False"
| "three_gone n (g # gs) \<longleftrightarrow> (if g then 2 \<le> n \<or> three_gone (n + 1) gs else three_gone 0 gs)"

definition has_sub :: "string \<Rightarrow> db \<Rightarrow> bool" where
  "has_sub sid d \<longleftrightarrow> sid \<in> ps_id ` set (t_push d)"

lemma deliveries_absent: "\<not> has_sub sid d \<Longrightarrow> deliveries sid os d = d"
proof (induction os)
  case (Cons o' os)
  have m: "map (\<lambda>r. if ps_id r = sid then f r else r) (t_push d) = t_push d" for f
    using Cons.prems by (intro map_idI) (auto simp: has_sub_def)
  have fl: "filter (\<lambda>r. ps_id r = sid \<longrightarrow> \<not> 3 \<le> ps_failures r) (t_push d) = t_push d"
    using Cons.prems by (intro filter_True) (auto simp: has_sub_def)
  have "snd (MarkPushSent (False, False) sid g now d) = d" for g now
    by (simp add: MarkPushSent_def m fl Let_def)
  with Cons show ?case by (cases o') (simp add: deliveries_def)
qed (simp add: deliveries_def)

lemma deliveries_present:
  assumes "distinct (map ps_id (t_push d))" "r \<in> set (t_push d)" "ps_id r = sid" "0 \<le> ps_failures r"
  shows "has_sub sid (deliveries sid os d) \<longleftrightarrow> \<not> three_gone (ps_failures r) (map fst os)"
  using assms
proof (induction os arbitrary: d r)
  case Nil
  then show ?case by (auto simp: deliveries_def has_sub_def)
next
  case (Cons o' os)
  obtain g now where o': "o' = (g, now)" by (cases o')
  let ?d1 = "snd (MarkPushSent (False, False) sid g now d)"
  have step: "deliveries sid (o' # os) d = deliveries sid os ?d1" by (simp add: deliveries_def o')
  have uniq: "x = r" if "x \<in> set (t_push d)" "ps_id x = sid" for x
    using Cons.prems that by (metis distinct_map inj_onD)
  show ?case
  proof (cases g)
    case False
    let ?r = "r\<lparr>ps_failures := 0, ps_last_sent := Some now\<rparr>"
    have "?r \<in> set (t_push ?d1)" using Cons.prems False by (force simp: MarkPushSent_def)
    moreover have "map ps_id (t_push ?d1) = map ps_id (t_push d)" using False by (simp add: MarkPushSent_def)
    ultimately show ?thesis
      using Cons.IH [of ?d1 ?r] Cons.prems False unfolding step by (simp add: o')
  next
    case True
    let ?r = "r\<lparr>ps_failures := ps_failures r + 1\<rparr>"
    let ?m = "map (\<lambda>x. if ps_id x = sid then x\<lparr>ps_failures := ps_failures x + 1\<rparr> else x) (t_push d)"
    have d1: "t_push ?d1 = filter (\<lambda>x. \<not> (ps_id x = sid \<and> 3 \<le> ps_failures x)) ?m"
      using True by (simp add: MarkPushSent_def Let_def)
    have ids: "map ps_id ?m = map ps_id (t_push d)" by simp
    have rm: "?r \<in> set ?m" using Cons.prems by force
    show ?thesis
    proof (cases "2 \<le> ps_failures r")
      case gone: True
      have "3 \<le> ps_failures y" if "y \<in> set ?m" "ps_id y = sid" for y
      proof -
        from that(1) obtain x where x: "x \<in> set (t_push d)"
          "y = (if ps_id x = sid then x\<lparr>ps_failures := ps_failures x + 1\<rparr> else x)"
          unfolding set_map by blast
        have id: "ps_id x = sid" using that(2) x(2) by (auto split: if_splits)
        with uniq [OF x(1)] have "x = r" by simp
        with x(2) id gone show ?thesis by simp
      qed
      then have "\<not> has_sub sid ?d1" by (simp add: has_sub_def d1 image_iff) blast
      then show ?thesis using gone True unfolding step by (simp add: o' deliveries_absent)
    next
      case False
      then have "?r \<in> set (t_push ?d1)" using rm by (simp add: d1)
      moreover have "distinct (map ps_id (t_push ?d1))"
        unfolding d1 by (intro distinct_map_filter) (simp only: ids Cons.prems(1))
      ultimately show ?thesis
        using Cons.IH [of ?d1 ?r] Cons.prems False True unfolding step by (simp add: o')
    qed
  qed
qed

text \<open>
  A push subscription dies of three dead answers in a row and of nothing else: after any
  sequence of deliveries it is gone exactly if the push service declared it gone three times
  running; any other answer starts the count again.
\<close>

theorem push_expires_after_three:
  assumes "push_ok d" and "r \<in> set (t_push d)" and "ps_failures r = 0"
  shows "has_sub (ps_id r) (deliveries (ps_id r) os d) \<longleftrightarrow> \<not> three_gone 0 (map fst os)"
  using deliveries_present [of d r "ps_id r" os] assms by (simp add: push_ok_def)

definition demo_sub :: PushRow where
  "demo_sub = \<lparr>ps_id = ''p1'', ps_store = ''s1'', ps_user = ''u1'', ps_endpoint = ''https://x'',
     ps_p256dh = ''k'', ps_auth = ''a'', ps_failures = 0, ps_last_sent = None\<rparr>"

lemma push_expires_after_three_witness:
  "\<not> has_sub ''p1'' (deliveries ''p1'' [(True, 1), (False, 2), (True, 3), (True, 4), (True, 5)]
     (empty_db\<lparr>t_push := [demo_sub]\<rparr>))"
proof -
  have "push_ok (empty_db\<lparr>t_push := [demo_sub]\<rparr>)" by (simp add: push_ok_def demo_sub_def)
  from push_expires_after_three [OF this, of demo_sub] show ?thesis by (simp add: demo_sub_def)
qed

end
