(* ===== verification/Http_Public.thy ===== *)
theory Http_Public
  imports Notify_Push Store_Queries Store_Machines Cache_Memory Media_Local Payout_Links
begin

text \<open>
  The customer's side (\<^verbatim>\<open>internal/httpapi/public.go\<close>): what the QR code shows, the rate limits,
  the checks on the form and its photos, and the filing of a claim, from the first check to
  the notification, with the photos taken back when anything fails.
\<close>

section \<open>The address of the caller\<close>

text \<open>\<open>net.SplitHostPort\<close>, for the host.\<close>

definition split_host :: "string \<Rightarrow> string option" where
  "split_host s =
    (case CutLast s CHR '':'' of None \<Rightarrow> None
     | Some (before, _) \<Rightarrow>
        if HasPrefix s ''['' then
          (case Cut (tl s) CHR '']'' of None \<Rightarrow> None
           | Some (host, rest) \<Rightarrow>
              if before \<noteq> CHR ''['' # host @ '']'' then None
              else if CHR ''['' \<in> set host \<or> CHR ''['' \<in> set rest \<or> CHR '']'' \<in> set rest then None
              else Some host)
        else if CHR '':'' \<in> set before then None
        else if CHR ''['' \<in> set s \<or> CHR '']'' \<in> set s then None
        else Some before)"

definition clientIP :: "string \<Rightarrow> string \<Rightarrow> string" where
  "clientIP xff remoteAddr =
    (if xff \<noteq> [] then
       (case Cut xff CHR '','' of Some (first, _) \<Rightarrow> TrimSpace first | None \<Rightarrow> TrimSpace xff)
     else case split_host remoteAddr of Some host \<Rightarrow> host | None \<Rightarrow> remoteAddr)"

section \<open>Rate limits\<close>

definition maxPhotos :: nat where "maxPhotos = 3"
definition maxPhotoBytes :: int where "maxPhotoBytes = 5 * 2 ^ 20"
definition ipClaimsPerHour :: int where "ipClaimsPerHour = 10"
definition machineClaimsPerHour :: int where "machineClaimsPerHour = 20"
definition signupsPerIPPerDay :: int where "signupsPerIPPerDay = 3"

text \<open>
  A limiter is a middleware: \<open>cache_down\<close> is an error of the cache. Filing claims stays open
  then, signing up does not.
\<close>

definition rateLimitPublic ::
  "bool \<Rightarrow> instant \<Rightarrow> string \<Rightarrow> (memory \<Rightarrow> 'a reply \<times> memory) \<Rightarrow> memory \<Rightarrow> 'a reply \<times> memory" where
  "rateLimitPublic cache_down now ip next' m =
    (if cache_down then next' m
     else (case Incr now (''rl:ip:'' @ ip) Hour m of
       (n, m') \<Rightarrow> if ipClaimsPerHour < n then (Failed 429 ''rate_limited'', m') else next' m'))"

definition rateLimitSignup ::
  "bool \<Rightarrow> instant \<Rightarrow> string \<Rightarrow> (memory \<Rightarrow> 'a reply \<times> memory) \<Rightarrow> memory \<Rightarrow> 'a reply \<times> memory" where
  "rateLimitSignup cache_down now ip next' m =
    (if cache_down then (Failed 503 ''unavailable'', m)
     else (case Incr now (''rl:signup:'' @ ip) (24 * Hour) m of
       (n, m') \<Rightarrow> if signupsPerIPPerDay < n then (Failed 429 ''rate_limited'', m') else next' m'))"

section \<open>What the QR code shows\<close>

record machineResponse =
  mr_Code :: string
  mr_Label :: string
  mr_StoreName :: string
  mr_StorePhone :: string
  mr_StoreType :: string
  mr_Issues :: "(string \<times> string) list"
  mr_ReviewThreshold :: int
  mr_MaxAmount :: int
  mr_MaxPhotos :: nat

definition issueOptionsFor :: "StoreType \<Rightarrow> (string \<times> string) list" where
  "issueOptionsFor st = map (\<lambda>it. (it, issue_Label it)) (IssuesFor st)"

definition handleMachineByCode :: "(nat \<Rightarrow> nat) \<Rightarrow> Policy \<Rightarrow> bool \<Rightarrow> string \<Rightarrow> db \<Rightarrow> machineResponse reply" where
  "handleMachineByCode uc p fail raw d =
    (let code = NormalizeMachineCode uc raw
     in if ValidateMachineCode code \<noteq> None then notFound
        else case MachineByCode fail code d of
          Inl e \<Rightarrow> (if e = ErrNotFound then notFound else internalError)
        | Inr (m, info) \<Rightarrow>
           (let st = NormalizeStoreType (si_Type info)
            in Done \<lparr>mr_Code = mc_Code m, mr_Label = mc_Label m, mr_StoreName = si_Name info,
                 mr_StorePhone = si_Phone info, mr_StoreType = st, mr_Issues = issueOptionsFor st,
                 mr_ReviewThreshold = ReviewThresholdKRW p, mr_MaxAmount = MaxAmountKRW p,
                 mr_MaxPhotos = maxPhotos\<rparr>))"

definition handleBanks :: "Bank list reply" where "handleBanks = Done banks"

section \<open>The form\<close>

record claimForm =
  fo_machineCode :: string
  fo_issueType :: IssueType
  fo_paymentMethod :: PaymentMethod
  fo_amountKRW :: int
  fo_description :: string
  fo_phone :: string
  fo_bankCode :: string
  fo_account :: string
  fo_holder :: string
  fo_cardLast4 :: string
  fo_paidAtGuess :: instant

datatype form_error =
    FormMachine | FormIssue | FormAmountText | FormAmount amount_error | FormDescription | FormPhone
  | FormPayment | FormLast4 | FormPaidAt | FormBank | FormAccount | FormHolder

definition empty_form :: claimForm where
  "empty_form = \<lparr>fo_machineCode = [], fo_issueType = [], fo_paymentMethod = [], fo_amountKRW = 0,
     fo_description = [], fo_phone = [], fo_bankCode = [], fo_account = [], fo_holder = [],
     fo_cardLast4 = [], fo_paidAtGuess = zero_time\<rparr>"

text \<open>
  \<open>v\<close> is \<open>FormValue\<close>; \<open>parse\<close> is \<open>time.ParseInLocation\<close> with the layout of the browser's
  date field, in Korean time.
\<close>

definition parseCardFields ::
  "(string \<Rightarrow> instant option) \<Rightarrow> (string \<Rightarrow> string) \<Rightarrow> claimForm \<Rightarrow> (form_error, claimForm) result" where
  "parseCardFields parse v f =
    (let last4 = TrimSpace (v ''cardLast4'')
     in if length last4 \<noteq> 4 \<or> dropWhile is_digit last4 \<noteq> [] then Inl FormLast4
        else
         (let f1 = f\<lparr>fo_cardLast4 := last4\<rparr>; raw = TrimSpace (v ''paidAtGuess'')
          in if raw = [] then Inr f1
             else case parse raw of None \<Rightarrow> Inl FormPaidAt | Some t \<Rightarrow> Inr (f1\<lparr>fo_paidAtGuess := t\<rparr>)))"

definition parseAccountFields :: "(string \<Rightarrow> string) \<Rightarrow> claimForm \<Rightarrow> (form_error, claimForm) result" where
  "parseAccountFields v f =
    (let bank = TrimSpace (v ''bankCode''); account = NormalizeAccount (v ''accountNo'');
         holder = TrimSpace (v ''holder'')
     in if BankByCode bank = None then Inl FormBank
        else if length account < 6 \<or> 20 < length account then Inl FormAccount
        else if rune_count holder < 1 \<or> 40 < rune_count holder then Inl FormHolder
        else Inr (f\<lparr>fo_bankCode := bank, fo_account := account, fo_holder := holder\<rparr>))"

definition parseClaimForm ::
  "(nat \<Rightarrow> nat) \<Rightarrow> Policy \<Rightarrow> (string \<Rightarrow> instant option) \<Rightarrow> (string \<Rightarrow> string) \<Rightarrow> (form_error, claimForm) result" where
  "parseClaimForm uc p parse v =
    (let code = NormalizeMachineCode uc (v ''machineCode'')
     in if ValidateMachineCode code \<noteq> None then Inl FormMachine
        else case ParseIssueType (v ''issueType'') of None \<Rightarrow> Inl FormIssue | Some issue \<Rightarrow>
         (case Atoi (TrimSpace (v ''amountKrw'')) of None \<Rightarrow> Inl FormAmountText | Some amount \<Rightarrow>
          (case ValidateAmount amount p of Some e \<Rightarrow> Inl (FormAmount e) | None \<Rightarrow>
           (let description = TrimSpace (v ''description'')
            in if 1000 < rune_count description then Inl FormDescription
               else case NormalizePhone (v ''phone'') of Inl _ \<Rightarrow> Inl FormPhone | Inr phone \<Rightarrow>
                (case ParsePaymentMethod (v ''paymentMethod'') of None \<Rightarrow> Inl FormPayment | Some method \<Rightarrow>
                  (let f = empty_form\<lparr>fo_machineCode := code, fo_issueType := issue,
                         fo_paymentMethod := method, fo_amountKRW := amount,
                         fo_description := description, fo_phone := phone\<rparr>
                   in if \<not> NeedsAccount method then parseCardFields parse v f
                      else parseAccountFields v f))))))"

section \<open>Photos\<close>

text \<open>An uploaded file: the size the form states, whether it opens and rewinds, its bytes.\<close>

record upload =
  up_size :: int
  up_opens :: bool
  up_rewinds :: bool
  up_data :: string

record pendingPhoto =
  pn_key :: string
  pn_type :: string
  pn_size :: int
  pn_data :: string

datatype photo_error = TooManyPhotos | PhotoTooBig | PhotoEmpty | PhotoUnreadable | NotAPhoto

definition check_photo :: "upload \<Rightarrow> (photo_error, pendingPhoto) result" where
  "check_photo u =
    (if maxPhotoBytes < up_size u then Inl PhotoTooBig
     else if up_size u = 0 then Inl PhotoEmpty
     else if \<not> up_opens u then Inl PhotoUnreadable
     else case DetectImageType (take SniffLen (up_data u)) of None \<Rightarrow> Inl NotAPhoto
     | Some ct \<Rightarrow> if \<not> up_rewinds u then Inl PhotoUnreadable
         else Inr \<lparr>pn_key = [], pn_type = ct, pn_size = up_size u, pn_data = up_data u\<rparr>)"

definition collectPhotos :: "upload list \<Rightarrow> (photo_error, pendingPhoto list) result" where
  "collectPhotos files = (if maxPhotos < length files then Inl TooManyPhotos else collect check_photo files)"

text \<open>The storage key of a photo: month, random token, extension; \<open>None\<close> is a failing random source.\<close>

definition randomToken :: "string option \<Rightarrow> string \<Rightarrow> string" where
  "randomToken random stamp = HexEncode (case random of Some b \<Rightarrow> b | None \<Rightarrow> stamp)"

record key_env =
  ke_zone :: zone
  ke_now :: instant
  ke_random :: "string option"
  ke_stamp :: string

definition photo_key :: "key_env \<Rightarrow> string \<Rightarrow> string" where
  "photo_key e ct = (case Date (ke_zone e) (ke_now e) of (y, m, _) \<Rightarrow>
     ''claims/'' @ pad 4 y @ ''/'' @ pad 2 m @ ''/'' @ randomToken (ke_random e) (ke_stamp e) @ ExtFor ct)"

text \<open>
  The storage is the interface \<open>media.Storage\<close>, here its \<open>put\<close> and \<open>delete\<close>; the k-th photo
  meets the k-th environment. The flag of the result is false when a write failed.
\<close>

fun writePhotos ::
  "('f \<Rightarrow> string \<Rightarrow> string \<Rightarrow> int \<Rightarrow> 'st \<Rightarrow> ('e + unit) \<times> 'st) \<Rightarrow> (nat \<Rightarrow> 'f \<times> key_env) \<Rightarrow> nat
     \<Rightarrow> pendingPhoto list \<Rightarrow> 'st \<Rightarrow> (pendingPhoto list \<times> bool) \<times> 'st" where
  "writePhotos put env k [] st = (([], True), st)"
| "writePhotos put env k (p # ps) st =
    (let key = photo_key (snd (env k)) (pn_type p)
     in case put (fst (env k)) key (pn_data p) (pn_size p) st of
          (Inl _, st') \<Rightarrow> (([], False), st')
        | (Inr _, st') \<Rightarrow>
            (case writePhotos put env (Suc k) ps st' of
               ((ws, ok), st'') \<Rightarrow> ((p\<lparr>pn_key := key\<rparr> # ws, ok), st'')))"

fun cleanupPhotos ::
  "('g \<Rightarrow> string \<Rightarrow> 'st \<Rightarrow> ('e + unit) \<times> 'st) \<Rightarrow> (nat \<Rightarrow> 'g) \<Rightarrow> nat \<Rightarrow> pendingPhoto list \<Rightarrow> 'st \<Rightarrow> 'st" where
  "cleanupPhotos delete gs k [] st = st"
| "cleanupPhotos delete gs k (p # ps) st =
    cleanupPhotos delete gs (Suc k) ps (if pn_key p = [] then st else snd (delete (gs k) (pn_key p) st))"

definition photoInputs :: "pendingPhoto list \<Rightarrow> instant \<Rightarrow> PhotoInput list" where
  "photoInputs photos expiresAt = map (\<lambda>p. \<lparr>pi_ObjectKey = pn_key p, pi_ContentType = pn_type p,
     pi_SizeBytes = pn_size p, pi_ExpiresAt = expiresAt\<rparr>) photos"

section \<open>Receipts\<close>

definition receiptCode :: "(nat \<Rightarrow> nat) \<Rightarrow> string \<Rightarrow> string" where
  "receiptCode uc cid =
    (let clean = filter (\<lambda>c. c \<noteq> CHR ''-'') cid
     in if length clean < 8 then ToUpper uc clean else ToUpper uc (take 8 clean))"

definition normalizeReceiptCode :: "(nat \<Rightarrow> nat) \<Rightarrow> string \<Rightarrow> string" where
  "normalizeReceiptCode uc s = ToUpper uc (TrimSpace s)"

datatype completion = AlreadyFiled | CardWillBeVoided | AccountWillBeRefunded

definition completionMessage :: "PaymentMethod \<Rightarrow> completion" where
  "completionMessage m = (if m = PaymentCard then CardWillBeVoided else AccountWillBeRefunded)"

record claimResponse =
  cp_ID :: string
  cp_ReceiptCode :: string
  cp_Message :: completion

section \<open>Filing a claim\<close>

text \<open>The server's settings and tools, the request, the state it acts on, and what the outside decides.\<close>

record server =
  sv_sec :: Sec
  sv_policy :: Policy
  sv_root :: string
  sv_retention :: int
  sv_mac :: "string \<Rightarrow> string"
  sv_base :: string
  sv_upper :: "nat \<Rightarrow> nat"
  sv_parse :: "string \<Rightarrow> instant option"

record claim_request =
  rq_key :: string
  rq_multipart :: bool
  rq_form :: "string \<Rightarrow> string"
  rq_files :: "upload list"
  rq_xff :: string
  rq_remote :: string
  rq_agent :: string

record world =
  w_db :: db
  w_cache :: memory
  w_disk :: disk

record public_env =
  pe_fail_machine :: bool
  pe_cache_down :: bool
  pe_cache_now :: instant
  pe_fail_key :: bool
  pe_fail_risk :: "nat \<Rightarrow> bool"
  pe_now :: instant
  pe_put :: "nat \<Rightarrow> put_env \<times> key_env"
  pe_delete :: "nat \<Rightarrow> bool"
  pe_between :: "db \<Rightarrow> db"
  pe_nonces :: "string option \<times> string option \<times> string option"
  pe_attempts :: "attempt_env \<times> attempt_env"

definition claim_input ::
  "server \<Rightarrow> public_env \<Rightarrow> claim_request \<Rightarrow> Machine \<Rightarrow> claimForm \<Rightarrow> RiskResult \<Rightarrow> pendingPhoto list \<Rightarrow> CreateClaimInput" where
  "claim_input sv e r m f risk written =
    \<lparr>ci_StoreID = mc_StoreID m, ci_MachineID = mc_ID m, ci_IssueType = fo_issueType f,
     ci_AmountKRW = fo_amountKRW f, ci_Description = fo_description f,
     ci_PaymentMethod = fo_paymentMethod f, ci_CardLast4 = fo_cardLast4 f,
     ci_PaidAtGuess = fo_paidAtGuess f, ci_Phone = fo_phone f, ci_BankCode = fo_bankCode f,
     ci_Account = fo_account f, ci_Holder = fo_holder f, ci_Status = rs_Status risk,
     ci_RiskScore = rs_Score risk, ci_RiskReasons = rs_Reasons risk,
     ci_IdempotencyKey = TrimSpace (rq_key r), ci_IP = clientIP (rq_xff r) (rq_remote r), ci_UserAgent = rq_agent r,
     ci_Photos = photoInputs written (AddDays (sv_retention sv) (pe_now e))\<rparr>"

definition claim_notice ::
  "server \<Rightarrow> public_env \<Rightarrow> CreateClaimResult \<Rightarrow> Machine \<Rightarrow> claimForm \<Rightarrow> RiskResult \<Rightarrow> nat \<Rightarrow> ClaimNotice" where
  "claim_notice sv e res m f risk photos =
    \<lparr>cn_ClaimID = cr_ID res, cn_StoreID = mc_StoreID m,
     cn_URL = claimLinkURL (sv_mac sv) (sv_base sv) (pe_now e) (mc_StoreID m) (cr_ID res),
     cn_MachineLabel = mc_Label m, cn_IssueLabel = issue_Label (fo_issueType f),
     cn_PaymentLabel = payment_Label (fo_paymentMethod f), cn_AmountKRW = fo_amountKRW f,
     cn_Status = rs_Status risk, cn_RiskReasons = rs_Reasons risk, cn_PhotoCount = int photos,
     cn_CreatedAt = cr_CreatedAt res\<rparr>"

text \<open>The half that writes: photos first, then the claim; a failure takes the photos back.\<close>

definition store_claim ::
  "server \<Rightarrow> public_env \<Rightarrow> claim_request \<Rightarrow> Machine \<Rightarrow> claimForm \<Rightarrow> RiskResult \<Rightarrow> pendingPhoto list \<Rightarrow> world
     \<Rightarrow> ((nat \<times> claimResponse) reply \<times> world) \<times> ClaimNotice list" where
  "store_claim sv e r m f risk photos w =
    (case writePhotos (Put (sv_root sv)) (pe_put e) 0 photos (w_disk w) of
       ((written, ok), disk1) \<Rightarrow>
        (let cleaned = cleanupPhotos (DeletePhoto (sv_root sv)) (pe_delete e) 0 written disk1;
             answer = (\<lambda>code res msg. Done (code, \<lparr>cp_ID = cr_ID res,
               cp_ReceiptCode = receiptCode (sv_upper sv) (cr_ID res), cp_Message = msg\<rparr>))
         in if \<not> ok then ((internalError, w\<lparr>w_disk := cleaned\<rparr>), [])
            else case CreateClaim (sv_sec sv) (pe_nonces e) (pe_attempts e)
                (claim_input sv e r m f risk written) (pe_between e (w_db w)) of
              (Inl _, d1) \<Rightarrow> ((internalError, w\<lparr>w_db := d1, w_disk := cleaned\<rparr>), [])
            | (Inr res, d1) \<Rightarrow>
                if cr_Existing res
                then ((answer 200 res AlreadyFiled, w\<lparr>w_db := d1, w_disk := cleaned\<rparr>), [])
                else ((answer 201 res (completionMessage (fo_paymentMethod f)),
                       w\<lparr>w_db := d1, w_disk := disk1\<rparr>),
                      [claim_notice sv e res m f risk (length written)])))"

text \<open>The machine limit lets the request through when the cache is down.\<close>

definition machine_limit :: "public_env \<Rightarrow> string \<Rightarrow> memory \<Rightarrow> bool \<times> memory" where
  "machine_limit e code m =
    (if pe_cache_down e then (True, m)
     else (case Incr (pe_cache_now e) (''rl:machine:'' @ code) Hour m of
       (n, m') \<Rightarrow> (n \<le> machineClaimsPerHour, m')))"

definition stopped :: "world \<Rightarrow> 'a reply \<Rightarrow> ('a reply \<times> world) \<times> ClaimNotice list" where
  "stopped w answer = ((answer, w), [])"

definition handleCreateClaim ::
  "server \<Rightarrow> public_env \<Rightarrow> claim_request \<Rightarrow> world \<Rightarrow> ((nat \<times> claimResponse) reply \<times> world) \<times> ClaimNotice list" where
  "handleCreateClaim sv e r w =
    (let key = TrimSpace (rq_key r); p = sv_policy sv
     in if key = [] \<or> 200 < length key then stopped w badRequest
        else if \<not> rq_multipart r then stopped w badRequest
        else case parseClaimForm (sv_upper sv) p (sv_parse sv) (rq_form r) of Inl _ \<Rightarrow> stopped w badRequest
        | Inr f \<Rightarrow>
          (case MachineByCode (pe_fail_machine e) (fo_machineCode f) (w_db w) of
             Inl err \<Rightarrow> stopped w (if err = ErrNotFound then notFound else internalError)
           | Inr (m, info) \<Rightarrow>
              if \<not> ValidIssueFor (NormalizeStoreType (si_Type info)) (fo_issueType f) then stopped w badRequest
              else case collectPhotos (rq_files r) of Inl _ \<Rightarrow> stopped w badRequest
              | Inr photos \<Rightarrow>
                if RequiresPhoto (fo_amountKRW f) p \<and> photos = [] then stopped w badRequest
                else case machine_limit e (mc_Code m) (w_cache w) of (ok, cache1) \<Rightarrow>
                 (let w1 = w\<lparr>w_cache := cache1\<rparr>
                  in if \<not> ok then stopped w1 (Failed 429 ''rate_limited'')
                     else case claimByIdempotencyKey (pe_fail_key e) (mc_StoreID m) key (w_db w) of
                       Inl _ \<Rightarrow> stopped w1 internalError
                     | Inr (Some old) \<Rightarrow> stopped w1 (Done (200, \<lparr>cp_ID = cr_ID old,
                         cp_ReceiptCode = receiptCode (sv_upper sv) (cr_ID old), cp_Message = AlreadyFiled\<rparr>))
                     | Inr None \<Rightarrow>
                        (case RiskFactsFor (sv_sec sv) (pe_fail_risk e)
                           \<lparr>rq_StoreID = mc_StoreID m, rq_MachineID = mc_ID m, rq_Phone = fo_phone f,
                            rq_Account = fo_account f, rq_Now = pe_now e\<rparr> (w_db w) of
                           Inl _ \<Rightarrow> stopped w1 internalError
                         | Inr facts \<Rightarrow>
                            (let risk = Evaluate (facts\<lparr>ri_AmountKRW := fo_amountKRW f\<rparr>) p
                             in if rs_RejectDuplicate risk then stopped w1 (conflict ''duplicate'')
                                else store_claim sv e r m f risk photos w1)))))"

section \<open>Photos and claims agree\<close>

text \<open>
  What the environment of a run of writes owes: fair temporary names, and keys nobody uses
  (they carry sixteen random bytes).
\<close>

fun fresh_run ::
  "('f \<Rightarrow> string \<Rightarrow> string \<Rightarrow> int \<Rightarrow> 'st \<Rightarrow> ('e + unit) \<times> 'st) \<Rightarrow> ('f \<Rightarrow> string \<Rightarrow> 'st \<Rightarrow> bool)
    \<Rightarrow> (string \<Rightarrow> 'st \<Rightarrow> string option) \<Rightarrow> (nat \<Rightarrow> 'f \<times> key_env) \<Rightarrow> nat \<Rightarrow> pendingPhoto list \<Rightarrow> 'st \<Rightarrow> bool" where
  "fresh_run put fair stored env k [] st \<longleftrightarrow> True"
| "fresh_run put fair stored env k (p # ps) st \<longleftrightarrow>
    (let key = photo_key (snd (env k)) (pn_type p)
     in fair (fst (env k)) key st \<and> stored key st = None
        \<and> fresh_run put fair stored env (Suc k) ps (snd (put (fst (env k)) key (pn_data p) (pn_size p) st)))"

text \<open>A storage whose deletions are known to work when it is healthy.\<close>

locale healthy_storage = photo_storage put delete stored same fair
  for put :: "'f \<Rightarrow> string \<Rightarrow> string \<Rightarrow> int \<Rightarrow> 'st \<Rightarrow> ('e + unit) \<times> 'st"
    and delete :: "'g \<Rightarrow> string \<Rightarrow> 'st \<Rightarrow> ('e + unit) \<times> 'st"
    and stored :: "string \<Rightarrow> 'st \<Rightarrow> string option"
    and same :: "string \<Rightarrow> string \<Rightarrow> bool"
    and fair :: "'f \<Rightarrow> string \<Rightarrow> 'st \<Rightarrow> bool" +
  fixes healthy :: "'g \<Rightarrow> bool"
  assumes put_names_file: "put f k data n st = (Inr u, st') \<Longrightarrow> same k k"
    and healthy_delete: "healthy g \<Longrightarrow>
      stored k' (snd (delete g k st)) = (if same k' k then None else stored k' st)"
begin

lemma written_photos:
  assumes "writePhotos put env k ps st = ((ws, ok), st')" "fresh_run put fair stored env k ps st"
  shows "if \<exists>w \<in> set ws. same x (pn_key w) then stored x st = None else stored x st' = stored x st"
  using assms
proof (induction ps arbitrary: k st ws)
  case (Cons p ps)
  define key where "key = photo_key (snd (env k)) (pn_type p)"
  obtain r st1 where put: "put (fst (env k)) key (pn_data p) (pn_size p) st = (r, st1)" by fastforce
  have fair: "fair (fst (env k)) key st" "stored key st = None" "fresh_run put fair stored env (Suc k) ps st1"
    using Cons.prems(2) put by (simp_all add: key_def [symmetric] Let_def)
  show ?case
  proof (cases r)
    case (Inl e)
    with Cons.prems(1) put put_failed [OF fair(1) put [unfolded Inl], of x] show ?thesis
      by (simp add: key_def [symmetric] Let_def)
  next
    case (Inr u)
    with Cons.prems(1) put obtain vs where rest: "writePhotos put env (Suc k) ps st1 = ((vs, ok), st')"
      and ws: "ws = p\<lparr>pn_key := key\<rparr> # vs"
      by (cases "writePhotos put env (Suc k) ps st1") (auto simp: key_def [symmetric] Let_def)
    note d = put_done [OF fair(1) put [unfolded Inr], of x]
    note s = same_stored [of x key st]
    show ?thesis using Cons.IH [OF rest fair(3)] d s fair(2) ws by (auto split: if_splits)
  qed
qed simp

lemma written_data:
  assumes "writePhotos put env k ps st = ((ws, ok), st')" "fresh_run put fair stored env k ps st" "w \<in> set ws"
  shows "stored (pn_key w) st' = Some (pn_data w)"
  using assms
proof (induction ps arbitrary: k st ws)
  case (Cons p ps)
  define key where "key = photo_key (snd (env k)) (pn_type p)"
  obtain r st1 where put: "put (fst (env k)) key (pn_data p) (pn_size p) st = (r, st1)" by fastforce
  have fair: "fair (fst (env k)) key st" "fresh_run put fair stored env (Suc k) ps st1"
    using Cons.prems(2) put by (simp_all add: key_def [symmetric] Let_def)
  from Cons.prems(1,3) put obtain u where r: "r = Inr u"
    by (cases r) (auto simp: key_def [symmetric] Let_def)
  with Cons.prems(1) put obtain vs where rest: "writePhotos put env (Suc k) ps st1 = ((vs, ok), st')"
    and ws: "ws = p\<lparr>pn_key := key\<rparr> # vs"
    by (cases "writePhotos put env (Suc k) ps st1") (auto simp: key_def [symmetric] Let_def)
  have "stored key st1 = Some (pn_data p)"
    using put_done [OF fair(1) put [unfolded r], of key] put_names_file [OF put [unfolded r]] by simp
  then have "stored key st' = Some (pn_data p)"
    using written_photos [OF rest fair(2), of key] by (auto split: if_splits)
  with Cons.IH [OF rest fair(2)] Cons.prems(3) ws show ?case by auto
qed simp

lemma cleaned_photos:
  assumes "\<And>i. healthy (gs i)" "\<forall>w \<in> set ws. pn_key w \<noteq> []"
  shows "stored x (cleanupPhotos delete gs k ws st)
    = (if \<exists>w \<in> set ws. same x (pn_key w) then None else stored x st)"
  using assms(2) by (induction ws arbitrary: k st) (simp_all add: healthy_delete assms(1))

text \<open>Taking back what a run of writes left, complete or not, restores every key.\<close>

lemma write_then_clean:
  assumes "writePhotos put env k ps st = ((ws, ok), st')" "fresh_run put fair stored env k ps st"
    and "\<And>i. healthy (gs i)" "\<forall>w \<in> set ws. pn_key w \<noteq> []"
  shows "stored x (cleanupPhotos delete gs j ws st') = stored x st"
  using written_photos [OF assms(1,2), of x] cleaned_photos [OF assms(3,4), where x = x and k = j and st = st'] by auto

end

interpretation healthy_disk: healthy_storage "Put root" "DeletePhoto root" "local_stored root" "local_same root"
  "local_fair root" "\<lambda>fails. \<not> fails" for root
proof unfold_locales
  show "local_same root k k" if "Put root f k data n st = (Inr u, st')" for f k data n st u st'
    using that by (auto simp: Put_def local_same_def split: option.splits)
  show "local_stored root k' (snd (DeletePhoto root g k st))
    = (if local_same root k' k then None else local_stored root k' st)" if "\<not> g" for g k st k'
    using that by (auto simp: DeletePhoto_def local_stored_def local_same_def split: option.splits)
qed

lemma written_keys: "writePhotos put env k ps st = ((ws, ok), st') \<Longrightarrow> \<forall>w \<in> set ws. pn_key w \<noteq> []"
  by (induction ps arbitrary: k st ws)
    (auto simp: Let_def photo_key_def split: sum.splits prod.splits)

lemma written_all:
  "writePhotos put env k ps st = ((ws, True), st') \<Longrightarrow>
     map (\<lambda>w. (pn_type w, pn_data w)) ws = map (\<lambda>p. (pn_type p, pn_data p)) ps"
  by (induction ps arbitrary: k st ws) (auto simp: Let_def split: sum.splits prod.splits)

lemma detect_sniffed: "DetectImageType (take SniffLen x) = DetectImageType x"
proof -
  have "take 12 (take SniffLen x) = take 12 x" by (simp add: SniffLen_def min_def)
  with detect_twelve [of "take SniffLen x"] detect_twelve [of x] show ?thesis by simp
qed

lemma collected_photos:
  assumes "collectPhotos files = Inr photos"
  shows "map (\<lambda>p. (Some (pn_type p), pn_data p)) photos = map (\<lambda>u. (DetectImageType (up_data u), up_data u)) files"
proof -
  have one: "check_photo u = Inr p \<Longrightarrow> (Some (pn_type p), pn_data p) = (DetectImageType (up_data u), up_data u)" for u p
    by (auto simp: check_photo_def detect_sniffed split: if_splits option.splits)
  from assms have "map check_photo files = map Inr photos"
    by (auto simp: collectPhotos_def dest: collect_InrD split: if_splits)
  then show ?thesis
    by (induction files arbitrary: photos) (auto simp: Cons_eq_map_conv one)
qed

lemma created_photos:
  assumes "CreateClaim k nonces es i d = (Inr res, d')" "\<not> cr_Existing res" "q \<in> set (ci_Photos i)"
  shows "\<exists>ph \<in> set (photosFor (cr_ID res) d'). ph_key ph = pi_ObjectKey q \<and> ph_type ph = pi_ContentType q"
proof -
  from CreateClaim_row [OF assms(1,2)] obtain e d0 row where
    d': "d' = created_db e row (ci_Photos i) d0" "cr_ID res = c_id row" by blast
  from assms(3) obtain n where n: "n < length (ci_Photos i)" "ci_Photos i ! n = q" by (auto simp: in_set_conv_nth)
  then have "(n, q) \<in> set (List.enumerate 0 (ci_Photos i))" by (force simp: in_set_enumerate_eq)
  then have "photo_row e (c_id row) (n, q) \<in> set (photosFor (cr_ID res) d')"
    using d' by (auto simp: photosFor_def created_db_def photo_row_def)
  then show ?thesis by (rule bexI [rotated]) (simp add: photo_row_def)
qed


text \<open>The half that writes keeps the photos in step with the claim.\<close>

lemma store_claim_photos:
  fixes photos :: "pendingPhoto list"
  assumes run: "store_claim sv e r m f risk photos w = ((answer, w'), notices)"
    and fresh: "fresh_run (Put (sv_root sv)) (local_fair (sv_root sv)) (local_stored (sv_root sv))
      (pe_put e) 0 photos (w_disk w)"
    and healthy: "\<And>i. \<not> pe_delete e i"
  shows "(\<exists>res. answer = Done (201, res) \<and> length notices = 1 \<and>
        (\<forall>p \<in> set photos. \<exists>ph \<in> set (photosFor (cp_ID res) (w_db w')).
           local_stored (sv_root sv) (ph_key ph) (w_disk w') = Some (pn_data p) \<and> ph_type ph = pn_type p))
    \<or> ((\<forall>res. answer \<noteq> Done (201, res)) \<and> notices = []
        \<and> (\<forall>k. local_stored (sv_root sv) k (w_disk w') = local_stored (sv_root sv) k (w_disk w)))"
proof -
  obtain ws ok disk1 where wr: "writePhotos (Put (sv_root sv)) (pe_put e) 0 photos (w_disk w) = ((ws, ok), disk1)"
    by (metis surj_pair)
  note taken = healthy_disk.write_then_clean [OF wr fresh healthy written_keys [OF wr]]
  obtain c d1 where cc: "CreateClaim (sv_sec sv) (pe_nonces e) (pe_attempts e) (claim_input sv e r m f risk ws)
      (pe_between e (w_db w)) = (c, d1)" by fastforce
  show ?thesis
  proof (cases "ok \<and> (\<exists>res. c = Inr res \<and> \<not> cr_Existing res)")
    case False
    with run taken show ?thesis
      by (auto simp: store_claim_def wr cc Let_def internalError_def split: sum.splits if_splits)
  next
    case True
    then obtain res where ok: ok and c: "c = Inr res" "\<not> cr_Existing res" by blast
    from run have out: "answer = Done (201, \<lparr>cp_ID = cr_ID res, cp_ReceiptCode = receiptCode (sv_upper sv) (cr_ID res),
        cp_Message = completionMessage (fo_paymentMethod f)\<rparr>)" "w_db w' = d1" "w_disk w' = disk1" "length notices = 1"
      using ok c by (auto simp: store_claim_def wr cc Let_def)
    have "\<exists>ph \<in> set (photosFor (cr_ID res) d1).
        local_stored (sv_root sv) (ph_key ph) disk1 = Some (pn_data p) \<and> ph_type ph = pn_type p"
      if p: "p \<in> set photos" for p
    proof -
      have "(pn_type p, pn_data p) \<in> set (map (\<lambda>w. (pn_type w, pn_data w)) ws)"
        using written_all [of "Put (sv_root sv)" "pe_put e" 0 photos "w_disk w" ws disk1] wr ok p by force
      then obtain v where v: "v \<in> set ws" "pn_type v = pn_type p" "pn_data v = pn_data p" by auto
      have "\<lparr>pi_ObjectKey = pn_key v, pi_ContentType = pn_type v, pi_SizeBytes = pn_size v,
          pi_ExpiresAt = AddDays (sv_retention sv) (pe_now e)\<rparr> \<in> set (ci_Photos (claim_input sv e r m f risk ws))"
        using v(1) by (auto simp: claim_input_def photoInputs_def)
      from created_photos [OF cc [unfolded c(1)] c(2) this]
      obtain ph where "ph \<in> set (photosFor (cr_ID res) d1)" "ph_key ph = pn_key v" "ph_type ph = pn_type v"
        by auto
      then show ?thesis using healthy_disk.written_data [OF wr fresh v(1)] v(2,3) by (intro bexI [of _ ph]) auto
    qed
    with out show ?thesis by auto
  qed
qed

text \<open>
  A request to file either stops with the database and the disk untouched and is not answered
  with 201, or everything it sent was fine and it comes to the writing half.
\<close>

lemma handleCreateClaim_cases:
  assumes "handleCreateClaim sv e r w = ((answer, w'), notices)"
  shows "(\<forall>res. answer \<noteq> Done (201, res)) \<and> w_disk w' = w_disk w \<and> notices = []
    \<or> (\<exists>f m info photos facts w1. parseClaimForm (sv_upper sv) (sv_policy sv) (sv_parse sv) (rq_form r) = Inr f
         \<and> MachineByCode (pe_fail_machine e) (fo_machineCode f) (w_db w) = Inr (m, info)
         \<and> collectPhotos (rq_files r) = Inr photos \<and> w_disk w1 = w_disk w \<and> w_db w1 = w_db w
         \<and> store_claim sv e r m f (Evaluate facts (sv_policy sv)) photos w1 = ((answer, w'), notices))"
  using assms unfolding handleCreateClaim_def stopped_def Let_def badRequest_def notFound_def internalError_def conflict_def
  by (auto split: if_splits sum.splits option.splits prod.splits)

text \<open>
  C7. Photos and claims stay together. When a claim is filed, every uploaded file has a row of
  that claim whose key opens exactly the uploaded bytes, with the type those bytes show, and one
  notice goes out. In every other case (a refused form, a rate limit, a duplicate, a failed write
  in the middle of the photos, a failed or repeated filing) the storage answers every key as
  before, and nobody is notified. This holds as long as deletions work and the random keys are
  fresh.
\<close>

theorem filed_with_photos:
  assumes run: "handleCreateClaim sv e r w = ((answer, w'), notices)"
    and fresh: "\<forall>photos. collectPhotos (rq_files r) = Inr photos \<longrightarrow>
      fresh_run (Put (sv_root sv)) (local_fair (sv_root sv)) (local_stored (sv_root sv)) (pe_put e) 0 photos (w_disk w)"
    and healthy: "\<And>i. \<not> pe_delete e i"
  shows "(\<exists>res. answer = Done (201, res) \<and> length notices = 1 \<and>
        (\<forall>u \<in> set (rq_files r). \<exists>ph \<in> set (photosFor (cp_ID res) (w_db w')).
           local_stored (sv_root sv) (ph_key ph) (w_disk w') = Some (up_data u)
           \<and> DetectImageType (up_data u) = Some (ph_type ph)))
    \<or> ((\<forall>res. answer \<noteq> Done (201, res)) \<and> notices = []
        \<and> (\<forall>k. local_stored (sv_root sv) k (w_disk w') = local_stored (sv_root sv) k (w_disk w)))"
proof -
  have "(\<forall>res. answer \<noteq> Done (201, res)) \<and> w_disk w' = w_disk w \<and> notices = []
    \<or> (\<exists>m f risk photos w1. collectPhotos (rq_files r) = Inr photos \<and> w_disk w1 = w_disk w
         \<and> store_claim sv e r m f risk photos w1 = ((answer, w'), notices))"
    using handleCreateClaim_cases [OF run] by blast
  then show ?thesis
  proof (elim disjE exE conjE)
    fix m f risk photos w1
    assume ph: "collectPhotos (rq_files r) = Inr photos" and disk: "w_disk w1 = w_disk w"
      and go: "store_claim sv e r m f risk photos w1 = ((answer, w'), notices)"
    have fr: "fresh_run (Put (sv_root sv)) (local_fair (sv_root sv)) (local_stored (sv_root sv)) (pe_put e) 0 photos (w_disk w1)"
      using fresh ph disk by simp
    have "\<exists>p \<in> set photos. Some (pn_type p) = DetectImageType (up_data u) \<and> pn_data p = up_data u"
      if "u \<in> set (rq_files r)" for u
    proof -
      have "(DetectImageType (up_data u), up_data u) \<in> set (map (\<lambda>p. (Some (pn_type p), pn_data p)) photos)"
        unfolding collected_photos [OF ph] using that by simp
      then show ?thesis by auto
    qed
    with store_claim_photos [OF go fr healthy] disk show ?thesis by fastforce
  qed simp
qed

definition demo_server :: server where
  "demo_server = \<lparr>sv_sec = demo_sec, sv_policy = DefaultPolicy, sv_root = ''/m'', sv_retention = 90,
     sv_mac = rev, sv_base = ''http://x'', sv_upper = (\<lambda>n. n), sv_parse = (\<lambda>_. None)\<rparr>"

definition demo_form :: "string \<Rightarrow> string" where
  "demo_form = (\<lambda>k. case map_of [(''machineCode'', ''ABCDEF''), (''issueType'', ''cash_eaten''),
     (''amountKrw'', ''3000''), (''phone'', ''010-1234-5678''), (''paymentMethod'', ''cash''),
     (''bankCode'', ''088''), (''accountNo'', ''110123456789''), (''holder'', ''Kim'')] k of
       None \<Rightarrow> [] | Some v \<Rightarrow> v)"

definition demo_upload :: upload where
  "demo_upload = \<lparr>up_size = 14, up_opens = True, up_rewinds = True, up_data = ''RIFF0000WEBP__''\<rparr>"

definition demo_request :: "string \<Rightarrow> claim_request" where
  "demo_request key = \<lparr>rq_key = key, rq_multipart = True, rq_form = demo_form, rq_files = [demo_upload],
     rq_xff = ''1.2.3.4, 10.0.0.1'', rq_remote = [], rq_agent = ''x''\<rparr>"

definition demo_world :: world where
  "demo_world = \<lparr>w_db = demo_db\<lparr>t_stores := [\<lparr>st_id = ''s1'', st_name = ''A'', st_phone = None, st_type = ''claw'',
       st_payout_provider = [], st_payout_template = [], st_payout_bank_code = [], st_payout_account_enc = None,
       st_region_code = [], st_region_detail = [], st_biz_no = []\<rparr>]\<rparr>,
     w_cache = NewMemory, w_disk = (\<lambda>_. None)\<rparr>"

definition demo_public_env :: public_env where
  "demo_public_env = \<lparr>pe_fail_machine = False, pe_cache_down = False, pe_cache_now = 0, pe_fail_key = False,
     pe_fail_risk = (\<lambda>_. False), pe_now = 0,
     pe_put = (\<lambda>k. (\<lparr>pf_fault = NoFault, pf_tmp = ''tmp''\<rparr>,
       \<lparr>ke_zone = 0, ke_now = 0, ke_random = Some ''r'', ke_stamp = []\<rparr>)),
     pe_delete = (\<lambda>_. False), pe_between = (\<lambda>d. d),
     pe_nonces = (Some ''ab'', Some ''cd'', Some ''ef''), pe_attempts = (demo_env ''c1'', demo_env ''c2'')\<rparr>"

lemma demo_photos: "collectPhotos (rq_files (demo_request key)) =
    Inr [\<lparr>pn_key = [], pn_type = TypeWebP, pn_size = 14, pn_data = ''RIFF0000WEBP__''\<rparr>]"
proof -
  have "check_photo demo_upload = Inr \<lparr>pn_key = [], pn_type = TypeWebP, pn_size = 14, pn_data = ''RIFF0000WEBP__''\<rparr>"
    by code_simp
  then show ?thesis by (simp add: collectPhotos_def demo_request_def maxPhotos_def)
qed

lemma demo_fresh: "fresh_run (Put (sv_root demo_server)) (local_fair (sv_root demo_server))
    (local_stored (sv_root demo_server)) (pe_put demo_public_env) 0
    [\<lparr>pn_key = [], pn_type = TypeWebP, pn_size = 14, pn_data = ''RIFF0000WEBP__''\<rparr>] (w_disk demo_world)"
  by code_simp

lemma demo_form_pieces:
  "NormalizeMachineCode (\<lambda>n. n) ''ABCDEF'' = ''ABCDEF'' \<and> ValidateMachineCode ''ABCDEF'' = None
    \<and> Atoi ''3000'' = Some 3000 \<and> ValidateAmount 3000 DefaultPolicy = None
    \<and> rune_count [] = 0 \<and> NormalizePhone ''010-1234-5678'' = Inr ''01012345678''
    \<and> ParsePaymentMethod ''cash'' = Some ''cash''
    \<and> NormalizeAccount ''110123456789'' = ''110123456789'' \<and> rune_count ''Kim'' = 3
    \<and> NeedsAccount ''cash'' \<and> \<not> RequiresPhoto 3000 DefaultPolicy"
  by code_simp

lemma demo_trimmed:
  "TrimSpace ''3000'' = ''3000''" "TrimSpace ''088'' = ''088''" "TrimSpace ''Kim'' = ''Kim''" "TrimSpace ''k'' = ''k''"
  by (simp_all add: TrimSpace_ascii is_ascii_def is_space_def byte_def)

lemma demo_table_pieces:
  "ParseIssueType ''cash_eaten'' = Some ''cash_eaten''"
  "BankByCode ''088'' \<noteq> None"
  "ValidIssueFor (NormalizeStoreType ''claw'') ''cash_eaten''"
  by (simp_all add: ParseIssueType_def issueLabels_def BankByCode_def banks_def ValidIssueFor_def IssuesFor_def
    storeIssues_def NormalizeStoreType_def)
lemma demo_form_ok:
  "parseClaimForm (sv_upper demo_server) (sv_policy demo_server) (sv_parse demo_server) demo_form =
    Inr (empty_form\<lparr>fo_machineCode := ''ABCDEF'', fo_issueType := ''cash_eaten'', fo_paymentMethod := ''cash'',
      fo_amountKRW := 3000, fo_phone := ''01012345678'', fo_bankCode := ''088'', fo_account := ''110123456789'',
      fo_holder := ''Kim''\<rparr>)"
  using demo_table_pieces
  by (simp add: parseClaimForm_def demo_server_def demo_form_def Let_def parseAccountFields_def demo_form_pieces demo_trimmed empty_form_def)

lemma demo_facts_ok: "RiskFactsFor demo_sec (\<lambda>_. False) q (w_db demo_world) = Inr
    \<lparr>ri_AmountKRW = 0, ri_PhoneClaims30d = 1, ri_PhonePaidTotal30d = 0, ri_AccountDistinctPhones = 1,
     ri_HasAccount = (rq_Account q \<noteq> []), ri_ManualStatus = ContactNormal, ri_LastSameMachineAt = zero_time, ri_Now = rq_Now q\<rparr>"
  by (simp add: RiskFactsFor_def strongestContactStatus_def demo_world_def demo_db_def empty_db_def Let_def paid_sum_def)

lemma demo_written: "\<exists>key disk. writePhotos (Put (sv_root demo_server)) (pe_put demo_public_env) 0
   [\<lparr>pn_key = [], pn_type = TypeWebP, pn_size = 14, pn_data = ''RIFF0000WEBP__''\<rparr>] (w_disk demo_world)
   = (([\<lparr>pn_key = key, pn_type = TypeWebP, pn_size = 14, pn_data = ''RIFF0000WEBP__''\<rparr>], True), disk)"
proof -
  have "snd (fst (writePhotos (Put (sv_root demo_server)) (pe_put demo_public_env) 0
   [\<lparr>pn_key = [], pn_type = TypeWebP, pn_size = 14, pn_data = ''RIFF0000WEBP__''\<rparr>] (w_disk demo_world)))"
    by code_simp
  then show ?thesis by (auto simp: Let_def split: prod.splits sum.splits)
qed

lemma demo_limit: "\<exists>c. machine_limit demo_public_env ''ABCDEF'' (w_cache demo_world) = (True, c)"
  by (simp add: machine_limit_def demo_public_env_def demo_world_def Incr_def NewMemory_def machineClaimsPerHour_def Let_def)

lemma demo_calm_risk: "\<not> rs_RejectDuplicate (Evaluate (\<lparr>ri_AmountKRW = a, ri_PhoneClaims30d = 1, ri_PhonePaidTotal30d = 0,
    ri_AccountDistinctPhones = 1, ri_HasAccount = h, ri_ManualStatus = ContactNormal, ri_LastSameMachineAt = zero_time,
    ri_Now = t\<rparr>) p)"
  by (simp add: Evaluate_def isRapidDuplicate_def IsZero_def split: prod.splits)

lemma demo_row_written:
  assumes "ci_StoreID i = ''s1''" "ci_MachineID i = ''m1''" "ci_AmountKRW i = 3000" "length (ci_Photos i) = 1"
  shows "\<exists>res d1. CreateClaim demo_sec (Some ''ab'', Some ''cd'', Some ''ef'') (demo_env ''c1'', demo_env ''c2'') i (w_db demo_world) = (Inr res, d1)
    \<and> \<not> cr_Existing res"
proof -
  obtain p where "ci_Photos i = [p]" using assms(4) by (cases "ci_Photos i") auto
  with assms show ?thesis by (simp add: demo_eval demo_world_def)
qed

lemma demo_filed: "\<exists>res w' notices. handleCreateClaim demo_server demo_public_env (demo_request ''k'') demo_world
    = ((Done (201, res), w'), notices)"
proof -
  obtain f where f: "parseClaimForm (sv_upper demo_server) (sv_policy demo_server) (sv_parse demo_server) demo_form = Inr f"
    "fo_machineCode f = ''ABCDEF''" "fo_issueType f = ''cash_eaten''" "fo_amountKRW f = 3000" 
    by (simp add: demo_form_ok)
  obtain m info where m: "MachineByCode False ''ABCDEF'' (w_db demo_world) = Inr (m, info)" "mc_ID m = ''m1''"
    "mc_StoreID m = ''s1''" "mc_Code m = ''ABCDEF''" "si_Type info = ''claw''"
    by (simp add: MachineByCode_def demo_world_def demo_db_def)
  obtain c where c: "machine_limit demo_public_env ''ABCDEF'' (w_cache demo_world) = (True, c)" using demo_limit by blast
  obtain key disk where p: "writePhotos (Put (sv_root demo_server)) (pe_put demo_public_env) 0
   [\<lparr>pn_key = [], pn_type = TypeWebP, pn_size = 14, pn_data = ''RIFF0000WEBP__''\<rparr>] (w_disk demo_world)
   = (([\<lparr>pn_key = key, pn_type = TypeWebP, pn_size = 14, pn_data = ''RIFF0000WEBP__''\<rparr>], True), disk)"
    using demo_written by blast
  have row: "\<exists>res d1. CreateClaim (sv_sec demo_server) (pe_nonces demo_public_env) (pe_attempts demo_public_env)
      (claim_input demo_server demo_public_env (demo_request ''k'') m f risk
        [\<lparr>pn_key = key, pn_type = TypeWebP, pn_size = 14, pn_data = ''RIFF0000WEBP__''\<rparr>])
      (pe_between demo_public_env (w_db demo_world)) = (Inr res, d1) \<and> \<not> cr_Existing res" for risk
    using demo_row_written [of "claim_input demo_server demo_public_env (demo_request ''k'') m f risk
        [\<lparr>pn_key = key, pn_type = TypeWebP, pn_size = 14, pn_data = ''RIFF0000WEBP__''\<rparr>]"] m f
    by (simp add: claim_input_def photoInputs_def demo_server_def demo_public_env_def)
  have key: "TrimSpace (rq_key (demo_request ''k'')) = ''k''" "rq_form (demo_request ''k'') = demo_form"
    "rq_multipart (demo_request ''k'')"
    by (simp_all add: demo_trimmed demo_request_def)
  have env: "pe_fail_machine demo_public_env = False" "pe_fail_key demo_public_env = False"
    "pe_fail_risk demo_public_env = (\<lambda>_. False)" "sv_policy demo_server = DefaultPolicy" "sv_sec demo_server = demo_sec"
    by (simp_all add: demo_public_env_def demo_server_def)
  have none: "claimByIdempotencyKey False s k (w_db demo_world) = Inr None" for s k
    by (simp add: claimByIdempotencyKey_def demo_world_def demo_db_def empty_db_def)
  have written: "\<exists>res w' notices. store_claim demo_server demo_public_env (demo_request ''k'') m f risk
      [\<lparr>pn_key = [], pn_type = TypeWebP, pn_size = 14, pn_data = ''RIFF0000WEBP__''\<rparr>] (demo_world\<lparr>w_cache := c\<rparr>)
      = ((Done (201, res), w'), notices)" for risk
    using row [of risk] p by (auto simp: store_claim_def Let_def)
  show ?thesis
    using written by (simp add: handleCreateClaim_def Let_def key f [unfolded env] env m c none demo_facts_ok
      demo_calm_risk demo_photos demo_form_pieces demo_table_pieces)
qed

lemma filed_with_photos_witness:
  "\<exists>res w' notices ph. handleCreateClaim demo_server demo_public_env (demo_request ''k'') demo_world
      = ((Done (201, res), w'), notices) \<and> length notices = 1 \<and> ph \<in> set (photosFor (cp_ID res) (w_db w'))
    \<and> local_stored ''/m'' (ph_key ph) (w_disk w') = Some ''RIFF0000WEBP__''"
proof -
  obtain res w' notices where run: "handleCreateClaim demo_server demo_public_env (demo_request ''k'') demo_world
      = ((Done (201, res), w'), notices)" using demo_filed by blast
  have files: "rq_files (demo_request ''k'') = [demo_upload]" "up_data demo_upload = ''RIFF0000WEBP__''"
    and root: "sv_root demo_server = ''/m''"
    by (simp_all add: demo_request_def demo_upload_def demo_server_def)
  have healthy: "\<And>i. \<not> pe_delete demo_public_env i" by (simp add: demo_public_env_def)
  have "\<forall>photos. collectPhotos (rq_files (demo_request ''k'')) = Inr photos \<longrightarrow>
      fresh_run (Put (sv_root demo_server)) (local_fair (sv_root demo_server)) (local_stored (sv_root demo_server))
        (pe_put demo_public_env) 0 photos (w_disk demo_world)"
    unfolding demo_photos using demo_fresh by blast
  from filed_with_photos [OF run this healthy] run show ?thesis
    unfolding files(1) root by (fastforce simp: files(2))
qed

section \<open>How many claims get through\<close>

text \<open>
  A run of requests past the limiter of public.go: each has a time, an address, and what its
  handler does to the cache if it is let through.
\<close>

fun ip_run :: "(instant \<times> string \<times> (memory \<Rightarrow> memory)) list \<Rightarrow> memory \<Rightarrow> (string \<times> bool) list" where
  "ip_run [] m = []"
| "ip_run ((t, ip, f) # rs) m =
    (case rateLimitPublic False t ip (\<lambda>m'. (Done (), f m')) m of
       (answer, m') \<Rightarrow> (ip, answer = Done ()) # ip_run rs m')"

definition ip_key :: "string \<Rightarrow> string" where "ip_key ip = ''rl:ip:'' @ ip"

lemma rateLimitPublic_eq: "rateLimitPublic False t ip next' m = (case Incr t (ip_key ip) Hour m of
    (n, m') \<Rightarrow> if ipClaimsPerHour < n then (Failed 429 ''rate_limited'', m') else next' m')"
  by (simp add: rateLimitPublic_def ip_key_def)

lemma ip_run_admissions:
  "length (filter (\<lambda>a. a = (ip, True)) (ip_run rs m)) = memory_counter.admitted (ip_key ip)
     (memory_counter.admissions ipClaimsPerHour Hour (map (\<lambda>(t, x, f). (t, ip_key x, f)) rs) m)"
proof (induction rs arbitrary: m)
  case (Cons r rs)
  obtain t x f where r: "r = (t, x, f)" by (cases r)
  obtain n m1 where i: "Incr t (ip_key x) Hour m = (n, m1)" by fastforce
  have k: "ip_key x = ip_key ip \<longleftrightarrow> x = ip" by (simp add: ip_key_def)
  from Cons i show ?case
    by (simp add: r rateLimitPublic_eq k memory_counter.admitted_Cons)
qed (simp add: memory_counter.admitted_def)

text \<open>Filing a claim counts the machine only, so the counters of the addresses are untouched.\<close>

lemma filing_keeps_ip_counters:
  "counter_view (ip_key ip) (w_cache (snd (fst (handleCreateClaim sv e r w)))) = counter_view (ip_key ip) (w_cache w)"
proof -
  have store: "w_cache (snd (fst (store_claim sv e r m f risk photos w1))) = w_cache w1" for m f risk photos w1
    by (simp add: store_claim_def Let_def split: prod.splits sum.splits)
  have keys: "ip_key ip \<noteq> ''rl:machine:'' @ code" for code by (simp add: ip_key_def)
  have limit: "counter_view (ip_key ip) (snd (machine_limit e code m)) = counter_view (ip_key ip) m" for code m
    using memory_counter.incr_other [OF keys, of "pe_cache_now e" code Hour m]
    by (auto simp: machine_limit_def split: prod.splits)
  have limit': "machine_limit e code (w_cache w) = (ok, c) \<Longrightarrow> counter_view (ip_key ip) c = counter_view (ip_key ip) (w_cache w)"
    for code ok c using limit [of code "w_cache w"] by simp
  show ?thesis
    unfolding handleCreateClaim_def stopped_def Let_def
    by (auto simp: store limit' split: prod.splits sum.splits option.splits)
qed

text \<open>
  C23. The limit on claims per address. However the requests of an hour are spread and mixed with
  those of other addresses, at most twice the limit of one address get through, and at most the
  limit when the address has no running counter; what filing a claim does to the cache is
  covered, since it leaves the counters of addresses alone. Nobody is shut out for good: a
  request after the end of the window gets through, however many came before it. A cache that
  is down lets everybody through.
\<close>

theorem claims_per_address:
  assumes "\<And>t x f. (t, x, f) \<in> set rs \<Longrightarrow>
      a \<le> t \<and> t \<le> a + Hour \<and> (\<forall>m. counter_view (ip_key ip) (f m) = counter_view (ip_key ip) m)"
    and "\<And>c e. counter_view (ip_key ip) m = Some (c, e) \<Longrightarrow> 0 \<le> c"
  shows "length (filter (\<lambda>p. p = (ip, True)) (ip_run rs m)) \<le> 20
    \<and> (counter_view (ip_key ip) m = None \<longrightarrow> length (filter (\<lambda>p. p = (ip, True)) (ip_run rs m)) \<le> 10)
    \<and> counter_view (ip_key ip) (w_cache (snd (fst (handleCreateClaim sv e r w))))
      = counter_view (ip_key ip) (w_cache w)
    \<and> (counter_view (ip_key ip) m = Some (c, ends) \<and> ends < now \<longrightarrow>
      fst (rateLimitPublic False now ip (\<lambda>m. (answer, g m)) m) = answer)
    \<and> rateLimitPublic True now ip next' m = next' m"
proof (intro conjI impI; (elim conjE)?)
  have r: "a \<le> t \<and> t \<le> a + Hour \<and> (\<forall>s. counter_view (ip_key ip) (f s) = counter_view (ip_key ip) s)"
    if "(t, x, f) \<in> set (map (\<lambda>(t, x, f). (t, ip_key x, f)) rs)" for t x f
    using that assms(1) by auto
  note b = memory_counter.admitted_bound [OF _ r, where limit = ipClaimsPerHour and st = m and rs = "map (\<lambda>(t, x, f). (t, ip_key x, f)) rs"]
  show "length (filter (\<lambda>p. p = (ip, True)) (ip_run rs m)) \<le> 20"
    using b(2) assms(2) unfolding ip_run_admissions by (simp add: ipClaimsPerHour_def)
  show "length (filter (\<lambda>p. p = (ip, True)) (ip_run rs m)) \<le> 10"
    if "counter_view (ip_key ip) m = None"
    using b(1) that unfolding ip_run_admissions by (simp add: ipClaimsPerHour_def)
  show "counter_view (ip_key ip) (w_cache (snd (fst (handleCreateClaim sv e r w))))
      = counter_view (ip_key ip) (w_cache w)" by (rule filing_keeps_ip_counters)
  show "fst (rateLimitPublic False now ip (\<lambda>m. (answer, g m)) m) = answer"
    if "counter_view (ip_key ip) m = Some (c, ends)" "ends < now"
    using memory_counter.window_reopens [OF that, of ipClaimsPerHour Hour]
    by (auto simp: rateLimitPublic_eq ipClaimsPerHour_def split: prod.splits)
  show "rateLimitPublic True now ip next' m = next' m" by (simp add: rateLimitPublic_def)
qed

lemma claims_per_address_witness:
  "length (filter (\<lambda>p. p = (''1.2.3.4'', True)) (ip_run (replicate 12 (5, ''1.2.3.4'', \<lambda>m. m)) NewMemory)) \<le> 10
    \<and> fst (rateLimitPublic False (2 * Hour) ''1.2.3.4'' (\<lambda>m. (Done (), m))
        [(ip_key ''1.2.3.4'', \<lparr>en_val = [], en_count = 12, en_expiresAt = Hour\<rparr>)]) = Done ()"
proof -
  have none: "counter_view (ip_key x) NewMemory = None" for x by (simp add: counter_view_def NewMemory_def)
  have h: "(0::int) < Hour" "(5::int) \<le> Hour" "Hour < 2 * Hour" by (simp_all add: Hour_def Minute_def Second_def)
  have one: "counter_view (ip_key ''1.2.3.4'') [(ip_key ''1.2.3.4'', \<lparr>en_val = [], en_count = 12, en_expiresAt = Hour\<rparr>)]
      = Some (12, Hour)" by (simp add: counter_view_def)
  have "length (filter (\<lambda>p. p = (''1.2.3.4'', True)) (ip_run (replicate 12 (5, ''1.2.3.4'', \<lambda>m. m)) NewMemory)) \<le> 10"
    by (rule claims_per_address [where a = 0, THEN conjunct2, THEN conjunct1, THEN mp]) (use h none in auto)
  moreover have "fst (rateLimitPublic False (2 * Hour) ''1.2.3.4'' (\<lambda>m. (Done (), m))
        [(ip_key ''1.2.3.4'', \<lparr>en_val = [], en_count = 12, en_expiresAt = Hour\<rparr>)]) = Done ()"
    by (rule claims_per_address [where rs = "[]" and a = 0, THEN conjunct2, THEN conjunct2, THEN conjunct2, THEN conjunct1,
          THEN mp, OF _ _ conjI [OF one h(3)]]) (simp_all add: one)
  ultimately show ?thesis by blast
qed

end
