(* ===== verification/Http_Status.thy ===== *)
theory Http_Status
  imports Http_Access Http_Public
begin

text \<open>
  What a customer can look up about a claim (\<^verbatim>\<open>internal/store/public_status.go\<close>,
  \<^verbatim>\<open>internal/httpapi/public_status.go\<close>) and how a shop owner signs up
  (\<^verbatim>\<open>internal/httpapi/public_signup.go\<close>). The look-up reveals nothing a shop decides in
  private; signing up makes the store and its first account together or not at all.
\<close>

section \<open>The state of a claim, by receipt\<close>

record PublicStatus =
  pb_Status :: Status
  pb_IssueType :: IssueType
  pb_AmountKRW :: int
  pb_PaymentMethod :: PaymentMethod
  pb_CreatedAt :: instant
  pb_ResolvedAt :: instant
  pb_PaidAt :: instant
  pb_StoreName :: string
  pb_StorePhone :: string
  pb_StoreType :: StoreType

definition hex_digits :: string where "hex_digits = ''0123456789abcdef''"

text \<open>The rows of the query: the claims of the machine with that code whose id starts so.\<close>

definition receipt_rows :: "string \<Rightarrow> string \<Rightarrow> db \<Rightarrow> (ClaimRow \<times> StoreRow) list" where
  "receipt_rows machineCode pre d = List.map_filter (\<lambda>r.
     (case find_machine (c_machine r) d of None \<Rightarrow> None
      | Some m \<Rightarrow>
         if mc_Code m = machineCode \<and> take 8 (filter (\<lambda>c. c \<noteq> CHR ''-'') (c_id r)) = pre
         then map_option (\<lambda>s. (r, s)) (find (\<lambda>s. st_id s = c_store r) (t_stores d)) else None))
     (t_claims d)"

definition PublicStatusByReceipt ::
  "(nat \<Rightarrow> nat) \<Rightarrow> bool \<Rightarrow> string \<Rightarrow> string \<Rightarrow> db \<Rightarrow> (db_error, PublicStatus) result" where
  "PublicStatusByReceipt lc fail machineCode receipt d =
    (let pre = ToLower lc (TrimSpace receipt)
     in if length pre \<noteq> 8 then Inl ErrNotFound
        else if \<not> list_all (\<lambda>r. r \<in> set (map byte hex_digits)) (runes pre) then Inl ErrNotFound
        else if fail then Inl DbFailure
        else case receipt_rows machineCode pre d of
          [(r, s)] \<Rightarrow> Inr
            \<lparr>pb_Status = c_status r, pb_IssueType = c_issue r, pb_AmountKRW = c_amount r,
             pb_PaymentMethod = c_payment r, pb_CreatedAt = c_created r,
             pb_ResolvedAt = deref (c_resolved r), pb_PaidAt = deref (c_paid_at r),
             pb_StoreName = st_name s, pb_StorePhone = coalesce (st_phone s) [],
             pb_StoreType = NormalizeStoreType (st_type s)\<rparr>
        | _ \<Rightarrow> Inl ErrNotFound)"

section \<open>What is shown of it\<close>

definition statusChecksPerMinute :: int where "statusChecksPerMinute = 20"

type_synonym publicStage = string

definition stageWaiting :: publicStage where "stageWaiting = ''waiting''"
definition stageApproved :: publicStage where "stageApproved = ''approved''"
definition stageDone :: publicStage where "stageDone = ''done''"
definition stageRejected :: publicStage where "stageRejected = ''rejected''"

lemmas stage_defs = stageWaiting_def stageApproved_def stageDone_def stageRejected_def

definition stageOf :: "Status \<Rightarrow> publicStage" where
  "stageOf s = (if s = StatusApproved then stageApproved else if s = StatusPaid then stageDone
     else if s = StatusRejected then stageRejected else stageWaiting)"

record publicStatusResponse =
  po_ReceiptCode :: string
  po_Stage :: publicStage
  po_IssueLabel :: string
  po_AmountKRW :: int
  po_PaymentMethod :: string
  po_StoreName :: string
  po_StorePhone :: string
  po_StoreType :: string
  po_ReceivedAt :: string
  po_ReviewedAt :: string
  po_SettledAt :: string

text \<open>\<open>Truncate\<close> counts from the zero time, which is a full minute.\<close>

definition minuteStamp :: "zone \<Rightarrow> instant \<Rightarrow> string" where
  "minuteStamp z t = (if IsZero t then [] else format_RFC3339 z (t - (t - zero_time) mod Minute))"

definition status_response :: "(nat \<Rightarrow> nat) \<Rightarrow> zone \<Rightarrow> string \<Rightarrow> PublicStatus \<Rightarrow> publicStatusResponse" where
  "status_response uc z code p =
    \<lparr>po_ReceiptCode = normalizeReceiptCode uc code, po_Stage = stageOf (pb_Status p),
     po_IssueLabel = issue_Label (pb_IssueType p), po_AmountKRW = pb_AmountKRW p,
     po_PaymentMethod = pb_PaymentMethod p, po_StoreName = pb_StoreName p, po_StorePhone = pb_StorePhone p,
     po_StoreType = pb_StoreType p, po_ReceivedAt = minuteStamp z (pb_CreatedAt p),
     po_ReviewedAt = minuteStamp z (pb_ResolvedAt p),
     po_SettledAt = (if stageOf (pb_Status p) = stageRejected then [] else minuteStamp z (pb_PaidAt p))\<rparr>"

text \<open>
  The handler: \<open>texts\<close> are the case mappings of \<open>strings.ToUpper\<close> and \<open>strings.ToLower\<close>,
  \<open>cache_down\<close> an error of the cache, which lets the request pass.
\<close>

definition handlePublicClaimStatus ::
  "(nat \<Rightarrow> nat) \<times> (nat \<Rightarrow> nat) \<Rightarrow> zone \<Rightarrow> bool \<times> bool \<Rightarrow> instant \<Rightarrow> string \<Rightarrow> string \<Rightarrow> string \<Rightarrow> db \<Rightarrow> memory
     \<Rightarrow> publicStatusResponse reply \<times> memory" where
  "handlePublicClaimStatus texts z fails now ip rawCode receipt d m =
    (let code = NormalizeMachineCode (fst texts) rawCode
     in if ValidateMachineCode code \<noteq> None then (notFound, m)
        else
          (let (n, m') = (if fst fails then (0, m)
               else Incr now (''rl:status:'' @ code @ '':'' @ ip) Minute m)
           in if statusChecksPerMinute < n then (Failed 429 ''rate_limited'', m')
              else case map_sum id (status_response (fst texts) z receipt)
                  (PublicStatusByReceipt (snd texts) (snd fails) code receipt d) of
                Inl e \<Rightarrow> (if e = ErrNotFound then notFound else internalError, m')
              | Inr res \<Rightarrow> (Done res, m')))"

section \<open>What is not shown\<close>

text \<open>
  A row with everything the shop keeps to itself taken out: who the customer is, how risky the
  claim looked and why, who decided and how it was paid, and which of the waiting states it is
  in (every state that is neither approved, paid nor rejected counts as waiting). A rejected
  claim has no time of payment.
\<close>

definition blank_status :: "Status \<Rightarrow> Status" where
  "blank_status s = (if stageOf s = stageWaiting then StatusPending else s)"

definition public_row :: "ClaimRow \<Rightarrow> ClaimRow" where
  "public_row r = r\<lparr>c_status := blank_status (c_status r), c_description := [], c_phone_enc := [],
     c_phone_hash := [], c_bank := [], c_account_enc := [], c_account_hash := [], c_holder_enc := [],
     c_risk_score := 0, c_risk_reasons := [], c_key := [], c_ip_hash := None, c_user_agent := [],
     c_last4 := [], c_guess := None, c_resolved_by := None, c_payout := [], c_paid_amount := None,
     c_paid_at := (if c_status r = StatusRejected then None else c_paid_at r)\<rparr>"

lemma stage_blank [simp]: "stageOf (blank_status s) = stageOf s"
  by (simp add: blank_status_def stageOf_def stage_defs status_defs)

lemma public_row_keeps [simp]:
  "c_id (public_row r) = c_id r" "c_machine (public_row r) = c_machine r" "c_store (public_row r) = c_store r"
  "c_issue (public_row r) = c_issue r" "c_amount (public_row r) = c_amount r"
  "c_payment (public_row r) = c_payment r" "c_created (public_row r) = c_created r"
  "c_resolved (public_row r) = c_resolved r" "c_status (public_row r) = blank_status (c_status r)"
  "c_paid_at (public_row r) = (if c_status r = StatusRejected then None else c_paid_at r)"
  by (simp_all add: public_row_def)

lemma receipt_rows_public:
  "receipt_rows code pre (d\<lparr>t_claims := map public_row (t_claims d)\<rparr>)
    = map (\<lambda>(r, s). (public_row r, s)) (receipt_rows code pre d)"
proof -
  have f: "find_machine x (d\<lparr>t_claims := cs\<rparr>) = find_machine x d" for x cs by (simp add: find_machine_def)
  have m: "List.map_filter f (map g xs) = map h (List.map_filter f' xs)"
    if "\<And>x. f (g x) = map_option h (f' x)" for f g h f' and xs :: "ClaimRow list"
    by (induction xs) (simp_all add: that List.map_filter_simps split: option.splits)
  show ?thesis unfolding receipt_rows_def
    by (simp add: f, rule m) (auto simp: option.map_comp comp_def split: option.splits)
qed

text \<open>
  C28. Looking a claim up tells the customer nothing the shop decides in private: the answer and
  the counters are the same when every claim is replaced by its public part, so it does not
  depend on the phone number, the account, the description, the risk score and its reasons, the
  deciding person, the payout, or on which of the waiting states a claim is in. In particular
  a claim put on hold for its risk looks like one nobody has touched. A claim that is shown is
  the only one of that machine with that receipt.
\<close>

theorem lookup_reveals_no_decision:
  "handlePublicClaimStatus texts z fails now ip code receipt d m
     = handlePublicClaimStatus texts z fails now ip code receipt (d\<lparr>t_claims := map public_row (t_claims d)\<rparr>) m
   \<and> stageOf StatusOnHold = stageOf StatusPending \<and> stageOf StatusNeedsReview = stageOf StatusPending
   \<and> distinct [stageOf StatusPending, stageOf StatusApproved, stageOf StatusPaid, stageOf StatusRejected]
   \<and> pred_option (\<lambda>p. \<exists>r s. receipt_rows (NormalizeMachineCode (fst texts) code)
          (ToLower (snd texts) (TrimSpace receipt)) d = [(r, s)]
        \<and> p = status_response (fst texts) z receipt
           \<lparr>pb_Status = c_status r, pb_IssueType = c_issue r, pb_AmountKRW = c_amount r,
            pb_PaymentMethod = c_payment r, pb_CreatedAt = c_created r, pb_ResolvedAt = deref (c_resolved r),
            pb_PaidAt = deref (c_paid_at r), pb_StoreName = st_name s, pb_StorePhone = coalesce (st_phone s) [],
            pb_StoreType = NormalizeStoreType (st_type s)\<rparr>)
       (case fst (handlePublicClaimStatus texts z fails now ip code receipt d m) of Done p \<Rightarrow> Some p | _ \<Rightarrow> None)"
proof -
  define d' where "d' = d\<lparr>t_claims := map public_row (t_claims d)\<rparr>"
  have eq: "map_sum id (status_response uc z receipt) (PublicStatusByReceipt lc fail mcode receipt d)
      = map_sum id (status_response uc z receipt) (PublicStatusByReceipt lc fail mcode receipt d')" for uc lc fail mcode
  proof -
    have shown: "stageOf st = stageRejected \<longleftrightarrow> st = StatusRejected" for st
      by (simp add: stageOf_def stage_defs status_defs)
    define rows where "rows = receipt_rows mcode (ToLower lc (TrimSpace receipt)) d"
    have rows': "receipt_rows mcode (ToLower lc (TrimSpace receipt)) d' = map (\<lambda>(r, s). (public_row r, s)) rows"
      by (simp add: d'_def rows_def receipt_rows_public)
    consider "rows = []" | r s where "rows = [(r, s)]" | x y zs where "rows = x # y # zs"
      by (metis list.exhaust surj_pair)
    then show ?thesis
      unfolding PublicStatusByReceipt_def Let_def rows_def [symmetric] rows'
      by cases (simp_all add: status_response_def shown split: prod.splits)
  qed
  have "handlePublicClaimStatus texts z fails now ip code receipt d m
      = handlePublicClaimStatus texts z fails now ip code receipt d' m"
  proof -
    let ?code = "NormalizeMachineCode (fst texts) code"
    have e: "map_sum id (status_response (fst texts) z receipt) (PublicStatusByReceipt (snd texts) (snd fails) ?code receipt d)
      = map_sum id (status_response (fst texts) z receipt) (PublicStatusByReceipt (snd texts) (snd fails) ?code receipt d')"
      by (rule eq)
    show ?thesis unfolding handlePublicClaimStatus_def Let_def e ..
  qed
  moreover have "pred_option (\<lambda>p. \<exists>r s. receipt_rows (NormalizeMachineCode (fst texts) code)
          (ToLower (snd texts) (TrimSpace receipt)) d = [(r, s)]
        \<and> p = status_response (fst texts) z receipt
           \<lparr>pb_Status = c_status r, pb_IssueType = c_issue r, pb_AmountKRW = c_amount r,
            pb_PaymentMethod = c_payment r, pb_CreatedAt = c_created r, pb_ResolvedAt = deref (c_resolved r),
            pb_PaidAt = deref (c_paid_at r), pb_StoreName = st_name s, pb_StorePhone = coalesce (st_phone s) [],
            pb_StoreType = NormalizeStoreType (st_type s)\<rparr>)
       (case fst (handlePublicClaimStatus texts z fails now ip code receipt d m) of Done p \<Rightarrow> Some p | _ \<Rightarrow> None)"
    by (auto simp: handlePublicClaimStatus_def Let_def PublicStatusByReceipt_def notFound_def internalError_def
        split: reply.splits prod.splits sum.splits if_splits list.splits)
  ultimately show ?thesis unfolding d'_def by (simp add: stageOf_def stage_defs status_defs)
qed

section \<open>Signing up\<close>

record signupRequest =
  su_StoreName :: string
  su_Phone :: string
  su_StoreType :: string
  su_Email :: string
  su_Password :: string
  su_Name :: string

text \<open>The fields after trimming; an empty name becomes the owner's title.\<close>

definition clean_signup :: "(nat \<Rightarrow> nat) \<Rightarrow> signupRequest \<Rightarrow> signupRequest" where
  "clean_signup lc q = (let name = TrimSpace (su_Name q) in
     q\<lparr>su_StoreName := TrimSpace (su_StoreName q), su_Phone := TrimSpace (su_Phone q),
       su_Email := TrimSpace (ToLower lc (su_Email q)),
       su_Name := (if name = [] then (u8 [0xC0AC, 0xC7A5, 0xB2D8]) else name)\<rparr>)"

text \<open>\<open>mail\<close> is \<open>net/mail.ParseAddress\<close> succeeding.\<close>

definition signup_ok :: "(string \<Rightarrow> bool) \<Rightarrow> signupRequest \<Rightarrow> bool" where
  "signup_ok mail q \<longleftrightarrow> su_StoreName q \<noteq> [] \<and> rune_count (su_StoreName q) \<le> 60
     \<and> (su_StoreType q \<noteq> [] \<longrightarrow> ValidStoreType (su_StoreType q)) \<and> mail (su_Email q)
     \<and> 8 \<le> length (su_Password q) \<and> length (su_Password q) \<le> 72"

record signup_env =
  se_open :: bool
  se_lower :: "nat \<Rightarrow> nat"
  se_mail :: "string \<Rightarrow> bool"
  se_bcrypt :: Bcrypt
  se_fails :: "bool \<times> bool \<times> bool"
  se_ids :: "string \<times> string"
  se_db_now :: instant
  se_now :: instant
  se_mac :: "string \<Rightarrow> string"
  se_base :: string

definition handleSignup ::
  "signup_env \<Rightarrow> signupRequest option \<Rightarrow> db \<Rightarrow> (userResponse reply \<times> db) \<times> cookie_out list" where
  "handleSignup e req d =
    (if \<not> se_open e then ((Failed 403 ''signup_closed'', d), [])
     else case req of None \<Rightarrow> ((badRequest, d), [])
     | Some raw \<Rightarrow>
        (let q = clean_signup (se_lower e) raw
         in if \<not> signup_ok (se_mail e) q then ((badRequest, d), [])
            else case CreateStoreWithOwner (se_bcrypt e) (se_fails e) (se_ids e) (se_db_now e) (su_StoreName q)
                (su_Phone q) (NormalizeStoreType (su_StoreType q)) (su_Email q) (su_Password q) (su_Name q) d of
              (Inl err, d') \<Rightarrow> ((if err = BadInput ''email'' then conflict ''email_taken''
                                else Failed 500 ''signup_failed'', d'), [])
            | (Inr (storeID, user), d') \<Rightarrow> ((Done (user_response user), d'),
                [setSessionCookie (se_mac e) (se_base e) (se_now e) (u_ID user)])))"

definition handleSignupStatus :: "signup_env \<Rightarrow> bool reply" where
  "handleSignupStatus e = Done (se_open e)"

text \<open>
  C29. Signing up makes a store and its first account together, or nothing: an answer other than
  success leaves the database as it was and gives no session. On success exactly one store and
  one active account of that store are added, under an email nobody had, with a password of 8
  to 72 bytes, and the only cookie is a session of that account.
\<close>

theorem signup_all_or_nothing:
  "case handleSignup e req d of
     ((Failed status why, d'), cookies) \<Rightarrow> d' = d \<and> cookies = []
   | ((Done res, d'), cookies) \<Rightarrow>
       (\<exists>q s u. d' = d\<lparr>t_stores := t_stores d @ [s], t_users := t_users d @ [u]\<rparr>
          \<and> se_open e \<and> req \<noteq> None \<and> 8 \<le> length (su_Password q) \<and> length (su_Password q) \<le> 72
          \<and> req = Some q
          \<and> us_store u = st_id s \<and> us_active u \<and> us_failed u = 0 \<and> ValidStoreType (st_type s)
          \<and> us_email u = TrimSpace (ToLower (se_lower e) (su_Email q))
          \<and> us_email u \<notin> us_email ` set (t_users d) \<and> st_id s \<notin> st_id ` set (t_stores d)
          \<and> bc_generate (se_bcrypt e) (su_Password q) = Some (us_password_hash u)
          \<and> res = user_response (user_of u)
          \<and> cookies = [setSessionCookie (se_mac e) (se_base e) (se_now e) (us_id u)])"
proof (cases "handleSignup e req d")
  case (Pair rd cookies)
  obtain r d' where rd: "rd = (r, d')" by (cases rd)
  show ?thesis
  proof (cases r)
    case (Failed status why)
    with Pair rd have "d' = d \<and> cookies = []"
      by (auto simp: handleSignup_def Let_def CreateStoreWithOwner_def split: if_splits option.splits prod.splits sum.splits
          dest: tx_cases)
    with Pair rd Failed show ?thesis by simp
  next
    case (Done res)
    with Pair rd obtain raw q sid user where
      q: "se_open e" "req = Some raw" "q = clean_signup (se_lower e) raw" "signup_ok (se_mail e) q"
      and c: "CreateStoreWithOwner (se_bcrypt e) (se_fails e) (se_ids e) (se_db_now e) (su_StoreName q)
                (su_Phone q) (NormalizeStoreType (su_StoreType q)) (su_Email q) (su_Password q) (su_Name q) d
          = (Inr (sid, user), d')"
      and out: "res = user_response user" "cookies = [setSessionCookie (se_mac e) (se_base e) (se_now e) (u_ID user)]"
      by (auto simp: handleSignup_def Let_def badRequest_def conflict_def split: if_splits option.splits prod.splits sum.splits)
    have pw: "su_Password q = su_Password raw" "su_Email q = TrimSpace (ToLower (se_lower e) (su_Email raw))"
      by (simp_all add: q(3) clean_signup_def Let_def)
    obtain hash where h: "bc_generate (se_bcrypt e) (su_Password q) = Some hash"
      using c by (auto simp: CreateStoreWithOwner_def split: if_splits option.splits)
    define s where "s = new_store (fst (se_ids e)) (su_StoreName q) (su_Phone q) (NormalizeStoreType (NormalizeStoreType (su_StoreType q)))"
    define u where "u = new_user (snd (se_ids e)) (se_db_now e) (fst (se_ids e)) (su_Email q) hash (su_Name q) []"
    have f: "d' = d\<lparr>t_stores := t_stores d @ [s], t_users := t_users d @ [u]\<rparr>" "user = user_of u"
      "us_email u \<notin> us_email ` set (t_users d)" "st_id s \<notin> st_id ` set (t_stores d)"
      using c h
      by (auto simp: CreateStoreWithOwner_def tx_Inr and_then_Inr insert_store_def insert_user_def s_def [symmetric]
          u_def [symmetric] split: if_splits prod.splits sum.splits db_error.splits)
    have "us_store u = st_id s" "us_active u" "us_failed u = 0" "ValidStoreType (st_type s)" "us_email u = su_Email q"
      "us_password_hash u = hash" "u_ID user = us_id u"
      by (simp_all add: f(2) s_def u_def new_store_def new_user_def user_of_def)
    moreover have "8 \<le> length (su_Password q)" "length (su_Password q) \<le> 72"
      using q(4) by (simp_all add: signup_ok_def)
    ultimately show ?thesis
      using f q(1,2) h pw out unfolding Pair rd Done
      by (simp, intro exI [of _ raw] exI [of _ s] exI [of _ u]) simp
  qed
qed

end
