(* ===== verification/Http_Desk.thy ===== *)
theory Http_Desk
  imports Http_Claims Http_Public Payout_Links Media_Local Store_Queries Store_Accounts
begin

text \<open>
  The rest of \<^verbatim>\<open>internal/httpapi/admin_claims.go\<close>: the inbox, the page of one claim, the links that
  open a transfer app, and the photos; \<open>payoutFor\<close> of \<^verbatim>\<open>admin_settings.go\<close> goes with the links.
\<close>

section \<open>The inbox\<close>

text \<open>\<open>strings.Split\<close> at a single character.\<close>

fun Split :: "char \<Rightarrow> string \<Rightarrow> string list" where
  "Split c [] = [[]]"
| "Split c (x # xs) = (if x = c then [] # Split c xs else (x # hd (Split c xs)) # tl (Split c xs))"

text \<open>The query string: \<open>lq_status\<close> has every value of \<open>status\<close>, the others the first or nothing.\<close>

record list_query =
  lq_status :: "string list"
  lq_machineId :: string
  lq_cursor :: string
  lq_limit :: string
  lq_from :: string
  lq_to :: string

definition status_parts :: "string list \<Rightarrow> string list" where
  "status_parts raws = filter (\<lambda>p. p \<noteq> []) (concat (map (\<lambda>raw. map TrimSpace (Split CHR '','' raw)) raws))"

fun parse_statuses :: "string list \<Rightarrow> Status list option" where
  "parse_statuses [] = Some []"
| "parse_statuses (p # ps) = (case ParseStatus p of None \<Rightarrow> None | Some s \<Rightarrow> map_option (Cons s) (parse_statuses ps))"

text \<open>\<open>parse\<close> is \<open>time.Parse\<close> with the layout of RFC 3339; an absent time is the zero time.\<close>

definition time_field :: "(string \<Rightarrow> instant option) \<Rightarrow> string \<Rightarrow> instant option" where
  "time_field parse v = (if v = [] then Some zero_time else parse v)"

definition claim_filter :: "(string \<Rightarrow> instant option) \<Rightarrow> string \<Rightarrow> list_query \<Rightarrow> ClaimFilter option" where
  "claim_filter parse storeID q =
    (case parse_statuses (status_parts (lq_status q)) of None \<Rightarrow> None | Some sts \<Rightarrow>
     (case (if lq_limit q = [] then Some 0 else Atoi (lq_limit q)) of None \<Rightarrow> None | Some n \<Rightarrow>
     (case time_field parse (lq_from q) of None \<Rightarrow> None | Some from \<Rightarrow>
     (case time_field parse (lq_to q) of None \<Rightarrow> None | Some to \<Rightarrow>
        Some \<lparr>cf_StoreID = storeID, cf_Statuses = sts, cf_MachineID = lq_machineId q, cf_From = from, cf_To = to,
          cf_Cursor = lq_cursor q, cf_Limit = n\<rparr>))))"

definition handleListClaims ::
  "Sec \<Rightarrow> (string \<Rightarrow> instant option) \<Rightarrow> (string \<Rightarrow> instant option) \<Rightarrow> bool \<Rightarrow> User \<Rightarrow> list_query \<Rightarrow> db
     \<Rightarrow> (ClaimSummary list \<times> string) reply" where
  "handleListClaims k parse_cursor parse fail u q d =
    (case claim_filter parse (u_StoreID u) q of None \<Rightarrow> badRequest
     | Some f \<Rightarrow> (case ListClaims k parse_cursor fail f d of Inl _ \<Rightarrow> internalError | Inr page \<Rightarrow> Done page))"

section \<open>The page of a claim\<close>

record eventResponse =
  er_ActorKind :: string
  er_ActorName :: string
  er_Action :: string
  er_From :: Status
  er_To :: Status
  er_Note :: string
  er_At :: instant

record claimDetailResponse =
  dr_ID :: string
  dr_ReceiptCode :: string
  dr_MachineID :: string
  dr_MachineLabel :: string
  dr_MachineCode :: string
  dr_IssueType :: IssueType
  dr_IssueLabel :: string
  dr_AmountKRW :: int
  dr_Description :: string
  dr_PaymentMethod :: PaymentMethod
  dr_PaymentLabel :: string
  dr_CardLast4 :: string
  dr_PaidAtGuess :: "instant option"
  dr_Status :: Status
  dr_StatusLabel :: string
  dr_RiskScore :: int
  dr_RiskReasons :: "RiskReason list"
  dr_Phone :: string
  dr_BankCode :: string
  dr_BankName :: string
  dr_AccountNo :: string
  dr_Holder :: string
  dr_CallRecommended :: bool
  dr_PhotoIDs :: "string list"
  dr_Events :: "eventResponse list"
  dr_PhoneClaims30d :: int
  dr_PhonePaidTotal30d :: int
  dr_ApprovedBy :: string
  dr_PaidBy :: string
  dr_PaidAmountKrw :: int
  dr_CreatedAt :: instant
  dr_ResolvedAt :: "instant option"
  dr_PaidAt :: "instant option"
  dr_AllowedTransitions :: "Status list"

definition bank_name :: "string \<Rightarrow> string" where
  "bank_name code = (case BankByCode code of None \<Rightarrow> code | Some b \<Rightarrow> bk_Name b)"

definition event_response :: "Event \<Rightarrow> eventResponse" where
  "event_response e = \<lparr>er_ActorKind = act_Kind (ev_Actor e), er_ActorName = act_Name (ev_Actor e), er_Action = ev_Action e,
     er_From = ev_From e, er_To = ev_To e, er_Note = ev_Note e, er_At = ev_At e\<rparr>"

text \<open>\<open>uc\<close> is the upper case of a rune, for the receipt code.\<close>

definition claim_response :: "(nat \<Rightarrow> nat) \<Rightarrow> Policy \<Rightarrow> ClaimDetail \<Rightarrow> claimDetailResponse" where
  "claim_response uc policy x = (let c = cd_Claim x in
    \<lparr>dr_ID = cl_ID c, dr_ReceiptCode = receiptCode uc (cl_ID c), dr_MachineID = cl_MachineID c,
     dr_MachineLabel = cd_MachineLabel x, dr_MachineCode = cd_MachineCode x, dr_IssueType = cl_IssueType c,
     dr_IssueLabel = issue_Label (cl_IssueType c), dr_AmountKRW = cl_AmountKRW c, dr_Description = cl_Description c,
     dr_PaymentMethod = cl_PaymentMethod c, dr_PaymentLabel = payment_Label (cl_PaymentMethod c),
     dr_CardLast4 = cl_CardLast4 c, dr_PaidAtGuess = nilTime (cl_PaidAtGuess c), dr_Status = cl_Status c,
     dr_StatusLabel = status_Label (cl_Status c), dr_RiskScore = cl_RiskScore c, dr_RiskReasons = cd_RiskReasons x,
     dr_Phone = cd_Phone x, dr_BankCode = cd_BankCode x, dr_BankName = bank_name (cd_BankCode x),
     dr_AccountNo = cd_Account x, dr_Holder = cd_Holder x,
     dr_CallRecommended = RequiresPhoto (cl_AmountKRW c) policy, dr_PhotoIDs = map ph_id (cd_Photos x),
     dr_Events = map event_response (cd_Events x), dr_PhoneClaims30d = cd_PhoneClaims30d x,
     dr_PhonePaidTotal30d = cd_PhonePaidTotal30d x, dr_ApprovedBy = cd_ApprovedBy x, dr_PaidBy = cd_PaidBy x,
     dr_PaidAmountKrw = cl_PaidAmountKRW c, dr_CreatedAt = cl_CreatedAt c, dr_ResolvedAt = nilTime (cl_ResolvedAt c),
     dr_PaidAt = nilTime (cl_PaidAt c), dr_AllowedTransitions = filter (CanTransition c) AllStatuses\<rparr>)"

text \<open>What a read of a claim depends on: its failing queries and the two clocks.\<close>

record read_env =
  rd_fail :: "nat \<Rightarrow> bool"
  rd_db_now :: instant
  rd_now :: instant

definition handleClaimDetail ::
  "Sec \<Rightarrow> (nat \<Rightarrow> nat) \<Rightarrow> Policy \<Rightarrow> read_env \<Rightarrow> access \<Rightarrow> string \<Rightarrow> db \<Rightarrow> claimDetailResponse reply \<times> db" where
  "handleClaimDetail k uc policy e a cid d =
    (case ClaimByID k (rd_fail e) (rd_db_now e) (rd_now e) (ac_store a) cid (ac_actor a) d of
       (Inl err, d1) \<Rightarrow> (if err = ErrNotFound then notFound else internalError, d1)
     | (Inr x, d1) \<Rightarrow> (Done (claim_response uc policy x), d1))"

section \<open>Paying out\<close>

text \<open>The provider of links: the one of the shop's settings, or the server's own \<open>dflt\<close>.\<close>

definition payoutFor :: "Sec \<Rightarrow> bool \<Rightarrow> Deeplink \<Rightarrow> string \<Rightarrow> db \<Rightarrow> Deeplink" where
  "payoutFor k fail dflt storeID d =
    (case StoreByID k fail storeID d of Inl _ \<Rightarrow> dflt
     | Inr st \<Rightarrow>
        if sd_PayoutProvider st = [] then dflt
        else (let tpl = TemplateFor (sd_PayoutProvider st) (sd_PayoutTemplate st)
          in if tpl = [] then NewDeeplink [] else NewDeeplink [(sd_PayoutProvider st, tpl)]))"

record payoutLinksResponse =
  pl_Mode :: string
  pl_CardLast4 :: string
  pl_PaidAtGuess :: "instant option"
  pl_ReceiptCode :: string
  pl_Links :: "Link list"
  pl_BankName :: string
  pl_AccountNo :: string
  pl_Holder :: string
  pl_AmountKRW :: int
  pl_CopyText :: string
  pl_FromAccount :: string

definition payment_request :: "ClaimDetail \<Rightarrow> PayoutRequest" where
  "payment_request x = \<lparr>rq_BankCode = cd_BankCode x, rq_AccountNo = cd_Account x, rq_Holder = cd_Holder x,
     rq_AmountKRW = cl_AmountKRW (cd_Claim x)\<rparr>"

text \<open>The account the shop pays from, when its settings name one; \<open>fail\<close> is the second read of them.\<close>

definition from_account :: "Sec \<Rightarrow> bool \<Rightarrow> string \<Rightarrow> db \<Rightarrow> string" where
  "from_account k fail storeID d =
    (case StoreByID k fail storeID d of Inl _ \<Rightarrow> []
     | Inr st \<Rightarrow>
        if sd_PayoutAccount st = [] then []
        else (case BankByCode (sd_PayoutBankCode st) of None \<Rightarrow> [] | Some b \<Rightarrow> bk_Name b @ '' '') @ sd_PayoutAccount st)"

record links_env =
  lx_read :: read_env
  lx_between :: "db \<Rightarrow> db"
  lx_fail_settings :: bool
  lx_between_settings :: "db \<Rightarrow> db"
  lx_fail_account :: bool

definition handlePayoutLinks ::
  "Sec \<Rightarrow> (nat \<Rightarrow> nat) \<Rightarrow> Deeplink \<Rightarrow> links_env \<Rightarrow> access \<Rightarrow> string \<Rightarrow> db \<Rightarrow> payoutLinksResponse reply \<times> db" where
  "handlePayoutLinks k uc dflt e a cid d =
    (case ClaimByID k (rd_fail (lx_read e)) (rd_db_now (lx_read e)) (rd_now (lx_read e)) (ac_store a) cid (ac_actor a) d of
       (Inl err, d1) \<Rightarrow> (if err = ErrNotFound then notFound else internalError, d1)
     | (Inr x, d1) \<Rightarrow>
        (let c = cd_Claim x in
         if cl_Status c \<noteq> StatusApproved then (conflict ''not_approved'', d1)
         else if cl_PaymentMethod c = PaymentCard then
           (Done \<lparr>pl_Mode = PayoutCardVoid, pl_CardLast4 = cl_CardLast4 c, pl_PaidAtGuess = nilTime (cl_PaidAtGuess c),
              pl_ReceiptCode = receiptCode uc (cl_ID c), pl_Links = [], pl_BankName = [], pl_AccountNo = [],
              pl_Holder = [], pl_AmountKRW = cl_AmountKRW c, pl_CopyText = [], pl_FromAccount = []\<rparr>, d1)
         else
           (let d2 = lx_between e d1; d3 = lx_between_settings e d2;
                links = (case Links (payoutFor k (lx_fail_settings e) dflt (ac_store a) d2) (payment_request x) of
                  Inl _ \<Rightarrow> [] | Inr ls \<Rightarrow> ls);
                bank = bank_name (cd_BankCode x)
            in (Done \<lparr>pl_Mode = ''transfer'', pl_CardLast4 = [], pl_PaidAtGuess = None, pl_ReceiptCode = [],
                  pl_Links = links, pl_BankName = bank, pl_AccountNo = cd_Account x, pl_Holder = cd_Holder x,
                  pl_AmountKRW = cl_AmountKRW c, pl_CopyText = bank @ '' '' @ cd_Account x @ '' '' @ cd_Holder x,
                  pl_FromAccount = from_account k (lx_fail_account e) (ac_store a) d3\<rparr>, d3))))"

section \<open>Photos\<close>

definition photo_key :: "string \<Rightarrow> PhotoRow list \<Rightarrow> string" where
  "photo_key photoID ps = (case find (\<lambda>p. ph_id p = photoID) ps of None \<Rightarrow> [] | Some p \<Rightarrow> ph_key p)"

definition handlePhoto ::
  "Sec \<Rightarrow> read_env \<Rightarrow> string \<Rightarrow> bool \<Rightarrow> disk \<Rightarrow> access \<Rightarrow> string \<Rightarrow> string \<Rightarrow> db \<Rightarrow> (string \<times> string) reply" where
  "handlePhoto k e root fail_read disk a cid photoID d =
    (case ClaimByID k (rd_fail e) (rd_db_now e) (rd_now e) (ac_store a) cid no_actor d of
       (Inl err, _) \<Rightarrow> (if err = ErrNotFound then notFound else internalError)
     | (Inr x, _) \<Rightarrow>
        (let key = photo_key photoID (cd_Photos x)
         in if key = [] then notFound
            else case OpenPhoto root fail_read key disk of Inl _ \<Rightarrow> notFound | Inr photo \<Rightarrow> Done photo))"


section \<open>Buttons\<close>

text \<open>A read that succeeds leaves the claims alone, and at most adds the line of the log about it.\<close>

lemma ClaimByID_Inr:
  assumes "ClaimByID k fail now at storeID cid by' d = (Inr x, d1)"
  shows "\<exists>r m. find_claim storeID cid d = Some r \<and> find_machine (c_machine r) d = Some m \<and> cd_Claim x = claim_of r
    \<and> Decrypt (sec_aead k) (c_phone_enc r) = Inr (cd_Phone x) \<and> Decrypt (sec_aead k) (c_account_enc r) = Inr (cd_Account x)
    \<and> Decrypt (sec_aead k) (c_holder_enc r) = Inr (cd_Holder x) \<and> cd_BankCode x = c_bank r
    \<and> (\<exists>evs. d1 = d\<lparr>t_events := t_events d @ evs\<rparr>)"
proof -
  have app: "\<exists>evs. snd (AppendEvent f ev d) = d\<lparr>t_events := t_events d @ evs\<rparr>" for f ev
    using insertEvent_db [of f ev d] by (auto simp: AppendEvent_def intro: exI [of _ "[]"] exI [of _ "[event_row ev]"])
  have same: "\<exists>evs. d = d\<lparr>t_events := t_events d @ evs\<rparr>" by (rule exI [of _ "[]"]) simp
  show ?thesis
    using assms app same unfolding ClaimByID_def Let_def
    by (auto split: if_splits option.splits sum.splits prod.splits)
qed

lemma ClaimByID_again:
  assumes "ClaimByID k fail now at storeID cid by' d = (Inr x, d1)" "\<And>i. \<not> fail2 i"
  shows "\<exists>y. ClaimByID k fail2 now2 at2 storeID cid no_actor d1 = (Inr y, d1) \<and> cd_Claim y = cd_Claim x"
proof -
  obtain r m evs where r: "find_claim storeID cid d = Some r" "find_machine (c_machine r) d = Some m" "cd_Claim x = claim_of r"
    "Decrypt (sec_aead k) (c_phone_enc r) = Inr (cd_Phone x)" "Decrypt (sec_aead k) (c_account_enc r) = Inr (cd_Account x)"
    "Decrypt (sec_aead k) (c_holder_enc r) = Inr (cd_Holder x)" "d1 = d\<lparr>t_events := t_events d @ evs\<rparr>"
    using ClaimByID_Inr [OF assms(1)] by auto
  have "find_claim storeID cid d1 = Some r" "find_machine (c_machine r) d1 = Some m"
    using r(1,2,7) by (simp_all add: find_claim_def find_machine_def)
  then show ?thesis using r(3-6) assms(2) unfolding ClaimByID_def Let_def
    by (simp add: no_actor_def split: prod.splits)
qed

lemma ApplyTransition_calm:
  assumes "\<And>i. \<not> fail i" "r \<in> set (t_claims d)" "matches_update storeID c ev r" "0 \<le> cl_PaidAmountKRW c" "ev_ClaimID ev = c_id r"
  shows "\<exists>d'. ApplyTransition fail True storeID c ev d = (Inr (), d')"
proof -
  have "filter (matches_update storeID c ev) (t_claims d) \<noteq> []" using assms(2,3) by (auto simp: filter_empty_conv)
  moreover have id: "c_id (if matches_update storeID c ev r then update_claim c ev r else r) = c_id r" for r
    by (simp add: update_claim_def)
  moreover have "list_ex (\<lambda>r. c_id r = ev_ClaimID ev)
      (map (\<lambda>r. if matches_update storeID c ev r then update_claim c ev r else r) (t_claims d))"
    unfolding list_ex_iff set_map bex_simps id using assms(2,5) by (intro bexI [of _ r]) simp_all
  ultimately show ?thesis
    using assms(1,4) by (simp add: ApplyTransition_def tx_def and_then_def update_status_def insertEvent_def)
qed

lemma commit_calm:
  assumes "\<And>i. \<not> fail i" "r \<in> set (t_claims d)" "matches_update (ac_store a) c ev r" "0 \<le> cl_PaidAmountKRW c" "ev_ClaimID ev = c_id r"
  shows "\<exists>v. fst (commit_decision fail True a c ev d) = Done v"
  using ApplyTransition_calm [where fail = fail, OF assms] by (auto simp: commit_decision_def)

definition body_for :: "action \<Rightarrow> PaymentMethod \<Rightarrow> transitionRequest" where
  "body_for act pm = empty_request\<lparr>tr_Method := (if pm = PaymentCard then PayoutCardVoid else PayoutManual)\<rparr>"

lemma extra_calm:
  assumes "0 < cl_AmountKRW c" "0 \<le> cl_PaidAmountKRW c"
  shows "\<exists>c1. (case extra_of act of None \<Rightarrow> Inr c | Some f \<Rightarrow> f c (body_for act (cl_PaymentMethod c))) = Inr c1
    \<and> cl_Status c1 = cl_Status c \<and> cl_ID c1 = cl_ID c \<and> 0 \<le> cl_PaidAmountKRW c1"
  using assms by (cases act) (auto simp: mark_paid_extra_def choose_method_def body_for_def empty_request_def Let_def)

text \<open>What the page lists are the targets of the table.\<close>

lemma listed_targets:
  "target act \<in> set (dr_AllowedTransitions (claim_response uc policy x)) \<longleftrightarrow> target act \<in> set (transitions (cl_Status (cd_Claim x)))"
  using transitions_known [of "target act" "cl_Status (cd_Claim x)"]
  by (cases act) (auto simp: claim_response_def Let_def CanTransition_def transitionError_def transitions_def split: if_splits)

text \<open>A decision that goes through was allowed from the state the claim was read in.\<close>

lemma done_was_allowed:
  assumes "fst (transition k te a cid b (target act) (extra_of act) d1) = Done v"
    and "ClaimByID k (te_fail_read te) (te_db_now te) (te_now te) (ac_store a) cid no_actor d1 = (Inr y, d1)"
  shows "target act \<in> set (transitions (cl_Status (cd_Claim y)))"
proof -
  let ?c = "cd_Claim y"
  from assms obtain req where run: "fst (case decide (te_now te) a req (target act) (extra_of act) ?c of Inl answer \<Rightarrow> (answer, d1)
      | Inr (c, ev) \<Rightarrow> commit_decision (te_fail_write te) (te_commit_ok te) a c ev (te_between te d1)) = Done v"
    by (cases b) (auto simp: transition_def badRequest_def Let_def)
  have "decide (te_now te) a req (target act) (extra_of act) ?c \<noteq> Inl (Done v)"
    by (simp add: decide_def badRequest_def conflict_def split: sum.splits prod.splits option.splits)
  then obtain c2 ev where dec: "decide (te_now te) a req (target act) (extra_of act) ?c = Inr (c2, ev)"
    using run by (cases "decide (te_now te) a req (target act) (extra_of act) ?c") auto
  obtain c1 where c1: "(case extra_of act of None \<Rightarrow> Inr ?c | Some f \<Rightarrow> f ?c req) = Inr c1"
    "target act \<in> set (transitions (cl_Status c1))" using decide_Inr [OF dec] by auto
  have "cl_Status c1 = cl_Status ?c"
    using c1(1) by (cases act) (auto dest!: mark_paid_extra_Inr)
  with c1(2) show ?thesis by simp
qed

text \<open>And an allowed one goes through, with the body the page sends, when nobody interferes.\<close>

lemma allowed_gets_done:
  assumes y: "ClaimByID k (te_fail_read te) (te_db_now te) (te_now te) (ac_store a) cid no_actor d1 = (Inr y, d1)"
    and ok: "target act \<in> set (transitions (cl_Status (cd_Claim y)))" and actor: "act_Kind (ac_actor a) \<noteq> []"
    and amounts: "0 < cl_AmountKRW (cd_Claim y)" "0 \<le> cl_PaidAmountKRW (cd_Claim y)"
    and calm: "\<And>i. \<not> te_fail_write te i" "te_commit_ok te" "te_between te = id"
  shows "\<exists>v. fst (transition k te a cid (Decoded (body_for act (cl_PaymentMethod (cd_Claim y)))) (target act) (extra_of act) d1) = Done v"
proof -
  let ?c = "cd_Claim y" let ?b = "body_for act (cl_PaymentMethod ?c)"
  obtain r where r: "find_claim (ac_store a) cid d1 = Some r" "?c = claim_of r"
    using ClaimByID_row [OF y] by auto
  note rin = find_claim_in [OF r(1)]
  obtain c1 where c1: "(case extra_of act of None \<Rightarrow> Inr ?c | Some f \<Rightarrow> f ?c ?b) = Inr c1" "cl_Status c1 = cl_Status ?c"
    "cl_ID c1 = cl_ID ?c" "0 \<le> cl_PaidAmountKRW c1"
    using extra_calm [of ?c act] amounts by auto
  obtain c2 ev where t: "Transition (te_now te) c1 (target act) (ac_actor a) (TrimSpace (tr_Note ?b)) = (c2, Inr ev)"
    "cl_ID c2 = cl_ID ?c" "cl_PaidAmountKRW c2 = cl_PaidAmountKRW c1" "ev_From ev = cl_Status ?c" "ev_ClaimID ev = cl_ID ?c"
    using Transition_ok [OF actor, of "target act" c1 "te_now te"] ok c1(2,3) by (simp add: NewEvent_def)
  have dec: "decide (te_now te) a ?b (target act) (extra_of act) ?c = Inr (c2, ev)"
    by (simp add: decide_def c1(1) t(1))
  have m: "matches_update (ac_store a) c2 ev r" using rin t r(2) by (simp add: matches_update_def claim_of_def)
  have "\<exists>v. fst (commit_decision (te_fail_write te) True a c2 ev d1) = Done v"
    by (rule commit_calm [where fail = "te_fail_write te", OF calm(1)]) (use rin m t r(2) c1(4) in \<open>auto simp: claim_of_def\<close>)
  then show ?thesis by (simp add: transition_def y dec calm(2,3))
qed

text \<open>
  C8. The buttons a page offers are the buttons that work. With nobody else at work and a
  database that answers, each of approve, reject, hold and mark paid, pressed after the page of
  a claim was shown, can succeed if and only if the page lists its target among the allowed
  transitions.
\<close>

theorem offered_buttons_work:
  assumes "handleClaimDetail k uc policy e a cid d = (Done page, d1)" "act_Kind (ac_actor a) \<noteq> []"
    and "0 < dr_AmountKRW page" "0 \<le> dr_PaidAmountKrw page"
    and calm: "\<And>i. \<not> te_fail_read te i" "\<And>i. \<not> te_fail_write te i" "te_commit_ok te" "te_between te = id"
  shows "(\<exists>b v. fst (transition k te a cid b (target act) (extra_of act) d1) = Done v)
    \<longleftrightarrow> target act \<in> set (dr_AllowedTransitions page)"
proof -
  obtain x where x: "ClaimByID k (rd_fail e) (rd_db_now e) (rd_now e) (ac_store a) cid (ac_actor a) d = (Inr x, d1)"
    "page = claim_response uc policy x"
    using assms(1) by (auto simp: handleClaimDetail_def notFound_def internalError_def split: prod.splits sum.splits if_splits)
  obtain y where y: "ClaimByID k (te_fail_read te) (te_db_now te) (te_now te) (ac_store a) cid no_actor d1 = (Inr y, d1)"
    "cd_Claim y = cd_Claim x" using ClaimByID_again [where ?fail2.0 = "te_fail_read te", OF x(1) calm(1)] by blast
  have amounts: "0 < cl_AmountKRW (cd_Claim y)" "0 \<le> cl_PaidAmountKRW (cd_Claim y)"
    using assms(3,4) by (simp_all add: x(2) y(2) claim_response_def Let_def)
  have "(\<exists>b v. fst (transition k te a cid b (target act) (extra_of act) d1) = Done v)
    \<longleftrightarrow> target act \<in> set (transitions (cl_Status (cd_Claim y)))"
    using done_was_allowed [OF _ y(1)] allowed_gets_done [where act = act, OF y(1) _ assms(2) amounts calm(2-4)] by blast
  then show ?thesis by (simp add: x(2) y(2) listed_targets)
qed

section \<open>Where the money goes\<close>

lemma Links_filled:
  assumes "Links dl q = Inr ls"
  shows "list_all (\<lambda>l. \<exists>bank template. BankByCode (rq_BankCode q) = Some bank
      \<and> lk_URL l = replace_all (replacements bank (digits_only (rq_AccountNo q)) q) template) ls"
proof (cases "BankByCode (rq_BankCode q)")
  case None
  then show ?thesis using assms by (simp add: Links_def split: if_splits)
next
  case (Some bank)
  then show ?thesis using assms by (auto simp: Links_def list_all_iff Let_def split: if_splits) (rule exI, rule refl)
qed



section \<open>An approved claim on the desk\<close>

definition demo_desk :: "Status \<Rightarrow> db" where
  "demo_desk st = demo_db\<lparr>t_claims := [(new_claim_row (demo_env ''c1'') demo_input
     (''ab'' @ rev ''01012345678'' @ ''ab'', []) (''ab'' @ rev ''110123456789'' @ ''ab'', []) (''ab'' @ rev ''Kim'' @ ''ab'') None)
     \<lparr>c_status := st\<rparr>]\<rparr>"

definition demo_desk_access :: access where
  "demo_desk_access = \<lparr>ac_store = ''s1'', ac_actor = \<lparr>act_Kind = ActorOwner, act_ID = ''u1'', act_Name = ''Kim''\<rparr>, ac_via_link = False\<rparr>"

definition demo_read :: read_env where
  "demo_read = \<lparr>rd_fail = (\<lambda>_. False), rd_db_now = 2000, rd_now = 2000\<rparr>"

lemma demo_decrypt: "Decrypt demo_aead (''ab'' @ rev s @ ''ab'') = Inr s"
  by (simp add: Decrypt_def demo_aead_def)

lemma demo_desk_read:
  "\<exists>x d1. ClaimByID demo_sec (rd_fail demo_read) (rd_db_now demo_read) (rd_now demo_read) ''s1'' ''c1'' (ac_actor demo_desk_access) (demo_desk st)
     = (Inr x, d1) \<and> cl_AmountKRW (cd_Claim x) = 3000 \<and> cl_Status (cd_Claim x) = st \<and> cl_PaidAmountKRW (cd_Claim x) = 0
     \<and> cl_PaymentMethod (cd_Claim x) = PaymentCash \<and> cd_Account x = ''110123456789'' \<and> cd_Holder x = ''Kim''"
proof -
  let ?r = "(new_claim_row (demo_env ''c1'') demo_input (''ab'' @ rev ''01012345678'' @ ''ab'', []) (''ab'' @ rev ''110123456789'' @ ''ab'', [])
      (''ab'' @ rev ''Kim'' @ ''ab'') None)\<lparr>c_status := st\<rparr>"
  have r: "find_claim ''s1'' ''c1'' (demo_desk st) = Some ?r" "find_machine (c_machine ?r) (demo_desk st) \<noteq> None"
    by (simp_all add: find_claim_def find_machine_def demo_desk_def demo_db_def new_claim_row_def demo_env_def demo_input_def)
  have c: "c_phone_enc ?r = ''ab'' @ rev ''01012345678'' @ ''ab''" "c_account_enc ?r = ''ab'' @ rev ''110123456789'' @ ''ab''"
    "c_holder_enc ?r = ''ab'' @ rev ''Kim'' @ ''ab''" "c_amount ?r = 3000" "c_payment ?r = PaymentCash" "c_paid_amount ?r = None"
    "c_status ?r = st"
    by (simp_all add: new_claim_row_def demo_input_def del: append.simps rev.simps)
  obtain m where m: "find_machine (c_machine ?r) (demo_desk st) = Some m" using r(2) by blast
  show ?thesis
    unfolding ClaimByID_def demo_read_def r(1) option.case m c(1-3) demo_sec_def Sec.simps demo_decrypt
    using c(4-7) by (simp add: Let_def claim_of_def del: append.simps rev.simps split: prod.splits)
qed


lemma offered_buttons_work_witness:
  "\<exists>page d1. handleClaimDetail demo_sec (\<lambda>r. r) \<lparr>ReviewThresholdKRW = 10000, RepeatWatchCount = 2, RepeatHoldCount = 3,
       AccountSharingPhones = 2, PayoutCeilingKRW = 50000, MaxAmountKRW = 100000, RapidDuplicateWindow = 60\<rparr> demo_read demo_desk_access ''c1''
       (demo_desk StatusPending) = (Done page, d1)
     \<and> StatusApproved \<in> set (dr_AllowedTransitions page)
     \<and> (\<exists>b v. fst (transition demo_sec \<lparr>te_fail_read = (\<lambda>_. False), te_db_now = 3000, te_between = id, te_now = 3000,
         te_fail_write = (\<lambda>_. False), te_commit_ok = True\<rparr> demo_desk_access ''c1'' b StatusApproved None d1) = Done v)"
proof -
  let ?p = "\<lparr>ReviewThresholdKRW = 10000, RepeatWatchCount = 2, RepeatHoldCount = 3, AccountSharingPhones = 2, PayoutCeilingKRW = 50000,
    MaxAmountKRW = 100000, RapidDuplicateWindow = 60\<rparr>"
  let ?te = "\<lparr>te_fail_read = (\<lambda>_. False), te_db_now = 3000, te_between = id, te_now = 3000, te_fail_write = (\<lambda>_. False), te_commit_ok = True\<rparr>"
  obtain x d1 where x: "ClaimByID demo_sec (rd_fail demo_read) (rd_db_now demo_read) (rd_now demo_read) ''s1'' ''c1'' (ac_actor demo_desk_access)
      (demo_desk StatusPending) = (Inr x, d1)" "cl_Status (cd_Claim x) = StatusPending" "cl_AmountKRW (cd_Claim x) = 3000"
      "cl_PaidAmountKRW (cd_Claim x) = 0"
    using demo_desk_read by blast
  have acc: "ac_store demo_desk_access = ''s1''" "act_Kind (ac_actor demo_desk_access) \<noteq> []"
    by (simp_all add: demo_desk_access_def ActorOwner_def)
  have page: "handleClaimDetail demo_sec (\<lambda>r. r) ?p demo_read demo_desk_access ''c1'' (demo_desk StatusPending)
      = (Done (claim_response (\<lambda>r. r) ?p x), d1)"
    using x(1) acc by (simp add: handleClaimDetail_def)
  have allowed: "StatusApproved \<in> set (dr_AllowedTransitions (claim_response (\<lambda>r. r) ?p x))"
    using x(2) by (simp add: claim_response_def Let_def CanTransition_def transitionError_def transitions_def AllStatuses_def)
  have "0 < dr_AmountKRW (claim_response (\<lambda>r. r) ?p x)" "0 \<le> dr_PaidAmountKrw (claim_response (\<lambda>r. r) ?p x)"
    using x(3,4) by (simp_all add: claim_response_def Let_def)
  from offered_buttons_work [OF page acc(2) this, of ?te Approve] page allowed show ?thesis by auto
qed

end
