(* ===== verification/Refund_Journey.thy ===== *)
theory Refund_Journey
  imports Http_Desk
begin

text \<open>
  One claim through all components: the form a customer sends (\<^verbatim>\<open>httpapi/public.go\<close>), the rows the
  store writes (\<^verbatim>\<open>store/claim.go\<close>), the link in the notice (\<^verbatim>\<open>httpapi/claimtoken.go\<close>), the guard that
  opens it (\<^verbatim>\<open>httpapi/auth.go\<close>), the page and the two decisions (\<^verbatim>\<open>httpapi/admin_claims.go\<close>).
\<close>

section \<open>What a filing leaves\<close>

text \<open>A filing that is answered with 201 has come all the way.\<close>

lemma handleCreateClaim_filed:
  assumes "handleCreateClaim sv e r w = ((Done (201, res), w'), notices)"
  shows "\<exists>f m info risk photos written cres.
    parseClaimForm (sv_upper sv) (sv_policy sv) (sv_parse sv) (rq_form r) = Inr f
    \<and> MachineByCode (pe_fail_machine e) (fo_machineCode f) (w_db w) = Inr (m, info)
    \<and> collectPhotos (rq_files r) = Inr photos \<and> length written = length photos
    \<and> rs_Status risk \<in> {StatusPending, StatusNeedsReview, StatusOnHold}
    \<and> CreateClaim (sv_sec sv) (pe_nonces e) (pe_attempts e) (claim_input sv e r m f risk written)
        (pe_between e (w_db w)) = (Inr cres, w_db w')
    \<and> \<not> cr_Existing cres \<and> cp_ID res = cr_ID cres
    \<and> notices = [claim_notice sv e cres m f risk (length written)]"
proof -
  from handleCreateClaim_cases [OF assms] obtain f m info photos w1 facts where
    front: "parseClaimForm (sv_upper sv) (sv_policy sv) (sv_parse sv) (rq_form r) = Inr f"
      "MachineByCode (pe_fail_machine e) (fo_machineCode f) (w_db w) = Inr (m, info)"
      "collectPhotos (rq_files r) = Inr photos" "w_db w1 = w_db w"
    and run: "store_claim sv e r m f (Evaluate facts (sv_policy sv)) photos w1 = ((Done (201, res), w'), notices)"
    by auto
  obtain ws ok disk1 where wr: "writePhotos (Put (sv_root sv)) (pe_put e) 0 photos (w_disk w1) = ((ws, ok), disk1)"
    by (metis surj_pair)
  obtain c d1 where cc: "CreateClaim (sv_sec sv) (pe_nonces e) (pe_attempts e)
      (claim_input sv e r m f (Evaluate facts (sv_policy sv)) ws) (pe_between e (w_db w)) = (c, d1)" by fastforce
  from run obtain cres where ok: "ok" "c = Inr cres" "\<not> cr_Existing cres" "cp_ID res = cr_ID cres" "w_db w' = d1"
    "notices = [claim_notice sv e cres m f (Evaluate facts (sv_policy sv)) (length ws)]"
    by (auto simp: store_claim_def wr cc front(4) Let_def internalError_def split: if_splits sum.splits)
  have "length ws = length photos"
    using arg_cong [OF written_all [OF wr [unfolded eqTrueI [OF ok(1)]]], of length] by simp
  with front ok cc Evaluate_status_cases show ?thesis by blast
qed

section \<open>A claim that can be read and decided on\<close>

definition readable :: "Sec \<Rightarrow> string \<Rightarrow> string \<Rightarrow> ClaimRow \<Rightarrow> db \<Rightarrow> bool" where
  "readable k s cid r d \<longleftrightarrow> find_claim s cid d = Some r \<and> find_machine (c_machine r) d \<noteq> None
     \<and> is_ok (Decrypt (sec_aead k) (c_phone_enc r)) \<and> is_ok (Decrypt (sec_aead k) (c_account_enc r))
     \<and> is_ok (Decrypt (sec_aead k) (c_holder_enc r))"

lemma readable_events: "readable k s cid r (d\<lparr>t_events := evs\<rparr>) = readable k s cid r d"
  by (simp add: readable_def find_claim_def find_machine_def)

lemma readable_read:
  assumes "readable k s cid r d" "\<And>i. \<not> fail i"
  shows "\<exists>x evs. ClaimByID k fail now at s cid by' d = (Inr x, d\<lparr>t_events := evs\<rparr>) \<and> cd_Claim x = claim_of r
    \<and> Decrypt (sec_aead k) (c_phone_enc r) = Inr (cd_Phone x) \<and> Decrypt (sec_aead k) (c_account_enc r) = Inr (cd_Account x)
    \<and> Decrypt (sec_aead k) (c_holder_enc r) = Inr (cd_Holder x) \<and> cd_BankCode x = c_bank r
    \<and> cd_Photos x = photosFor cid d \<and> (act_Kind by' = [] \<longrightarrow> evs = t_events d)"
proof -
  from assms(1) obtain m ph ac ho where r: "find_claim s cid d = Some r" "find_machine (c_machine r) d = Some m"
    "Decrypt (sec_aead k) (c_phone_enc r) = Inr ph" "Decrypt (sec_aead k) (c_account_enc r) = Inr ac"
    "Decrypt (sec_aead k) (c_holder_enc r) = Inr ho"
    by (auto simp: readable_def elim!: is_okE)
  have app: "\<exists>evs. snd (AppendEvent f ev d) = d\<lparr>t_events := evs\<rparr>" for f ev
    using insertEvent_db [of f ev d] by (auto simp: AppendEvent_def intro: exI [of _ "t_events d"])
  obtain evs where evs: "(if act_Kind by' = [] then d else snd (AppendEvent (fail 4) (NewEvent at cid by' ActionViewContact [] []
      (u8 [0xACC4, 0xC88C, 0xB7, 0xC5F0, 0xB77D, 0xCC98, 0x20, 0xC5F4, 0xB78C])) d)) = d\<lparr>t_events := evs\<rparr>"
    "act_Kind by' = [] \<longrightarrow> evs = t_events d"
    using app [of "fail 4"] by (cases "act_Kind by' = []") auto
  show ?thesis using r assms(2) evs unfolding ClaimByID_def Let_def
    by (auto split: prod.splits)
qed

lemma readable_decided:
  assumes r: "readable k (ac_store a) cid r d" and req: "valid_request act req (claim_of r)"
    and a: "act_Kind (ac_actor a) \<noteq> []" and paid: "0 \<le> coalesce (c_paid_amount r) 0"
    and calm: "\<And>i. \<not> te_fail_read te i" "\<And>i. \<not> te_fail_write te i" "te_commit_ok te" "te_between te = id"
  shows "\<exists>r' d'. transition k te a cid (Decoded req) (target act) (extra_of act) d = (Done (cid, target act), d')
    \<and> readable k (ac_store a) cid r' d' \<and> c_status r' = target act \<and> c_amount r' = c_amount r \<and> c_payment r' = c_payment r
    \<and> 0 \<le> coalesce (c_paid_amount r') 0
    \<and> (act = MarkPaid \<longrightarrow> c_paid_amount r' = Some (if tr_AmountKrw req = 0 then c_amount r else tr_AmountKrw req))"
proof -
  note rin = find_claim_in [of "ac_store a" cid d r]
  have find: "find_claim (ac_store a) cid d = Some r" using r by (simp add: readable_def)
  obtain x where x: "ClaimByID k (te_fail_read te) (te_db_now te) (te_now te) (ac_store a) cid no_actor d = (Inr x, d)"
    "cd_Claim x = claim_of r"
    using readable_read [where fail = "te_fail_read te" and by' = no_actor, OF r calm(1)] by (auto simp: no_actor_def)
  obtain c2 ev where dec: "decide (te_now te) a req (target act) (extra_of act) (claim_of r) = Inr (c2, ev)"
    "cl_ID c2 = c_id r" "cl_Status c2 = target act" "0 \<le> cl_PaidAmountKRW c2" "ev_From ev = c_status r" "ev_ClaimID ev = c_id r"
    "act = MarkPaid \<longrightarrow> cl_PaidAmountKRW c2 = (if tr_AmountKrw req = 0 then c_amount r else tr_AmountKrw req)"
    using decide_ok [OF req a, of "te_now te"] paid by (auto simp: claim_of_def)
  have m: "matches_update (ac_store a) c2 ev r" using dec rin [OF find] by (simp add: matches_update_def)
  have "te_fail_write te = (\<lambda>_. False)" using calm(2) by blast
  with commit_decision_ok [of r d a c2 ev] m dec rin [OF find]
  have cm: "commit_decision (te_fail_write te) True a c2 ev d = (Done (cid, target act), applied_db (ac_store a) c2 ev d)"
    by simp
  have "find_claim (ac_store a) cid (applied_db (ac_store a) c2 ev d) = Some (update_claim c2 ev r)"
    unfolding find_claim_def applied_db_def
    using find_map_if [where Q = "\<lambda>r. c_id r = cid \<and> c_store r = ac_store a" and P = "matches_update (ac_store a) c2 ev"
        and f = "update_claim c2 ev" and xs = "t_claims d"] find m
    by (simp add: find_claim_def update_claim_def)
  with r have "readable k (ac_store a) cid (update_claim c2 ev r) (applied_db (ac_store a) c2 ev d)"
    by (simp add: readable_def update_claim_def applied_db_def find_machine_def)
  moreover have "0 \<le> coalesce (c_paid_amount (update_claim c2 ev r)) 0"
    using dec(4) paid by (simp add: update_claim_def)
  moreover have "act = MarkPaid \<longrightarrow>
      c_paid_amount (update_claim c2 ev r) = Some (if tr_AmountKrw req = 0 then c_amount r else tr_AmountKrw req)"
    using dec(7) req by (auto simp: update_claim_def valid_request_def claim_of_def)
  ultimately show ?thesis
    using x cm calm(3,4) dec(1,3)
    by (intro exI [of _ "update_claim c2 ev r"] exI [of _ "applied_db (ac_store a) c2 ev d"])
      (simp add: transition_def update_claim_def)
qed

section \<open>From the form to the refund\<close>

text \<open>A visitor with nothing but the link, and a request that meets no trouble.\<close>

definition bearer :: "string \<Rightarrow> string \<Rightarrow> credentials" where
  "bearer token cid = \<lparr>cr_cookie = None, cr_header = [], cr_query = token, cr_path_id = cid\<rparr>"

definition calm :: "transition_env \<Rightarrow> bool" where
  "calm te \<longleftrightarrow> (\<forall>i. \<not> te_fail_read te i) \<and> (\<forall>i. \<not> te_fail_write te i) \<and> te_commit_ok te \<and> te_between te = id"

lemma bearer_opens:
  assumes "s \<noteq> []" "CHR '':'' \<notin> set s" "token_range (t0 + claimTokenTTL)" "t \<le> t0 + claimTokenTTL - Second"
  shows "claimScoped mac fail t next' (bearer (link_encode mac s cid (t0 + claimTokenTTL)) cid) d = next' (link_access s) d"
proof -
  have "link_decode mac (link_encode mac s cid (t0 + claimTokenTTL)) cid t = Inr s"
    using link_token.good_until [of s t0 claimTokenTTL t mac cid] assms by simp
  moreover have "link_encode mac s cid (t0 + claimTokenTTL) \<noteq> []" by (simp add: link_encode_def Let_def)
  ultimately show ?thesis
    by (simp add: claimScoped_def userFromSession_def bearer_def claimTokenFrom_def Let_def)
qed

lemma sealed_opens:
  assumes "sealed k nonce plain ct"
    and "\<And>n p. length n = NonceSize (sec_aead k) \<Longrightarrow> AEAD.Open (sec_aead k) n (Seal (sec_aead k) n p) = Some p"
    and "\<And>b. nonce = Some b \<Longrightarrow> length b = NonceSize (sec_aead k)"
  shows "Decrypt (sec_aead k) ct = Inr plain"
  using assms by (auto simp: sealed_def Encrypt_def Decrypt_def Let_def split: option.splits)

text \<open>The rows of a new claim, as the shop reads them.\<close>

lemma created_readable:
  assumes "d' = created_db e row photos d0" "c_id row \<notin> c_id ` set (t_claims d0)" "c_machine row \<in> mc_ID ` set (t_machines d0)"
    and "is_ok (Decrypt (sec_aead k) (c_phone_enc row))" "is_ok (Decrypt (sec_aead k) (c_account_enc row))"
      "is_ok (Decrypt (sec_aead k) (c_holder_enc row))"
  shows "readable k (c_store row) (c_id row) row d'" and "length photos \<le> length (photosFor (c_id row) d')"
proof -
  have "find (\<lambda>r. c_id r = c_id row \<and> c_store r = c_store row) (t_claims d0) = None"
    using assms(2) by (auto simp: find_None_iff) (metis image_eqI)
  then have "find_claim (c_store row) (c_id row) d' = Some row"
    by (simp add: assms(1) find_claim_def created_db_def find_append)
  moreover have "find_machine (c_machine row) d' \<noteq> None"
    using assms(3) by (auto simp: assms(1) find_machine_def created_db_def find_None_iff)
  ultimately show "readable k (c_store row) (c_id row) row d'" using assms(4-6) by (simp add: readable_def)
  have "filter (\<lambda>p. ph_claim p = c_id row) (map (photo_row e (c_id row)) (List.enumerate 0 photos))
      = map (photo_row e (c_id row)) (List.enumerate 0 photos)"
    by (auto simp: filter_id_conv photo_row_def split: prod.splits)
  then show "length photos \<le> length (photosFor (c_id row) d')"
    by (simp add: assms(1) photosFor_def created_db_def)
qed

lemma approve_then_pay:
  assumes r: "readable k (ac_store a) cid r d" and st: "c_status r \<in> {StatusPending, StatusNeedsReview, StatusOnHold}"
    and amount: "0 < c_amount r" "c_paid_amount r = None" and a: "act_Kind (ac_actor a) \<noteq> []"
    and calm: "calm te1" "calm te2"
  shows "\<exists>r' d2 d3. handleApprove k te1 a cid (Decoded empty_request) d = (Done (cid, StatusApproved), d2)
    \<and> handleMarkPaid k te2 a cid (Decoded (body_for MarkPaid (c_payment r))) d2 = (Done (cid, StatusPaid), d3)
    \<and> find_claim (ac_store a) cid d3 = Some r' \<and> c_status r' = StatusPaid \<and> c_paid_amount r' = Some (c_amount r)"
proof -
  have "valid_request Approve empty_request (claim_of r)"
    using st by (auto simp: valid_request_def claim_of_def transitions_def)
  with readable_decided [where te = te1, OF r _ a] amount calm(1) obtain r2 d2 where
    one: "transition k te1 a cid (Decoded empty_request) StatusApproved None d = (Done (cid, StatusApproved), d2)"
      "readable k (ac_store a) cid r2 d2" "c_status r2 = StatusApproved" "c_amount r2 = c_amount r" "c_payment r2 = c_payment r"
      "0 \<le> coalesce (c_paid_amount r2) 0"
    by (fastforce simp: calm_def)
  let ?b = "body_for MarkPaid (c_payment r)"
  have "valid_request MarkPaid ?b (claim_of r2)"
    using one amount by (auto simp: valid_request_def claim_of_def transitions_def method_ok_def body_for_def empty_request_def)
  with readable_decided [where te = te2, OF one(2) _ a one(6)] calm(2) obtain r3 d3 where
    two: "transition k te2 a cid (Decoded ?b) StatusPaid (Some mark_paid_extra) d2 = (Done (cid, StatusPaid), d3)"
      "readable k (ac_store a) cid r3 d3" "c_status r3 = StatusPaid" "c_paid_amount r3 = Some (c_amount r)"
    using one(4) by (fastforce simp: calm_def body_for_def empty_request_def)
  show ?thesis
    using one(1) two by (intro exI)
      (auto simp: handleApprove_def handleMarkPaid_def readable_def)
qed

text \<open>A filed claim with its notice: sealed with care, it is there to be read.\<close>

lemma filed_claim_rows:
  assumes filed: "handleCreateClaim sv e r w = ((Done (201, res), w'), notices)"
    and opens: "\<And>n p. length n = NonceSize (sec_aead (sv_sec sv)) \<Longrightarrow>
      AEAD.Open (sec_aead (sv_sec sv)) n (Seal (sec_aead (sv_sec sv)) n p) = Some p"
    and nonces: "\<And>b. Some b \<in> {fst (pe_nonces e), fst (snd (pe_nonces e)), snd (snd (pe_nonces e))} \<Longrightarrow>
      length b = NonceSize (sec_aead (sv_sec sv))"
  shows "\<exists>f m n row. parseClaimForm (sv_upper sv) (sv_policy sv) (sv_parse sv) (rq_form r) = Inr f
    \<and> m \<in> set (t_machines (w_db w)) \<and> notices = [n] \<and> cn_StoreID n = mc_StoreID m
    \<and> cn_URL n = claimLinkURL (sv_mac sv) (sv_base sv) (pe_now e) (mc_StoreID m) (cp_ID res)
    \<and> readable (sv_sec sv) (mc_StoreID m) (cp_ID res) row (w_db w')
    \<and> c_status row \<in> {StatusPending, StatusNeedsReview, StatusOnHold} \<and> 0 < c_amount row \<and> c_paid_amount row = None
    \<and> c_amount row = fo_amountKRW f \<and> c_bank row = fo_bankCode f \<and> c_payment row = fo_paymentMethod f
    \<and> Decrypt (sec_aead (sv_sec sv)) (c_phone_enc row) = Inr (fo_phone f)
    \<and> Decrypt (sec_aead (sv_sec sv)) (c_account_enc row) = Inr (fo_account f)
    \<and> Decrypt (sec_aead (sv_sec sv)) (c_holder_enc row) = Inr (fo_holder f)
    \<and> length (rq_files r) \<le> length (photosFor (cp_ID res) (w_db w'))"
proof -
  from handleCreateClaim_filed [OF filed] obtain f m info risk photos written cres where
    f: "parseClaimForm (sv_upper sv) (sv_policy sv) (sv_parse sv) (rq_form r) = Inr f"
    and m: "MachineByCode (pe_fail_machine e) (fo_machineCode f) (w_db w) = Inr (m, info)"
    and photos: "collectPhotos (rq_files r) = Inr photos" "length written = length photos"
    and risk: "rs_Status risk \<in> {StatusPending, StatusNeedsReview, StatusOnHold}"
    and cc: "CreateClaim (sv_sec sv) (pe_nonces e) (pe_attempts e) (claim_input sv e r m f risk written)
        (pe_between e (w_db w)) = (Inr cres, w_db w')" "\<not> cr_Existing cres" "cp_ID res = cr_ID cres"
    and notice: "notices = [claim_notice sv e cres m f risk (length written)]" by blast
  let ?i = "claim_input sv e r m f risk written" and ?k = "sv_sec sv"
  from CreateClaim_row [OF cc(1,2)] obtain at d0 row where
    row: "w_db w' = created_db at row (ci_Photos ?i) d0" "c_id row \<notin> c_id ` set (t_claims d0)"
      "c_machine row \<in> mc_ID ` set (t_machines d0)" "0 < c_amount row" "cr_ID cres = c_id row" "c_store row = mc_StoreID m"
      "c_amount row = fo_amountKRW f" "c_bank row = fo_bankCode f" "c_status row = rs_Status risk" "c_paid_amount row = None"
      "c_payment row = fo_paymentMethod f"
    and seals: "sealed ?k (fst (pe_nonces e)) (fo_phone f) (c_phone_enc row)"
      "sealed ?k (fst (snd (pe_nonces e))) (fo_account f) (c_account_enc row)"
      "sealed ?k (snd (snd (pe_nonces e))) (fo_holder f) (c_holder_enc row)"
    by (auto simp: claim_input_def)
  have plain: "Decrypt (sec_aead ?k) (c_phone_enc row) = Inr (fo_phone f)"
    "Decrypt (sec_aead ?k) (c_account_enc row) = Inr (fo_account f)" "Decrypt (sec_aead ?k) (c_holder_enc row) = Inr (fo_holder f)"
    using seals [THEN sealed_opens, OF opens] nonces by auto
  have "length (ci_Photos ?i) = length (rq_files r)"
    using photos arg_cong [OF collected_photos [OF photos(1)], of length] by (simp add: claim_input_def photoInputs_def)
  moreover have "m \<in> set (t_machines (w_db w))"
    using m by (auto simp: MachineByCode_def split: if_splits option.splits dest: find_Some_in)
  ultimately show ?thesis
    using f notice risk row(4,7-11) plain cc(3)
      created_readable [OF row(1-3), of ?k, unfolded row(6) row(5) [symmetric] cc(3) [symmetric]]
    by (intro exI [of _ f] exI [of _ m] exI [of _ "claim_notice sv e cres m f risk (length written)"] exI [of _ row])
      (simp add: claim_notice_def)
qed

lemma readable_page:
  assumes "readable k (ac_store a) cid r d" "\<And>i. \<not> rd_fail ev i"
    and "Decrypt (sec_aead k) (c_phone_enc r) = Inr phone" "Decrypt (sec_aead k) (c_account_enc r) = Inr account"
      "Decrypt (sec_aead k) (c_holder_enc r) = Inr holder"
  shows "\<exists>page evs. handleClaimDetail k uc policy ev a cid d = (Done page, d\<lparr>t_events := evs\<rparr>)
    \<and> dr_AmountKRW page = c_amount r \<and> dr_Phone page = phone \<and> dr_BankCode page = c_bank r \<and> dr_AccountNo page = account
    \<and> dr_Holder page = holder \<and> length (dr_PhotoIDs page) = length (photosFor cid d)"
proof -
  obtain x evs where x: "ClaimByID k (rd_fail ev) (rd_db_now ev) (rd_now ev) (ac_store a) cid (ac_actor a) d
      = (Inr x, d\<lparr>t_events := evs\<rparr>)" "cd_Claim x = claim_of r" "cd_BankCode x = c_bank r"
    "cd_Phone x = phone" "cd_Account x = account" "cd_Holder x = holder" "cd_Photos x = photosFor cid d"
    using readable_read [where fail = "rd_fail ev" and by' = "ac_actor a", OF assms(1,2)] assms(3-5) by fastforce
  then show ?thesis
    by (intro exI [of _ "claim_response uc policy x"] exI [of _ evs])
      (simp add: handleClaimDetail_def claim_response_def Let_def claim_of_def)
qed

text \<open>
  C3. From the form to the refund. Whenever a filing is answered with 201, one notice goes out, and the
  link in it is enough to see the claim through: with that link alone, no account and no session,
  the page of the claim opens and shows the amount, phone number, bank, account and name exactly
  as the form had them and at least as many photos as were sent; then an approval that says nothing
  else goes through, and then a payment that names only how it was paid, after which the row is paid
  with the amount claimed. All of it within seven days less a second of the filing, with a database
  that answers and nobody else at work on the claim.
\<close>

theorem filed_claim_gets_refunded:
  assumes filed: "handleCreateClaim sv e r w = ((Done (201, res), w'), notices)"
    and opens: "\<And>n p. length n = NonceSize (sec_aead (sv_sec sv)) \<Longrightarrow>
      AEAD.Open (sec_aead (sv_sec sv)) n (Seal (sec_aead (sv_sec sv)) n p) = Some p"
    and nonces: "\<And>b. Some b \<in> {fst (pe_nonces e), fst (snd (pe_nonces e)), snd (snd (pe_nonces e))} \<Longrightarrow>
      length b = NonceSize (sec_aead (sv_sec sv))"
    and shops: "\<forall>m \<in> set (t_machines (w_db w)). mc_StoreID m \<noteq> [] \<and> CHR '':'' \<notin> set (mc_StoreID m)"
    and clock: "token_range (pe_now e + claimTokenTTL)" "max t (max t1 t2) \<le> pe_now e + claimTokenTTL - Second"
    and calm: "\<And>i. \<not> rd_fail ev i" "calm te1" "calm te2"
  shows "\<exists>n token f page d1 d2 d3 row. notices = [n]
    \<and> cn_URL n = TrimRightSlash (sv_base sv) @ ''/admin/claims/'' @ cp_ID res @ ''?t='' @ token
    \<and> parseClaimForm (sv_upper sv) (sv_policy sv) (sv_parse sv) (rq_form r) = Inr f
    \<and> claimScoped (sv_mac sv) fail t (\<lambda>a. handleClaimDetail (sv_sec sv) uc policy ev a (cp_ID res))
        (bearer token (cp_ID res)) (w_db w') = (Done page, d1)
    \<and> dr_AmountKRW page = fo_amountKRW f \<and> dr_Phone page = fo_phone f \<and> dr_BankCode page = fo_bankCode f
    \<and> dr_AccountNo page = fo_account f \<and> dr_Holder page = fo_holder f \<and> length (rq_files r) \<le> length (dr_PhotoIDs page)
    \<and> claimScoped (sv_mac sv) fail t1 (\<lambda>a. handleApprove (sv_sec sv) te1 a (cp_ID res) (Decoded empty_request))
        (bearer token (cp_ID res)) d1 = (Done (cp_ID res, StatusApproved), d2)
    \<and> claimScoped (sv_mac sv) fail t2 (\<lambda>a. handleMarkPaid (sv_sec sv) te2 a (cp_ID res)
          (Decoded (body_for MarkPaid (fo_paymentMethod f))))
        (bearer token (cp_ID res)) d2 = (Done (cp_ID res, StatusPaid), d3)
    \<and> find_claim (cn_StoreID n) (cp_ID res) d3 = Some row \<and> c_status row = StatusPaid
    \<and> c_paid_amount row = Some (fo_amountKRW f)"
proof -
  let ?k = "sv_sec sv" and ?w = "w_db w'" and ?id = "cp_ID res"
  obtain f m n row where
    f: "parseClaimForm (sv_upper sv) (sv_policy sv) (sv_parse sv) (rq_form r) = Inr f"
    and m: "m \<in> set (t_machines (w_db w))" and n: "notices = [n]" "cn_StoreID n = mc_StoreID m"
      "cn_URL n = claimLinkURL (sv_mac sv) (sv_base sv) (pe_now e) (mc_StoreID m) ?id"
    and row: "readable ?k (mc_StoreID m) ?id row ?w" "c_status row \<in> {StatusPending, StatusNeedsReview, StatusOnHold}"
      "0 < c_amount row" "c_paid_amount row = None" "c_amount row = fo_amountKRW f" "c_bank row = fo_bankCode f"
      "c_payment row = fo_paymentMethod f"
    and plain: "Decrypt (sec_aead ?k) (c_phone_enc row) = Inr (fo_phone f)"
      "Decrypt (sec_aead ?k) (c_account_enc row) = Inr (fo_account f)" "Decrypt (sec_aead ?k) (c_holder_enc row) = Inr (fo_holder f)"
    and files: "length (rq_files r) \<le> length (photosFor ?id ?w)"
    using filed_claim_rows [OF filed opens nonces] by blast
  let ?s = "mc_StoreID m" let ?a = "link_access ?s"
  let ?b = "Decoded (body_for MarkPaid (fo_paymentMethod f))"
  define token where "token = link_encode (sv_mac sv) ?s ?id (pe_now e + claimTokenTTL)"
  have opened: "claimScoped (sv_mac sv) fail u next' (bearer token ?id) d = next' ?a d"
    if "u \<le> max t (max t1 t2)" for u d and next' :: "'z handler"
    unfolding token_def using bearer_opens [of ?s "pe_now e" u] shops m clock that by auto
  have able: "readable ?k (ac_store ?a) ?id row ?w" using row(1) by (simp add: link_access_def)
  obtain page evs where page: "handleClaimDetail ?k uc policy ev ?a ?id ?w = (Done page, ?w\<lparr>t_events := evs\<rparr>)"
    and shown: "dr_AmountKRW page = c_amount row" "dr_Phone page = fo_phone f" "dr_BankCode page = c_bank row"
      "dr_AccountNo page = fo_account f" "dr_Holder page = fo_holder f" "length (dr_PhotoIDs page) = length (photosFor ?id ?w)"
    using readable_page [OF able calm(1) plain] by blast
  obtain r' d2 d3 where
    decided: "handleApprove ?k te1 ?a ?id (Decoded empty_request) (?w\<lparr>t_events := evs\<rparr>) = (Done (?id, StatusApproved), d2)"
      "handleMarkPaid ?k te2 ?a ?id ?b d2 = (Done (?id, StatusPaid), d3)"
      "find_claim (ac_store ?a) ?id d3 = Some r'" "c_status r' = StatusPaid" "c_paid_amount r' = Some (c_amount row)"
    using approve_then_pay [of ?k ?a ?id row "?w\<lparr>t_events := evs\<rparr>", OF _ row(2-4) _ calm(2,3)] able
    unfolding row(7) by (auto simp: readable_events link_access_def ActorLink_def)
  have found: "find_claim ?s ?id d3 = Some r'" using decided(3) by (simp add: link_access_def)
  note via = opened [of t "\<lambda>a. handleClaimDetail ?k uc policy ev a ?id"]
    opened [of t1 "\<lambda>a. handleApprove ?k te1 a ?id (Decoded empty_request)"] opened [of t2 "\<lambda>a. handleMarkPaid ?k te2 a ?id ?b"]
  show ?thesis
    by (rule exI [of _ n], rule exI [of _ token], rule exI [of _ f], rule exI [of _ page],
        rule exI [of _ "?w\<lparr>t_events := evs\<rparr>"], rule exI [of _ d2],
        rule exI [of _ d3], rule exI [of _ r'])
      (use files in \<open>simp add: n claimLinkURL_def token_def [symmetric] via page shown decided found f row(5,6)\<close>)
qed

definition demo_change :: transition_env where
  "demo_change = \<lparr>te_fail_read = (\<lambda>_. False), te_db_now = 0, te_between = id, te_now = 0,
     te_fail_write = (\<lambda>_. False), te_commit_ok = True\<rparr>"

lemma filed_claim_gets_refunded_witness:
  "\<exists>res w' n token page d1 d2 d3 row.
    handleCreateClaim demo_server demo_public_env (demo_request ''k'') demo_world = ((Done (201, res), w'), [n])
    \<and> cn_URL n = ''http://x/admin/claims/'' @ cp_ID res @ ''?t='' @ token
    \<and> claimScoped rev False 0 (\<lambda>a. handleClaimDetail demo_sec (\<lambda>n. n) DefaultPolicy demo_read a (cp_ID res))
        (bearer token (cp_ID res)) (w_db w') = (Done page, d1)
    \<and> dr_AmountKRW page = 3000 \<and> dr_AccountNo page = ''110123456789'' \<and> 1 \<le> length (dr_PhotoIDs page)
    \<and> claimScoped rev False 0 (\<lambda>a. handleApprove demo_sec demo_change a (cp_ID res) (Decoded empty_request))
        (bearer token (cp_ID res)) d1 = (Done (cp_ID res, StatusApproved), d2)
    \<and> claimScoped rev False 0 (\<lambda>a. handleMarkPaid demo_sec demo_change a (cp_ID res) (Decoded (body_for MarkPaid ''cash'')))
        (bearer token (cp_ID res)) d2 = (Done (cp_ID res, StatusPaid), d3)
    \<and> find_claim (cn_StoreID n) (cp_ID res) d3 = Some row \<and> c_status row = StatusPaid \<and> c_paid_amount row = Some 3000"
proof -
  obtain res w' notices where run: "handleCreateClaim demo_server demo_public_env (demo_request ''k'') demo_world
      = ((Done (201, res), w'), notices)" using demo_filed by blast
  have env: "sv_sec demo_server = demo_sec" "sv_mac demo_server = rev" "sv_base demo_server = ''http://x''"
    "pe_now demo_public_env = 0" "rq_form (demo_request ''k'') = demo_form" "rq_files (demo_request ''k'') = [demo_upload]"
    by (simp_all add: demo_server_def demo_public_env_def demo_request_def)
  have calm: "calm demo_change" "\<And>i. \<not> rd_fail demo_read i" by (simp_all add: calm_def demo_change_def demo_read_def)
  have hours: "token_range (pe_now demo_public_env + claimTokenTTL)"
    "max 0 (max 0 0) \<le> pe_now demo_public_env + claimTokenTTL - Second"
    by (simp_all add: env token_range_def claimTokenTTL_def Hour_def Minute_def Second_def)
  have aead: "NonceSize (sec_aead demo_sec) = 2"
    "\<And>n p. length n = 2 \<Longrightarrow> AEAD.Open (sec_aead demo_sec) n (Seal (sec_aead demo_sec) n p) = Some p"
    by (simp_all add: demo_sec_def demo_aead_def)
  have bytes: "length b = 2" if "Some b \<in> {fst (pe_nonces demo_public_env), fst (snd (pe_nonces demo_public_env)),
      snd (snd (pe_nonces demo_public_env))}" for b
    using that by (auto simp: demo_public_env_def)
  have shops: "\<forall>m \<in> set (t_machines (w_db demo_world)). mc_StoreID m \<noteq> [] \<and> CHR '':'' \<notin> set (mc_StoreID m)"
    by (simp add: demo_world_def demo_db_def)
  have form: "parseClaimForm (sv_upper demo_server) (sv_policy demo_server) (sv_parse demo_server) demo_form = Inr f
    \<longleftrightarrow> f = empty_form\<lparr>fo_machineCode := ''ABCDEF'', fo_issueType := ''cash_eaten'', fo_paymentMethod := ''cash'',
      fo_amountKRW := 3000, fo_phone := ''01012345678'', fo_bankCode := ''088'', fo_account := ''110123456789'',
      fo_holder := ''Kim''\<rparr>" for f
    unfolding demo_form_ok by auto
  have base: "TrimRightSlash ''http://x'' = ''http://x''" by (simp add: TrimRightSlash_def)
  note filed_claim_gets_refunded [OF run, unfolded env, OF aead(2) [folded aead(1)] bytes [folded aead(1)] shops
      hours [unfolded env] calm(2) calm(1) calm(1), where fail = False and uc = "\<lambda>n. n" and policy = DefaultPolicy]
  from this [unfolded form base] show ?thesis using run by fastforce
qed

end
