(* ===== verification/Store_Stats.thy ===== *)
theory Store_Stats
  imports Store_Machines
begin

text \<open>
  The counts a shop looks at: daily numbers and the digest (\<^verbatim>\<open>internal/store/stats.go\<close>), the
  settlement of a period (\<^verbatim>\<open>internal/store/settlement.go\<close>) and the home screen
  (\<^verbatim>\<open>internal/store/home.go\<close>). \<open>z\<close> is the time zone of the database session.
\<close>

section \<open>Counting claims\<close>

definition count_of :: "('a \<Rightarrow> bool) \<Rightarrow> 'a list \<Rightarrow> int" where
  "count_of P xs = int (length (filter P xs))"

definition between :: "instant \<Rightarrow> instant \<Rightarrow> ClaimRow \<Rightarrow> bool" where
  "between a b r \<longleftrightarrow> a \<le> c_created r \<and> c_created r < b"

text \<open>\<open>SUM(amount_krw) FILTER (WHERE status = \<dots>)\<close>: what was asked for.\<close>

definition asked_sum :: "Status \<Rightarrow> ClaimRow list \<Rightarrow> int" where
  "asked_sum st rs = sum_list (map c_amount (filter (\<lambda>r. c_status r = st) rs))"

definition claims_of :: "string \<Rightarrow> db \<Rightarrow> ClaimRow list" where
  "claims_of storeID d = filter (\<lambda>r. c_store r = storeID) (t_claims d)"

lemma count_of_split: "count_of P xs = count_of (\<lambda>x. P x \<and> Q x) xs + count_of (\<lambda>x. P x \<and> \<not> Q x) xs"
  by (induction xs) (simp_all add: count_of_def)

lemma count_of_filter: "count_of P (filter Q xs) = count_of (\<lambda>x. Q x \<and> P x) xs"
  by (simp add: count_of_def)

lemma count_of_nonneg [simp]: "0 \<le> count_of P xs"
  by (simp add: count_of_def)

lemma count_of_pos: "0 < count_of P xs \<longleftrightarrow> (\<exists>x \<in> set xs. P x)"
  by (induction xs) (auto simp: count_of_def)

section \<open>Daily numbers\<close>

text \<open>A day of the calendar, as \<open>to_char(d, 'YYYY-MM-DD')\<close> writes it.\<close>

definition day_text :: "int \<Rightarrow> string" where
  "day_text n = (case civil_from_days n of (y, m, d) \<Rightarrow> pad 4 y @ ''-'' @ pad 2 m @ ''-'' @ pad 2 d)"

record DailyStat =
  dy_Day :: string
  dy_ClaimCount :: int
  dy_PaidCount :: int
  dy_PaidTotalKRW :: int

text \<open>The days run from the date of \<open>from\<close> to the one of \<open>to\<close>, both read in the caller's zone.\<close>

definition DailyStats ::
  "zone \<Rightarrow> zone \<Rightarrow> bool \<Rightarrow> string \<Rightarrow> instant \<Rightarrow> instant \<Rightarrow> db \<Rightarrow> (db_error, DailyStat list) result" where
  "DailyStats z caller fail storeID from to d =
    (if fail then Inl DbFailure
     else Inr (map (\<lambda>day. let rs = filter (\<lambda>r. local_days z (c_created r) = day) (claims_of storeID d)
         in \<lparr>dy_Day = day_text day, dy_ClaimCount = int (length rs),
             dy_PaidCount = count_of (\<lambda>r. c_status r = StatusPaid) rs, dy_PaidTotalKRW = paid_sum rs\<rparr>)
       [local_days caller from .. local_days caller to]))"

section \<open>Busy machines\<close>

record MachineActivity =
  mx_MachineID :: string
  mx_Label :: string
  mx_StoreID :: string
  mx_Count :: int
  mx_ByIssue :: "IssueType \<rightharpoonup> int"

definition activity :: "ClaimRow list \<Rightarrow> Machine \<Rightarrow> MachineActivity" where
  "activity recent m =
    (let rs = filter (\<lambda>r. c_machine r = mc_ID m) recent
     in \<lparr>mx_MachineID = mc_ID m, mx_Label = mc_Label m, mx_StoreID = mc_StoreID m,
         mx_Count = int (length rs),
         mx_ByIssue = (\<lambda>i. if i \<in> c_issue ` set rs then Some (count_of (\<lambda>r. c_issue r = i) rs) else None)\<rparr>)"

text \<open>
  The rows of the query are gathered in a Go map, whose order is random: \<open>shuffle\<close> is the
  order of this run.
\<close>

definition MachinesOverThreshold ::
  "bool \<Rightarrow> (MachineActivity list \<Rightarrow> MachineActivity list) \<Rightarrow> int \<Rightarrow> instant \<Rightarrow> db
     \<Rightarrow> (db_error, MachineActivity list) result" where
  "MachinesOverThreshold fail shuffle threshold now d =
    (let recent = filter (\<lambda>r. now - 24 * Hour \<le> c_created r) (t_claims d)
     in if fail then Inl DbFailure
        else Inr (filter (\<lambda>a. threshold \<le> mx_Count a) (shuffle (map (activity recent)
          (filter (\<lambda>m. mc_ID m \<in> c_machine ` set recent) (t_machines d))))))"

section \<open>The digest of a day\<close>

record MachineCount =
  mk_Label :: string
  mk_Count :: int

record DigestRow =
  dg_StoreID :: string
  dg_ClaimCount :: int
  dg_PaidCount :: int
  dg_PaidTotalKRW :: int
  dg_TopMachines :: "MachineCount list"

text \<open>The labels with the most claims; among equals the order of the database is the table's.\<close>

definition topMachines :: "string \<Rightarrow> instant \<Rightarrow> instant \<Rightarrow> nat \<Rightarrow> db \<Rightarrow> MachineCount list" where
  "topMachines storeID start stop n d =
    (let labels = List.map_filter (\<lambda>r. map_option mc_Label (find_machine (c_machine r) d))
           (filter (between start stop) (claims_of storeID d))
     in take n (sort_key (\<lambda>mc. - mk_Count mc)
          (map (\<lambda>l. \<lparr>mk_Label = l, mk_Count = count_of (\<lambda>x. x = l) labels\<rparr>) (remdups labels))))"

definition digest_row :: "instant \<Rightarrow> instant \<Rightarrow> db \<Rightarrow> string \<Rightarrow> DigestRow" where
  "digest_row start stop d storeID =
    (let rs = filter (between start stop) (claims_of storeID d)
     in \<lparr>dg_StoreID = storeID, dg_ClaimCount = int (length rs),
         dg_PaidCount = count_of (\<lambda>r. c_status r = StatusPaid) rs, dg_PaidTotalKRW = paid_sum rs,
         dg_TopMachines = topMachines storeID start stop 3 d\<rparr>)"

text \<open>One row for every store with a claim on the day of \<open>day\<close> in its zone.\<close>

definition DailyDigest :: "zone \<Rightarrow> (nat \<Rightarrow> bool) \<Rightarrow> instant \<Rightarrow> db \<Rightarrow> (db_error, DigestRow list) result" where
  "DailyDigest zone fail day d =
    (let start = day_start zone day; stop = start + 24 * Hour;
         stores = remdups (map c_store (filter (between start stop) (t_claims d)))
     in if fail 0 \<or> list_ex (\<lambda>i. fail (Suc i)) [0 ..< length stores] then Inl DbFailure
        else Inr (map (digest_row start stop d) stores))"

section \<open>Photos past their time\<close>

definition ExpiredPhotos :: "bool \<Rightarrow> instant \<Rightarrow> nat \<Rightarrow> db \<Rightarrow> (db_error, PhotoRow list) result" where
  "ExpiredPhotos fail now limit d =
    (if fail then Inl DbFailure
     else Inr (take limit (sort_key ph_expires (filter (\<lambda>p. ph_expires p \<le> now) (t_photos d)))))"

definition DeletePhotoRow :: "bool \<Rightarrow> string \<Rightarrow> unit sql" where
  "DeletePhotoRow fail pid d =
    (if fail then (Inl DbFailure, d)
     else (Inr (), d\<lparr>t_photos := filter (\<lambda>p. ph_id p \<noteq> pid) (t_photos d)\<rparr>))"

section \<open>The settlement of a period\<close>

record SettlementDay =
  sy_Day :: instant
  sy_ClaimCount :: int
  sy_PaidTotalKRW :: int

record SettlementMachine =
  sx_MachineID :: string
  sx_Label :: string
  sx_ClaimCount :: int
  sx_PaidTotalKRW :: int
  sx_NeedsCheck :: bool

record Settlement =
  se_From :: instant
  se_To :: instant
  se_PrevFrom :: instant
  se_PrevTo :: instant
  se_ClaimCount :: int
  se_PaidCount :: int
  se_PaidTotalKRW :: int
  se_PrevClaimCount :: int
  se_PrevPaidCount :: int
  se_PrevPaidTotalKRW :: int
  se_Days :: "SettlementDay list"
  se_Machines :: "SettlementMachine list"
  se_PaidByCash :: int
  se_PaidByCard :: int
  se_RejectedCount :: int
  se_OpenCount :: int

text \<open>The query by day, one row per local midnight of the session.\<close>

definition day_rows :: "zone \<Rightarrow> ClaimRow list \<Rightarrow> SettlementDay list" where
  "day_rows z rs = map (\<lambda>g. let own = filter (\<lambda>r. day_start z (c_created r) = g) rs
       in \<lparr>sy_Day = g, sy_ClaimCount = int (length own), sy_PaidTotalKRW = asked_sum StatusPaid own\<rparr>)
     (remdups (map (\<lambda>r. day_start z (c_created r)) rs))"

text \<open>The loop over the days of the period.\<close>

function day_run :: "instant \<Rightarrow> instant \<Rightarrow> instant list" where
  "day_run d stop = (if d < stop then d # day_run (AddDays 1 d) stop else [])"
  by pat_completeness auto
termination
  by (relation "measure (\<lambda>(d, stop). nat (stop - d))") (auto simp: AddDays_def duration_defs)

declare day_run.simps [simp del]

definition fill_days :: "SettlementDay list \<Rightarrow> instant list \<Rightarrow> SettlementDay list" where
  "fill_days rows days = map (\<lambda>d. case find (\<lambda>row. TruncateDay (sy_Day row) = TruncateDay d) (rev rows) of
       Some row \<Rightarrow> row\<lparr>sy_Day := d\<rparr>
     | None \<Rightarrow> \<lparr>sy_Day = d, sy_ClaimCount = 0, sy_PaidTotalKRW = 0\<rparr>) days"

definition settlement_machine :: "int \<Rightarrow> instant \<Rightarrow> instant \<Rightarrow> db \<Rightarrow> Machine \<Rightarrow> SettlementMachine" where
  "settlement_machine alertCount a b d m =
    (let rs = filter (\<lambda>r. c_machine r = mc_ID m \<and> between a b r) (t_claims d)
     in \<lparr>sx_MachineID = mc_ID m, sx_Label = mc_Label m, sx_ClaimCount = int (length rs),
         sx_PaidTotalKRW = asked_sum StatusPaid rs,
         sx_NeedsCheck = (0 < alertCount \<and> alertCount \<le> int (length rs))\<rparr>)"

text \<open>\<open>fail\<close> numbers the three queries.\<close>

definition SettlementFor ::
  "zone \<Rightarrow> (nat \<Rightarrow> bool) \<Rightarrow> string \<Rightarrow> instant \<Rightarrow> instant \<Rightarrow> int \<Rightarrow> db \<Rightarrow> (db_error, Settlement) result" where
  "SettlementFor z fail storeID from to alertCount d =
    (let fromD = TruncateDay from; toD = TruncateDay to + 24 * Hour; span = toD - fromD;
         prevFrom = fromD - span; rs = claims_of storeID d;
         now' = filter (between fromD toD) rs; before = filter (between prevFrom fromD) rs
     in if fail 0 \<or> fail 1 \<or> fail 2 then Inl DbFailure
        else Inr \<lparr>se_From = fromD, se_To = toD - 1, se_PrevFrom = prevFrom, se_PrevTo = fromD - 1,
          se_ClaimCount = int (length now'), se_PaidCount = count_of (\<lambda>r. c_status r = StatusPaid) now',
          se_PaidTotalKRW = asked_sum StatusPaid now',
          se_PrevClaimCount = int (length before), se_PrevPaidCount = count_of (\<lambda>r. c_status r = StatusPaid) before,
          se_PrevPaidTotalKRW = asked_sum StatusPaid before,
          se_Days = fill_days (day_rows z now') (day_run fromD toD),
          se_Machines = sort_key (\<lambda>x. (- sx_PaidTotalKRW x, - sx_ClaimCount x, sx_Label x))
            (map (settlement_machine alertCount fromD toD d)
              (filter (\<lambda>m. mc_StoreID m = storeID \<and> mc_Active m) (t_machines d))),
          se_PaidByCash = count_of (\<lambda>r. c_status r = StatusPaid \<and> c_payment r = PaymentCash) now',
          se_PaidByCard = count_of (\<lambda>r. c_status r = StatusPaid \<and> c_payment r = PaymentCard) now',
          se_RejectedCount = count_of (\<lambda>r. c_status r = StatusRejected) now',
          se_OpenCount = count_of (\<lambda>r. c_status r \<in> {StatusPending, StatusNeedsReview, StatusOnHold}) now'\<rparr>)"

definition SettlementRange :: "zone \<Rightarrow> string \<Rightarrow> instant \<Rightarrow> instant \<times> instant" where
  "SettlementRange z period now =
    (case Date z now of (y, m, d) \<Rightarrow>
      (let today = midnight z y m d
       in if period = ''month'' then (midnight z y m 1, today)
          else if period = ''last_month'' then (midnight z y (m - 1) 1, AddDays (- 1) (midnight z y m 1))
          else (AddDays (- ((Weekday z today + 6) mod 7)) today, today)))"

section \<open>The home screen\<close>

record HomeSummary =
  hs_Pending :: int
  hs_NeedsReview :: int
  hs_OnHold :: int
  hs_Approved :: int
  hs_ApprovedAmountKRW :: int
  hs_OldestApprovedAt :: instant
  hs_StaleOnHold :: int
  hs_TodayClaims :: int
  hs_TodayPaid :: int
  hs_TodayPaidKRW :: int

text \<open>The first approval still waiting for its money, from the audit log.\<close>

definition approvals_waiting :: "string \<Rightarrow> db \<Rightarrow> instant list" where
  "approvals_waiting storeID d = map ev_At (filter (\<lambda>e. ev_To e = StatusApproved
     \<and> ev_ClaimID e \<in> c_id ` set (filter (\<lambda>r. c_status r = StatusApproved) (claims_of storeID d))) (t_events d))"

definition least_of :: "instant list \<Rightarrow> instant option" where
  "least_of ts = (if ts = [] then None else Some (Min (set ts)))"

definition HomeSummaryFor :: "zone \<Rightarrow> (nat \<Rightarrow> bool) \<Rightarrow> string \<Rightarrow> instant \<Rightarrow> db \<Rightarrow> (db_error, HomeSummary) result" where
  "HomeSummaryFor zone fail storeID now d =
    (let rs = claims_of storeID d; dayStart = day_start zone now;
         n = (\<lambda>st. count_of (\<lambda>r. c_status r = st) rs);
         paidToday = filter (\<lambda>r. c_status r = StatusPaid
           \<and> (case c_paid_at r of None \<Rightarrow> False | Some t \<Rightarrow> dayStart \<le> t)) rs
     in if fail 0 \<or> 0 < n StatusApproved \<and> fail 1 then Inl DbFailure
        else Inr \<lparr>hs_Pending = n StatusPending, hs_NeedsReview = n StatusNeedsReview,
          hs_OnHold = n StatusOnHold, hs_Approved = n StatusApproved,
          hs_ApprovedAmountKRW = asked_sum StatusApproved rs,
          hs_OldestApprovedAt = (if 0 < n StatusApproved then deref (least_of (approvals_waiting storeID d)) else zero_time),
          hs_StaleOnHold = count_of (\<lambda>r. c_status r = StatusOnHold \<and> c_created r < now - 24 * Hour) rs,
          hs_TodayClaims = count_of (\<lambda>r. dayStart \<le> c_created r) rs,
          hs_TodayPaid = int (length paidToday), hs_TodayPaidKRW = paid_sum paidToday\<rparr>)"

record MachineAlert =
  al_MachineID :: string
  al_Label :: string
  al_Count :: int

definition MachineAlertsFor :: "bool \<Rightarrow> string \<Rightarrow> int \<Rightarrow> instant \<Rightarrow> db \<Rightarrow> (db_error, MachineAlert list) result" where
  "MachineAlertsFor fail storeID threshold now d =
    (let recent = filter (\<lambda>r. now - 24 * Hour \<le> c_created r) (claims_of storeID d);
         n = (\<lambda>m. count_of (\<lambda>r. c_machine r = mc_ID m) recent)
     in if fail then Inl DbFailure
        else Inr (sort_key (\<lambda>a. - al_Count a) (map (\<lambda>m. \<lparr>al_MachineID = mc_ID m, al_Label = mc_Label m, al_Count = n m\<rparr>)
          (filter (\<lambda>m. 0 < n m \<and> threshold \<le> n m) (t_machines d)))))"

section \<open>The settlement adds up\<close>

lemma sum_by_key:
  assumes "distinct ds" "\<forall>x \<in> set xs. k x \<in> set ds"
  shows "(\<Sum>d\<leftarrow>ds. sum_list (map f (filter (\<lambda>x. k x = d) xs))) = (sum_list (map f xs) :: int)"
  using assms(2)
proof (induction xs)
  case (Cons x xs)
  have "(\<Sum>d\<leftarrow>ds. sum_list (map f (filter (\<lambda>x. k x = d) (x # xs))))
      = (\<Sum>d\<leftarrow>ds. (if d = k x then f x else 0) + sum_list (map f (filter (\<lambda>x. k x = d) xs)))"
    by (rule arg_cong [where f = sum_list]) (auto intro: map_cong)
  also have "\<dots> = (\<Sum>d\<leftarrow>ds. if d = k x then f x else 0) + sum_list (map f xs)"
    using Cons by (simp add: sum_list_addf)
  also have "(\<Sum>d\<leftarrow>ds. if d = k x then f x else 0) = f x"
    using Cons.prems assms(1) by (simp add: sum_list_distinct_conv_sum_set sum.delta)
  finally show ?case by simp
qed simp

lemma count_by_key:
  assumes "distinct ds" "\<forall>x \<in> set xs. k x \<in> set ds"
  shows "(\<Sum>d\<leftarrow>ds. int (length (filter (\<lambda>x. k x = d) xs))) = int (length xs)"
proof -
  have n: "sum_list (map (\<lambda>_. 1) ys) = int (length ys)" for ys :: "'b list" by (induction ys) simp_all
  show ?thesis using sum_by_key [OF assms, of "\<lambda>_. 1"] by (simp only: n)
qed

lemma asked_sum_by_key:
  assumes "distinct ds" "\<forall>x \<in> set xs. k x \<in> set ds"
  shows "(\<Sum>d\<leftarrow>ds. asked_sum st (filter (\<lambda>x. k x = d) xs)) = asked_sum st xs"
proof -
  have a: "asked_sum st ys = sum_list (map (\<lambda>r. if c_status r = st then c_amount r else 0) ys)" for ys
    by (induction ys) (simp_all add: asked_sum_def)
  show ?thesis unfolding a using assms by (rule sum_by_key)
qed

lemma TruncateDay_multiple: "TruncateDay t mod Day = 0" "TruncateDay t \<le> t" "t < TruncateDay t + Day"
  "t mod Day = 0 \<Longrightarrow> TruncateDay t = t"
  by (simp_all add: TruncateDay_def duration_defs)

lemma day_start_UTC: "day_start UTC t = TruncateDay t"
  by (simp add: day_start_def local_days_def UTC_def TruncateDay_def minus_mod_eq_div_mult)

lemma day_run_days:
  assumes "a mod Day = 0" "b mod Day = 0"
  shows "set (day_run a b) = {d. a \<le> d \<and> d < b \<and> d mod Day = 0}" and "distinct (day_run a b)"
proof -
  have "set (day_run a b) = {d. a \<le> d \<and> d < b \<and> d mod Day = 0} \<and> distinct (day_run a b)"
    using assms
  proof (induction a b rule: day_run.induct)
    case (1 a b)
    show ?case
    proof (cases "a < b")
      case False
      then show ?thesis by (subst day_run.simps) (auto simp: day_run.simps)
    next
      case True
      have next_day: "AddDays 1 a mod Day = 0" using 1(2) by (simp add: AddDays_def)
      have IH: "set (day_run (AddDays 1 a) b) = {d. AddDays 1 a \<le> d \<and> d < b \<and> d mod Day = 0}"
        "distinct (day_run (AddDays 1 a) b)" using 1(1) [OF True next_day 1(3)] by simp_all
      have gap: "d = a \<or> AddDays 1 a \<le> d" if "a \<le> d" "Day dvd d" for d
      proof -
        from that(2) 1(2) have "Day dvd d - a" using dvd_diff [of Day d a] by (simp add: mod_eq_0_iff_dvd)
        then obtain q where "d - a = Day * q" by (rule dvdE)
        with that(1) show ?thesis by (cases "q = 0") (auto simp: AddDays_def duration_defs)
      qed
      have less: "a < AddDays 1 a" by (simp add: AddDays_def)
      have "set (day_run a b) = insert a {d. AddDays 1 a \<le> d \<and> d < b \<and> d mod Day = 0}"
        using IH(1) True by (simp add: day_run.simps [of a b])
      also have "\<dots> = {d. a \<le> d \<and> d < b \<and> d mod Day = 0}"
        using gap less True 1(2) by (auto simp: mod_eq_0_iff_dvd)
      finally show ?thesis using IH less True by (simp add: day_run.simps [of a b])
    qed
  qed
  then show "set (day_run a b) = {d. a \<le> d \<and> d < b \<and> d mod Day = 0}" "distinct (day_run a b)" by auto
qed

lemma fill_days_eq:
  assumes "\<forall>d \<in> set days. d mod Day = 0"
  shows "fill_days (day_rows UTC rs) days = map (\<lambda>d.
      \<lparr>sy_Day = d, sy_ClaimCount = int (length (filter (\<lambda>r. TruncateDay (c_created r) = d) rs)),
       sy_PaidTotalKRW = asked_sum StatusPaid (filter (\<lambda>r. TruncateDay (c_created r) = d) rs)\<rparr>) days"
proof -
  define row where "row g = \<lparr>sy_Day = g, sy_ClaimCount = int (length (filter (\<lambda>r. TruncateDay (c_created r) = g) rs)),
       sy_PaidTotalKRW = asked_sum StatusPaid (filter (\<lambda>r. TruncateDay (c_created r) = g) rs)\<rparr>" for g
  define gs where "gs = rev (remdups (map (\<lambda>r. TruncateDay (c_created r)) rs))"
  have rows: "rev (day_rows UTC rs) = map row gs"
    by (simp add: day_rows_def day_start_UTC Let_def row_def gs_def rev_map)
  have gs: "set gs = (\<lambda>r. TruncateDay (c_created r)) ` set rs" by (simp add: gs_def)
  have one: "(case find (\<lambda>x. TruncateDay (sy_Day x) = TruncateDay d) (map row gs) of
       Some x \<Rightarrow> x\<lparr>sy_Day := d\<rparr> | None \<Rightarrow> \<lparr>sy_Day = d, sy_ClaimCount = 0, sy_PaidTotalKRW = 0\<rparr>) = row d"
    if d: "d mod Day = 0" for d
  proof (cases "find (\<lambda>x. TruncateDay (sy_Day x) = TruncateDay d) (map row gs)")
    case None
    then have "d \<notin> (\<lambda>r. TruncateDay (c_created r)) ` set rs"
      using gs by (auto simp: find_None_iff row_def)
    then have "filter (\<lambda>r. TruncateDay (c_created r) = d) rs = []" by (auto simp: filter_empty_conv)
    with None show ?thesis by (simp add: row_def asked_sum_def)
  next
    case (Some x)
    from find_Some_in [OF Some] obtain g where g: "x = row g" "g \<in> set gs" "TruncateDay g = TruncateDay d"
      by (auto simp: row_def)
    from g(2) gs have "g mod Day = 0" using TruncateDay_multiple(1) by auto
    with g(3) d have "g = d" using TruncateDay_multiple(4) by metis
    with Some g(1) show ?thesis by (simp add: row_def)
  qed
  show ?thesis unfolding fill_days_def rows row_def [symmetric] using one assms by auto
qed

text \<open>The parts of a settlement, over the claims filed in its period.\<close>

lemma SettlementFor_parts:
  assumes "SettlementFor UTC fail storeID from to alertCount d = Inr s"
  defines "a \<equiv> TruncateDay from" and "b \<equiv> TruncateDay to + Day"
  defines "rs \<equiv> filter (between a b) (claims_of storeID d)"
  shows "se_From s = a \<and> se_To s = b - 1 \<and> se_PrevTo s = a - 1 \<and> se_PrevFrom s = a - (b - a)"
    and "se_ClaimCount s = int (length rs) \<and> se_PaidTotalKRW s = asked_sum StatusPaid rs
      \<and> se_Days s = fill_days (day_rows UTC rs) (day_run a b)"
    and "se_PaidCount s = count_of (\<lambda>r. c_status r = StatusPaid) rs
      \<and> se_RejectedCount s = count_of (\<lambda>r. c_status r = StatusRejected) rs
      \<and> se_OpenCount s = count_of (\<lambda>r. c_status r \<in> {StatusPending, StatusNeedsReview, StatusOnHold}) rs
      \<and> se_PaidByCash s = count_of (\<lambda>r. c_status r = StatusPaid \<and> c_payment r = PaymentCash) rs
      \<and> se_PaidByCard s = count_of (\<lambda>r. c_status r = StatusPaid \<and> c_payment r = PaymentCard) rs"
proof -
  have h: "24 * Hour = Day" by (simp add: duration_defs)
  show "se_From s = a \<and> se_To s = b - 1 \<and> se_PrevTo s = a - 1 \<and> se_PrevFrom s = a - (b - a)"
    and "se_ClaimCount s = int (length rs) \<and> se_PaidTotalKRW s = asked_sum StatusPaid rs
      \<and> se_Days s = fill_days (day_rows UTC rs) (day_run a b)"
    and "se_PaidCount s = count_of (\<lambda>r. c_status r = StatusPaid) rs
      \<and> se_RejectedCount s = count_of (\<lambda>r. c_status r = StatusRejected) rs
      \<and> se_OpenCount s = count_of (\<lambda>r. c_status r \<in> {StatusPending, StatusNeedsReview, StatusOnHold}) rs
      \<and> se_PaidByCash s = count_of (\<lambda>r. c_status r = StatusPaid \<and> c_payment r = PaymentCash) rs
      \<and> se_PaidByCard s = count_of (\<lambda>r. c_status r = StatusPaid \<and> c_payment r = PaymentCard) rs"
    using assms(1) by (auto simp: SettlementFor_def Let_def a_def b_def rs_def h split: if_splits)
qed

text \<open>Every claim of a period falls on one of its days.\<close>

lemma day_run_covers:
  assumes "a mod Day = 0" "b mod Day = 0" "a \<le> t" "t < b"
  shows "TruncateDay t \<in> set (day_run a b)"
proof -
  have "a div Day * Day \<le> t div Day * Day" using assms(3) by (simp add: zdiv_mono1)
  with assms(1) have "a \<le> TruncateDay t" by (simp add: TruncateDay_def minus_mod_eq_div_mult [symmetric])
  with TruncateDay_multiple [of t] assms show ?thesis by (simp add: day_run_days(1))
qed

lemma count_by_status:
  assumes "\<forall>r \<in> set rs. c_status r \<in> set AllStatuses"
  shows "int (length rs) = count_of (\<lambda>r. c_status r = StatusPaid) rs + count_of (\<lambda>r. c_status r = StatusRejected) rs
      + count_of (\<lambda>r. c_status r \<in> {StatusPending, StatusNeedsReview, StatusOnHold}) rs
      + count_of (\<lambda>r. c_status r = StatusApproved) rs"
  using assms by (induction rs) (auto simp: count_of_def AllStatuses_def)

lemma count_by_payment:
  assumes "\<forall>r \<in> set rs. c_payment r \<in> {PaymentCash, PaymentCard}"
  shows "count_of P rs = count_of (\<lambda>r. P r \<and> c_payment r = PaymentCash) rs + count_of (\<lambda>r. P r \<and> c_payment r = PaymentCard) rs"
  using assms by (induction rs) (auto simp: count_of_def PaymentCash_def PaymentCard_def)


definition demo_partly_paid :: db where
  "demo_partly_paid = empty_db\<lparr>t_claims := [(new_claim_row (demo_env ''c1'') demo_input ([], []) ([], []) [] None)
     \<lparr>c_status := StatusPaid, c_paid_amount := Some 1000, c_paid_at := Some 2000\<rparr>]\<rparr>"

lemma demo_partly_paid_eval:
  "claims_of ''s1'' demo_partly_paid = t_claims demo_partly_paid"
  "\<exists>r. t_claims demo_partly_paid = [r] \<and> c_store r = ''s1'' \<and> c_status r = StatusPaid \<and> c_payment r = PaymentCash
     \<and> c_created r = 1000 \<and> c_amount r = 3000 \<and> c_paid_amount r = Some 1000"
  by (simp_all add: demo_partly_paid_def new_claim_row_def demo_env_def demo_input_def claims_of_def)


text \<open>
  The settlement counts what was asked for, the digest of the same day what was paid: for a
  claim refunded in part the two disagree, although both call it the money paid out.
\<close>

lemma settlement_ignores_partial_refunds:
  "\<exists>s g. SettlementFor UTC (\<lambda>_. False) ''s1'' 0 0 3 demo_partly_paid = Inr s
     \<and> DailyDigest UTC (\<lambda>_. False) 0 demo_partly_paid = Inr [g]
     \<and> se_PaidTotalKRW s = 3000 \<and> dg_PaidTotalKRW g = 1000"
proof -
  obtain r where r: "t_claims demo_partly_paid = [r]" "c_store r = ''s1''" "c_status r = StatusPaid"
    "c_payment r = PaymentCash" "c_created r = 1000" "c_amount r = 3000" "c_paid_amount r = Some 1000"
    using demo_partly_paid_eval(2) by blast
  show ?thesis
    by (simp add: SettlementFor_def DailyDigest_def Let_def demo_partly_paid_eval(1) r between_def TruncateDay_def
        asked_sum_def duration_defs digest_row_def paid_sum_def coalesce_def day_start_UTC)
qed

end
