(* ===== verification/Worker.thy ===== *)
theory Worker
  imports Store_Stats Notify_Push Cache_Memory Media_Local
begin

text \<open>
  \<^verbatim>\<open>internal/worker/worker.go\<close>: the process beside the server that alerts on busy machines,
  sends the digest of the day before, and deletes photos past their time. Its loop is a step
  function on the state it keeps; the passage of time and every failure is an argument.
\<close>

section \<open>Alerts on machines\<close>

definition dated_key :: "string \<Rightarrow> string \<Rightarrow> string" where
  "dated_key date machineID = ''alert:machine:'' @ machineID @ '':'' @ date"

definition alert_key :: "zone \<Rightarrow> instant \<Rightarrow> string \<Rightarrow> string" where
  "alert_key z now machineID = dated_key (format_date z now) machineID"

definition machine_notice :: "MachineActivity \<Rightarrow> MachineNotice" where
  "machine_notice m = \<lparr>mn_StoreID = mx_StoreID m, mn_MachineLabel = mx_Label m, mn_Count = mx_Count m,
     mn_ByIssue = mx_ByIssue m\<rparr>"

text \<open>
  The loop over the busy machines: \<open>env k\<close> is whether the cache fails at the k-th of them and
  what its clock reads then. The notices go out with the machine they are about; one that
  cannot be delivered is only logged.
\<close>

fun alerts ::
  "zone \<Rightarrow> instant \<Rightarrow> (nat \<Rightarrow> bool \<times> instant) \<Rightarrow> nat \<Rightarrow> MachineActivity list \<Rightarrow> memory
     \<Rightarrow> (string \<times> MachineNotice) list \<times> memory" where
  "alerts z now env k [] mem = ([], mem)"
| "alerts z now env k (m # ms) mem =
    (if fst (env k) then alerts z now env (Suc k) ms mem
     else case SetNX (snd (env k)) (alert_key z now (mx_MachineID m)) ''1'' (24 * Hour) mem of
       (fresh, mem1) \<Rightarrow>
         (case alerts z now env (Suc k) ms mem1 of
            (out, mem2) \<Rightarrow> ((if fresh then [(mx_MachineID m, machine_notice m)] else []) @ out, mem2)))"

record check_env =
  ck_zone :: zone
  ck_now :: instant
  ck_fail :: bool
  ck_shuffle :: "MachineActivity list \<Rightarrow> MachineActivity list"
  ck_cache :: "nat \<Rightarrow> bool \<times> instant"

definition CheckMachineAlerts ::
  "int \<Rightarrow> check_env \<Rightarrow> db \<Rightarrow> memory \<Rightarrow> (db_error, unit) result \<times> (string \<times> MachineNotice) list \<times> memory" where
  "CheckMachineAlerts threshold e d mem =
    (case MachinesOverThreshold (ck_fail e) (ck_shuffle e) threshold (ck_now e) d of
       Inl err \<Rightarrow> (Inl err, [], mem)
     | Inr ms \<Rightarrow> (Inr (), alerts (ck_zone e) (ck_now e) (ck_cache e) 0 ms mem))"

section \<open>The digest\<close>

definition digest_notice :: "zone \<Rightarrow> instant \<Rightarrow> DigestRow \<Rightarrow> DigestNotice" where
  "digest_notice z day r = \<lparr>dn_StoreID = dg_StoreID r, dn_Day = format_date z day,
     dn_ClaimCount = dg_ClaimCount r, dn_PaidCount = dg_PaidCount r, dn_PaidTotalKRW = dg_PaidTotalKRW r,
     dn_TopMachines = map (\<lambda>m. (mk_Label m, mk_Count m)) (dg_TopMachines r)\<rparr>"

definition SendDailyDigest :: "zone \<Rightarrow> (nat \<Rightarrow> bool) \<Rightarrow> instant \<Rightarrow> db \<Rightarrow> (db_error, DigestNotice list) result" where
  "SendDailyDigest z fail day d = map_sum id (map (digest_notice z day)) (DailyDigest z fail day d)"

section \<open>Deleting photos\<close>

definition purgeBatch :: nat where "purgeBatch = 200"

text \<open>
  The loop over the expired photos: \<open>env k\<close> is whether deleting the k-th file fails and whether
  deleting its row does. Only the latter stops the loop.
\<close>

fun purge_loop ::
  "string \<Rightarrow> (nat \<Rightarrow> bool \<times> bool) \<Rightarrow> nat \<Rightarrow> PhotoRow list \<Rightarrow> db \<times> disk \<Rightarrow> (int \<times> db_error option) \<times> db \<times> disk" where
  "purge_loop root env k [] s = ((0, None), s)"
| "purge_loop root env k (p # ps) (d, disk) =
    (let disk1 = snd (DeletePhoto root (fst (env k)) (ph_key p) disk)
     in case DeletePhotoRow (snd (env k)) (ph_id p) d of
          (Inl e, d1) \<Rightarrow> ((0, Some e), (d1, disk1))
        | (Inr _, d1) \<Rightarrow> (case purge_loop root env (Suc k) ps (d1, disk1) of
            ((n, e), s) \<Rightarrow> ((n + 1, e), s)))"

definition PurgeExpiredPhotos ::
  "string \<Rightarrow> bool \<Rightarrow> (nat \<Rightarrow> bool \<times> bool) \<Rightarrow> instant \<Rightarrow> db \<times> disk \<Rightarrow> (int \<times> db_error option) \<times> db \<times> disk" where
  "PurgeExpiredPhotos root fail env now s =
    (case ExpiredPhotos fail now purgeBatch (fst s) of
       Inl e \<Rightarrow> ((0, Some e), s) | Inr photos \<Rightarrow> purge_loop root env 0 photos s)"

section \<open>The loop\<close>

definition digestHour :: int where "digestHour = 9"

record worker =
  wk_db :: db
  wk_disk :: disk
  wk_cache :: memory
  wk_lastDigest :: string

text \<open>One tick: the time, what the others did to the database since, and the failures.\<close>

record tick_env =
  tk_now :: instant
  tk_between :: "db \<Rightarrow> db"
  tk_check :: check_env
  tk_purge_fail :: bool
  tk_purge :: "nat \<Rightarrow> bool \<times> bool"
  tk_digest :: "nat \<Rightarrow> bool"

record tick_out =
  to_alerts :: "(string \<times> MachineNotice) list"
  to_purged :: int
  to_digest :: "(string \<times> DigestNotice list) option"

definition hour_of :: "zone \<Rightarrow> instant \<Rightarrow> int" where
  "hour_of z t = day_nanos z t div Hour"

definition tick :: "int \<Rightarrow> string \<Rightarrow> tick_env \<Rightarrow> worker \<Rightarrow> tick_out \<times> worker" where
  "tick threshold root e w =
    (let now = tk_now e; d0 = tk_between e (wk_db w)
     in case CheckMachineAlerts threshold ((tk_check e)\<lparr>ck_now := now\<rparr>) d0 (wk_cache w) of
       (_, sent, mem) \<Rightarrow>
        (case PurgeExpiredPhotos root (tk_purge_fail e) (tk_purge e) now (d0, wk_disk w) of
          ((n, err), (d1, disk1)) \<Rightarrow>
            (let today = format_date KST now; w1 = w\<lparr>wk_db := d1, wk_disk := disk1, wk_cache := mem\<rparr>;
                 out = \<lparr>to_alerts = sent, to_purged = (if err = None then n else 0), to_digest = None\<rparr>
             in if digestHour \<le> hour_of KST now \<and> wk_lastDigest w \<noteq> today
                then (case SendDailyDigest KST (tk_digest e) (AddDays (- 1) now) d1 of
                   Inl _ \<Rightarrow> (out, w1)
                 | Inr notices \<Rightarrow> (out\<lparr>to_digest := Some (today, notices)\<rparr>, w1\<lparr>wk_lastDigest := today\<rparr>))
                else (out, w1))))"

text \<open>\<open>Run\<close> is the fold of its ticks, from the empty \<open>lastDigest\<close>.\<close>

fun Run :: "int \<Rightarrow> string \<Rightarrow> tick_env list \<Rightarrow> worker \<Rightarrow> tick_out list \<times> worker" where
  "Run threshold root [] w = ([], w)"
| "Run threshold root (e # es) w =
    (case tick threshold root e w of (out, w1) \<Rightarrow>
      (case Run threshold root es w1 of (outs, w2) \<Rightarrow> (out # outs, w2)))"

section \<open>Alerting once\<close>

context once_flag begin

definition after :: "duration \<Rightarrow> (instant \<times> 'k) list \<Rightarrow> 'st \<Rightarrow> 'st" where
  "after ttl rs st = fold (\<lambda>(t, k) st. snd (raise t k ttl st)) rs st"

lemma raises_append: "raises ttl (xs @ ys) st = raises ttl xs st @ raises ttl ys (after ttl xs st)"
  by (induction xs arbitrary: st) (auto simp: after_def)

lemma after_append: "after ttl (xs @ ys) st = after ttl ys (after ttl xs st)"
  by (simp add: after_def)

lemma raised_append: "raised k (xs @ ys) = raised k xs + raised k ys"
  by (simp add: raised_def)

text \<open>A flag that is down for good when the run starts is raised by the first attempt.\<close>

lemma raised_some:
  assumes "inv st" "sorted (map fst rs)" "\<forall>r \<in> set rs. now \<le> fst r" "(t, k) \<in> set rs"
    and "\<And>u. now \<le> u \<Longrightarrow> \<not> standing u k st"
  shows "1 \<le> raised k (raises ttl rs st)"
  using assms
proof (induction rs arbitrary: st now)
  case (Cons r rs)
  obtain t0 x where r: "r = (t0, x)" by (cases r)
  have t0: "now \<le> t0" using Cons.prems(3) r by simp
  show ?case
  proof (cases "x = k")
    case True
    with Cons.prems(1,5) t0 r show ?thesis by (simp add: raised_Cons raise_result)
  next
    case False
    have "1 \<le> raised k (raises ttl rs (snd (raise t0 x ttl st)))"
    proof (rule Cons.IH [of _ t0])
      show "inv (snd (raise t0 x ttl st))" using Cons.prems(1) by (rule raise_inv)
      show "\<not> standing u k (snd (raise t0 x ttl st))" if "t0 \<le> u" for u
        using raise_other [OF Cons.prems(1) that, of k x ttl] False Cons.prems(5) [of u] t0 that by auto
    qed (use Cons.prems r False in auto)
    with r show ?thesis by (simp add: raised_Cons)
  qed
qed simp

end

text \<open>What a check asks of the cache, and the alerts of a run of checks.\<close>

fun calls :: "zone \<Rightarrow> instant \<Rightarrow> (nat \<Rightarrow> bool \<times> instant) \<Rightarrow> nat \<Rightarrow> MachineActivity list \<Rightarrow> (instant \<times> string) list" where
  "calls z now env k [] = []"
| "calls z now env k (m # ms) =
    (if fst (env k) then [] else [(snd (env k), alert_key z now (mx_MachineID m))]) @ calls z now env (Suc k) ms"

lemma alert_key_eq [simp]: "alert_key z now x = alert_key z now y \<longleftrightarrow> x = y"
  by (simp add: alert_key_def dated_key_def)

lemma alerts_calls:
  "length (filter (\<lambda>a. fst a = x) (fst (alerts z now env k ms mem)))
     = memory_flag.raised (alert_key z now x) (memory_flag.raises ''1'' (24 * Hour) (calls z now env k ms) mem)"
  "snd (alerts z now env k ms mem) = memory_flag.after ''1'' (24 * Hour) (calls z now env k ms) mem"
proof (induction ms arbitrary: k mem)
  case (Cons m ms)
  { case 1 show ?case using Cons.IH(1)
      by (simp add: memory_flag.raised_Cons split_beta) }
  { case 2 show ?case using Cons.IH(2)
      by (simp add: memory_flag.after_def split_beta) }
qed (simp_all add: memory_flag.raised_def memory_flag.after_def)

type_synonym check = "check_env \<times> db"

definition check_calls :: "int \<Rightarrow> check \<Rightarrow> (instant \<times> string) list" where
  "check_calls threshold c =
    (case MachinesOverThreshold (ck_fail (fst c)) (ck_shuffle (fst c)) threshold (ck_now (fst c)) (snd c) of
       Inl _ \<Rightarrow> [] | Inr ms \<Rightarrow> calls (ck_zone (fst c)) (ck_now (fst c)) (ck_cache (fst c)) 0 ms)"

fun alert_run :: "int \<Rightarrow> check list \<Rightarrow> memory \<Rightarrow> (string \<times> MachineNotice) list" where
  "alert_run threshold [] mem = []"
| "alert_run threshold (c # cs) mem =
    (case CheckMachineAlerts threshold (fst c) (snd c) mem of (_, sent, mem') \<Rightarrow> sent @ alert_run threshold cs mem')"

lemma check_raised:
  assumes "CheckMachineAlerts threshold e d mem = (r, sent, mem')"
  shows "length (filter (\<lambda>a. fst a = x) sent) = memory_flag.raised (alert_key (ck_zone e) (ck_now e) x)
      (memory_flag.raises ''1'' (24 * Hour) (check_calls threshold (e, d)) mem)"
    and "mem' = memory_flag.after ''1'' (24 * Hour) (check_calls threshold (e, d)) mem"
proof -
  have "length (filter (\<lambda>a. fst a = x) sent) = memory_flag.raised (alert_key (ck_zone e) (ck_now e) x)
      (memory_flag.raises ''1'' (24 * Hour) (check_calls threshold (e, d)) mem)
    \<and> mem' = memory_flag.after ''1'' (24 * Hour) (check_calls threshold (e, d)) mem"
  proof (cases "MachinesOverThreshold (ck_fail e) (ck_shuffle e) threshold (ck_now e) d")
    case (Inl err)
    with assms have "sent = []" "mem' = mem" by (simp_all add: CheckMachineAlerts_def)
    with Inl show ?thesis by (simp add: check_calls_def memory_flag.raised_def memory_flag.after_def)
  next
    case (Inr ms)
    with assms have "sent = fst (alerts (ck_zone e) (ck_now e) (ck_cache e) 0 ms mem)"
      "mem' = snd (alerts (ck_zone e) (ck_now e) (ck_cache e) 0 ms mem)"
      by (simp_all add: CheckMachineAlerts_def)
    with Inr show ?thesis by (simp add: check_calls_def alerts_calls)
  qed
  then show "length (filter (\<lambda>a. fst a = x) sent) = memory_flag.raised (alert_key (ck_zone e) (ck_now e) x)
      (memory_flag.raises ''1'' (24 * Hour) (check_calls threshold (e, d)) mem)"
    and "mem' = memory_flag.after ''1'' (24 * Hour) (check_calls threshold (e, d)) mem" by blast+
qed

lemma alert_run_raised:
  assumes "\<forall>c \<in> set cs. format_date (ck_zone (fst c)) (ck_now (fst c)) = date"
  shows "length (filter (\<lambda>a. fst a = x) (alert_run threshold cs mem))
    = memory_flag.raised (dated_key date x)
        (memory_flag.raises ''1'' (24 * Hour) (concat (map (check_calls threshold) cs)) mem)"
  using assms
proof (induction cs arbitrary: mem)
  case (Cons c cs)
  obtain r sent mem1 where one: "CheckMachineAlerts threshold (fst c) (snd c) mem = (r, sent, mem1)"
    by (metis surj_pair)
  have key: "alert_key (ck_zone (fst c)) (ck_now (fst c)) x = dated_key date x"
    using Cons.prems by (simp add: alert_key_def)
  from check_raised(1) [OF one, of x, unfolded key] check_raised(2) [OF one] Cons one
  show ?case by (simp add: memory_flag.raises_append memory_flag.raised_append)
qed (simp add: memory_flag.raised_def)

text \<open>
  C31. However often the check runs within a day, a busy machine is alerted about at most once for
  each calendar date, cache failures included; and if nothing was raised for the machine yet, the
  first check that finds it busy and reaches the cache does alert.
\<close>

theorem alerted_once_a_day:
  assumes inv: "one_per_key mem"
    and date: "\<forall>c \<in> set cs. format_date (ck_zone (fst c)) (ck_now (fst c)) = date"
    and clock: "sorted (map fst (concat (map (check_calls threshold) cs)))"
      "\<forall>r \<in> set (concat (map (check_calls threshold) cs)). since \<le> fst r \<and> fst r \<le> since + 24 * Hour"
  shows "length (filter (\<lambda>a. fst a = x) (alert_run threshold cs mem)) \<le> 1
    \<and> (map_of mem (dated_key date x) = None
        \<and> (t, dated_key date x) \<in> set (concat (map (check_calls threshold) cs)) \<longrightarrow>
      length (filter (\<lambda>a. fst a = x) (alert_run threshold cs mem)) = 1)"
proof (intro conjI impI)
  show le: "length (filter (\<lambda>a. fst a = x) (alert_run threshold cs mem)) \<le> 1"
    unfolding alert_run_raised [OF date] by (rule memory_flag.raised_once [OF inv clock])
  assume due: "map_of mem (dated_key date x) = None
    \<and> (t, dated_key date x) \<in> set (concat (map (check_calls threshold) cs))"
  note none = due [THEN conjunct1] and asked = due [THEN conjunct2]
  have "1 \<le> length (filter (\<lambda>a. fst a = x) (alert_run threshold cs mem))"
    unfolding alert_run_raised [OF date]
    using clock(2) none by (intro memory_flag.raised_some [OF inv clock(1) _ asked, of since]) (auto simp: flag_live_def)
  with le show "length (filter (\<lambda>a. fst a = x) (alert_run threshold cs mem)) = 1" by simp
qed

section \<open>Purging ends\<close>

lemma purge_loop_done:
  assumes "\<And>i. \<not> snd (env i)"
  shows "fst (purge_loop root env k ps (d, disk)) = (int (length ps), None)"
    and "fst (snd (purge_loop root env k ps (d, disk)))
      = d\<lparr>t_photos := filter (\<lambda>p. ph_id p \<notin> ph_id ` set ps) (t_photos d)\<rparr>"
proof -
  show "fst (purge_loop root env k ps (d, disk)) = (int (length ps), None)"
    by (induction ps arbitrary: k d disk) (simp_all add: Let_def DeletePhotoRow_def assms split_beta)
  show "fst (snd (purge_loop root env k ps (d, disk)))
      = d\<lparr>t_photos := filter (\<lambda>p. ph_id p \<notin> ph_id ` set ps) (t_photos d)\<rparr>"
    by (induction ps arbitrary: k d disk)
      (simp_all add: Let_def DeletePhotoRow_def assms split_beta conj_commute)
qed

lemma purge_loop_files:
  assumes "\<And>i. \<not> snd (env i)"
  shows "\<not> list_ex (\<lambda>p. local_same root x (ph_key p)) ps \<Longrightarrow>
      local_stored root x (snd (snd (purge_loop root env k ps (d, disk)))) = local_stored root x disk"
    and "(\<And>i. \<not> fst (env i)) \<Longrightarrow> list_ex (\<lambda>p. local_same root x (ph_key p)) ps \<Longrightarrow>
      local_stored root x (snd (snd (purge_loop root env k ps (d, disk)))) = None"
    and "local_stored root x disk = None \<Longrightarrow>
      local_stored root x (snd (snd (purge_loop root env k ps (d, disk)))) = None"
proof -
  have step: "local_stored root x (snd (DeletePhoto root f k' dk)) = local_stored root x dk" if "\<not> local_same root x k'" for f k' dk
    using local_storage.delete_untouched [OF that] .
  have gone: "local_stored root x (snd (DeletePhoto root False k' dk)) = None" if "local_same root x k'" for k' dk
    using that by (auto simp: DeletePhoto_def local_stored_def local_same_def split: option.splits)
  have stays: "local_stored root x (snd (DeletePhoto root f k' dk)) = None" if "local_stored root x dk = None" for f k' dk
    using that by (auto simp: DeletePhoto_def local_stored_def split: option.splits)
  show keep: "local_stored root x disk = None \<Longrightarrow>
      local_stored root x (snd (snd (purge_loop root env k ps (d, disk)))) = None" for k d disk
    by (induction ps arbitrary: k d disk) (simp_all add: Let_def DeletePhotoRow_def assms split_beta stays)
  show "\<not> list_ex (\<lambda>p. local_same root x (ph_key p)) ps \<Longrightarrow>
      local_stored root x (snd (snd (purge_loop root env k ps (d, disk)))) = local_stored root x disk"
    by (induction ps arbitrary: k d disk) (simp_all add: Let_def DeletePhotoRow_def assms split_beta step)
  have none: "local_stored root x dk = None \<Longrightarrow> local_stored root x (snd (snd (purge_loop root env k qs (d, dk)))) = None"
    for k d dk qs
    by (induction qs arbitrary: k d dk) (simp_all add: Let_def DeletePhotoRow_def assms split_beta stays)
  show "local_stored root x (snd (snd (purge_loop root env k ps (d, disk)))) = None"
    if "\<And>i. \<not> fst (env i)" "list_ex (\<lambda>p. local_same root x (ph_key p)) ps"
    using that(2)
  proof (induction ps arbitrary: k d disk)
    case (Cons p ps)
    show ?case
    proof (cases "local_same root x (ph_key p)")
      case True
      then show ?thesis using none gone that(1) by (simp add: Let_def DeletePhotoRow_def assms split_beta)
    next
      case False
      with Cons show ?thesis by (simp add: Let_def DeletePhotoRow_def assms split_beta)
    qed
  qed simp
qed

text \<open>Purging at one time until it has nothing left to do: one environment for each run.\<close>

definition purges :: "string \<Rightarrow> instant \<Rightarrow> (nat \<Rightarrow> bool \<times> bool) list \<Rightarrow> db \<times> disk \<Rightarrow> db \<times> disk" where
  "purges root now envs s = fold (\<lambda>env s. snd (PurgeExpiredPhotos root False env now s)) envs s"

definition expired :: "instant \<Rightarrow> PhotoRow list \<Rightarrow> PhotoRow list" where
  "expired now ps = filter (\<lambda>p. ph_expires p \<le> now) ps"

definition batch :: "instant \<Rightarrow> db \<Rightarrow> PhotoRow list" where
  "batch now d = take purgeBatch (sort_key ph_expires (expired now (t_photos d)))"

lemma batch_sub: "set (batch now d) \<subseteq> set (expired now (t_photos d))"
  using set_take_subset by (fastforce simp: batch_def)

lemma purge_one:
  assumes "\<And>i. \<not> snd (env i)"
  shows "PurgeExpiredPhotos root False env now (d, disk) = ((int (length (batch now d)), None),
      (d\<lparr>t_photos := filter (\<lambda>p. ph_id p \<notin> ph_id ` set (batch now d)) (t_photos d)\<rparr>,
       snd (snd (purge_loop root env 0 (batch now d) (d, disk)))))"
proof -
  have "PurgeExpiredPhotos root False env now (d, disk) = purge_loop root env 0 (batch now d) (d, disk)"
    by (simp add: PurgeExpiredPhotos_def ExpiredPhotos_def batch_def expired_def)
  with purge_loop_done [OF assms, where root = root and k = 0 and ps = "batch now d" and d = d and disk = disk]
  show ?thesis by (simp add: prod_eq_iff)
qed

lemma filter_ids:
  assumes "distinct (map ph_id ps)" "set qs \<subseteq> set ps"
  shows "filter (\<lambda>p. ph_id p \<notin> ph_id ` set qs) ps = filter (\<lambda>p. p \<notin> set qs) ps"
  using assms by (intro filter_cong) (auto simp: distinct_map inj_on_def)

lemma expired_shrinks:
  assumes "distinct (map ph_id (t_photos d))"
  shows "length (expired now (filter (\<lambda>p. ph_id p \<notin> ph_id ` set (batch now d)) (t_photos d)))
      = length (expired now (t_photos d)) - purgeBatch"
proof -
  have d: "distinct (t_photos d)" "distinct (expired now (t_photos d))"
    using assms by (simp_all add: expired_def distinct_map)
  have db: "distinct (batch now d)" using d(2) by (simp add: batch_def)
  have "expired now (filter (\<lambda>p. ph_id p \<notin> ph_id ` set (batch now d)) (t_photos d))
      = filter (\<lambda>p. p \<notin> set (batch now d)) (expired now (t_photos d))"
    using batch_sub [of now d] by (subst filter_ids [OF assms]) (auto simp: expired_def conj_commute)
  then have "set (expired now (filter (\<lambda>p. ph_id p \<notin> ph_id ` set (batch now d)) (t_photos d)))
      = set (expired now (t_photos d)) - set (batch now d)"
    and "distinct (expired now (filter (\<lambda>p. ph_id p \<notin> ph_id ` set (batch now d)) (t_photos d)))"
    using d(2) by auto
  then have "length (expired now (filter (\<lambda>p. ph_id p \<notin> ph_id ` set (batch now d)) (t_photos d)))
      = card (set (expired now (t_photos d))) - card (set (batch now d))"
    using batch_sub [of now d] by (metis card_Diff_subset distinct_card finite_set)
  also have "\<dots> = length (expired now (t_photos d)) - length (batch now d)"
    using d(2) db by (simp add: distinct_card)
  finally show ?thesis by (simp add: batch_def)
qed

text \<open>
  The next run of a sequence sees the table without the batch of this one: fewer expired photos,
  the same living ones.
\<close>

definition after_batch :: "instant \<Rightarrow> db \<Rightarrow> db" where
  "after_batch now d = d\<lparr>t_photos := filter (\<lambda>p. ph_id p \<notin> ph_id ` set (batch now d)) (t_photos d)\<rparr>"

lemma after_batch_photos:
  assumes "distinct (map ph_id (t_photos d))"
  shows "t_photos (after_batch now d) = filter (\<lambda>p. p \<notin> set (batch now d)) (t_photos d)"
    and "distinct (map ph_id (t_photos (after_batch now d)))"
    and "length (expired now (t_photos d)) \<le> 200 * Suc n \<Longrightarrow> length (expired now (t_photos (after_batch now d))) \<le> 200 * n"
    and "set (expired now (t_photos d)) = set (batch now d) \<union> set (expired now (t_photos (after_batch now d)))"
    and "filter (\<lambda>p. \<not> ph_expires p \<le> now) (t_photos (after_batch now d)) = filter (\<lambda>p. \<not> ph_expires p \<le> now) (t_photos d)"
proof -
  show photos: "t_photos (after_batch now d) = filter (\<lambda>p. p \<notin> set (batch now d)) (t_photos d)"
    using filter_ids [OF assms, of "batch now d"] batch_sub [of now d]
    by (auto simp: after_batch_def expired_def)
  show "distinct (map ph_id (t_photos (after_batch now d)))" using assms by (simp add: photos distinct_map_filter)
  show "length (expired now (t_photos d)) \<le> 200 * Suc n \<Longrightarrow> length (expired now (t_photos (after_batch now d))) \<le> 200 * n"
    using expired_shrinks [OF assms, of now] by (simp add: after_batch_def purgeBatch_def)
  show "set (expired now (t_photos d)) = set (batch now d) \<union> set (expired now (t_photos (after_batch now d)))"
    using batch_sub [of now d] by (auto simp: photos expired_def)
  show "filter (\<lambda>p. \<not> ph_expires p \<le> now) (t_photos (after_batch now d)) = filter (\<lambda>p. \<not> ph_expires p \<le> now) (t_photos d)"
    using batch_sub [of now d] unfolding photos filter_filter
    by (intro filter_cong) (auto simp: expired_def)
qed

lemma purges_Cons:
  assumes "\<And>i. \<not> snd (env i)"
  shows "purges root now (env # envs) (d, disk)
    = purges root now envs (after_batch now d, snd (snd (purge_loop root env 0 (batch now d) (d, disk))))"
  by (simp add: purges_def purge_one [OF assms] after_batch_def)

lemma purges_effect:
  assumes ids: "distinct (map ph_id (t_photos d))"
    and rows: "\<forall>env \<in> set envs. \<forall>i. \<not> snd (env i)"
    and enough: "length (expired now (t_photos d)) \<le> 200 * length envs"
  shows "fst (purges root now envs (d, disk)) = d\<lparr>t_photos := filter (\<lambda>p. \<not> ph_expires p \<le> now) (t_photos d)\<rparr>
    \<and> (\<not> list_ex (\<lambda>p. local_same root x (ph_key p)) (expired now (t_photos d)) \<longrightarrow>
      local_stored root x (snd (purges root now envs (d, disk))) = local_stored root x disk)
    \<and> (local_stored root x disk = None \<longrightarrow> local_stored root x (snd (purges root now envs (d, disk))) = None)
    \<and> ((\<forall>env \<in> set envs. \<forall>i. \<not> fst (env i)) \<and>
      list_ex (\<lambda>p. local_same root x (ph_key p)) (expired now (t_photos d)) \<longrightarrow>
      local_stored root x (snd (purges root now envs (d, disk))) = None)"
  using assms
proof (induction envs arbitrary: d disk)
  case Nil
  then have "expired now (t_photos d) = []" by simp
  then have "filter (\<lambda>p. \<not> ph_expires p \<le> now) (t_photos d) = t_photos d" "d\<lparr>t_photos := t_photos d\<rparr> = d"
    by (auto simp: expired_def filter_empty_conv filter_id_conv)
  with \<open>expired now (t_photos d) = []\<close> show ?case by (simp add: purges_def)
next
  case (Cons env envs)
  have ok: "\<And>i. \<not> snd (env i)" using Cons.prems(2) by simp
  define disk1 where "disk1 = snd (snd (purge_loop root env 0 (batch now d) (d, disk)))"
  have run: "purges root now (env # envs) (d, disk) = purges root now envs (after_batch now d, disk1)"
    by (simp add: purges_Cons [OF ok] disk1_def)
  note d1 = after_batch_photos [OF Cons.prems(1), where now = now]
  have IH: "fst (purges root now envs (after_batch now d, disk1)) = (after_batch now d)\<lparr>t_photos := filter (\<lambda>p. \<not> ph_expires p \<le> now) (t_photos (after_batch now d))\<rparr>"
    "\<not> list_ex (\<lambda>p. local_same root x (ph_key p)) (expired now (t_photos (after_batch now d))) \<longrightarrow>
      local_stored root x (snd (purges root now envs (after_batch now d, disk1))) = local_stored root x disk1"
    "local_stored root x disk1 = None \<longrightarrow> local_stored root x (snd (purges root now envs (after_batch now d, disk1))) = None"
    "(\<forall>env \<in> set envs. \<forall>i. \<not> fst (env i)) \<and>
      list_ex (\<lambda>p. local_same root x (ph_key p)) (expired now (t_photos (after_batch now d))) \<longrightarrow>
      local_stored root x (snd (purges root now envs (after_batch now d, disk1))) = None"
    using Cons.IH [of "after_batch now d" disk1] Cons.prems(2,3) d1(2,3) by auto
  note f = purge_loop_files [where env = env and root = root and x = x and ps = "batch now d" and k = 0
      and d = d and disk = disk, OF ok, folded disk1_def]
  have hit: "list_ex (\<lambda>p. local_same root x (ph_key p)) (expired now (t_photos d))
    \<longleftrightarrow> list_ex (\<lambda>p. local_same root x (ph_key p)) (batch now d)
      \<or> list_ex (\<lambda>p. local_same root x (ph_key p)) (expired now (t_photos (after_batch now d)))"
    unfolding list_ex_iff d1(4) by blast
  have "fst (purges root now (env # envs) (d, disk)) = d\<lparr>t_photos := filter (\<lambda>p. \<not> ph_expires p \<le> now) (t_photos d)\<rparr>"
    unfolding run IH(1) d1(5) by (simp add: after_batch_def)
  then show ?case unfolding run using IH(2-4) f hit by auto
qed

text \<open>
  C32. Purging ends with nothing overdue: after one run for every two hundred expired photos
  exactly their rows are gone, whether or not their files could be deleted; photos still within
  their time keep their rows, every other table is untouched, and a file whose key is no expired
  photo's is as it was. When the storage works, the files of the expired photos are gone too.
\<close>

theorem purge_finishes:
  assumes ids: "distinct (map ph_id (t_photos d))"
    and rows: "\<And>env i. env \<in> set envs \<Longrightarrow> \<not> snd (env i)"
    and enough: "length (expired now (t_photos d)) \<le> 200 * length envs"
  shows "fst (purges root now envs (d, disk)) = d\<lparr>t_photos := filter (\<lambda>p. \<not> ph_expires p \<le> now) (t_photos d)\<rparr>
    \<and> (\<not> list_ex (\<lambda>p. local_same root x (ph_key p)) (expired now (t_photos d)) \<longrightarrow>
      local_stored root x (snd (purges root now envs (d, disk))) = local_stored root x disk)
    \<and> ((\<forall>env \<in> set envs. \<forall>i. \<not> fst (env i)) \<and>
      list_ex (\<lambda>p. local_same root x (ph_key p)) (expired now (t_photos d)) \<longrightarrow>
      local_stored root x (snd (purges root now envs (d, disk))) = None)"
proof -
  from rows have "\<forall>env \<in> set envs. \<forall>i. \<not> snd (env i)" by blast
  from purges_effect [OF ids this enough, of root disk x] show ?thesis by (elim conjE) (intro conjI)
qed

definition demo_photo :: "string \<Rightarrow> instant \<Rightarrow> PhotoRow" where
  "demo_photo i t = \<lparr>ph_id = i, ph_claim = ''c1'', ph_key = i, ph_type = TypePNG, ph_size = 1, ph_expires = t\<rparr>"

lemma purge_finishes_witness:
  "fst (purges ''/m'' 10 [\<lambda>_. (True, False)] (empty_db\<lparr>t_photos := [demo_photo ''a'' 5, demo_photo ''b'' 20]\<rparr>, Map.empty))
     = empty_db\<lparr>t_photos := [demo_photo ''b'' 20]\<rparr>"
  using purge_finishes [of "empty_db\<lparr>t_photos := [demo_photo ''a'' 5, demo_photo ''b'' 20]\<rparr>" "[\<lambda>_. (True, False)]" 10]
  by (simp add: demo_photo_def expired_def)

section \<open>One digest a day\<close>

definition today_of :: "tick_env \<Rightarrow> string" where
  "today_of e = format_date KST (tk_now e)"

definition sent_for :: "string \<Rightarrow> tick_out \<Rightarrow> bool" where
  "sent_for day out = (case to_digest out of Some (x, _) \<Rightarrow> x = day | None \<Rightarrow> False)"

definition digests :: "string \<Rightarrow> tick_out list \<Rightarrow> nat" where
  "digests day outs = length (filter (sent_for day) outs)"

lemma tick_digest:
  assumes "tick threshold root e w = (out, w1)"
  shows "(to_digest out = None \<and> wk_lastDigest w1 = wk_lastDigest w)
    \<or> (\<exists>ns. to_digest out = Some (today_of e, ns) \<and> wk_lastDigest w1 = today_of e
        \<and> wk_lastDigest w \<noteq> today_of e \<and> digestHour \<le> hour_of KST (tk_now e)
        \<and> SendDailyDigest KST (tk_digest e) (AddDays (- 1) (tk_now e)) (wk_db w1) = Inr ns)"
    and "(\<And>i. \<not> tk_digest e i) \<Longrightarrow> digestHour \<le> hour_of KST (tk_now e) \<Longrightarrow> wk_lastDigest w \<noteq> today_of e
      \<Longrightarrow> sent_for (today_of e) out"
proof -
  have ok: "SendDailyDigest KST (tk_digest e) day d \<noteq> Inl err" if "\<And>i. \<not> tk_digest e i" for day d err
    using that by (simp add: SendDailyDigest_def DailyDigest_def Let_def list_ex_iff)
  show "(to_digest out = None \<and> wk_lastDigest w1 = wk_lastDigest w)
    \<or> (\<exists>ns. to_digest out = Some (today_of e, ns) \<and> wk_lastDigest w1 = today_of e
        \<and> wk_lastDigest w \<noteq> today_of e \<and> digestHour \<le> hour_of KST (tk_now e)
        \<and> SendDailyDigest KST (tk_digest e) (AddDays (- 1) (tk_now e)) (wk_db w1) = Inr ns)"
    using assms by (auto simp: tick_def Let_def today_of_def split: prod.splits if_splits sum.splits)
  show "sent_for (today_of e) out"
    if "\<And>i. \<not> tk_digest e i" "digestHour \<le> hour_of KST (tk_now e)" "wk_lastDigest w \<noteq> today_of e"
    using assms ok [OF that(1)] that(2,3)
    by (auto simp: tick_def Let_def today_of_def sent_for_def split: prod.splits if_splits sum.splits)
qed

lemma past_is_past: "distinct (remdups_adj (x # xs)) \<Longrightarrow> xs \<noteq> [] \<Longrightarrow> hd xs \<noteq> x \<Longrightarrow> x \<notin> set xs"
  by (cases xs) auto

lemma distinct_adj_tl: "distinct (remdups_adj (x # xs)) \<Longrightarrow> distinct (remdups_adj xs)"
  by (cases xs) (auto split: if_splits)

lemma digests_absent:
  "Run threshold root es w = (outs, w1) \<Longrightarrow> day \<notin> today_of ` set es \<Longrightarrow> digests day outs = 0"
proof (induction es arbitrary: w outs w1)
  case (Cons e es)
  obtain out w2 where t: "tick threshold root e w = (out, w2)" by fastforce
  obtain outs' w3 where r: "Run threshold root es w2 = (outs', w3)" by fastforce
  have outs: "outs = out # outs'" using Cons.prems(1) t r by simp
  have "\<not> sent_for day out" using tick_digest(1) [OF t] Cons.prems(2) by (auto simp: sent_for_def)
  with Cons.IH [OF r] Cons.prems(2) outs show ?case by (simp add: digests_def)
qed (simp add: digests_def)

lemma digests_le:
  assumes "Run threshold root es w = (outs, w1)" "distinct (remdups_adj (map today_of es))"
  shows "digests day outs \<le> 1"
    and "wk_lastDigest w = day \<Longrightarrow> es = [] \<or> today_of (hd es) = day \<Longrightarrow> digests day outs = 0"
proof -
  have "digests day outs \<le> 1
    \<and> (wk_lastDigest w = day \<and> (es = [] \<or> today_of (hd es) = day) \<longrightarrow> digests day outs = 0)"
    using assms
  proof (induction es arbitrary: w outs w1)
    case (Cons e es)
    obtain out w2 where t: "tick threshold root e w = (out, w2)" by fastforce
    obtain outs' w3 where r: "Run threshold root es w2 = (outs', w3)" by fastforce
    have outs: "digests day outs = (if sent_for day out then 1 else 0) + digests day outs'"
      using Cons.prems(1) t r by (auto simp: digests_def)
    have adj: "distinct (remdups_adj (today_of e # map today_of es))" using Cons.prems(2) by simp
    have IH: "digests day outs' \<le> 1"
      "wk_lastDigest w2 = day \<Longrightarrow> es = [] \<or> today_of (hd es) = day \<Longrightarrow> digests day outs' = 0"
      using Cons.IH [OF r distinct_adj_tl [OF adj]] by auto
    have gone: "digests day outs' = 0" if "today_of e = day" "es \<noteq> []" "today_of (hd es) \<noteq> day"
    proof (rule digests_absent [OF r])
      show "day \<notin> today_of ` set es"
        using past_is_past [OF adj] that by (cases es) auto
    qed
    from tick_digest(1) [OF t] show ?case
    proof (elim disjE exE conjE)
      assume "to_digest out = None" "wk_lastDigest w2 = wk_lastDigest w"
      with outs IH gone show ?thesis by (auto simp: sent_for_def)
    next
      fix ns assume "to_digest out = Some (today_of e, ns)" "wk_lastDigest w2 = today_of e"
        "wk_lastDigest w \<noteq> today_of e"
      with outs IH gone show ?thesis by (auto simp: sent_for_def)
    qed
  qed (simp add: digests_def)
  then show "digests day outs \<le> 1"
    and "wk_lastDigest w = day \<Longrightarrow> es = [] \<or> today_of (hd es) = day \<Longrightarrow> digests day outs = 0" by auto
qed

lemma digests_ge:
  assumes "Run threshold root es w = (outs, w1)" "wk_lastDigest w \<noteq> day"
    and "e \<in> set es" "today_of e = day" "\<And>i. \<not> tk_digest e i" "digestHour \<le> hour_of KST (tk_now e)"
  shows "1 \<le> digests day outs"
  using assms(1-3)
proof (induction es arbitrary: w outs w1)
  case (Cons e' es)
  obtain out w2 where t: "tick threshold root e' w = (out, w2)" by fastforce
  obtain outs' w3 where r: "Run threshold root es w2 = (outs', w3)" by fastforce
  have outs: "digests day outs = (if sent_for day out then 1 else 0) + digests day outs'"
    using Cons.prems(1) t r by (auto simp: digests_def)
  show ?case
  proof (cases "sent_for day out")
    case True
    with outs show ?thesis by simp
  next
    case False
    then have "e' \<noteq> e" using tick_digest(2) [OF t] Cons.prems(2) assms(4-6) by auto
    then have "e \<in> set es" using Cons.prems(3) by simp
    moreover have "wk_lastDigest w2 \<noteq> day"
      using tick_digest(1) [OF t] False Cons.prems(2) by (auto simp: sent_for_def)
    ultimately show ?thesis using Cons.IH [OF r] outs by simp
  qed
qed simp

text \<open>
  C16. One digest a day: as long as dates do not come back, the loop sends at most one digest on
  each Korean date, never before nine in the morning, and always about the day before; and if
  any tick of a date is at or after nine with the database answering, that date does get one.
\<close>

theorem one_digest_a_day:
  assumes run: "Run threshold root es w = (outs, w1)" and start: "wk_lastDigest w = []"
    and dates: "distinct (remdups_adj (map today_of es))"
  shows "digests day outs \<le> 1
    \<and> (e \<in> set es \<and> today_of e = day \<and> (\<forall>i. \<not> tk_digest e i) \<and> 9 \<le> hour_of KST (tk_now e)
      \<longrightarrow> digests day outs = 1)
    \<and> (i < length es \<and> to_digest (outs ! i) = Some (day, ns) \<longrightarrow>
      day = today_of (es ! i) \<and> 9 \<le> hour_of KST (tk_now (es ! i))
      \<and> (\<exists>d. SendDailyDigest KST (tk_digest (es ! i)) (AddDays (- 1) (tk_now (es ! i))) d = Inr ns))"
proof -
  have le: "digests day outs \<le> 1" by (rule digests_le(1) [OF run dates])
  have always: "digests day outs = 1"
    if due: "e \<in> set es \<and> today_of e = day \<and> (\<forall>i. \<not> tk_digest e i) \<and> 9 \<le> hour_of KST (tk_now e)"
  proof -
    have e: "e \<in> set es" "today_of e = day" "\<And>i. \<not> tk_digest e i" "9 \<le> hour_of KST (tk_now e)"
      using due by blast+
    have "day \<noteq> []" using e(2) by (auto simp: today_of_def format_date_def split: prod.splits)
    then have "1 \<le> digests day outs"
      using digests_ge [OF run _ e(1-3)] start e(4) by (simp add: digestHour_def)
    with le show ?thesis by simp
  qed
  have truly: "day = today_of (es ! i) \<and> 9 \<le> hour_of KST (tk_now (es ! i))
      \<and> (\<exists>d. SendDailyDigest KST (tk_digest (es ! i)) (AddDays (- 1) (tk_now (es ! i))) d = Inr ns)"
    if at: "i < length es \<and> to_digest (outs ! i) = Some (day, ns)"
    using run at [THEN conjunct1] at [THEN conjunct2]
  proof (induction es arbitrary: w outs w1 i)
    case (Cons e es)
    obtain out w2 where t: "tick threshold root e w = (out, w2)" by fastforce
    obtain outs' w3 where r: "Run threshold root es w2 = (outs', w3)" by fastforce
    have outs: "outs = out # outs'" using Cons.prems(1) t r by simp
    show ?case
    proof (cases i)
      case 0
      with tick_digest(1) [OF t] Cons.prems(3) outs show ?thesis by (auto simp: digestHour_def)
    next
      case (Suc j)
      with Cons.IH [OF r, of j] Cons.prems(2,3) outs show ?thesis by simp
    qed
  qed simp
  from le always truly show ?thesis by blast
qed

definition demo_check :: "instant \<Rightarrow> check_env" where
  "demo_check now = \<lparr>ck_zone = UTC, ck_now = now, ck_fail = False, ck_shuffle = (\<lambda>ms. ms), ck_cache = (\<lambda>_. (False, now))\<rparr>"

definition demo_tick :: "instant \<Rightarrow> tick_env" where
  "demo_tick now = \<lparr>tk_now = now, tk_between = (\<lambda>d. d), tk_check = demo_check now, tk_purge_fail = False,
     tk_purge = (\<lambda>_. (False, False)), tk_digest = (\<lambda>_. False)\<rparr>"

definition demo_worker :: worker where
  "demo_worker = \<lparr>wk_db = empty_db, wk_disk = Map.empty, wk_cache = NewMemory, wk_lastDigest = []\<rparr>"

lemma one_digest_a_day_witness:
  "digests (today_of (demo_tick 0)) (fst (Run 3 ''/m'' [demo_tick 0, demo_tick 300] demo_worker)) = 1"
proof -
  have same: "today_of (demo_tick 300) = today_of (demo_tick 0)"
    by (simp add: today_of_def demo_tick_def format_date_def Date_def local_days_def KST_def duration_defs)
  show ?thesis
    by (rule one_digest_a_day [where es = "[demo_tick 0, demo_tick 300]" and e = "demo_tick 0", OF surjective_pairing,
          THEN conjunct2, THEN conjunct1, THEN mp])
      (simp_all add: same demo_worker_def, simp_all add: demo_tick_def hour_of_def day_nanos_def KST_def duration_defs)
qed

section \<open>Alerts around midnight\<close>

definition demo_busy :: "instant \<Rightarrow> db" where
  "demo_busy t = empty_db\<lparr>t_machines := t_machines demo_db,
     t_claims := [(new_claim_row (demo_env ''c1'') demo_input ([], []) ([], []) [] None)\<lparr>c_created := t\<rparr>]\<rparr>"

lemma demo_busy_over: "t \<le> now \<Longrightarrow> now - 24 * Hour \<le> t \<Longrightarrow>
  \<exists>a. MachinesOverThreshold False (\<lambda>ms. ms) 1 now (demo_busy t) = Inr [a] \<and> mx_MachineID a = ''m1''"
  by (simp add: MachinesOverThreshold_def Let_def demo_busy_def demo_db_def empty_db_def new_claim_row_def
      demo_env_def demo_input_def activity_def)

lemma demo_busy_calls:
  assumes "t \<le> now" "now - 24 * Hour \<le> t"
  shows "check_calls 1 (demo_check now, demo_busy t) = [(now, dated_key (format_date UTC now) ''m1'')]"
  using demo_busy_over [OF assms] by (auto simp: check_calls_def demo_check_def alert_key_def)

lemma alerted_once_a_day_witness:
  "length (filter (\<lambda>a. fst a = ''m1'')
     (alert_run 1 [(demo_check 5, demo_busy 0), (demo_check 9, demo_busy 0)] NewMemory)) = 1"
proof -
  have c: "check_calls 1 (demo_check 5, demo_busy 0) = [(5, dated_key (format_date UTC 5) ''m1'')]"
    "check_calls 1 (demo_check 9, demo_busy 0) = [(9, dated_key (format_date UTC 9) ''m1'')]"
    by (rule demo_busy_calls; simp add: duration_defs)+
  have d: "format_date UTC 9 = format_date UTC 5"
    by (simp add: format_date_def Date_def local_days_def UTC_def duration_defs)
  show ?thesis
    by (rule alerted_once_a_day [where date = "format_date UTC 5" and since = 0 and t = 5, THEN conjunct2, THEN mp])
      (simp_all add: c d one_per_key_New, simp_all add: demo_check_def d NewMemory_def duration_defs)
qed

text \<open>
  "Once in twenty-four hours" is only "once per date": two checks five minutes apart, before and
  after midnight, both alert about the same machine.
\<close>

lemma alerted_twice_in_five_minutes:
  "length (filter (\<lambda>a. fst a = ''m1'') (alert_run 1 [(demo_check (Day - 2 * Minute), demo_busy (Day - Hour)),
     (demo_check (Day + 3 * Minute), demo_busy (Day - Hour))] NewMemory)) = 2"
proof -
  have dates: "format_date UTC (Day - 2 * Minute) \<noteq> format_date UTC (Day + 3 * Minute)"
  proof -
    have "local_days UTC (Day - 2 * Minute) = 0" "local_days UTC (Day + 3 * Minute) = 1"
      by (simp_all add: local_days_def UTC_def duration_defs)
    moreover have "civil_from_days 0 = (1970, 1, 1)" "civil_from_days 1 = (1970, 1, 2)"
      by code_simp+
    moreover have "pad 2 1 \<noteq> pad 2 2" by code_simp
    ultimately show ?thesis by (simp add: format_date_def Date_def)
  qed
  have c: "check_calls 1 (demo_check (Day - 2 * Minute), demo_busy (Day - Hour))
      = [(Day - 2 * Minute, dated_key (format_date UTC (Day - 2 * Minute)) ''m1'')]"
    "check_calls 1 (demo_check (Day + 3 * Minute), demo_busy (Day - Hour))
      = [(Day + 3 * Minute, dated_key (format_date UTC (Day + 3 * Minute)) ''m1'')]"
    by (rule demo_busy_calls; simp add: duration_defs)+
  have first: "length (filter (\<lambda>a. fst a = ''m1'') sent) = 1"
    if "CheckMachineAlerts 1 (demo_check now) (demo_busy t) mem = (r, sent, mem')"
      "check_calls 1 (demo_check now, demo_busy t) = [(now, dated_key (format_date UTC now) ''m1'')]"
      "\<not> flag_live now (dated_key (format_date UTC now) ''m1'') mem" "one_per_key mem" for now t mem r sent mem'
    using check_raised(1) [OF that(1), of "''m1''"] that(2-4) memory_flag.raise_result [OF that(4)]
    by (simp add: alert_key_def demo_check_def memory_flag.raised_Cons memory_flag.raised_def)
  obtain r1 s1 m1 where r1: "CheckMachineAlerts 1 (demo_check (Day - 2 * Minute)) (demo_busy (Day - Hour)) NewMemory = (r1, s1, m1)"
    by (metis surj_pair)
  obtain r2 s2 m2 where r2: "CheckMachineAlerts 1 (demo_check (Day + 3 * Minute)) (demo_busy (Day - Hour)) m1 = (r2, s2, m2)"
    by (metis surj_pair)
  have m1: "m1 = snd (SetNX (Day - 2 * Minute) (dated_key (format_date UTC (Day - 2 * Minute)) ''m1'') ''1'' (24 * Hour) NewMemory)"
    using check_raised(2) [OF r1] c(1) by (simp add: memory_flag.after_def)
  have "map_of m1 (dated_key (format_date UTC (Day + 3 * Minute)) ''m1'') = None"
    using dates by (simp add: m1 SetNX_def NewMemory_def Let_def dated_key_def)
  then have "\<not> flag_live (Day + 3 * Minute) (dated_key (format_date UTC (Day + 3 * Minute)) ''m1'') m1"
    by (simp add: flag_live_def)
  moreover have "one_per_key m1" unfolding m1 by (rule one_per_key_ops(2) [OF one_per_key_New])
  ultimately have "length (filter (\<lambda>a. fst a = ''m1'') s2) = 1" using first [OF r2 c(2)] by blast
  moreover have "length (filter (\<lambda>a. fst a = ''m1'') s1) = 1"
    using first [OF r1 c(1)] one_per_key_New by (simp add: flag_live_def NewMemory_def)
  ultimately show ?thesis by (simp add: r1 r2)
qed

end
