(* ===== verification/Go_Float.thy ===== *)
theory Go_Float
  imports Complex_Main "HOL-Library.Log_Nat" Go_Time
begin

text \<open>
  Go's \<open>float64\<close>, as far as the program computes with it: comparison, division, addition and the
  conversions from and to integers. A number other than zero is its exact rational value, with
  the two zeros, the infinities and the quiet NaN beside it; a result is rounded to 53 bits, half
  to even, with gradual underflow and overflow to infinity.
\<close>

section \<open>Numbers\<close>

datatype float64 = NaN | Infinite bool | Zero bool | Finite rat

definition amount_of :: "float64 \<Rightarrow> rat" where
  "amount_of x = (case x of Finite r \<Rightarrow> r | _ \<Rightarrow> 0)"

definition negative :: "float64 \<Rightarrow> bool" where
  "negative x = (case x of NaN \<Rightarrow> False | Infinite s \<Rightarrow> s | Zero s \<Rightarrow> s | Finite r \<Rightarrow> r < 0)"

text \<open>\<open>x \<le> y\<close> in Go; NaN is not related to anything.\<close>

fun fle :: "float64 \<Rightarrow> float64 \<Rightarrow> bool" where
  "fle NaN y = False"
| "fle x NaN = False"
| "fle (Infinite s) (Infinite t) = (t \<longrightarrow> s)"
| "fle (Infinite s) y = s"
| "fle x (Infinite t) = (\<not> t)"
| "fle x y = (amount_of x \<le> amount_of y)"

section \<open>Rounding\<close>

definition pow2 :: "int \<Rightarrow> rat" where
  "pow2 k = (if 0 \<le> k then 2 ^ nat k else 1 / 2 ^ nat (- k))"

text \<open>The binary logarithm of a positive number, rounded down.\<close>

definition ilog2 :: "rat \<Rightarrow> int" where
  "ilog2 x = (case quotient_of x of (p, q) \<Rightarrow>
     (let k = bitlen p - bitlen q in if pow2 k \<le> x then k else k - 1))"

definition half_even :: "rat \<Rightarrow> int" where
  "half_even x = (let n = \<lfloor>x\<rfloor>; d = x - of_int n
     in if d < 1 / 2 \<or> (d = 1 / 2 \<and> even n) then n else n + 1)"

text \<open>The exponent of the last place: 53 bits, but never below the smallest subnormal number.\<close>

definition last_place :: "rat \<Rightarrow> int" where
  "last_place x = max (- 1074) (ilog2 x - 52)"

definition rounded :: "rat \<Rightarrow> rat" where
  "rounded x = (if x = 0 then 0 else of_int (half_even (x / pow2 (last_place x))) * pow2 (last_place x))"

definition float_of :: "bool \<Rightarrow> rat \<Rightarrow> float64" where
  "float_of s x = (if rounded x = 0 then Zero s else if pow2 1024 \<le> rounded x then Infinite s
     else Finite (if s then - rounded x else rounded x))"

fun fdiv :: "float64 \<Rightarrow> float64 \<Rightarrow> float64" where
  "fdiv NaN y = NaN"
| "fdiv x NaN = NaN"
| "fdiv (Infinite s) (Infinite t) = NaN"
| "fdiv (Infinite s) y = Infinite (s \<noteq> negative y)"
| "fdiv x (Infinite t) = Zero (negative x \<noteq> t)"
| "fdiv (Zero s) (Zero t) = NaN"
| "fdiv (Zero s) y = Zero (s \<noteq> negative y)"
| "fdiv x (Zero t) = Infinite (negative x \<noteq> t)"
| "fdiv (Finite a) (Finite b) = float_of ((a < 0) \<noteq> (b < 0)) (\<bar>a\<bar> / \<bar>b\<bar>)"

text \<open>Addition; the sum of opposite numbers is the positive zero.\<close>

fun fadd :: "float64 \<Rightarrow> float64 \<Rightarrow> float64" where
  "fadd NaN y = NaN"
| "fadd x NaN = NaN"
| "fadd (Infinite s) (Infinite t) = (if s = t then Infinite s else NaN)"
| "fadd (Infinite s) y = Infinite s"
| "fadd x (Infinite t) = Infinite t"
| "fadd x y = (let s = amount_of x + amount_of y
     in if s = 0 then Zero (negative x \<and> negative y) else float_of (s < 0) \<bar>s\<bar>)"

text \<open>
  \<open>float64(n)\<close> and \<open>int(x)\<close>, which cuts towards zero; what Go does with a number no \<open>int\<close> holds is
  up to the implementation, and is 0 here.
\<close>

definition float_of_int :: "int \<Rightarrow> float64" where
  "float_of_int n = (if n = 0 then Zero False else float_of (n < 0) (of_int \<bar>n\<bar>))"

definition int_of_float :: "float64 \<Rightarrow> int" where
  "int_of_float x = (if amount_of x < 0 then - \<lfloor>- amount_of x\<rfloor> else \<lfloor>amount_of x\<rfloor>)"

text \<open>\<open>Duration.Hours\<close> of the package \<open>time\<close>: whole hours, plus the rest of the hour as a fraction.\<close>

definition Hours :: "duration \<Rightarrow> float64" where
  "Hours d = (let hour = go_div d Hour; nsec = d - hour * Hour
     in fadd (float_of_int hour) (fdiv (float_of_int nsec) (Finite 3600000000000)))"

section \<open>Powers and logarithms\<close>

lemma pow2_powi: "pow2 k = 2 powi k"
  by (simp add: pow2_def power_int_def inverse_eq_divide power_divide)

lemma pow2_pos [simp]: "0 < pow2 k" and pow2_nz [simp]: "pow2 k \<noteq> 0" and pow2_ge [simp]: "0 \<le> pow2 k"
  by (simp_all add: pow2_def)

lemma pow2_add: "pow2 (j + k) = pow2 j * pow2 k"
  by (simp add: pow2_powi power_int_add)

lemma pow2_mono: "j \<le> k \<Longrightarrow> pow2 j \<le> pow2 k"
  by (simp add: pow2_powi power_int_increasing)

lemma pow2_less_iff: "pow2 j < pow2 k \<longleftrightarrow> j < k"
  using pow2_mono [of k j] by (auto simp: not_le pow2_powi power_int_strict_increasing not_less [symmetric])

lemma pow2_int: "0 \<le> k \<Longrightarrow> pow2 k = of_int (2 ^ nat k)"
  by (simp add: pow2_def)

lemma ilog2_bounds:
  assumes "0 < x"
  shows "pow2 (ilog2 x) \<le> x" "x < pow2 (ilog2 x + 1)"
proof -
  obtain p q where pq: "quotient_of x = (p, q)" by fastforce
  have q: "0 < q" and x: "x = of_int p / of_int q"
    using quotient_of_denom_pos [OF pq] quotient_of_div [OF pq] by auto
  have p: "0 < p" using assms q x by (simp add: zero_less_divide_iff)
  have b: "pow2 (bitlen n - 1) \<le> of_int n" "of_int n < pow2 (bitlen n)" if "0 < n" for n
  proof -
    have "2 ^ nat (bitlen n - 1) \<le> n" "n < 2 ^ nat (bitlen n)" "0 < bitlen n"
      using that bitlen_bounds [of n] bitlen_nonneg [of n] bitlen_eq_zero_iff [of n] by auto
    then show "pow2 (bitlen n - 1) \<le> of_int n" "of_int n < pow2 (bitlen n)"
      by (auto simp: pow2_int simp del: of_int_power of_int_numeral of_int_power_le_of_int_cancel_iff of_int_power_less_of_int_cancel_iff)
  qed
  let ?k = "bitlen p - bitlen q"
  have "pow2 (?k - 1) * of_int q \<le> pow2 (?k - 1) * pow2 (bitlen q)"
    using b(2) [OF q] by (intro mult_left_mono) auto
  also have "\<dots> = pow2 (bitlen p - 1)" by (simp add: pow2_add [symmetric])
  also have "\<dots> \<le> of_int p" using b(1) [OF p] .
  finally have low: "pow2 (?k - 1) \<le> x" using q by (simp add: x pos_le_divide_eq)
  have "of_int p < pow2 (bitlen p)" using b(2) [OF p] .
  also have "\<dots> = pow2 (?k + 1) * pow2 (bitlen q - 1)" by (simp add: pow2_add [symmetric])
  also have "\<dots> \<le> pow2 (?k + 1) * of_int q" using b(1) [OF q] by (intro mult_left_mono) auto
  finally have high: "x < pow2 (?k + 1)" using q by (simp add: x pos_divide_less_eq)
  show "pow2 (ilog2 x) \<le> x" "x < pow2 (ilog2 x + 1)"
    using low high by (auto simp: ilog2_def pq Let_def)
qed

lemma ilog2_mono:
  assumes "0 < x" "x \<le> y" shows "ilog2 x \<le> ilog2 y"
proof -
  have "pow2 (ilog2 x) < pow2 (ilog2 y + 1)"
    using ilog2_bounds(1) [of x] ilog2_bounds(2) [of y] assms by linarith
  then show ?thesis by (simp add: pow2_less_iff)
qed

section \<open>Rounding keeps the order\<close>

lemma half_even_int [simp]: "half_even (of_int n) = n"
  by (simp add: half_even_def)

lemma half_even_close: "\<bar>of_int (half_even x) - x\<bar> \<le> 1 / 2"
  using floor_correct [of x] by (auto simp: half_even_def Let_def)

lemma half_even_mono:
  assumes "x \<le> y" shows "half_even x \<le> half_even y"
proof (cases "\<lfloor>x\<rfloor> = \<lfloor>y\<rfloor>")
  case True
  with assms show ?thesis by (auto simp: half_even_def Let_def)
next
  case False
  then have "\<lfloor>x\<rfloor> + 1 \<le> \<lfloor>y\<rfloor>" using floor_mono [OF assms] by linarith
  then show ?thesis by (auto simp: half_even_def Let_def)
qed

lemma rounded_close: "0 < x \<Longrightarrow> \<bar>rounded x - x\<bar> \<le> pow2 (last_place x) / 2"
proof -
  assume x: "0 < x"
  let ?u = "pow2 (last_place x)"
  have "rounded x - x = (of_int (half_even (x / ?u)) - x / ?u) * ?u" using x by (simp add: rounded_def left_diff_distrib)
  then have "\<bar>rounded x - x\<bar> = \<bar>of_int (half_even (x / ?u)) - x / ?u\<bar> * ?u" by (simp add: abs_mult)
  then show ?thesis using mult_right_mono [OF half_even_close [of "x / ?u"], of ?u] by (simp add: less_imp_le)
qed

text \<open>A whole number of last places is its own rounding, and a bound for all others.\<close>

lemma rounded_bounds:
  assumes "0 < x" "last_place x \<le> k"
  shows "x \<le> pow2 k \<Longrightarrow> rounded x \<le> pow2 k" and "pow2 k \<le> x \<Longrightarrow> pow2 k \<le> rounded x"
proof -
  let ?u = "pow2 (last_place x)" let ?n = "2 ^ nat (k - last_place x) :: int"
  have k: "pow2 k = of_int ?n * ?u"
    using assms(2) pow2_add [of "k - last_place x" "last_place x"] by (simp add: pow2_int)
  have r: "rounded x = of_int (half_even (x / ?u)) * ?u" using assms(1) by (simp add: rounded_def)
  show "rounded x \<le> pow2 k" if "x \<le> pow2 k"
  proof -
    have "half_even (x / ?u) \<le> ?n"
      using half_even_mono [of "x / ?u" "of_int ?n"] that k by (simp add: pos_divide_le_eq del: of_int_power)
    then show ?thesis unfolding r k by (intro mult_right_mono) (simp_all only: of_int_le_iff pow2_pos less_imp_le)
  qed
  show "pow2 k \<le> rounded x" if "pow2 k \<le> x"
  proof -
    have "?n \<le> half_even (x / ?u)"
      using half_even_mono [of "of_int ?n" "x / ?u"] that k by (simp add: pos_le_divide_eq del: of_int_power)
    then show ?thesis unfolding r k by (intro mult_right_mono) (simp_all only: of_int_le_iff pow2_pos less_imp_le)
  qed
qed

lemma rounded_mono:
  assumes "0 \<le> x" "x \<le> y" shows "rounded x \<le> rounded y"
proof (cases "x = 0")
  case True
  have "0 \<le> half_even z" if "0 \<le> z" for z using half_even_mono [OF that] half_even_int [of 0] by simp
  with assms True show ?thesis by (auto simp: rounded_def less_imp_le intro!: mult_nonneg_nonneg)
next
  case False
  with assms have pos: "0 < x" "0 < y" by auto
  have le: "last_place x \<le> last_place y" using ilog2_mono [OF pos(1) assms(2)] by (auto simp: last_place_def)
  show ?thesis
  proof (cases "last_place x = last_place y")
    case True
    have "x / pow2 (last_place y) \<le> y / pow2 (last_place y)" by (rule divide_right_mono [OF assms(2)]) simp
    with pos True show ?thesis by (simp add: rounded_def half_even_mono)
  next
    case False
    let ?k = "last_place y + 52"
    have y: "last_place y = ilog2 y - 52" and x: "ilog2 x + 1 \<le> ?k"
      using le False by (auto simp: last_place_def max_def split: if_splits)
    have "x \<le> pow2 ?k" using ilog2_bounds(2) [OF pos(1)] pow2_mono [OF x] by linarith
    moreover have "pow2 ?k \<le> y" using ilog2_bounds(1) [OF pos(2)] y by simp
    ultimately show ?thesis
      using rounded_bounds(1) [OF pos(1), of ?k] rounded_bounds(2) [OF pos(2), of ?k] le by fastforce
  qed
qed

lemma rounded_nonneg: "0 \<le> x \<Longrightarrow> 0 \<le> rounded x"
  using rounded_mono [of 0 x] by (simp add: rounded_def)

lemma rounded_one [simp]: "rounded 1 = 1"
proof -
  have "last_place 1 \<le> 0" using ilog2_bounds(1) [of 1] pow2_less_iff [of 0 "ilog2 1"]
    by (force simp: last_place_def pow2_def)
  from rounded_bounds [OF _ this] show ?thesis by (fastforce simp: pow2_def)
qed

section \<open>Division\<close>

lemma float_of_mono:
  assumes "0 \<le> x" "0 \<le> y" and "s \<longrightarrow> t \<longrightarrow> y \<le> x" "\<not> s \<longrightarrow> \<not> t \<and> x \<le> y"
  shows "fle (float_of s x) (float_of t y)"
proof -
  have "s \<longrightarrow> t \<longrightarrow> rounded y \<le> rounded x" "\<not> s \<longrightarrow> rounded x \<le> rounded y"
    using assms rounded_mono by auto
  with assms(3,4) rounded_nonneg [OF assms(1)] rounded_nonneg [OF assms(2)] show ?thesis
    by (cases s; cases t) (auto simp: float_of_def amount_of_def)
qed

lemma fdiv_self: "a \<noteq> 0 \<Longrightarrow> fdiv (Finite a) (Finite a) = Finite 1"
  by (simp add: float_of_def pow2_def)

lemma fdiv_number:
  assumes "0 < a"
  shows "fdiv (Finite r) (Finite a) = float_of (r < 0) (\<bar>r\<bar> / a)" and "fdiv (Zero s) (Finite a) = float_of s 0"
    and "fdiv (Infinite s) (Finite a) = Infinite s"
  using assms by (auto simp: float_of_def rounded_def negative_def)

lemma fle_ends: "fle (Infinite True) (float_of s v)" "fle (float_of s v) (Infinite False)"
  by (auto simp: float_of_def)

text \<open>Dividing by one positive number never changes an order.\<close>

lemma fdiv_mono:
  assumes "fle x y" "0 < a"
  shows "fle (fdiv x (Finite a)) (fdiv y (Finite a))"
proof -
  have q: "\<bar>r\<bar> / a \<le> \<bar>r'\<bar> / a" if "\<bar>r\<bar> \<le> \<bar>r'\<bar>" for r r' :: rat using that assms(2) by (simp add: divide_right_mono)
  have p: "0 \<le> \<bar>r\<bar> / a" for r using assms(2) by simp
  show ?thesis
  proof (cases x; cases y)
    fix r r' assume xy: "x = Finite r" "y = Finite r'"
    with assms(1) have "r \<le> r'" by (simp add: amount_of_def)
    then show ?thesis
      unfolding xy fdiv_number [OF assms(2)] by (intro float_of_mono p impI conjI q) auto
  next
    fix r s assume xy: "x = Finite r" "y = Zero s"
    with assms(1) have "r \<le> 0" by (simp add: amount_of_def)
    then show ?thesis unfolding xy fdiv_number [OF assms(2)]
      using rounded_nonneg [OF p [of r]] by (auto simp: float_of_def rounded_def [of 0] amount_of_def)
  next
    fix r s assume xy: "x = Zero s" "y = Finite r"
    with assms(1) have "0 \<le> r" by (simp add: amount_of_def)
    then show ?thesis unfolding xy fdiv_number [OF assms(2)]
      using rounded_nonneg [OF p [of r]] by (auto simp: float_of_def rounded_def [of 0] amount_of_def)
  qed (use assms in \<open>auto simp: negative_def fle_ends amount_of_def\<close>)
qed

text \<open>A few values: exact halves and doubles, and the nearest number to a third.\<close>

lemma rounded_normal:
  assumes "pow2 k \<le> x" "x < pow2 (k + 1)" "- 1022 \<le> k"
  shows "rounded x = of_int (half_even (x * pow2 (52 - k))) * pow2 (k - 52)"
proof -
  have x: "0 < x" using assms(1) pow2_pos [of k] by linarith
  have "pow2 k < pow2 (ilog2 x + 1)" "pow2 (ilog2 x) < pow2 (k + 1)"
    using assms(1,2) ilog2_bounds [OF x] by linarith+
  then have "last_place x = k - 52" using assms(3) by (simp add: pow2_less_iff last_place_def)
  moreover have "x / pow2 (k - 52) = x * pow2 (52 - k)"
    using pow2_add [of "k - 52" "52 - k"] by (simp add: pow2_def [of 0] field_simps)
  ultimately show ?thesis using x by (simp add: rounded_def)
qed

lemma fdiv_examples:
  "fdiv (Finite 100) (Finite 50) = Finite 2" "fdiv (Finite 25) (Finite 50) = Finite (1 / 2)"
  "fdiv (Finite 1) (Finite 3) = Finite (6004799503160661 / 2 ^ 54)"
proof -
  have third: "\<lfloor>18014398509481984 / 3 :: rat\<rfloor> = 6004799503160661" by (rule floor_unique) simp_all
  have "rounded 2 = 2" "rounded (1 / 2) = 1 / 2"
    using rounded_normal [of 1 2] rounded_normal [of "- 1" "1 / 2"] by (simp_all add: pow2_def half_even_def Let_def)
  moreover have "rounded (1 / 3) = 6004799503160661 / 2 ^ 54"
    using rounded_normal [of "- 2" "1 / 3"] by (simp add: pow2_def half_even_def Let_def third)
  ultimately show "fdiv (Finite 100) (Finite 50) = Finite 2" "fdiv (Finite 25) (Finite 50) = Finite (1 / 2)"
    "fdiv (Finite 1) (Finite 3) = Finite (6004799503160661 / 2 ^ 54)"
    by (simp_all add: float_of_def pow2_def)
qed

section \<open>Whole days of a duration\<close>

text \<open>Small whole numbers are exact, and the error of a rounding below a power of two.\<close>

lemma rounded_of_int:
  assumes "0 \<le> n" "n < 2 ^ 53"
  shows "rounded (of_int n) = of_int n"
proof (cases "n = 0")
  case False
  with assms have n: "0 < (of_int n :: rat)" by simp
  have "pow2 (ilog2 (of_int n)) < pow2 53"
    using ilog2_bounds(1) [OF n] assms(2) of_int_less_iff [of n "2 ^ 53", where 'a = rat] by (simp add: pow2_def)
  then have lp: "last_place (of_int n) \<le> 0" by (simp add: pow2_less_iff last_place_def)
  let ?u = "pow2 (last_place (of_int n))"
  have "pow2 (- last_place (of_int n)) * ?u = 1" using pow2_add [of "- last_place (of_int n)" "last_place (of_int n)"]
    by (simp add: pow2_def [of 0])
  then have "of_int n / ?u = of_int (n * 2 ^ nat (- last_place (of_int n)))"
    using pow2_int [of "- last_place (of_int n)"] lp by (simp add: field_simps)
  then have "of_int (half_even (of_int n / ?u)) = of_int n / ?u" using half_even_int by presburger
  then show ?thesis using n by (simp add: rounded_def)
qed (simp add: rounded_def)

lemma rounded_error:
  assumes "0 \<le> x" "x < pow2 k" "- 1021 \<le> k"
  shows "\<bar>rounded x - x\<bar> \<le> pow2 (k - 54)"
proof (cases "x = 0")
  case False
  with assms have x: "0 < x" by simp
  have "pow2 (ilog2 x) < pow2 k" using ilog2_bounds(1) [OF x] assms(2) by linarith
  then have "last_place x \<le> k - 53" using assms(3) by (simp add: pow2_less_iff last_place_def)
  from pow2_mono [OF this] have "pow2 (last_place x) / 2 \<le> pow2 (k - 53) / 2" by simp
  also have "\<dots> = pow2 (k - 54)" using pow2_add [of "k - 54" 1] by (simp add: pow2_def [of 1])
  finally show ?thesis using rounded_close [OF x] by linarith
qed (simp add: rounded_def)

text \<open>A float that is neither negative nor infinite, and its value.\<close>

definition holds_value :: "float64 \<Rightarrow> rat \<Rightarrow> bool" where
  "holds_value x v \<longleftrightarrow> x = Zero False \<and> v = 0 \<or> x = Finite v \<and> 0 < v"

lemma holds_rounded:
  assumes "0 \<le> v" "v \<le> 2 ^ 52"
  shows "holds_value (float_of False v) (rounded v)"
proof -
  have "rounded v \<le> 2 ^ 52" using rounded_mono [OF assms] rounded_of_int [of "2 ^ 52"] by simp
  then show ?thesis using rounded_nonneg [OF assms(1)] by (auto simp: holds_value_def float_of_def pow2_def)
qed

lemma holds_int: "0 \<le> n \<Longrightarrow> n \<le> 2 ^ 52 \<Longrightarrow> holds_value (float_of_int n) (of_int n)"
  using holds_rounded [of "of_int n"] rounded_of_int [of n] of_int_le_iff [of n "2 ^ 52", where 'a = rat]
  by (cases "n = 0") (simp_all add: float_of_int_def holds_value_def)

lemma holds_fdiv:
  assumes "holds_value x v" "1 \<le> w" "v \<le> 2 ^ 52"
  shows "holds_value (fdiv x (Finite w)) (rounded (v / w))"
proof -
  have "v / w \<le> v" if "0 \<le> v" using assms(2) that mult_left_mono [of 1 w v] by (simp add: pos_divide_le_eq)
  with assms show ?thesis using holds_rounded [of "v / w"]
    by (auto simp: holds_value_def rounded_def [of 0] negative_def)
qed

lemma holds_fadd:
  assumes "holds_value x v" "holds_value y w" "v + w \<le> 2 ^ 52"
  shows "holds_value (fadd x y) (rounded (v + w))"
  using assms holds_rounded [of "v + w"]
  by (auto simp: holds_value_def amount_of_def negative_def rounded_def [of 0] Let_def)

lemma holds_trunc: "holds_value x v \<Longrightarrow> int_of_float x = \<lfloor>v\<rfloor>"
  by (auto simp: holds_value_def int_of_float_def amount_of_def)

lemma hour_units: "Hour = 3600000000000" "Day = 86400000000000"
  by (simp_all add: Hour_def Minute_def Second_def Day_def)

text \<open>The hours of a duration, with the error of the two roundings in them.\<close>

lemma Hours_value:
  assumes "0 \<le> d" "d \<le> int_max"
  shows "\<exists>x. holds_value (Hours d) x \<and> \<bar>x - of_int d / 3600000000000\<bar> \<le> 2 / 2 ^ 32
    \<and> of_int (24 * (d div Day)) \<le> x \<and> x \<le> 2562049"
proof -
  define h where "h = d div Hour"
  define q :: rat where "q = of_int (d mod Hour) / 3600000000000"
  define x where "x = rounded (of_int h + rounded q)"
  have h: "0 \<le> h" "h < 2562048" "24 * (d div Day) \<le> h" "0 \<le> d div Day" and r: "0 \<le> d mod Hour" "d mod Hour < 3600000000000"
    using assms by (auto simp: h_def hour_units int_max_def)
  have h': "0 \<le> (of_int h :: rat)" "(of_int h :: rat) \<le> 2562047" "of_int (24 * (d div Day)) \<le> (of_int h :: rat)"
    using h of_int_le_iff [of h 2562047, where 'a = rat] by (simp_all only: of_int_le_iff of_int_0_le_iff of_int_numeral zless_imp_add1_zle)
  have q: "0 \<le> q" "q < 1" using r of_int_less_iff [of "d mod Hour" 3600000000000, where 'a = rat] by (simp_all add: q_def)
  have f: "0 \<le> rounded q" "rounded q \<le> 1" "\<bar>rounded q - q\<bar> \<le> 1 / 2 ^ 54"
    using rounded_error [of q 0] rounded_nonneg [of q] rounded_mono [of q 1] q by (auto simp: pow2_def)
  have x: "\<bar>x - (of_int h + rounded q)\<bar> \<le> 1 / 2 ^ 32" "of_int (24 * (d div Day)) \<le> x"
    using rounded_error [of "of_int h + rounded q" 22] rounded_mono [of "of_int (24 * (d div Day))" "of_int h + rounded q"]
      rounded_of_int [of "24 * (d div Day)"] h h' f by (auto simp: x_def pow2_def)
  have parts: "go_div d Hour = h" "d - h * Hour = d mod Hour"
    using assms hour_units by (simp_all add: h_def minus_div_mult_eq_mod)
  have "holds_value (fdiv (float_of_int (d mod Hour)) (Finite 3600000000000)) (rounded q)"
    unfolding q_def using r by (intro holds_fdiv holds_int) auto
  then have "holds_value (Hours d) x"
    unfolding x_def Hours_def Let_def parts using h h' f by (auto intro!: holds_fadd holds_int)
  moreover have "of_int h + q = of_int d / 3600000000000"
  proof -
    have "(of_int d :: rat) = of_int (Hour * h + d mod Hour)" by (simp add: h_def)
    then show ?thesis by (simp add: q_def hour_units field_simps)
  qed
  then have "\<bar>x - of_int d / 3600000000000\<bar> \<le> \<bar>x - (of_int h + rounded q)\<bar> + \<bar>rounded q - q\<bar>" by linarith
  ultimately show ?thesis using x f(3) abs_le_D1 [OF x(1)] h'(2) f(2) by (intro exI [of _ x]) simp
qed

text \<open>
  The days in \<open>int(d.Hours() / 24)\<close> are the whole days of the duration. In the last millisecond of
  a day the three roundings may count the next day already, and never more.
\<close>

lemma days_by_hours:
  assumes "0 \<le> d" "d \<le> int_max"
  shows "int_of_float (fdiv (Hours d) (Finite 24)) \<in> {d div Day, d div Day + 1}"
    and "d mod Day \<le> Day - 10 ^ 6 \<Longrightarrow> int_of_float (fdiv (Hours d) (Finite 24)) = d div Day"
proof -
  define k where "k = d div Day"
  obtain x where x: "holds_value (Hours d) x" "\<bar>x - of_int d / 3600000000000\<bar> \<le> 2 / 2 ^ 32" "of_int (24 * k) \<le> x" "x \<le> 2562049"
    using Hours_value [OF assms] unfolding k_def by blast
  have k: "0 \<le> k" "k < 2 ^ 53" using assms by (auto simp: k_def hour_units int_max_def)
  have nonneg: "0 \<le> x" using x(3) k(1) by simp
  have y: "\<bar>rounded (x / 24) - x / 24\<bar> \<le> 1 / 2 ^ 36" "of_int k \<le> rounded (x / 24)"
    using rounded_error [of "x / 24" 18] rounded_mono [of "of_int k" "x / 24"] rounded_of_int [OF k] x(3,4) k(1) nonneg
    by (auto simp: pow2_def)
  have run: "int_of_float (fdiv (Hours d) (Finite 24)) = \<lfloor>rounded (x / 24)\<rfloor>"
    by (rule holds_trunc, rule holds_fdiv [OF x(1)]) (use x(4) in simp_all)
  define z :: rat where "z = of_int (d mod Day)"
  have z: "z < of_int Day" "d mod Day \<le> n \<Longrightarrow> z \<le> of_int n" for n by (simp_all only: z_def of_int_less_iff of_int_le_iff pos_mod_bound hour_units)
  have d: "of_int d = of_int Day * of_int k + z" unfolding z_def k_def of_int_mult [symmetric] of_int_add [symmetric] by simp
  have "of_int d / 3600000000000 = 24 * of_int k + z / 3600000000000" using d by (simp add: hour_units add_divide_distrib)
  note e = x(2) [unfolded this]
  have near: "\<bar>rounded (x / 24) - (of_int k + z / 86400000000000)\<bar> \<le> 4 / 2 ^ 36"
  proof (rule abs_leI)
    show "rounded (x / 24) - (of_int k + z / 86400000000000) \<le> 4 / 2 ^ 36"
      using abs_le_D1 [OF y(1)] abs_le_D1 [OF e] by simp
    show "- (rounded (x / 24) - (of_int k + z / 86400000000000)) \<le> 4 / 2 ^ 36"
      using abs_le_D2 [OF y(1)] abs_le_D2 [OF e] by simp
  qed
  show "int_of_float (fdiv (Hours d) (Finite 24)) \<in> {d div Day, d div Day + 1}"
  proof -
    have "rounded (x / 24) < of_int k + 2" using abs_le_D1 [OF near] z(1) by (simp add: hour_units)
    then show ?thesis using y(2) unfolding run k_def [symmetric] by (simp add: floor_eq_iff) linarith
  qed
  show "int_of_float (fdiv (Hours d) (Finite 24)) = d div Day" if "d mod Day \<le> Day - 10 ^ 6"
  proof -
    have "rounded (x / 24) < of_int k + 1" using abs_le_D1 [OF near] z(2) [OF that] by (simp add: hour_units)
    then show ?thesis using y(2) unfolding run k_def [symmetric] by (simp add: floor_eq_iff)
  qed
qed

end
