(* ===== verification/Http_Reports.thy ===== *)
theory Http_Reports
  imports Store_Stats Http_Access Notify_Push Go_Float
begin

text \<open>
  The pages that show numbers: the settlement and its CSV file
  (\<^verbatim>\<open>internal/httpapi/admin_settlement.go\<close>) and the home screen's list of things to do
  (\<^verbatim>\<open>internal/httpapi/admin_home.go\<close>).
\<close>

section \<open>The settlement page\<close>

record settlementDay =
  sd2_Day :: string
  sd2_ClaimCount :: int
  sd2_PaidTotalKRW :: int

record settlementMachine =
  sm2_MachineID :: string
  sm2_Label :: string
  sm2_ClaimCount :: int
  sm2_PaidTotalKRW :: int
  sm2_NeedsCheck :: bool

record settlementResponse =
  sr_Period :: string
  sr_From :: string
  sr_To :: string
  sr_ClaimCount :: int
  sr_PaidCount :: int
  sr_PaidTotalKRW :: int
  sr_PrevClaimCount :: int
  sr_PrevPaidCount :: int
  sr_PrevPaidTotalKRW :: int
  sr_Days :: "settlementDay list"
  sr_Machines :: "settlementMachine list"
  sr_PaidByCash :: int
  sr_PaidByCard :: int
  sr_RejectedCount :: int
  sr_OpenCount :: int

definition periodOf :: "string \<Rightarrow> string" where
  "periodOf p = (if p = ''month'' \<or> p = ''last_month'' \<or> p = ''week'' then p else ''week'')"

text \<open>
  The server's clock and zone, the zone of the database session and the failing queries;
  \<open>rp_alert\<close> is the configured number of claims from which a machine needs a check.
\<close>

record report_env =
  rp_zone :: zone
  rp_now :: instant
  rp_dbzone :: zone
  rp_fail :: "nat \<Rightarrow> bool"
  rp_alert :: int

definition settlement_for :: "report_env \<Rightarrow> string \<Rightarrow> string \<Rightarrow> db \<Rightarrow> (db_error, Settlement) result" where
  "settlement_for e storeID period d =
    (case SettlementRange (rp_zone e) period (rp_now e) of
       (from, to) \<Rightarrow> SettlementFor (rp_dbzone e) (rp_fail e) storeID from to (rp_alert e) d)"

definition handleSettlement :: "report_env \<Rightarrow> User \<Rightarrow> string \<Rightarrow> db \<Rightarrow> settlementResponse reply" where
  "handleSettlement e u query d =
    (let period = periodOf query; day = format_date (rp_zone e)
     in case settlement_for e (u_StoreID u) period d of Inl _ \<Rightarrow> internalError
        | Inr st \<Rightarrow> Done
          \<lparr>sr_Period = period, sr_From = day (se_From st), sr_To = day (se_To st),
           sr_ClaimCount = se_ClaimCount st, sr_PaidCount = se_PaidCount st, sr_PaidTotalKRW = se_PaidTotalKRW st,
           sr_PrevClaimCount = se_PrevClaimCount st, sr_PrevPaidCount = se_PrevPaidCount st,
           sr_PrevPaidTotalKRW = se_PrevPaidTotalKRW st,
           sr_Days = map (\<lambda>x. \<lparr>sd2_Day = day (sy_Day x), sd2_ClaimCount = sy_ClaimCount x,
             sd2_PaidTotalKRW = sy_PaidTotalKRW x\<rparr>) (se_Days st),
           sr_Machines = map (\<lambda>x. \<lparr>sm2_MachineID = sx_MachineID x, sm2_Label = sx_Label x,
             sm2_ClaimCount = sx_ClaimCount x, sm2_PaidTotalKRW = sx_PaidTotalKRW x,
             sm2_NeedsCheck = sx_NeedsCheck x\<rparr>) (se_Machines st),
           sr_PaidByCash = se_PaidByCash st, sr_PaidByCard = se_PaidByCard st,
           sr_RejectedCount = se_RejectedCount st, sr_OpenCount = se_OpenCount st\<rparr>)"

section \<open>The CSV file\<close>

text \<open>\<open>csv.Writer\<close>: when a field is quoted, and how a row is written.\<close>

definition quote_char :: char where "quote_char = CHR 0x22"

definition needs_quotes :: "string \<Rightarrow> bool" where
  "needs_quotes f \<longleftrightarrow> f \<noteq> [] \<and> (f = [CHR 0x5C, CHR ''.''] \<or> CHR '','' \<in> set f \<or> quote_char \<in> set f
     \<or> CHR 0x0D \<in> set f \<or> CHR 0x0A \<in> set f \<or> is_space (hd (runes f)))"

fun escape_quotes :: "string \<Rightarrow> string" where
  "escape_quotes [] = []"
| "escape_quotes (c # s) = (if c = quote_char then [c, c] else [c]) @ escape_quotes s"

definition csv_field :: "string \<Rightarrow> string" where
  "csv_field f = (if needs_quotes f then quote_char # escape_quotes f @ [quote_char] else f)"

fun csv_row :: "string list \<Rightarrow> string" where
  "csv_row [] = [CHR 0x0A]"
| "csv_row [f] = csv_field f @ [CHR 0x0A]"
| "csv_row (f # fs) = csv_field f @ CHR '','' # csv_row fs"

definition csv_rows :: "zone \<Rightarrow> Settlement \<Rightarrow> string list list" where
  "csv_rows z st =
    [[(u8 [0xAD6C, 0xBD84]), (u8 [0xC774, 0xB984]), (u8 [0xBBFC, 0xC6D0, 0x20, 0xC218]), (u8 [0xD658, 0xBD88, 0xC561, 0x28, 0xC6D0, 0x29])]]
    @ map (\<lambda>m. [(u8 [0xAE30, 0xACC4]), sx_Label m, Itoa (sx_ClaimCount m), Itoa (sx_PaidTotalKRW m)]) (se_Machines st)
    @ map (\<lambda>x. [(u8 [0xB0A0, 0xC9DC]), format_date z (sy_Day x), Itoa (sy_ClaimCount x), Itoa (sy_PaidTotalKRW x)]) (se_Days st)
    @ [[(u8 [0xD569, 0xACC4]), [], Itoa (se_ClaimCount st), Itoa (se_PaidTotalKRW st)],
       [(u8 [0xACC4, 0xC88C, 0x20, 0xC1A1, 0xAE08]), [], Itoa (se_PaidByCash st), []],
       [(u8 [0xCE74, 0xB4DC, 0x20, 0xCDE8, 0xC18C]), [], Itoa (se_PaidByCard st), []],
       [(u8 [0xAC70, 0xC808]), [], Itoa (se_RejectedCount st), []],
       [(u8 [0xB300, 0xAE30]), [], Itoa (se_OpenCount st), []]]"

text \<open>The layout \<open>20060102\<close>.\<close>

definition format_compact :: "zone \<Rightarrow> instant \<Rightarrow> string" where
  "format_compact z t = (case Date z t of (y, m, d) \<Rightarrow> pad 4 y @ pad 2 m @ pad 2 d)"

definition utf8_bom :: string where "utf8_bom = map char_of [0xEF::nat, 0xBB, 0xBF]"

text \<open>The answer is the name of the file and its bytes.\<close>

definition handleSettlementCSV :: "report_env \<Rightarrow> User \<Rightarrow> string \<Rightarrow> db \<Rightarrow> (string \<times> string) reply" where
  "handleSettlementCSV e u query d =
    (case settlement_for e (u_StoreID u) (periodOf query) d of Inl _ \<Rightarrow> internalError
     | Inr st \<Rightarrow> Done
        (''claw-hub-'' @ format_compact (rp_zone e) (se_From st) @ ''_'' @ format_compact (rp_zone e) (se_To st) @ ''.csv'',
         utf8_bom @ concat (map csv_row (csv_rows (rp_zone e) st))))"

section \<open>The home page\<close>

record homeAction =
  ha_Kind :: string
  ha_Severity :: string
  ha_Title :: string
  ha_Detail :: string
  ha_Count :: int
  ha_Href :: string

record homeResponse =
  hr_StoreName :: string
  hr_StoreType :: string
  hr_Actions :: "homeAction list"
  hr_TodayClaims :: int
  hr_TodayPaid :: int
  hr_TodayPaidKrw :: int

definition machineAlertThreshold :: int where "machineAlertThreshold = 3"

text \<open>
  The separator of thousands in \<^verbatim>\<open>public.go\<close>, one of three copies. It counts the sign as a digit, as
  the copy for Slack does; all three agree on the amounts they are given, which are not negative.
\<close>

definition comma_http :: "int \<Rightarrow> string" where
  "comma_http n = comma_loop False (Itoa n)"

lemma commas_agree: "0 \<le> n \<Longrightarrow> comma_http n = comma n \<and> comma_plain n = comma n"
  by (simp add: comma_http_def comma_plain_def comma_def Let_def)

lemma commas_differ: "comma_http (- 100) = ''-,100'' \<and> comma (- 100) = ''-100''"
  by code_simp

text \<open>The hours of \<open>Sub\<close>, a float, are divided by 24 and cut.\<close>

definition payoutPendingDetail :: "HomeSummary \<Rightarrow> instant \<Rightarrow> string" where
  "payoutPendingDetail hs now =
    (let amount = (u8 [0xD569, 0xACC4, 0x20]) @ comma_http (hs_ApprovedAmountKRW hs) @ (u8 [0xC6D0])
     in if IsZero (hs_OldestApprovedAt hs) then amount
        else (let days = int_of_float (fdiv (Hours (Sub now (hs_OldestApprovedAt hs))) (Finite 24))
              in if 1 \<le> days then amount @ (u8 [0x20, 0xB7, 0x20, 0xAC00, 0xC7A5, 0x20, 0xC624, 0xB798, 0xB41C, 0x20, 0xAC74, 0xC740, 0x20]) @ Itoa days @ (u8 [0xC77C, 0xC9F8]) else amount))"

text \<open>The days it shows, whatever the floats do: none on the first day, then the whole days passed.\<close>

lemma payoutPendingDetail_days:
  assumes "\<not> IsZero (hs_OldestApprovedAt hs)" "hs_OldestApprovedAt hs \<le> now" "now - hs_OldestApprovedAt hs \<le> int_max"
    and "(now - hs_OldestApprovedAt hs) mod Day \<le> Day - 10 ^ 6"
  shows "payoutPendingDetail hs now = (let n = (now - hs_OldestApprovedAt hs) div Day;
      amount = u8 [0xD569, 0xACC4, 0x20] @ comma_http (hs_ApprovedAmountKRW hs) @ u8 [0xC6D0]
    in if n = 0 then amount else amount @ u8 [0x20, 0xB7, 0x20, 0xAC00, 0xC7A5, 0x20, 0xC624, 0xB798, 0xB41C, 0x20, 0xAC74, 0xC740, 0x20]
      @ Itoa n @ u8 [0xC77C, 0xC9F8])"
proof -
  let ?d = "now - hs_OldestApprovedAt hs"
  have "Sub now (hs_OldestApprovedAt hs) = ?d" using assms(2,3) by (simp add: Sub_def int_min_def)
  moreover have "0 \<le> ?d div Day" using assms(2) by (simp add: hour_units pos_imp_zdiv_nonneg_iff)
  ultimately show ?thesis using assms days_by_hours(2) [of ?d] by (auto simp: payoutPendingDetail_def Let_def)
qed

definition buildHomeActions :: "HomeSummary \<Rightarrow> MachineAlert list \<Rightarrow> instant \<Rightarrow> homeAction list" where
  "buildHomeActions hs alerts now =
    (if 0 < hs_Approved hs then [\<lparr>ha_Kind = ''payout_pending'', ha_Severity = ''stop'',
       ha_Title = (u8 [0xD658, 0xBD88, 0x20]) @ Itoa (hs_Approved hs) @ (u8 [0xAC74, 0xC774, 0x20, 0xC544, 0xC9C1, 0x20, 0xC548, 0x20, 0xB098, 0xAC14, 0xC5B4, 0xC694]), ha_Detail = payoutPendingDetail hs now,
       ha_Count = hs_Approved hs, ha_Href = ''/admin/claims?status=approved''\<rparr>] else [])
    @ (if 0 < hs_NeedsReview hs then [\<lparr>ha_Kind = ''needs_review'', ha_Severity = ''warn'',
       ha_Title = (u8 [0xD655, 0xC778, 0xC774, 0x20, 0xD544, 0xC694, 0xD55C, 0x20]) @ Itoa (hs_NeedsReview hs) @ (u8 [0xAC74]),
       ha_Detail = (u8 [0xACE0, 0xC561, 0xC774, 0xAC70, 0xB098, 0x20, 0xBC18, 0xBCF5, 0x20, 0xC2E0, 0xACE0, 0xB85C, 0x20, 0xAC78, 0xB7EC, 0xC9C4, 0x20, 0xAC74, 0xC785, 0xB2C8, 0xB2E4, 0x2E]),
       ha_Count = hs_NeedsReview hs, ha_Href = ''/admin/claims?status=needs_review''\<rparr>] else [])
    @ (if 0 < hs_Pending hs then [\<lparr>ha_Kind = ''pending'', ha_Severity = ''warn'',
       ha_Title = (u8 [0xC0C8, 0x20, 0xC2E0, 0xACE0, 0x20]) @ Itoa (hs_Pending hs) @ (u8 [0xAC74]), ha_Detail = (u8 [0xC544, 0xC9C1, 0x20, 0xC544, 0xBB34, 0xB3C4, 0x20, 0xC5F4, 0xC5B4, 0xBCF4, 0xC9C0, 0x20, 0xC54A, 0xC558, 0xC2B5, 0xB2C8, 0xB2E4, 0x2E]),
       ha_Count = hs_Pending hs, ha_Href = ''/admin/claims?status=pending''\<rparr>] else [])
    @ (if 0 < hs_StaleOnHold hs then [\<lparr>ha_Kind = ''stale_on_hold'', ha_Severity = ''warn'',
       ha_Title = (u8 [0xD558, 0xB8E8, 0x20, 0xB118, 0xAC8C, 0x20, 0xBCF4, 0xB958, 0x20, 0xC911, 0xC778, 0x20]) @ Itoa (hs_StaleOnHold hs) @ (u8 [0xAC74]),
       ha_Detail = (u8 [0xC190, 0xB2D8, 0xC740, 0x20, 0xC811, 0xC218, 0xD55C, 0x20, 0xC21C, 0xAC04, 0xBD80, 0xD130, 0x20, 0xAE30, 0xB2E4, 0xB9AC, 0xACE0, 0x20, 0xC788, 0xC2B5, 0xB2C8, 0xB2E4, 0x2E]),
       ha_Count = hs_StaleOnHold hs, ha_Href = ''/admin/claims?status=on_hold''\<rparr>] else [])
    @ map (\<lambda>a. \<lparr>ha_Kind = ''machine_alert'', ha_Severity = ''warn'',
       ha_Title = al_Label a @ (u8 [0xC5D0, 0x20, 0xC624, 0xB298, 0x20]) @ Itoa (al_Count a) @ (u8 [0xAC74]),
       ha_Detail = (u8 [0xAE30, 0xACC4, 0xB97C, 0x20, 0xD55C, 0x20, 0xBC88, 0x20, 0xBD10, 0xC8FC, 0xC138, 0xC694, 0x2E, 0x20, 0xACC4, 0xC18D, 0x20, 0xBA39, 0xC73C, 0xBA74, 0x20, 0xC804, 0xC6D0, 0xC744, 0x20, 0xBE7C, 0xB294, 0x20, 0xAC8C, 0x20, 0xC309, 0xB2C8, 0xB2E4, 0x2E]),
       ha_Count = al_Count a, ha_Href = ''/admin/claims?machineId='' @ al_MachineID a\<rparr>) alerts"

definition setup_payout :: homeAction where
  "setup_payout = \<lparr>ha_Kind = ''setup_payout'', ha_Severity = ''neutral'',
     ha_Title = (u8 [0xC1A1, 0xAE08, 0x20, 0xC571, 0xC744, 0x20, 0xC815, 0xD574, 0xC8FC, 0xC138, 0xC694]), ha_Detail = (u8 [0xD1A0, 0xC2A4, 0xB098, 0x20, 0xCE74, 0xCE74, 0xC624, 0xBC45, 0xD06C, 0xB97C, 0x20, 0xACE0, 0xB974, 0xBA74, 0x20, 0xD658, 0xBD88, 0x20, 0xBC84, 0xD2BC, 0xC774, 0x20, 0xC571, 0xC744, 0x20, 0xBC14, 0xB85C, 0x20, 0xC5FD, 0xB2C8, 0xB2E4, 0x2E]),
     ha_Count = 0, ha_Href = ''/admin/settings''\<rparr>"

text \<open>\<open>rp_fail\<close> numbers the queries: two of the summary, the alerts, the store.\<close>

definition handleHome :: "Sec \<Rightarrow> report_env \<Rightarrow> User \<Rightarrow> db \<Rightarrow> homeResponse reply" where
  "handleHome k e u d =
    (case HomeSummaryFor KST (rp_fail e) (u_StoreID u) (rp_now e) d of Inl _ \<Rightarrow> internalError
     | Inr hs \<Rightarrow>
      (case MachineAlertsFor (rp_fail e 2) (u_StoreID u) machineAlertThreshold (rp_now e) d of Inl _ \<Rightarrow> internalError
       | Inr alerts \<Rightarrow>
        (let res = \<lparr>hr_StoreName = [], hr_StoreType = [], hr_Actions = buildHomeActions hs alerts (rp_now e),
               hr_TodayClaims = hs_TodayClaims hs, hr_TodayPaid = hs_TodayPaid hs,
               hr_TodayPaidKrw = hs_TodayPaidKRW hs\<rparr>
         in case StoreByID k (rp_fail e 3) (u_StoreID u) d of Inl _ \<Rightarrow> Done res
            | Inr st \<Rightarrow> Done (res\<lparr>hr_StoreName := sd_Name st, hr_StoreType := NormalizeStoreType (sd_Type st),
                hr_Actions := hr_Actions res
                  @ (if sd_PayoutProvider st = [] \<or> sd_PayoutProvider st = ''none'' then [setup_payout] else [])\<rparr>))))"

section \<open>The file keeps its columns\<close>

text \<open>
  A reader of such files, for one row: a quoted field ends at a lone quote, any other at the
  next comma or line end. The flag tells whether the reader is inside quotes.
\<close>

fun read_row :: "bool \<Rightarrow> string \<Rightarrow> string \<Rightarrow> string list \<times> string" where
  "read_row q acc [] = ([acc], [])"
| "read_row False acc (c # s) =
    (if c = CHR 0x0A then ([acc], s)
     else if c = CHR '','' then (case read_row False [] s of (fs, rest) \<Rightarrow> (acc # fs, rest))
     else if c = quote_char \<and> acc = [] then read_row True acc s
     else read_row False (acc @ [c]) s)"
| "read_row True acc (c # s) =
    (if c \<noteq> quote_char then read_row True (acc @ [c]) s
     else case s of
       [] \<Rightarrow> ([acc], [])
     | c' # s' \<Rightarrow>
         if c' = quote_char then read_row True (acc @ [quote_char]) s'
         else if c' = CHR '','' then (case read_row False [] s' of (fs, rest) \<Rightarrow> (acc # fs, rest))
         else ([acc], s'))"

lemma special_chars: "quote_char \<noteq> CHR '',''" "quote_char \<noteq> CHR 0x0A" "CHR '','' \<noteq> CHR 0x0A"
  by (simp_all add: quote_char_def)

lemma read_quoted: "read_row True acc (escape_quotes f @ s) = read_row True (acc @ f) s"
  by (induction f arbitrary: acc) simp_all

lemma read_plain:
  assumes "CHR '','' \<notin> set f" "CHR 0x0A \<notin> set f" "quote_char \<notin> set f"
  shows "read_row False acc (f @ s) = read_row False (acc @ f) s"
  using assms by (induction f arbitrary: acc) auto

lemma read_csv_field:
  assumes "c = CHR '','' \<or> c = CHR 0x0A"
  shows "read_row False [] (csv_field f @ c # s)
    = (if c = CHR '','' then (case read_row False [] s of (fs, rest) \<Rightarrow> (f # fs, rest)) else ([f], s))"
proof (cases "needs_quotes f")
  case True
  have "read_row True [] (escape_quotes f @ quote_char # c # s) = read_row True f (quote_char # c # s)"
    using read_quoted [of "[]" f] by simp
  with True assms show ?thesis by (auto simp: csv_field_def quote_char_def)
next
  case False
  then have f: "f = [] \<or> CHR '','' \<notin> set f \<and> CHR 0x0A \<notin> set f \<and> quote_char \<notin> set f"
    by (auto simp: needs_quotes_def)
  then have "read_row False [] (f @ c # s) = read_row False f (c # s)"
    using read_plain [of f "[]" "c # s"] by (metis append_Nil)
  with False assms show ?thesis by (auto simp: csv_field_def quote_char_def)
qed

lemma read_csv_row: "fs \<noteq> [] \<Longrightarrow> read_row False [] (csv_row fs @ rest) = (fs, rest)"
proof (induction fs rule: csv_row.induct)
  case (2 f)
  show ?case using read_csv_field [of "CHR 0x0A" f rest] special_chars by simp
next
  case (3 f f' fs)
  have "read_row False [] (csv_field f @ CHR '','' # (csv_row (f' # fs) @ rest)) = (f # f' # fs, rest)"
    using read_csv_field [of "CHR '',''" f "csv_row (f' # fs) @ rest"] 3 by simp
  then show ?case by simp
qed simp

fun read_rows :: "nat \<Rightarrow> string \<Rightarrow> string list list" where
  "read_rows 0 s = []"
| "read_rows (Suc n) s = (case read_row False [] s of (fs, rest) \<Rightarrow> fs # read_rows n rest)"

lemma read_csv_rows:
  "\<forall>r \<in> set rows. r \<noteq> [] \<Longrightarrow> read_rows (length rows) (concat (map csv_row rows)) = rows"
  by (induction rows) (simp_all add: read_csv_row)



section \<open>Nothing to do is forgotten\<close>

text \<open>
  The home screen says what there is to do, the worst first. A claim of the store waiting for
  its money, for review, for a first look, or on hold for more than a day has its line, with the
  exact number of such claims, and money promised but not sent comes before everything else;
  a busy machine has a line with its number of claims; the kinds come in this order, and without
  such claims there is no such line. Claims of other stores change nothing.
\<close>

theorem home_shows_work:
  assumes "handleHome k e u d = Done res"
  shows "let n = (\<lambda>st. count_of (\<lambda>r. c_status r = st) (claims_of (u_StoreID u) d));
             stale = count_of (\<lambda>r. c_status r = StatusOnHold \<and> c_created r < rp_now e - 24 * Hour) (claims_of (u_StoreID u) d);
             line = (\<lambda>kind k. if 0 < k then [(kind, k)] else [])
         in \<exists>alerts setup. MachineAlertsFor False (u_StoreID u) 3 (rp_now e) d = Inr alerts
            \<and> map (\<lambda>a. (ha_Kind a, ha_Count a)) (hr_Actions res) =
                line ''payout_pending'' (n StatusApproved) @ line ''needs_review'' (n StatusNeedsReview)
                @ line ''pending'' (n StatusPending) @ line ''stale_on_hold'' stale
                @ map (\<lambda>a. (''machine_alert'', al_Count a)) alerts @ setup
            \<and> list_all (\<lambda>s. s = (''setup_payout'', 0)) setup"
    and "claims_of (u_StoreID u) d' = claims_of (u_StoreID u) d \<Longrightarrow> t_events d' = t_events d \<Longrightarrow>
      t_machines d' = t_machines d \<Longrightarrow> t_stores d' = t_stores d \<Longrightarrow> handleHome k e u d' = Done res"
proof -
  from assms obtain hs al where hs: "HomeSummaryFor KST (rp_fail e) (u_StoreID u) (rp_now e) d = Inr hs"
    and al: "MachineAlertsFor (rp_fail e 2) (u_StoreID u) machineAlertThreshold (rp_now e) d = Inr al"
    by (auto simp: handleHome_def internalError_def split: sum.splits)
  have al': "MachineAlertsFor False (u_StoreID u) 3 (rp_now e) d = Inr al"
    using al by (auto simp: MachineAlertsFor_def machineAlertThreshold_def Let_def split: if_splits)
  have acts: "hr_Actions res = buildHomeActions hs al (rp_now e)
      \<or> hr_Actions res = buildHomeActions hs al (rp_now e) @ [setup_payout]"
    using assms hs al by (auto simp: handleHome_def Let_def split: sum.splits if_splits)
  have counts: "hs_Approved hs = count_of (\<lambda>r. c_status r = StatusApproved) (claims_of (u_StoreID u) d)"
    "hs_NeedsReview hs = count_of (\<lambda>r. c_status r = StatusNeedsReview) (claims_of (u_StoreID u) d)"
    "hs_Pending hs = count_of (\<lambda>r. c_status r = StatusPending) (claims_of (u_StoreID u) d)"
    "hs_StaleOnHold hs = count_of (\<lambda>r. c_status r = StatusOnHold \<and> c_created r < rp_now e - 24 * Hour) (claims_of (u_StoreID u) d)"
    using hs by (auto simp: HomeSummaryFor_def Let_def split: if_splits)
  have shown: "map (\<lambda>a. (ha_Kind a, ha_Count a)) (buildHomeActions hs al (rp_now e)) =
      (if 0 < hs_Approved hs then [(''payout_pending'', hs_Approved hs)] else [])
      @ (if 0 < hs_NeedsReview hs then [(''needs_review'', hs_NeedsReview hs)] else [])
      @ (if 0 < hs_Pending hs then [(''pending'', hs_Pending hs)] else [])
      @ (if 0 < hs_StaleOnHold hs then [(''stale_on_hold'', hs_StaleOnHold hs)] else [])
      @ map (\<lambda>a. (''machine_alert'', al_Count a)) al"
    by (simp add: buildHomeActions_def comp_def)
  define more where "more = (if hr_Actions res = buildHomeActions hs al (rp_now e) then [] else [(''setup_payout'', 0::int)])"
  have all: "map (\<lambda>a. (ha_Kind a, ha_Count a)) (hr_Actions res)
      = map (\<lambda>a. (ha_Kind a, ha_Count a)) (buildHomeActions hs al (rp_now e)) @ more"
    using acts by (auto simp: more_def setup_payout_def)
  show "let n = (\<lambda>st. count_of (\<lambda>r. c_status r = st) (claims_of (u_StoreID u) d));
             stale = count_of (\<lambda>r. c_status r = StatusOnHold \<and> c_created r < rp_now e - 24 * Hour) (claims_of (u_StoreID u) d);
             line = (\<lambda>kind k. if 0 < k then [(kind, k)] else [])
         in \<exists>alerts setup. MachineAlertsFor False (u_StoreID u) 3 (rp_now e) d = Inr alerts
            \<and> map (\<lambda>a. (ha_Kind a, ha_Count a)) (hr_Actions res) =
                line ''payout_pending'' (n StatusApproved) @ line ''needs_review'' (n StatusNeedsReview)
                @ line ''pending'' (n StatusPending) @ line ''stale_on_hold'' stale
                @ map (\<lambda>a. (''machine_alert'', al_Count a)) alerts @ setup
            \<and> list_all (\<lambda>s. s = (''setup_payout'', 0)) setup"
    unfolding Let_def
    by (rule exI [of _ al], rule exI [of _ more]) (simp only: al' all shown counts append_assoc, simp add: more_def)
  assume same: "claims_of (u_StoreID u) d' = claims_of (u_StoreID u) d" "t_events d' = t_events d"
    "t_machines d' = t_machines d" "t_stores d' = t_stores d"
  have aw: "approvals_waiting (u_StoreID u) d' = approvals_waiting (u_StoreID u) d"
    by (simp add: approvals_waiting_def same)
  have h: "HomeSummaryFor z f (u_StoreID u) t d' = HomeSummaryFor z f (u_StoreID u) t d" for z f t
    unfolding HomeSummaryFor_def same aw ..
  have m: "MachineAlertsFor f (u_StoreID u) n t d' = MachineAlertsFor f (u_StoreID u) n t d" for f n t
    unfolding MachineAlertsFor_def same ..
  have b: "StoreByID k f (u_StoreID u) d' = StoreByID k f (u_StoreID u) d" for f
    unfolding StoreByID_def same ..
  show "handleHome k e u d' = Done res" using assms unfolding handleHome_def h m b .
qed

definition demo_approved :: db where
  "demo_approved = empty_db\<lparr>t_claims := [(new_claim_row (demo_env ''c1'') demo_input ([], []) ([], []) [] None)
     \<lparr>c_status := StatusApproved\<rparr>]\<rparr>"

lemma home_shows_work_witness:
  "\<exists>res. handleHome demo_sec \<lparr>rp_zone = KST, rp_now = 2000, rp_dbzone = UTC, rp_fail = \<lambda>_. False, rp_alert = 3\<rparr>
      \<lparr>u_ID = ''u1'', u_StoreID = ''s1'', u_Email = [], u_Name = [], u_Phone = [], u_Active = True\<rparr> demo_approved = Done res
    \<and> take 1 (map (\<lambda>a. (ha_Kind a, ha_Count a)) (hr_Actions res)) = [(''payout_pending'', 1)]"
proof -
  let ?e = "\<lparr>rp_zone = KST, rp_now = 2000, rp_dbzone = UTC, rp_fail = \<lambda>_. False, rp_alert = 3\<rparr> :: report_env"
  let ?u = "\<lparr>u_ID = ''u1'', u_StoreID = ''s1'', u_Email = [], u_Name = [], u_Phone = [], u_Active = True\<rparr> :: User"
  have "\<exists>res. handleHome demo_sec ?e ?u demo_approved = Done res"
    by (simp add: handleHome_def HomeSummaryFor_def MachineAlertsFor_def StoreByID_def Let_def demo_approved_def empty_db_def)
  then obtain res where h: "handleHome demo_sec ?e ?u demo_approved = Done res" by blast
  have "count_of (\<lambda>r. c_status r = StatusApproved) (claims_of (u_StoreID ?u) demo_approved) = 1"
    by (simp add: count_of_def claims_of_def demo_approved_def new_claim_row_def demo_env_def demo_input_def)
  with home_shows_work(1) [OF h] have "take 1 (map (\<lambda>a. (ha_Kind a, ha_Count a)) (hr_Actions res)) = [(''payout_pending'', 1)]"
    by (auto simp: Let_def)
  with h show ?thesis by blast
qed

end
