(* ===== verification/Store_Inventory.thy ===== *)
theory Store_Inventory
  imports Store_Machines Domain_Trade
begin

text \<open>
  \<^verbatim>\<open>internal/store/inventory.go\<close>: purchases of stock behind an idempotency key, the stock list
  with its weighted costs, counting the shelves, and the suggestions of the entry form. Nothing
  stores how many of an item there are: the number is the last count plus what was bought since.
  Amounts are four-byte columns, and PostgreSQL refuses a product that leaves their range.
\<close>

section \<open>Purchases\<close>

record Purchase =
  px_ID :: string
  px_Name :: string
  px_NameKey :: string
  px_Vendor :: string
  px_QtyTotal :: int
  px_CreatedBy :: string
  px_UnitPriceKRW :: int
  px_ShippingKRW :: int
  px_UnitCostKRW :: int
  px_TotalKRW :: int
  px_PurchasedAt :: instant
  px_ReceiptKey :: string
  px_HasReceipt :: bool

record CreatePurchaseInput =
  cp_StoreID :: string
  cp_UserID :: string
  cp_Name :: string
  cp_Vendor :: string
  cp_UnitPriceKRW :: int
  cp_Qty :: int
  cp_ShippingKRW :: int
  cp_PurchasedAt :: instant
  cp_ReceiptKey :: string
  cp_IdempotencyKey :: string

definition int4 :: "int \<Rightarrow> bool" where
  "int4 n \<longleftrightarrow> - (2 ^ 31) \<le> n \<and> n < 2 ^ 31"

definition fillCost :: "Purchase \<Rightarrow> Purchase" where
  "fillCost p = p\<lparr>px_UnitCostKRW := UnitCostKRW (px_UnitPriceKRW p) (px_QtyTotal p) (px_ShippingKRW p),
     px_TotalKRW := TotalCostKRW (px_UnitPriceKRW p) (px_QtyTotal p) (px_ShippingKRW p),
     px_HasReceipt := (px_ReceiptKey p \<noteq> [])\<rparr>"

definition user_name :: "db \<Rightarrow> string option \<Rightarrow> string" where
  "user_name d by' = (case by' of None \<Rightarrow> []
     | Some uid \<Rightarrow> (case find (\<lambda>u. us_id u = uid) (t_users d) of None \<Rightarrow> [] | Some u \<Rightarrow> us_name u))"

definition purchase_of :: "db \<Rightarrow> PurchaseRow \<Rightarrow> Purchase" where
  "purchase_of d r = fillCost \<lparr>px_ID = pu_id r, px_Name = pu_name r, px_NameKey = pu_key r,
     px_Vendor = pu_vendor r, px_QtyTotal = pu_qty r, px_CreatedBy = user_name d (pu_by r),
     px_UnitPriceKRW = pu_unit r, px_ShippingKRW = pu_ship r, px_UnitCostKRW = 0, px_TotalKRW = 0,
     px_PurchasedAt = pu_at r, px_ReceiptKey = pu_receipt r, px_HasReceipt = False\<rparr>"

text \<open>\<open>purchaseQuery\<close> runs a selection of the rows.\<close>

definition purchaseQuery :: "bool \<Rightarrow> (PurchaseRow list \<Rightarrow> PurchaseRow list) \<Rightarrow> db \<Rightarrow> (db_error, Purchase list) result" where
  "purchaseQuery fail select d =
    (if fail then Inl DbFailure else Inr (map (purchase_of d) (select (t_purchases d))))"

definition purchaseByIdempotencyKey :: "bool \<Rightarrow> string \<Rightarrow> string \<Rightarrow> db \<Rightarrow> (db_error, Purchase option) result" where
  "purchaseByIdempotencyKey fail storeID key d =
    (case purchaseQuery fail (filter (\<lambda>r. pu_store r = storeID \<and> pu_idem r = key)) d of
       Inl e \<Rightarrow> Inl e | Inr [] \<Rightarrow> Inr None | Inr (p # _) \<Rightarrow> Inr (Some p))"

record purchase_env =
  pe_id :: string
  pe_db_now :: instant
  pe_fail_insert :: bool
  pe_before_select :: "db \<Rightarrow> db"
  pe_fail_select :: bool

definition purchase_row :: "(nat \<Rightarrow> nat) \<Rightarrow> purchase_env \<Rightarrow> CreatePurchaseInput \<Rightarrow> PurchaseRow" where
  "purchase_row lc e i = \<lparr>pu_id = pe_id e, pu_store = cp_StoreID i, pu_by = nilUUID (cp_UserID i),
     pu_name = TrimSpace (cp_Name i), pu_key = NameKey lc (cp_Name i), pu_vendor = TrimSpace (cp_Vendor i),
     pu_unit = cp_UnitPriceKRW i, pu_qty = cp_Qty i, pu_ship = cp_ShippingKRW i, pu_at = cp_PurchasedAt i,
     pu_receipt = cp_ReceiptKey i, pu_idem = cp_IdempotencyKey i, pu_created = pe_db_now e\<rparr>"

text \<open>The column types and checks, and the conflict on the key, of the one statement that inserts.\<close>

definition insert_purchase :: "bool \<Rightarrow> PurchaseRow \<Rightarrow> PurchaseRow option sql" where
  "insert_purchase fail r d =
    (if fail \<or> \<not> (int4 (pu_unit r) \<and> int4 (pu_qty r) \<and> int4 (pu_ship r)) \<or> pu_unit r < 0 \<or> pu_qty r \<le> 0 \<or> pu_ship r < 0
       \<or> pu_store r \<notin> st_id ` set (t_stores d) then (Inl DbFailure, d)
     else if list_ex (\<lambda>x. pu_store x = pu_store r \<and> pu_idem x = pu_idem r) (t_purchases d) then (Inr None, d)
     else if pu_id r \<in> pu_id ` set (t_purchases d) then (Inl UniqueViolation, d)
     else (Inr (Some r), d\<lparr>t_purchases := t_purchases d @ [r]\<rparr>))"

definition CreatePurchase :: "(nat \<Rightarrow> nat) \<Rightarrow> purchase_env \<Rightarrow> CreatePurchaseInput \<Rightarrow> (Purchase \<times> bool) sql" where
  "CreatePurchase lc e i d =
    (case insert_purchase (pe_fail_insert e) (purchase_row lc e i) d of
       (Inl err, d1) \<Rightarrow> (Inl err, d1)
     | (Inr None, d1) \<Rightarrow>
        (let d2 = pe_before_select e d1
         in case purchaseByIdempotencyKey (pe_fail_select e) (cp_StoreID i) (cp_IdempotencyKey i) d2 of
              Inl err \<Rightarrow> (Inl err, d2)
            | Inr None \<Rightarrow> (Inl ErrDuplicate, d2)
            | Inr (Some p) \<Rightarrow> (Inr (p, True), d2))
     | (Inr (Some r), d1) \<Rightarrow> (Inr ((purchase_of d1 r)\<lparr>px_CreatedBy := []\<rparr>, False), d1))"

definition ListPurchases :: "bool \<Rightarrow> string \<Rightarrow> string \<Rightarrow> int \<Rightarrow> db \<Rightarrow> (db_error, Purchase list) result" where
  "ListPurchases fail storeID nameKey limit d =
    (let n = (if limit \<le> 0 \<or> 200 < limit then 50 else limit)
     in purchaseQuery fail (\<lambda>rs. take (nat n) (sort_key (\<lambda>r. (- pu_at r, - pu_created r))
          (filter (\<lambda>r. pu_store r = storeID \<and> (nameKey = [] \<or> pu_key r = nameKey)) rs))) d)"

section \<open>The stock list\<close>

record InventoryRow =
  iv_NameKey :: string
  iv_Name :: string
  iv_QtyOnHand :: int
  iv_QtyBought :: int
  iv_AvgUnitCostKRW :: int
  iv_ValueKRW :: int
  iv_LastVendor :: string
  iv_LastUnitCostKRW :: int
  iv_LastPurchasedAt :: instant
  iv_PurchaseCount :: int

definition bought_rows :: "string \<Rightarrow> string \<Rightarrow> db \<Rightarrow> PurchaseRow list" where
  "bought_rows storeID key d = filter (\<lambda>r. pu_store r = storeID \<and> pu_key r = key) (t_purchases d)"

definition count_rows :: "string \<Rightarrow> string \<Rightarrow> db \<Rightarrow> AdjustRow list" where
  "count_rows storeID key d = filter (\<lambda>a. ad_store a = storeID \<and> ad_key a = key) (t_adjust d)"

text \<open>\<open>SELECT DISTINCT ON \<dots> ORDER BY \<dots> DESC\<close>: the greatest row, if there is one.\<close>

fun latest :: "('a \<Rightarrow> 'k::linorder) \<Rightarrow> 'a list \<Rightarrow> 'a option" where
  "latest k [] = None"
| "latest k (x # xs) = Some (case latest k xs of None \<Rightarrow> x | Some y \<Rightarrow> if k y < k x then x else y)"

definition last_count :: "string \<Rightarrow> string \<Rightarrow> db \<Rightarrow> AdjustRow option" where
  "last_count storeID key d = latest (\<lambda>a. (ad_created a, ad_id a)) (count_rows storeID key d)"

definition qty_sum :: "PurchaseRow list \<Rightarrow> int" where
  "qty_sum rs = sum_list (map pu_qty rs)"

definition qty_on_hand :: "string \<Rightarrow> string \<Rightarrow> db \<Rightarrow> int" where
  "qty_on_hand storeID key d =
    (case last_count storeID key d of
       None \<Rightarrow> qty_sum (bought_rows storeID key d)
     | Some c \<Rightarrow> ad_counted c + qty_sum (filter (\<lambda>r. ad_created c < pu_created r) (bought_rows storeID key d)))"

text \<open>\<open>unit_price_krw * qty + shipping_krw\<close>, an expression of four-byte integers.\<close>

definition row_cost :: "PurchaseRow \<Rightarrow> int" where
  "row_cost r = pu_unit r * pu_qty r + pu_ship r"

definition cost_fits :: "PurchaseRow \<Rightarrow> bool" where
  "cost_fits r \<longleftrightarrow> int4 (pu_unit r * pu_qty r) \<and> int4 (row_cost r)"

definition spent_on :: "PurchaseRow list \<Rightarrow> int" where
  "spent_on rs = sum_list (map row_cost rs)"

text \<open>One line of the list, as \<open>scanInventory\<close> fills it.\<close>

definition inventory_row :: "string \<Rightarrow> db \<Rightarrow> string \<Rightarrow> InventoryRow" where
  "inventory_row storeID d key =
    (let rs = bought_rows storeID key d; spent = spent_on rs; bought = qty_sum rs;
         onHand = qty_on_hand storeID key d;
         (name, vendor, lastUnit) = (case latest (\<lambda>r. (pu_at r, pu_created r)) rs of
            None \<Rightarrow> ([], [], 0)
          | Some r \<Rightarrow> (pu_name r, pu_vendor r, UnitCostKRW (pu_unit r) (pu_qty r) (pu_ship r)))
     in \<lparr>iv_NameKey = key, iv_Name = name, iv_QtyOnHand = onHand, iv_QtyBought = bought,
         iv_AvgUnitCostKRW = (if 0 < bought then go_div (i64 (spent + go_div bought 2)) bought else 0),
         iv_ValueKRW = (if 0 < bought \<and> 0 < onHand
           then go_div (i64 (i64 (spent * onHand) + go_div bought 2)) bought else 0),
         iv_LastVendor = vendor, iv_LastUnitCostKRW = lastUnit,
         iv_LastPurchasedAt = Max (pu_at ` set rs), iv_PurchaseCount = int (length rs)\<rparr>)"

definition stocked_keys :: "string \<Rightarrow> db \<Rightarrow> string list" where
  "stocked_keys storeID d = remdups (map pu_key (filter (\<lambda>r. pu_store r = storeID) (t_purchases d)))"

definition costs_fit :: "string \<Rightarrow> db \<Rightarrow> bool" where
  "costs_fit storeID d \<longleftrightarrow> list_all cost_fits (filter (\<lambda>r. pu_store r = storeID) (t_purchases d))"

definition InventoryFor :: "bool \<Rightarrow> string \<Rightarrow> db \<Rightarrow> (db_error, InventoryRow list) result" where
  "InventoryFor fail storeID d =
    (if fail \<or> \<not> costs_fit storeID d then Inl DbFailure
     else Inr (sort_key (\<lambda>r. - iv_LastPurchasedAt r) (map (inventory_row storeID d) (stocked_keys storeID d))))"

definition InventoryItem :: "bool \<Rightarrow> string \<Rightarrow> string \<Rightarrow> db \<Rightarrow> (db_error, InventoryRow) result" where
  "InventoryItem fail storeID nameKey d =
    (if fail \<or> \<not> list_all cost_fits (bought_rows storeID nameKey d) then Inl DbFailure
     else if bought_rows storeID nameKey d = [] then Inl ErrNotFound
     else Inr (inventory_row storeID d nameKey))"

section \<open>Counting\<close>

record adjust_env =
  je_fail_read :: bool
  je_between :: "db \<Rightarrow> db"
  je_id :: string
  je_db_now :: instant
  je_fail_insert :: bool

definition insert_adjust :: "bool \<Rightarrow> AdjustRow \<Rightarrow> unit sql" where
  "insert_adjust fail a d =
    (if fail \<or> \<not> (int4 (ad_delta a) \<and> int4 (ad_counted a)) \<or> ad_counted a < 0 \<or> ad_store a \<notin> st_id ` set (t_stores d)
       \<or> ad_id a \<in> ad_id ` set (t_adjust d) then (Inl DbFailure, d)
     else (Inr (), d\<lparr>t_adjust := t_adjust d @ [a]\<rparr>))"

definition AdjustInventory ::
  "adjust_env \<Rightarrow> string \<Rightarrow> string \<Rightarrow> string \<Rightarrow> int \<Rightarrow> string \<Rightarrow> unit sql" where
  "AdjustInventory e storeID userID nameKey countedQty memo d =
    (case InventoryItem (je_fail_read e) storeID nameKey d of Inl err \<Rightarrow> (Inl err, d)
     | Inr cur \<Rightarrow> insert_adjust (je_fail_insert e)
        \<lparr>ad_id = je_id e, ad_store = storeID, ad_by = nilUUID userID, ad_key = nameKey,
         ad_delta = i64 (countedQty - iv_QtyOnHand cur), ad_counted = countedQty, ad_note = TrimSpace memo,
         ad_created = je_db_now e\<rparr> (je_between e d))"

record Adjustment =
  aj_Delta :: int
  aj_CountedQty :: int
  aj_Note :: string
  aj_By :: string
  aj_At :: instant

definition AdjustmentsFor :: "bool \<Rightarrow> string \<Rightarrow> string \<Rightarrow> db \<Rightarrow> (db_error, Adjustment list) result" where
  "AdjustmentsFor fail storeID nameKey d =
    (if fail then Inl DbFailure
     else Inr (map (\<lambda>a. \<lparr>aj_Delta = ad_delta a, aj_CountedQty = ad_counted a, aj_Note = ad_note a,
         aj_By = user_name d (ad_by a), aj_At = ad_created a\<rparr>)
       (take 20 (sort_key (\<lambda>a. - ad_created a) (count_rows storeID nameKey d)))))"

section \<open>Suggestions\<close>

text \<open>SQL's \<open>LIKE\<close>, on runes: percent is any text, underscore any one rune, backslash quotes the next.\<close>

fun like :: "nat list \<Rightarrow> nat list \<Rightarrow> bool" where
  "like [] s \<longleftrightarrow> s = []"
| "like (p # ps) [] \<longleftrightarrow> p = 0x25 \<and> like ps []"
| "like (p # ps) (c # s) \<longleftrightarrow>
    (if p = 0x25 then like ps (c # s) \<or> like (p # ps) s
     else if p = 0x5F then like ps s
     else if p = 0x5C then (case ps of [] \<Rightarrow> False | q # qs \<Rightarrow> q = c \<and> like qs s)
     else p = c \<and> like ps s)"

definition key_matches :: "string \<Rightarrow> string \<Rightarrow> bool" where
  "key_matches key x \<longleftrightarrow> key = [] \<or> like (0x25 # runes key @ [0x25]) (runes x)"

definition DollNameSuggestions ::
  "(nat \<Rightarrow> nat) \<Rightarrow> bool \<Rightarrow> string \<Rightarrow> string \<Rightarrow> int \<Rightarrow> db \<Rightarrow> (db_error, string list) result" where
  "DollNameSuggestions lc fail storeID q limit d =
    (let n = (if limit \<le> 0 \<or> 20 < limit then 8 else limit); key = NameKey lc q;
         keys = sort (filter (key_matches key) (stocked_keys storeID d))
     in if fail then Inl DbFailure
        else Inr (take (nat n) (List.map_filter (\<lambda>k. map_option pu_name (latest pu_at (bought_rows storeID k d))) keys)))"

definition VendorSuggestions :: "bool \<Rightarrow> string \<Rightarrow> int \<Rightarrow> db \<Rightarrow> (db_error, string list) result" where
  "VendorSuggestions fail storeID limit d =
    (let n = (if limit \<le> 0 \<or> 20 < limit then 6 else limit);
         rs = filter (\<lambda>r. pu_store r = storeID \<and> pu_vendor r \<noteq> []) (t_purchases d)
     in if fail then Inl DbFailure
        else Inr (take (nat n) (sort_key (\<lambda>v. - Max (pu_at ` set (filter (\<lambda>r. pu_vendor r = v) rs)))
          (remdups (map pu_vendor rs)))))"

section \<open>The summary\<close>

record InventorySummary =
  iy_SpentKRW :: int
  iy_ItemCount :: int
  iy_QtyOnHand :: int
  iy_ValueKRW :: int

definition InventorySummaryFor ::
  "bool \<times> bool \<Rightarrow> string \<Rightarrow> instant \<Rightarrow> instant \<Rightarrow> db \<Rightarrow> (db_error, InventorySummary) result" where
  "InventorySummaryFor fails storeID from to d =
    (let rs = filter (\<lambda>r. pu_store r = storeID \<and> from \<le> pu_at r \<and> pu_at r < to) (t_purchases d)
     in if fst fails \<or> \<not> list_all cost_fits rs then Inl DbFailure
        else case InventoryFor (snd fails) storeID d of Inl e \<Rightarrow> Inl e
        | Inr rows \<Rightarrow> Inr \<lparr>iy_SpentKRW = spent_on rs, iy_ItemCount = int (length rows),
            iy_QtyOnHand = fold (\<lambda>r n. if 0 < iv_QtyOnHand r then i64 (n + iv_QtyOnHand r) else n) rows 0,
            iy_ValueKRW = fold (\<lambda>r n. if 0 < iv_QtyOnHand r then i64 (n + iv_ValueKRW r) else n) rows 0\<rparr>)"

section \<open>The number on the shelf\<close>

text \<open>
  What a shop keeper means by stock: a number for each item, raised by a purchase and set by a
  count. The rows refine it.
\<close>

datatype stock_op = Buy string int | Count string int

fun stock_apply :: "stock_op \<Rightarrow> (string \<Rightarrow> int) \<Rightarrow> string \<Rightarrow> int" where
  "stock_apply (Buy k n) s = s(k := s k + n)"
| "stock_apply (Count k n) s = s(k := n)"

definition stock_of :: "string \<Rightarrow> db \<Rightarrow> string \<Rightarrow> int" where
  "stock_of storeID d key = qty_on_hand storeID key d"

lemma latest_snoc: "(\<And>x. x \<in> set xs \<Longrightarrow> k x < k y) \<Longrightarrow> latest k (xs @ [y]) = Some y"
  by (induction xs) (auto dest: less_asym)

lemma latest_in: "latest k xs = Some x \<Longrightarrow> x \<in> set xs"
  by (induction xs arbitrary: x) (auto split: option.splits if_splits)

lemma insert_purchase_Inr:
  "insert_purchase fail r d = (Inr ret, d') \<Longrightarrow>
     (ret = Some r \<and> d' = d\<lparr>t_purchases := t_purchases d @ [r]\<rparr>) \<or> (ret = None \<and> d' = d)"
  by (auto simp: insert_purchase_def split: if_splits)

lemma insert_purchase_Inl: "insert_purchase fail r d = (Inl e, d') \<Longrightarrow> d' = d"
  by (auto simp: insert_purchase_def split: if_splits)

lemma stock_after_purchase:
  assumes "\<forall>a \<in> set (t_adjust d). ad_created a < pu_created r"
  shows "stock_of s (d\<lparr>t_purchases := t_purchases d @ [r]\<rparr>)
    = (if s = pu_store r then stock_apply (Buy (pu_key r) (pu_qty r)) (stock_of s d) else stock_of s d)"
proof
  fix key
  have c: "last_count s key (d\<lparr>t_purchases := t_purchases d @ [r]\<rparr>) = last_count s key d"
    by (simp add: last_count_def count_rows_def)
  have old: "last_count s key d = Some a \<Longrightarrow> ad_created a < pu_created r" for a
    using assms latest_in by (fastforce simp: last_count_def count_rows_def)
  show "stock_of s (d\<lparr>t_purchases := t_purchases d @ [r]\<rparr>) key
    = (if s = pu_store r then stock_apply (Buy (pu_key r) (pu_qty r)) (stock_of s d) else stock_of s d) key"
    using old by (cases "last_count s key d") (auto simp: stock_of_def qty_on_hand_def c bought_rows_def qty_sum_def)
qed

lemma stock_after_count:
  assumes "\<forall>x \<in> set (t_adjust d). ad_created x < ad_created a" "\<forall>r \<in> set (t_purchases d). pu_created r \<le> ad_created a"
  shows "stock_of s (d\<lparr>t_adjust := t_adjust d @ [a]\<rparr>)
    = (if s = ad_store a then stock_apply (Count (ad_key a) (ad_counted a)) (stock_of s d) else stock_of s d)"
proof
  fix key
  have b: "bought_rows s key (d\<lparr>t_adjust := t_adjust d @ [a]\<rparr>) = bought_rows s key d"
    by (simp add: bought_rows_def)
  have none: "filter (\<lambda>r. ad_created a < pu_created r) (bought_rows s key d) = []"
    using assms(2) by (auto simp: filter_empty_conv bought_rows_def)
  show "stock_of s (d\<lparr>t_adjust := t_adjust d @ [a]\<rparr>) key
    = (if s = ad_store a then stock_apply (Count (ad_key a) (ad_counted a)) (stock_of s d) else stock_of s d) key"
  proof (cases "ad_store a = s \<and> ad_key a = key")
    case True
    have "last_count s key (d\<lparr>t_adjust := t_adjust d @ [a]\<rparr>) = Some a"
      using True assms(1) latest_snoc [of "count_rows s key d" "\<lambda>x. (ad_created x, ad_id x)" a]
      by (auto simp: last_count_def count_rows_def)
    with True none show ?thesis by (simp add: stock_of_def qty_on_hand_def b qty_sum_def)
  next
    case False
    then have "count_rows s key (d\<lparr>t_adjust := t_adjust d @ [a]\<rparr>) = count_rows s key d"
      by (auto simp: count_rows_def)
    then have l: "last_count s key (d\<lparr>t_adjust := t_adjust d @ [a]\<rparr>) = last_count s key d"
      by (simp add: last_count_def)
    have "stock_of s (d\<lparr>t_adjust := t_adjust d @ [a]\<rparr>) key = stock_of s d key"
      unfolding stock_of_def qty_on_hand_def l b ..
    with False show ?thesis by auto
  qed
qed

text \<open>
  C10. The stock rows refine a number for each item. A recorded purchase raises the number of its
  item by the quantity; recording a count sets it, whatever was bought or counted by others
  between reading the old number and writing the new one; a purchase sent twice, or one that
  fails, changes nothing of its own; and no other item and no other store is touched. This rests
  on the database clock not running backwards.
\<close>

theorem stock_refines:
  assumes "\<forall>a \<in> set (t_adjust d). ad_created a < t" "\<forall>r \<in> set (t_purchases d). pu_created r \<le> t"
  shows "(CreatePurchase lc e i d = (Inr (p, False), d') \<and> pe_db_now e = t \<longrightarrow>
      stock_of s d' = (if s = cp_StoreID i then stock_apply (Buy (NameKey lc (cp_Name i)) (cp_Qty i)) (stock_of s d)
        else stock_of s d))
    \<and> (CreatePurchase lc e i d = (r, d') \<and> (\<forall>q. r \<noteq> Inr (q, False)) \<longrightarrow> d' \<in> {d, pe_before_select e d})
    \<and> (AdjustInventory a storeID userID key n memo d0 = (Inr (), d') \<and> je_between a d0 = d \<and> je_db_now a = t \<longrightarrow>
      stock_of s d' = (if s = storeID then stock_apply (Count key n) (stock_of s d) else stock_of s d))"
proof (intro conjI impI; elim conjE)
  show "stock_of s d' = (if s = cp_StoreID i then stock_apply (Buy (NameKey lc (cp_Name i)) (cp_Qty i)) (stock_of s d)
        else stock_of s d)"
    if run: "CreatePurchase lc e i d = (Inr (p, False), d')" and clock: "pe_db_now e = t"
  proof -
    have "d' = d\<lparr>t_purchases := t_purchases d @ [purchase_row lc e i]\<rparr>"
      using run by (auto simp: CreatePurchase_def Let_def split: prod.splits sum.splits option.splits
          dest!: insert_purchase_Inr)
    with stock_after_purchase [of d "purchase_row lc e i" s] assms(1) clock show ?thesis
      by (simp add: purchase_row_def)
  qed
  show "d' \<in> {d, pe_before_select e d}"
    if "CreatePurchase lc e i d = (r, d')" "\<forall>q. r \<noteq> Inr (q, False)"
    using that by (auto simp: CreatePurchase_def Let_def split: prod.splits sum.splits option.splits
        dest: insert_purchase_Inr insert_purchase_Inl)
  show "stock_of s d' = (if s = storeID then stock_apply (Count key n) (stock_of s d) else stock_of s d)"
    if run: "AdjustInventory a storeID userID key n memo d0 = (Inr (), d')"
      and now: "je_between a d0 = d" "je_db_now a = t"
  proof -
    obtain x where x: "d' = d\<lparr>t_adjust := t_adjust d @ [x]\<rparr>" "ad_store x = storeID" "ad_key x = key"
      "ad_counted x = n" "ad_created x = t"
      using run now by (auto simp: AdjustInventory_def insert_adjust_def split: sum.splits if_splits)
    with stock_after_count [of d x s] assms show ?thesis by simp
  qed
qed

text \<open>Adding half the divisor before dividing rounds to the nearest, halves up.\<close>

lemma half_up:
  fixes B :: int
  assumes "0 < B"
  shows "(x + B div 2) div B = (2 * x + B) div (2 * B)"
proof -
  have "(2 * x + B) div (2 * B) = (2 * x + B) div 2 div B" using assms by (simp add: zdiv_zmult2_eq)
  also have "(2 * x + B) div 2 = x + B div 2" by simp
  finally show ?thesis ..
qed

text \<open>The division of the program on amounts that stay in range.\<close>

lemma rounded_i64:
  assumes "0 < B" "0 \<le> x" "x + B \<le> int_max"
  shows "go_div (i64 (i64 x + go_div B 2)) B = (2 * x + B) div (2 * B)"
proof -
  have B2: "0 \<le> B div 2" "B div 2 \<le> B" using assms(1) by auto
  have "i64 x = x" using assms by (intro i64_id in_i64_nonneg) linarith+
  moreover have "i64 (x + B div 2) = x + B div 2" using assms B2 by (intro i64_id in_i64_nonneg) linarith+
  ultimately show ?thesis using assms(1,2) B2 half_up [OF assms(1), of x] by simp
qed

lemma InventoryItem_parts:
  assumes "InventoryItem False storeID key d = Inr r"
  defines "S \<equiv> spent_on (bought_rows storeID key d)"
  shows "iv_QtyBought r = qty_sum (bought_rows storeID key d) \<and> iv_QtyOnHand r = qty_on_hand storeID key d
      \<and> bought_rows storeID key d \<noteq> []"
    and "iv_AvgUnitCostKRW r = (if 0 < iv_QtyBought r then go_div (i64 (S + go_div (iv_QtyBought r) 2)) (iv_QtyBought r) else 0)"
    and "iv_ValueKRW r = (if 0 < iv_QtyBought r \<and> 0 < iv_QtyOnHand r
      then go_div (i64 (i64 (S * iv_QtyOnHand r) + go_div (iv_QtyBought r) 2)) (iv_QtyBought r) else 0)"
  using assms(1) by (auto simp: InventoryItem_def inventory_row_def Let_def S_def split: if_splits prod.splits)

lemma bought_positive:
  assumes "\<forall>x \<in> set rs. 0 < pu_qty x \<and> 0 \<le> pu_unit x \<and> 0 \<le> pu_ship x" "rs \<noteq> []"
  shows "0 < qty_sum rs \<and> 0 \<le> spent_on rs"
proof -
  obtain x xs where rs: "rs = x # xs" using assms(2) by (cases rs) auto
  have "0 \<le> sum_list (map pu_qty xs)" using assms(1) rs by (intro sum_list_nonneg) (auto intro: less_imp_le)
  moreover have "0 \<le> spent_on rs" unfolding spent_on_def
    using assms(1) by (intro sum_list_nonneg) (auto simp: row_cost_def intro!: add_nonneg_nonneg mult_nonneg_nonneg intro: less_imp_le)
  ultimately show ?thesis using assms(1) rs by (simp add: qty_sum_def)
qed

text \<open>
  C34. What the stock is worth. With no count since, an item is worth exactly what was spent on
  it; after a count of n pieces it is worth the n-th part of that of all that was bought, rounded
  to the nearest won, halves up; and its average cost is what was spent over what was bought,
  rounded the same way. This holds as long as the amounts stay within 64 bits.
\<close>

theorem stock_value:
  assumes item: "InventoryItem False storeID key d = Inr r"
    and rows: "\<forall>x \<in> set (t_purchases d). 0 < pu_qty x \<and> 0 \<le> pu_unit x \<and> 0 \<le> pu_ship x"
    and small: "spent_on (bought_rows storeID key d) * max (iv_QtyBought r) (iv_QtyOnHand r) + iv_QtyBought r \<le> int_max"
  shows "(last_count storeID key d = None \<longrightarrow>
      iv_QtyOnHand r = iv_QtyBought r \<and> iv_ValueKRW r = spent_on (bought_rows storeID key d))
    \<and> (0 < iv_QtyOnHand r \<longrightarrow>
      iv_ValueKRW r = (2 * (spent_on (bought_rows storeID key d) * iv_QtyOnHand r) + iv_QtyBought r) div (2 * iv_QtyBought r))
    \<and> iv_AvgUnitCostKRW r = (2 * spent_on (bought_rows storeID key d) + iv_QtyBought r) div (2 * iv_QtyBought r)"
proof (intro conjI [OF _ conjI] impI)
  let ?S = "spent_on (bought_rows storeID key d)" and ?B = "iv_QtyBought r" and ?H = "iv_QtyOnHand r"
  note r = InventoryItem_parts [OF item]
  have pos: "0 < ?B" "0 \<le> ?S"
    using bought_positive [of "bought_rows storeID key d"] r(1) rows by (auto simp: bought_rows_def)
  have part: "?S * ?B \<le> ?S * max ?B ?H" "?S * ?H \<le> ?S * max ?B ?H" "?S \<le> ?S * ?B"
    using pos by (simp_all add: mult_left_mono) (metis int_one_le_iff_zero_less mult.right_neutral mult_left_mono)
  with small have fits: "?S + ?B \<le> int_max" "?S * ?H + ?B \<le> int_max" by linarith+
  then have "i64 ?S = ?S" using pos by (intro i64_id in_i64_nonneg) linarith+
  with rounded_i64 [OF pos fits(1)] pos r(2)
  show "iv_AvgUnitCostKRW r = (2 * ?S + ?B) div (2 * ?B)" by simp
  show val: "iv_ValueKRW r = (2 * (?S * ?H) + ?B) div (2 * ?B)" if "0 < ?H"
    using rounded_i64 [OF pos(1) _ fits(2)] pos that r(3) by simp
  show "?H = ?B \<and> iv_ValueKRW r = ?S" if "last_count storeID key d = None"
  proof -
    have H: "?H = ?B" using that r(1) by (simp add: qty_on_hand_def)
    moreover have "(?S * ?B + ?B div 2) div ?B = ?S" using pos(1) by (simp add: div_add1_eq)
    ultimately show ?thesis using val pos(1) half_up [OF pos(1), of "?S * ?B"] by simp
  qed
qed

section \<open>Examples\<close>

definition demo_shop :: db where
  "demo_shop = empty_db\<lparr>t_stores := [new_store ''s1'' ''A'' [] ''claw'']\<rparr>"

definition demo_purchase :: "int \<Rightarrow> int \<Rightarrow> CreatePurchaseInput" where
  "demo_purchase unit qty = \<lparr>cp_StoreID = ''s1'', cp_UserID = ''u1'', cp_Name = ''Kuromi'', cp_Vendor = [],
     cp_UnitPriceKRW = unit, cp_Qty = qty, cp_ShippingKRW = 500, cp_PurchasedAt = 90, cp_ReceiptKey = [],
     cp_IdempotencyKey = ''k1''\<rparr>"

definition demo_purchase_env :: purchase_env where
  "demo_purchase_env = \<lparr>pe_id = ''p1'', pe_db_now = 100, pe_fail_insert = False, pe_before_select = (\<lambda>d. d),
     pe_fail_select = False\<rparr>"

definition demo_row :: "int \<Rightarrow> int \<Rightarrow> PurchaseRow" where
  "demo_row unit qty = purchase_row (\<lambda>r. r) demo_purchase_env (demo_purchase unit qty)"

lemma demo_buy:
  assumes "int4 unit" "int4 qty" "0 \<le> unit" "0 < qty"
  shows "\<exists>p. CreatePurchase (\<lambda>r. r) demo_purchase_env (demo_purchase unit qty) demo_shop
    = (Inr (p, False), demo_shop\<lparr>t_purchases := [demo_row unit qty]\<rparr>)"
  using assms by (simp add: CreatePurchase_def insert_purchase_def demo_row_def purchase_row_def demo_purchase_env_def
      demo_purchase_def demo_shop_def empty_db_def new_store_def int4_def)

lemma stock_refines_witness:
  "\<exists>p d'. CreatePurchase (\<lambda>r. r) demo_purchase_env (demo_purchase 2000 10) demo_shop = (Inr (p, False), d')
     \<and> stock_of ''s1'' d' (NameKey (\<lambda>r. r) ''Kuromi'') = 10"
proof -
  obtain p where p: "CreatePurchase (\<lambda>r. r) demo_purchase_env (demo_purchase 2000 10) demo_shop
      = (Inr (p, False), demo_shop\<lparr>t_purchases := [demo_row 2000 10]\<rparr>)"
    using demo_buy [of 2000 10] by (auto simp: int4_def)
  have "stock_of ''s1'' demo_shop k = 0" for k
    by (simp add: stock_of_def qty_on_hand_def last_count_def count_rows_def bought_rows_def qty_sum_def demo_shop_def empty_db_def)
  moreover have "\<forall>a \<in> set (t_adjust demo_shop). ad_created a < 100" "\<forall>r \<in> set (t_purchases demo_shop). pu_created r \<le> 100"
    by (simp_all add: demo_shop_def empty_db_def)
  from stock_refines [OF this, THEN conjunct1, of "\<lambda>r. r" demo_purchase_env "demo_purchase 2000 10" _ _ "''s1''"] p
  have "stock_of ''s1'' (demo_shop\<lparr>t_purchases := [demo_row 2000 10]\<rparr>)
      = stock_apply (Buy (NameKey (\<lambda>r. r) ''Kuromi'') 10) (stock_of ''s1'' demo_shop)"
    by (simp add: demo_purchase_env_def demo_purchase_def)
  ultimately have "stock_of ''s1'' (demo_shop\<lparr>t_purchases := [demo_row 2000 10]\<rparr>) (NameKey (\<lambda>r. r) ''Kuromi'') = 10"
    by simp
  with p show ?thesis by blast
qed

lemma stock_value_witness:
  "\<exists>r. InventoryItem False ''s1'' (pu_key (demo_row 2000 10)) (demo_shop\<lparr>t_purchases := [demo_row 2000 10]\<rparr>) = Inr r
    \<and> iv_ValueKRW r = 20500"
proof -
  let ?d = "demo_shop\<lparr>t_purchases := [demo_row 2000 10]\<rparr>"
  let ?k = "pu_key (demo_row 2000 10)"
  have row: "pu_store (demo_row 2000 10) = ''s1''" "pu_unit (demo_row 2000 10) = 2000" "pu_qty (demo_row 2000 10) = 10"
    "pu_ship (demo_row 2000 10) = 500" by (simp_all add: demo_row_def purchase_row_def demo_purchase_def)
  have rows: "bought_rows ''s1'' ?k ?d = [demo_row 2000 10]" by (simp add: bought_rows_def row)
  have none: "last_count ''s1'' ?k ?d = None" by (simp add: last_count_def count_rows_def demo_shop_def empty_db_def)
  have spent: "spent_on [demo_row 2000 10] = 20500" by (simp add: spent_on_def row_cost_def row)
  have item: "InventoryItem False ''s1'' ?k ?d = Inr (inventory_row ''s1'' ?d ?k)"
    by (simp add: InventoryItem_def rows cost_fits_def row_cost_def row int4_def)
  have q: "iv_QtyBought (inventory_row ''s1'' ?d ?k) = 10" "iv_QtyOnHand (inventory_row ''s1'' ?d ?k) = 10"
    by (simp_all add: inventory_row_def Let_def rows qty_sum_def row qty_on_hand_def none split: prod.split)
  have "iv_ValueKRW (inventory_row ''s1'' ?d ?k) = 20500"
    using stock_value [OF item, THEN conjunct1, rule_format, OF _ _ none] by (simp add: row q rows spent int_max_def)
  with item show ?thesis by blast
qed

text \<open>
  A purchase the form accepts and the table takes, but whose price times quantity leaves the
  four-byte range: from then on the stock list of the store fails on every call.
\<close>

lemma one_purchase_stops_the_list:
  "ValidatePurchase \<lparr>pi_Name = ''Kuromi'', pi_Vendor = [], pi_UnitPriceKRW = 100000, pi_Qty = 30000,
      pi_ShippingKRW = 500, pi_PurchasedAt = 90\<rparr> 100 = None
   \<and> (\<exists>p d'. CreatePurchase (\<lambda>r. r) demo_purchase_env (demo_purchase 100000 30000) demo_shop = (Inr (p, False), d')
        \<and> (\<forall>d2. set (t_purchases d') \<subseteq> set (t_purchases d2) \<longrightarrow> InventoryFor False ''s1'' d2 = Inl DbFailure))"
proof -
  have form: "ValidatePurchase \<lparr>pi_Name = ''Kuromi'', pi_Vendor = [], pi_UnitPriceKRW = 100000, pi_Qty = 30000,
      pi_ShippingKRW = 500, pi_PurchasedAt = 90\<rparr> 100 = None"
  proof -
    have ascii: "is_ascii ''Kuromi''" by (simp add: byte_def)
    have "TrimSpace ''Kuromi'' \<noteq> []" by (simp add: TrimSpace_ascii [OF ascii] byte_def is_space_def)
    moreover have "rune_count ''Kuromi'' = 6" "rune_count [] = 0"
      by (simp_all add: rune_count_def segs_ascii [OF ascii])
    ultimately show ?thesis
      by (simp add: ValidatePurchase_def maxDollNameRunes_def maxVendorRunes_def IsZero_def zero_time_def
          clockSkewAllowance_def maxPurchaseAge_def duration_defs)
  qed
  obtain p where p: "CreatePurchase (\<lambda>r. r) demo_purchase_env (demo_purchase 100000 30000) demo_shop
      = (Inr (p, False), demo_shop\<lparr>t_purchases := [demo_row 100000 30000]\<rparr>)"
    using demo_buy [of 100000 30000] by (auto simp: int4_def)
  have bad: "pu_store (demo_row 100000 30000) = ''s1''" "\<not> cost_fits (demo_row 100000 30000)"
    by (simp_all add: demo_row_def purchase_row_def demo_purchase_def cost_fits_def int4_def)
  have "InventoryFor False ''s1'' d2 = Inl DbFailure" if "demo_row 100000 30000 \<in> set (t_purchases d2)" for d2
    using that bad by (auto simp: InventoryFor_def costs_fit_def list_all_iff)
  with form p show ?thesis by force
qed

end
