(* ===== verification/Http_Inventory.thy ===== *)
theory Http_Inventory
  imports Store_Inventory Http_Public
begin

text \<open>
  \<^verbatim>\<open>internal/httpapi/admin_inventory.go\<close>: the stock pages, entering a purchase with its receipt,
  counting the shelves, and the suggestions of the form.
\<close>

section \<open>Reading\<close>

record inventoryResponse =
  ir_Summary :: InventorySummary
  ir_Items :: "InventoryRow list"
  ir_SpentFrom :: instant
  ir_SpentTo :: instant

definition monthRange :: "zone \<Rightarrow> instant \<Rightarrow> instant \<times> instant" where
  "monthRange z now = (case Date z now of (y, m, _) \<Rightarrow> (midnight z y m 1, midnight z y (m + 1) 1))"

text \<open>\<open>fail\<close> numbers the queries.\<close>

definition handleInventory :: "(nat \<Rightarrow> bool) \<Rightarrow> instant \<Rightarrow> User \<Rightarrow> db \<Rightarrow> inventoryResponse reply" where
  "handleInventory fail now u d =
    (case monthRange KST now of (from, to) \<Rightarrow>
      (case InventorySummaryFor (fail 0, fail 1) (u_StoreID u) from to d of Inl _ \<Rightarrow> internalError
       | Inr sm \<Rightarrow>
          (case InventoryFor (fail 2) (u_StoreID u) d of Inl _ \<Rightarrow> internalError
           | Inr items \<Rightarrow> Done \<lparr>ir_Summary = sm, ir_Items = items, ir_SpentFrom = from, ir_SpentTo = to\<rparr>)))"

record inventoryItemResponse =
  ii_Row :: InventoryRow
  ii_Purchases :: "Purchase list"
  ii_Adjustments :: "Adjustment list"

definition handleInventoryItem :: "(nat \<Rightarrow> bool) \<Rightarrow> User \<Rightarrow> string \<Rightarrow> db \<Rightarrow> inventoryItemResponse reply" where
  "handleInventoryItem fail u key d =
    (case InventoryItem (fail 0) (u_StoreID u) key d of
       Inl e \<Rightarrow> (if e = ErrNotFound then notFound else internalError)
     | Inr item \<Rightarrow>
        (case ListPurchases (fail 1) (u_StoreID u) key 50 d of Inl _ \<Rightarrow> internalError
         | Inr purchases \<Rightarrow>
            (case AdjustmentsFor (fail 2) (u_StoreID u) key d of Inl _ \<Rightarrow> internalError
             | Inr adjustments \<Rightarrow>
                Done \<lparr>ii_Row = item, ii_Purchases = purchases, ii_Adjustments = adjustments\<rparr>)))"

definition handleListPurchases ::
  "(nat \<Rightarrow> nat) \<Rightarrow> bool \<Rightarrow> User \<Rightarrow> string \<Rightarrow> string \<Rightarrow> db \<Rightarrow> Purchase list reply" where
  "handleListPurchases lc fail u limit name d =
    (case (if limit = [] then Some 0 else Atoi limit) of None \<Rightarrow> badRequest
     | Some n \<Rightarrow>
        (case ListPurchases fail (u_StoreID u) (if name = [] then [] else NameKey lc name) n d of
           Inl _ \<Rightarrow> internalError | Inr ps \<Rightarrow> Done ps))"

definition handleSuggestions ::
  "(nat \<Rightarrow> nat) \<Rightarrow> bool \<times> bool \<Rightarrow> User \<Rightarrow> string \<Rightarrow> db \<Rightarrow> (string list \<times> string list) reply" where
  "handleSuggestions lc fails u q d =
    (case DollNameSuggestions lc (fst fails) (u_StoreID u) q 8 d of Inl _ \<Rightarrow> internalError
     | Inr names \<Rightarrow>
        (case VendorSuggestions (snd fails) (u_StoreID u) 6 d of Inl _ \<Rightarrow> internalError
         | Inr vendors \<Rightarrow> Done (names, vendors)))"

section \<open>Entering a purchase\<close>

text \<open>A number field: empty is zero, and the domain decides whether zero will do.\<close>

definition num_field :: "(string \<Rightarrow> string) \<Rightarrow> string \<Rightarrow> int option" where
  "num_field v field = (let raw = TrimSpace (v field) in if raw = [] then Some 0 else Atoi raw)"

text \<open>\<open>parse\<close> is \<open>time.ParseInLocation\<close> with the date layout, in Korean time.\<close>

definition parsePurchaseForm ::
  "(string \<Rightarrow> instant option) \<Rightarrow> instant \<Rightarrow> (string \<Rightarrow> string) \<Rightarrow> CreatePurchaseInput option" where
  "parsePurchaseForm parse now v =
    (let name = TrimSpace (v ''name''); vendor = TrimSpace (v ''vendor'')
     in case num_field v ''unitPriceKrw'' of None \<Rightarrow> None | Some unit \<Rightarrow>
       (case num_field v ''qty'' of None \<Rightarrow> None | Some qty \<Rightarrow>
       (case num_field v ''shippingKrw'' of None \<Rightarrow> None | Some shipping \<Rightarrow>
         (let raw = TrimSpace (v ''purchasedAt'')
          in case (if raw = [] then Some now else parse raw) of None \<Rightarrow> None
           | Some at \<Rightarrow>
              if ValidatePurchase \<lparr>pi_Name = name, pi_Vendor = vendor, pi_UnitPriceKRW = unit, pi_Qty = qty,
                   pi_ShippingKRW = shipping, pi_PurchasedAt = at\<rparr> now \<noteq> None then None
              else Some \<lparr>cp_StoreID = [], cp_UserID = [], cp_Name = name, cp_Vendor = vendor,
                cp_UnitPriceKRW = unit, cp_Qty = qty, cp_ShippingKRW = shipping, cp_PurchasedAt = at,
                cp_ReceiptKey = [], cp_IdempotencyKey = []\<rparr>))))"

record createPurchaseResponse =
  cq_Purchase :: Purchase
  cq_Existing :: bool
  cq_PreviousUnitCostKrw :: int
  cq_QtyOnHand :: int

record purchase_call =
  pc_lower :: "nat \<Rightarrow> nat"
  pc_root :: string
  pc_parse :: "string \<Rightarrow> instant option"
  pc_now :: instant
  pc_fail_list :: bool
  pc_put :: "nat \<Rightarrow> put_env \<times> key_env"
  pc_delete :: "nat \<Rightarrow> bool"
  pc_create :: purchase_env
  pc_fail_item :: bool

text \<open>The half that records: the receipt was written, the row follows.\<close>

definition record_purchase ::
  "purchase_call \<Rightarrow> User \<Rightarrow> CreatePurchaseInput \<Rightarrow> int \<Rightarrow> pendingPhoto list \<Rightarrow> db \<Rightarrow> disk
     \<Rightarrow> (nat \<times> createPurchaseResponse) reply \<times> db \<times> disk" where
  "record_purchase c u inp prev written d disk1 =
    (let cleaned = cleanupPhotos (DeletePhoto (pc_root c)) (pc_delete c) 0 written disk1
     in case CreatePurchase (pc_lower c) (pc_create c) inp d of
       (Inl _, d1) \<Rightarrow> (internalError, d1, cleaned)
     | (Inr (p, existing), d1) \<Rightarrow>
        (Done (if existing then 200 else 201,
           \<lparr>cq_Purchase = p, cq_Existing = existing, cq_PreviousUnitCostKrw = (if existing then 0 else prev),
            cq_QtyOnHand = (case InventoryItem (pc_fail_item c) (u_StoreID u) (px_NameKey p) d1 of
              Inl _ \<Rightarrow> 0 | Inr item \<Rightarrow> iv_QtyOnHand item)\<rparr>),
         d1, if existing then cleaned else disk1))"

definition handleCreatePurchase ::
  "purchase_call \<Rightarrow> User \<Rightarrow> claim_request \<Rightarrow> db \<Rightarrow> disk \<Rightarrow> (nat \<times> createPurchaseResponse) reply \<times> db \<times> disk" where
  "handleCreatePurchase c u r d disk =
    (let key = TrimSpace (rq_key r)
     in if key = [] \<or> 200 < length key then (badRequest, d, disk)
        else if \<not> rq_multipart r then (badRequest, d, disk)
        else case parsePurchaseForm (pc_parse c) (pc_now c) (rq_form r) of None \<Rightarrow> (badRequest, d, disk)
        | Some form \<Rightarrow>
          (let prev = (case ListPurchases (pc_fail_list c) (u_StoreID u) (NameKey (pc_lower c) (cp_Name form)) 1 d of
                 Inr (p # _) \<Rightarrow> px_UnitCostKRW p | _ \<Rightarrow> 0)
           in case collectPhotos (rq_files r) of Inl _ \<Rightarrow> (badRequest, d, disk)
           | Inr photos \<Rightarrow>
              if 1 < length photos then (badRequest, d, disk)
              else case writePhotos (Put (pc_root c)) (pc_put c) 0 photos disk of
                ((written, ok), disk1) \<Rightarrow>
                  if \<not> ok then (internalError, d, cleanupPhotos (DeletePhoto (pc_root c)) (pc_delete c) 0 written disk1)
                  else record_purchase c u
                    (form\<lparr>cp_ReceiptKey := (case written of [w] \<Rightarrow> pn_key w | _ \<Rightarrow> []), cp_StoreID := u_StoreID u,
                       cp_UserID := u_ID u, cp_IdempotencyKey := key\<rparr>) prev written d disk1))"

section \<open>Counting\<close>

record countRequest =
  ct_CountedQty :: int
  ct_Note :: string

datatype count_body = NoCount | BadCount | Count_Decoded countRequest

definition handleCountInventory ::
  "adjust_env \<Rightarrow> bool \<Rightarrow> User \<Rightarrow> string \<Rightarrow> count_body \<Rightarrow> db \<Rightarrow> InventoryRow reply \<times> db" where
  "handleCountInventory e fail u key body d =
    (let req = (case body of Count_Decoded q \<Rightarrow> q | _ \<Rightarrow> \<lparr>ct_CountedQty = 0, ct_Note = []\<rparr>)
     in if body = BadCount then (badRequest, d)
        else if ValidateAdjustment (ct_CountedQty req) \<noteq> None then (badRequest, d)
        else if 200 < rune_count (ct_Note req) then (badRequest, d)
        else case AdjustInventory e (u_StoreID u) (u_ID u) key (ct_CountedQty req) (ct_Note req) d of
          (Inl err, d1) \<Rightarrow> (if err = ErrNotFound then notFound else internalError, d1)
        | (Inr _, d1) \<Rightarrow>
            (case InventoryItem fail (u_StoreID u) key d1 of Inl _ \<Rightarrow> (internalError, d1)
             | Inr item \<Rightarrow> (Done item, d1)))"

section \<open>Sending a purchase twice\<close>

lemma CreatePurchase_key:
  assumes "CreatePurchase lc e i d = (Inr (p, new'), d')" "pe_before_select e = (\<lambda>d. d)"
  shows "\<exists>r. find (\<lambda>x. pu_store x = cp_StoreID i \<and> pu_idem x = cp_IdempotencyKey i) (t_purchases d') = Some r
    \<and> px_ID p = pu_id r"
proof -
  have pid: "px_ID (purchase_of d r) = pu_id r" for d r by (simp add: purchase_of_def fillCost_def)
  have hd: "filter P xs = y # ys \<Longrightarrow> find P xs = Some y" for P and xs :: "PurchaseRow list" and y ys
    by (induction xs) (auto split: if_splits)
  obtain ret d1 where ins: "insert_purchase (pe_fail_insert e) (purchase_row lc e i) d = (Inr ret, d1)"
    using assms(1) by (cases "insert_purchase (pe_fail_insert e) (purchase_row lc e i) d")
      (auto simp: CreatePurchase_def split: sum.splits)
  show ?thesis
  proof (cases ret)
    case None
    with assms ins show ?thesis
      by (auto simp: CreatePurchase_def purchaseByIdempotencyKey_def purchaseQuery_def pid
          split: sum.splits option.splits list.splits if_splits dest!: hd)
  next
    case (Some r)
    have r: "r = purchase_row lc e i" "d1 = d\<lparr>t_purchases := t_purchases d @ [r]\<rparr>"
      "\<not> list_ex (\<lambda>x. pu_store x = pu_store r \<and> pu_idem x = pu_idem r) (t_purchases d)"
      using ins Some by (auto simp: insert_purchase_def split: if_splits)
    have keys: "pu_store r = cp_StoreID i" "pu_idem r = cp_IdempotencyKey i" by (simp_all add: r(1) purchase_row_def)
    have "find (\<lambda>x. pu_store x = cp_StoreID i \<and> pu_idem x = cp_IdempotencyKey i) (t_purchases d) = None"
      using r(3) by (auto simp: find_None_iff list_ex_iff keys)
    then have "find (\<lambda>x. pu_store x = cp_StoreID i \<and> pu_idem x = cp_IdempotencyKey i) (t_purchases d @ [r]) = Some r"
      by (simp add: find_append keys)
    then show ?thesis using assms(1) ins Some r(2) by (auto simp: CreatePurchase_def pid)
  qed
qed

lemma CreatePurchase_again:
  assumes "CreatePurchase lc e i d = (Inr (p, existing), d')" "pe_before_select e = (\<lambda>d. d)"
    and "find (\<lambda>x. pu_store x = cp_StoreID i \<and> pu_idem x = cp_IdempotencyKey i) (t_purchases d) = Some r"
  shows "existing" and "d' = d"
proof -
  obtain ret d1 where ins: "insert_purchase (pe_fail_insert e) (purchase_row lc e i) d = (Inr ret, d1)"
    using assms(1) by (cases "insert_purchase (pe_fail_insert e) (purchase_row lc e i) d")
      (auto simp: CreatePurchase_def split: sum.splits)
  have "list_ex (\<lambda>x. pu_store x = pu_store (purchase_row lc e i) \<and> pu_idem x = pu_idem (purchase_row lc e i)) (t_purchases d)"
    using find_Some_in [OF assms(3)] by (auto simp: list_ex_iff purchase_row_def)
  with ins have "ret = None \<and> d1 = d" by (auto simp: insert_purchase_def split: if_splits)
  with assms(1,2) ins show existing "d' = d"
    by (auto simp: CreatePurchase_def split: sum.splits option.splits)
qed

lemma handleCreatePurchase_Done:
  assumes "handleCreatePurchase c u r d disk = (Done (status, a), d', disk')"
  shows "\<exists>inp prev photos written disk1. collectPhotos (rq_files r) = Inr photos
    \<and> writePhotos (Put (pc_root c)) (pc_put c) 0 photos disk = ((written, True), disk1)
    \<and> cp_StoreID inp = u_StoreID u \<and> cp_IdempotencyKey inp = TrimSpace (rq_key r)
    \<and> record_purchase c u inp prev written d disk1 = (Done (status, a), d', disk')"
proof -
  note H = assms [unfolded handleCreatePurchase_def Let_def badRequest_def internalError_def]
  obtain form where form: "parsePurchaseForm (pc_parse c) (pc_now c) (rq_form r) = Some form"
    using H by (cases "parsePurchaseForm (pc_parse c) (pc_now c) (rq_form r)") (auto split: if_splits)
  obtain photos where photos: "collectPhotos (rq_files r) = Inr photos"
    using H form by (cases "collectPhotos (rq_files r)") (auto split: if_splits)
  obtain written ok disk1 where w: "writePhotos (Put (pc_root c)) (pc_put c) 0 photos disk = ((written, ok), disk1)"
    by (metis prod.collapse)
  have ok: "ok" using H form photos w by (auto split: if_splits)
  show ?thesis
    using H form photos w ok
    by (intro exI [of _ "form\<lparr>cp_ReceiptKey := (case written of [w] \<Rightarrow> pn_key w | _ \<Rightarrow> []),
        cp_StoreID := u_StoreID u, cp_UserID := u_ID u, cp_IdempotencyKey := TrimSpace (rq_key r)\<rparr>"]
        exI [of _ "case ListPurchases (pc_fail_list c) (u_StoreID u) (NameKey (pc_lower c) (cp_Name form)) 1 d of
          Inr (p # _) \<Rightarrow> px_UnitCostKRW p | _ \<Rightarrow> 0"] exI [of _ photos] exI [of _ written] exI [of _ disk1])
      (simp split: if_splits)
qed

lemma record_purchase_Done:
  assumes "record_purchase c u inp prev written d disk1 = (Done (status, a), d', disk')"
  shows "\<exists>p existing. CreatePurchase (pc_lower c) (pc_create c) inp d = (Inr (p, existing), d')
    \<and> cq_Purchase a = p \<and> cq_Existing a = existing \<and> status = (if existing then 200 else 201)
    \<and> (existing \<longrightarrow> disk' = cleanupPhotos (DeletePhoto (pc_root c)) (pc_delete c) 0 written disk1)"
  using assms unfolding record_purchase_def Let_def internalError_def
  by (auto split: prod.splits sum.splits)


definition demo_form_purchase :: "string \<Rightarrow> string" where
  "demo_form_purchase = (\<lambda>k. if k = ''name'' then ''Kuromi'' else if k = ''qty'' then ''10''
     else if k = ''unitPriceKrw'' then ''2000'' else [])"

definition demo_purchase_call :: purchase_call where
  "demo_purchase_call = \<lparr>pc_lower = (\<lambda>r. r), pc_root = ''/m'', pc_parse = (\<lambda>_. None), pc_now = 100,
     pc_fail_list = False, pc_put = (\<lambda>_. (\<lparr>pf_fault = NoFault, pf_tmp = ''t''\<rparr>,
       \<lparr>ke_zone = 0, ke_now = 0, ke_random = Some ''r'', ke_stamp = []\<rparr>)),
     pc_delete = (\<lambda>_. False), pc_create = demo_purchase_env, pc_fail_item = False\<rparr>"

definition demo_purchase_request :: claim_request where
  "demo_purchase_request = \<lparr>rq_key = ''k1'', rq_multipart = True, rq_form = demo_form_purchase, rq_files = [],
     rq_xff = [], rq_remote = [], rq_agent = []\<rparr>"

definition demo_owner :: User where
  "demo_owner = \<lparr>u_ID = ''u1'', u_StoreID = ''s1'', u_Email = [], u_Name = [], u_Phone = [], u_Active = True\<rparr>"

lemma demo_form_parses:
  "\<exists>inp. parsePurchaseForm (\<lambda>_. None) 100 demo_form_purchase = Some inp \<and> cp_Qty inp = 10 \<and> cp_UnitPriceKRW inp = 2000
     \<and> cp_ShippingKRW inp = 0"
proof -
  have ascii: "is_ascii ''Kuromi''" "is_ascii ''10''" "is_ascii ''2000''" by (simp_all add: byte_def)
  have t: "TrimSpace ''Kuromi'' = ''Kuromi''" "TrimSpace ''10'' = ''10''" "TrimSpace ''2000'' = ''2000''"
    by (simp_all add: TrimSpace_ascii ascii byte_def is_space_def)
  have n: "Atoi ''10'' = Some 10" "Atoi ''2000'' = Some 2000" by code_simp+
  have rc: "rune_count ''Kuromi'' = 6" "rune_count [] = 0" by (simp_all add: rune_count_def segs_ascii [OF ascii(1)])
  show ?thesis
    by (simp add: parsePurchaseForm_def num_field_def demo_form_purchase_def t n Let_def ValidatePurchase_def rc
        maxDollNameRunes_def maxVendorRunes_def IsZero_def zero_time_def clockSkewAllowance_def maxPurchaseAge_def duration_defs)
qed


end
