(* ===== verification/Store_Market.thy ===== *)
theory Store_Market
  imports Store_Accounts Domain_Catalog Domain_Trade
begin

text \<open>
  \<^verbatim>\<open>internal/store/listing.go\<close>: the market where shops trade stock. Putting a listing up and
  taking it down, the lists, the contact of a shop with its record of who looked, and reports.
  A listing that was deleted would take its reports along; nothing in the code deletes one.
\<close>

section \<open>Listings as the server gives them out\<close>

record Listing =
  lg_ID :: string
  lg_StoreName :: string
  lg_Name :: string
  lg_NameKey :: string
  lg_Kind :: ListingKind
  lg_KindLabel :: string
  lg_Qty :: int
  lg_UnitPriceKRW :: int
  lg_Note :: string
  lg_RegionCode :: string
  lg_RegionName :: string
  lg_RegionDetail :: string
  lg_Status :: string
  lg_CreatedAt :: instant
  lg_ExpiresAt :: instant
  lg_Mine :: bool
  lg_ReportCount :: int

text \<open>The rows of \<open>listingSelect\<close>: each listing with the name of its shop.\<close>

definition joined_listings :: "db \<Rightarrow> (ListingRow \<times> StoreRow) list" where
  "joined_listings d = concat (map (\<lambda>l. map (Pair l) (filter (\<lambda>s. st_id s = ls_store l) (t_stores d))) (t_listings d))"

definition scan_listing :: "string \<Rightarrow> ListingRow \<times> StoreRow \<Rightarrow> Listing" where
  "scan_listing viewer x = (case x of (l, s) \<Rightarrow>
    (let mine = (ls_store l = viewer \<and> viewer \<noteq> [])
     in \<lparr>lg_ID = ls_id l, lg_StoreName = st_name s, lg_Name = ls_name l, lg_NameKey = ls_key l,
         lg_Kind = ls_kind l, lg_KindLabel = listing_Label (ls_kind l), lg_Qty = ls_qty l,
         lg_UnitPriceKRW = ls_price l, lg_Note = ls_note l, lg_RegionCode = ls_region l,
         lg_RegionName = (case RegionByCode (ls_region l) of None \<Rightarrow> [] | Some r \<Rightarrow> rg_Name r),
         lg_RegionDetail = ls_region_detail l, lg_Status = ls_status l, lg_CreatedAt = ls_created l,
         lg_ExpiresAt = ls_expires l, lg_Mine = mine, lg_ReportCount = (if mine then ls_reports l else 0)\<rparr>))"

definition scanListings :: "string \<Rightarrow> (ListingRow \<times> StoreRow) list \<Rightarrow> Listing list" where
  "scanListings viewer = map (scan_listing viewer)"

record ListingFilter =
  lf_ViewerStoreID :: string
  lf_RegionCode :: string
  lf_Kind :: ListingKind
  lf_MineOnly :: bool
  lf_Now :: instant
  lf_Limit :: int

definition listing_where :: "ListingFilter \<Rightarrow> ListingRow \<Rightarrow> bool" where
  "listing_where f l \<longleftrightarrow>
    (if lf_MineOnly f then ls_store l = lf_ViewerStoreID f
     else ls_status l = ''open'' \<and> lf_Now f < ls_expires l
       \<and> (lf_RegionCode f \<noteq> [] \<longrightarrow> ls_region l = lf_RegionCode f)
       \<and> (lf_Kind f \<noteq> [] \<longrightarrow> ls_kind l = lf_Kind f \<or> ls_kind l = ListingBoth))"

definition ListListings :: "bool \<Rightarrow> ListingFilter \<Rightarrow> db \<Rightarrow> (db_error, Listing list) result" where
  "ListListings fail f d =
    (let n = (if lf_Limit f \<le> 0 \<or> 200 < lf_Limit f then 50 else lf_Limit f)
     in if fail then Inl DbFailure
        else Inr (scanListings (lf_ViewerStoreID f) (take (nat n) (sort_key (\<lambda>(l, _). - ls_created l)
          (filter (\<lambda>(l, _). listing_where f l) (joined_listings d))))))"

definition ListingByID :: "bool \<Rightarrow> string \<Rightarrow> string \<Rightarrow> instant \<Rightarrow> db \<Rightarrow> (db_error, Listing) result" where
  "ListingByID fail lid viewer now d =
    (if fail then Inl DbFailure
     else case scanListings viewer (filter (\<lambda>(l, _). ls_id l = lid) (joined_listings d)) of
       [] \<Rightarrow> Inl ErrNotFound
     | l # _ \<Rightarrow> if \<not> lg_Mine l \<and> (lg_Status l \<noteq> ''open'' \<or> \<not> now < lg_ExpiresAt l) then Inl ErrNotFound else Inr l)"

section \<open>Putting up and taking down\<close>

record CreateListingInput =
  nl_StoreID :: string
  nl_UserID :: string
  nl_Name :: string
  nl_Kind :: ListingKind
  nl_Qty :: int
  nl_UnitPriceKRW :: int
  nl_Note :: string
  nl_RegionCode :: string
  nl_RegionDetail :: string
  nl_Now :: instant

text \<open>What the database adds: a fresh id, its clock, a failure of the insert or of the read after it.\<close>

record listing_env =
  le_id :: string
  le_db_now :: instant
  le_fail_insert :: bool
  le_fail_read :: bool

definition listing_row :: "(nat \<Rightarrow> nat) \<Rightarrow> listing_env \<Rightarrow> CreateListingInput \<Rightarrow> ListingRow" where
  "listing_row lc e i = \<lparr>ls_id = le_id e, ls_store = nl_StoreID i, ls_by = nilUUID (nl_UserID i),
     ls_name = TrimSpace (nl_Name i), ls_key = NameKey lc (nl_Name i), ls_kind = nl_Kind i, ls_qty = nl_Qty i,
     ls_price = (if NeedsPrice (nl_Kind i) then nl_UnitPriceKRW i else 0), ls_note = TrimSpace (nl_Note i),
     ls_region = nl_RegionCode i, ls_region_detail = nl_RegionDetail i, ls_status = ''open'', ls_reports = 0,
     ls_expires = AddDays ListingDays (nl_Now i), ls_created = le_db_now e, ls_closed = None\<rparr>"

definition insert_listing :: "bool \<Rightarrow> ListingRow \<Rightarrow> unit sql" where
  "insert_listing fail r d =
    (if fail \<or> \<not> (0 < ls_qty r \<and> ls_qty r < 2 ^ 31 \<and> 0 \<le> ls_price r \<and> ls_price r < 2 ^ 31)
       \<or> ls_store r \<notin> st_id ` set (t_stores d)
       \<or> (case ls_by r of None \<Rightarrow> False | Some u \<Rightarrow> u \<notin> us_id ` set (t_users d)) then (Inl DbFailure, d)
     else if ls_id r \<in> ls_id ` set (t_listings d) then (Inl UniqueViolation, d)
     else (Inr (), d\<lparr>t_listings := t_listings d @ [r]\<rparr>))"

definition CreateListing :: "(nat \<Rightarrow> nat) \<Rightarrow> listing_env \<Rightarrow> CreateListingInput \<Rightarrow> Listing sql" where
  "CreateListing lc e i d =
    (case insert_listing (le_fail_insert e) (listing_row lc e i) d of
       (Inl err, d1) \<Rightarrow> (Inl err, d1)
     | (Inr _, d1) \<Rightarrow> (ListingByID (le_fail_read e) (le_id e) (nl_StoreID i) (nl_Now i) d1, d1))"

definition CloseListing :: "bool \<Rightarrow> instant \<Rightarrow> string \<Rightarrow> string \<Rightarrow> unit sql" where
  "CloseListing fail db_now lid storeID d =
    (let hit = (\<lambda>l. ls_id l = lid \<and> ls_store l = storeID \<and> ls_status l = ''open'')
     in if fail then (Inl DbFailure, d)
        else if \<not> list_ex hit (t_listings d) then (Inl ErrNotFound, d)
        else (Inr (), d\<lparr>t_listings := map (\<lambda>l. if hit l then l\<lparr>ls_status := ''closed'', ls_closed := Some db_now\<rparr> else l)
           (t_listings d)\<rparr>))"

section \<open>The contact of a shop\<close>

record ListingContact =
  co_StoreName :: string
  co_Phone :: string
  co_BizNo :: string

definition contact_row :: "string \<Rightarrow> db \<Rightarrow> (ListingRow \<times> StoreRow) option" where
  "contact_row lid d = find (\<lambda>(l, _). ls_id l = lid) (joined_listings d)"

definition insert_contact :: "bool \<Rightarrow> ListingContactRow \<Rightarrow> unit sql" where
  "insert_contact fail r d =
    (if fail \<or> lc_listing r \<notin> ls_id ` set (t_listings d) \<or> lc_store r \<notin> st_id ` set (t_stores d)
       \<or> (case lc_user r of None \<Rightarrow> False | Some u \<Rightarrow> u \<notin> us_id ` set (t_users d)) then (Inl DbFailure, d)
     else (Inr (), d\<lparr>t_lcontacts := t_lcontacts d @ [r]\<rparr>))"

text \<open>Other requests may run between the read and the record: \<open>between\<close>.\<close>

definition ContactFor ::
  "bool \<times> bool \<Rightarrow> (db \<Rightarrow> db) \<Rightarrow> instant \<Rightarrow> string \<Rightarrow> string \<Rightarrow> string \<Rightarrow> ListingContact sql" where
  "ContactFor fails between db_now lid viewerStore viewerUser d =
    (if fst fails then (Inl DbFailure, d)
     else case contact_row lid d of None \<Rightarrow> (Inl ErrNotFound, d)
     | Some (_, s) \<Rightarrow>
        (case insert_contact (snd fails) \<lparr>lc_listing = lid, lc_store = viewerStore, lc_user = nilUUID viewerUser,
             lc_created = db_now\<rparr> (between d) of
           (Inl e, d1) \<Rightarrow> (Inl e, d1)
         | (Inr _, d1) \<Rightarrow> (Inr \<lparr>co_StoreName = st_name s, co_Phone = coalesce (st_phone s) [], co_BizNo = st_biz_no s\<rparr>, d1)))"

definition seen_since :: "string \<Rightarrow> instant \<Rightarrow> db \<Rightarrow> int" where
  "seen_since storeID t d = int (length (filter (\<lambda>c. lc_store c = storeID \<and> t \<le> lc_created c) (t_lcontacts d)))"

definition ContactsTodayFor :: "zone \<Rightarrow> bool \<Rightarrow> string \<Rightarrow> instant \<Rightarrow> db \<Rightarrow> (db_error, int) result" where
  "ContactsTodayFor z fail storeID now d =
    (if fail then Inl DbFailure else Inr (seen_since storeID (day_start z now) d))"

section \<open>Reports\<close>

record report_env =
  re_db_now :: instant
  re_fail_insert :: bool
  re_fail_count :: bool
  re_fail_remove :: bool
  re_commit_ok :: bool

text \<open>Whether the row went in: not when this shop has already reported the listing.\<close>

definition insert_report :: "bool \<Rightarrow> ListingReportRow \<Rightarrow> bool sql" where
  "insert_report fail r d =
    (if fail \<or> lr_listing r \<notin> ls_id ` set (t_listings d) \<or> lr_store r \<notin> st_id ` set (t_stores d) then (Inl DbFailure, d)
     else if list_ex (\<lambda>x. lr_listing x = lr_listing r \<and> lr_store x = lr_store r) (t_reports d) then (Inr False, d)
     else (Inr True, d\<lparr>t_reports := t_reports d @ [r]\<rparr>))"

definition count_report :: "bool \<Rightarrow> string \<Rightarrow> int sql" where
  "count_report fail lid d =
    (case find (\<lambda>l. ls_id l = lid) (t_listings d) of None \<Rightarrow> (Inl DbFailure, d)
     | Some l \<Rightarrow> if fail then (Inl DbFailure, d)
        else (Inr (ls_reports l + 1), d\<lparr>t_listings := map (\<lambda>x. if ls_id x = lid then x\<lparr>ls_reports := ls_reports x + 1\<rparr> else x)
           (t_listings d)\<rparr>))"

definition remove_listing :: "bool \<Rightarrow> instant \<Rightarrow> string \<Rightarrow> unit sql" where
  "remove_listing fail db_now lid d =
    (if fail then (Inl DbFailure, d)
     else (Inr (), d\<lparr>t_listings := map (\<lambda>x. if ls_id x = lid \<and> ls_status x = ''open''
         then x\<lparr>ls_status := ''removed'', ls_closed := Some db_now\<rparr> else x) (t_listings d)\<rparr>))"

definition report_body :: "report_env \<Rightarrow> string \<Rightarrow> string \<Rightarrow> string \<Rightarrow> bool sql" where
  "report_body e lid reporter reason =
    and_then (insert_report (re_fail_insert e) \<lparr>lr_listing = lid, lr_store = reporter, lr_reason = TrimSpace reason,
        lr_created = re_db_now e\<rparr>)
      (\<lambda>new. if \<not> new then sql_ok False
         else and_then (count_report (re_fail_count e) lid)
           (\<lambda>count. if ListingReportLimit \<le> count
              then and_then (remove_listing (re_fail_remove e) (re_db_now e) lid) (\<lambda>_. sql_ok True)
              else sql_ok False))"

definition ReportListing :: "report_env \<Rightarrow> string \<Rightarrow> string \<Rightarrow> string \<Rightarrow> bool sql" where
  "ReportListing e lid reporter reason = tx (re_commit_ok e) (report_body e lid reporter reason)"

section \<open>What each operation does to a listing\<close>

text \<open>The shops that reported a listing.\<close>

definition reporters :: "db \<Rightarrow> string \<Rightarrow> string set" where
  "reporters d lid = lr_store ` {r \<in> set (t_reports d). lr_listing r = lid}"

lemma joined_in: "(l, s) \<in> set (joined_listings d) \<longleftrightarrow> l \<in> set (t_listings d) \<and> s \<in> set (t_stores d) \<and> st_id s = ls_store l"
  by (auto simp: joined_listings_def)

lemma ListingByID_Inr:
  assumes "ListingByID fail lid viewer now d = Inr g"
  shows "\<exists>l s. l \<in> set (t_listings d) \<and> s \<in> set (t_stores d) \<and> st_id s = ls_store l \<and> ls_id l = lid
    \<and> g = scan_listing viewer (l, s) \<and> (lg_Mine g \<or> ls_status l = ''open'' \<and> now < ls_expires l)"
proof -
  obtain x xs where x: "filter (\<lambda>(l, _). ls_id l = lid) (joined_listings d) = x # xs" "g = scan_listing viewer x"
    "lg_Mine g \<or> lg_Status g = ''open'' \<and> now < lg_ExpiresAt g"
    using assms by (auto simp: ListingByID_def scanListings_def split: list.splits if_splits)
  obtain l s where p: "x = (l, s)" by (cases x)
  have "(l, s) \<in> set (filter (\<lambda>(l, _). ls_id l = lid) (joined_listings d))" by (simp add: x(1) p)
  then show ?thesis using x(2,3) p by (auto simp: joined_in scan_listing_def Let_def)
qed

lemma insert_listing_cases:
  "insert_listing fail r d = (res, d') \<Longrightarrow> d' = d \<or> (d' = d\<lparr>t_listings := t_listings d @ [r]\<rparr> \<and> ls_id r \<notin> ls_id ` set (t_listings d))"
  by (auto simp: insert_listing_def split: if_splits)

lemma CreateListing_cases:
  assumes "CreateListing lc e i d = (res, d')"
  shows "d' = d \<or> (d' = d\<lparr>t_listings := t_listings d @ [listing_row lc e i]\<rparr> \<and> le_id e \<notin> ls_id ` set (t_listings d))"
proof -
  obtain r1 d1 where i: "insert_listing (le_fail_insert e) (listing_row lc e i) d = (r1, d1)" by fastforce
  then have "d' = d1" using assms by (auto simp: CreateListing_def split: sum.splits)
  with insert_listing_cases [OF i] show ?thesis by (auto simp: listing_row_def)
qed

lemma CloseListing_cases:
  assumes "CloseListing fail now lid sid d = (res, d')"
  shows "d' = d \<or> d' = d\<lparr>t_listings := map (\<lambda>l. if ls_id l = lid \<and> ls_store l = sid \<and> ls_status l = ''open''
    then l\<lparr>ls_status := ''closed'', ls_closed := Some now\<rparr> else l) (t_listings d)\<rparr>"
  using assms by (auto simp: CloseListing_def Let_def split: if_splits)

lemma ContactFor_cases:
  assumes "ContactFor fails between now lid vs vu d = (res, d')"
  shows "(\<exists>err. res = Inl err) \<and> (d' = d \<or> d' = between d)
    \<or> (\<exists>c. res = Inr c) \<and> d' = (between d)\<lparr>t_lcontacts := t_lcontacts (between d) @
      [\<lparr>lc_listing = lid, lc_store = vs, lc_user = nilUUID vu, lc_created = now\<rparr>]\<rparr>"
  using assms by (auto simp: ContactFor_def insert_contact_def split: if_splits option.splits prod.splits)

lemma seen_since_snoc:
  "seen_since s t (d\<lparr>t_lcontacts := t_lcontacts d @ [c]\<rparr>) = seen_since s t d + (if lc_store c = s \<and> t \<le> lc_created c then 1 else 0)"
  by (simp add: seen_since_def)

text \<open>The change a new report makes to its listing: counted, and taken down at the limit.\<close>

definition reported :: "instant \<Rightarrow> ListingRow \<Rightarrow> ListingRow" where
  "reported now l = (let n = l\<lparr>ls_reports := ls_reports l + 1\<rparr>
     in if ListingReportLimit \<le> ls_reports l + 1 \<and> ls_status l = ''open''
        then n\<lparr>ls_status := ''removed'', ls_closed := Some now\<rparr> else n)"


lemma ReportListing_cases:
  assumes "ReportListing e lid rep reason d = (res, d')" "distinct (map ls_id (t_listings d))"
  shows "d' = d \<or> (lid \<in> ls_id ` set (t_listings d) \<and> rep \<notin> reporters d lid \<and> d' = d
     \<lparr>t_reports := t_reports d @ [\<lparr>lr_listing = lid, lr_store = rep, lr_reason = TrimSpace reason, lr_created = re_db_now e\<rparr>],
      t_listings := map (\<lambda>l. if ls_id l = lid then reported (re_db_now e) l else l) (t_listings d)\<rparr>)"
proof (cases res)
  case (Inl err)
  then show ?thesis using assms(1) by (auto simp: ReportListing_def dest: tx_cases)
next
  case (Inr removed)
  then have b: "report_body e lid rep reason d = (Inr removed, d')"
    using assms(1) by (simp add: ReportListing_def tx_Inr)
  then obtain new d1 where i: "insert_report (re_fail_insert e) \<lparr>lr_listing = lid, lr_store = rep, lr_reason = TrimSpace reason,
      lr_created = re_db_now e\<rparr> d = (Inr new, d1)"
    and c: "(if \<not> new then sql_ok False else and_then (count_report (re_fail_count e) lid)
      (\<lambda>count. if ListingReportLimit \<le> count
        then and_then (remove_listing (re_fail_remove e) (re_db_now e) lid) (\<lambda>_. sql_ok True) else sql_ok False)) d1 = (Inr removed, d')"
    by (auto simp: report_body_def and_then_Inr)
  show ?thesis
  proof (cases new)
    case False
    then show ?thesis using i c by (auto simp: insert_report_def split: if_splits)
  next
    case True
    have d1: "lid \<in> ls_id ` set (t_listings d)" "rep \<notin> reporters d lid"
      "d1 = d\<lparr>t_reports := t_reports d @ [\<lparr>lr_listing = lid, lr_store = rep, lr_reason = TrimSpace reason, lr_created = re_db_now e\<rparr>]\<rparr>"
      using i True by (auto simp: insert_report_def reporters_def list_ex_iff split: if_splits)
    from c True obtain count d2 where n: "count_report (re_fail_count e) lid d1 = (Inr count, d2)"
      and r: "(if ListingReportLimit \<le> count
        then and_then (remove_listing (re_fail_remove e) (re_db_now e) lid) (\<lambda>_. sql_ok True) else sql_ok False) d2 = (Inr removed, d')"
      by (auto simp: and_then_Inr)
    obtain l where l: "find (\<lambda>l. ls_id l = lid) (t_listings d1) = Some l" "count = ls_reports l + 1"
      "d2 = d1\<lparr>t_listings := map (\<lambda>x. if ls_id x = lid then x\<lparr>ls_reports := ls_reports x + 1\<rparr> else x) (t_listings d1)\<rparr>"
      using n by (auto simp: count_report_def split: option.splits if_splits)
    have in_l: "l \<in> set (t_listings d)" "ls_id l = lid" using find_Some_in [OF l(1)] d1(3) by auto
    have uniq: "x \<in> set (t_listings d) \<Longrightarrow> ls_id x = lid \<Longrightarrow> x = l" for x
      using assms(2) in_l by (auto simp: distinct_map inj_on_def)
    have "t_listings d' = map (\<lambda>l. if ls_id l = lid then reported (re_db_now e) l else l) (t_listings d)
        \<and> d' = d1\<lparr>t_listings := t_listings d'\<rparr>"
    proof (cases "ListingReportLimit \<le> count")
      case True
      then show ?thesis using r l(2,3) d1(3) uniq
        by (auto simp: and_then_Inr remove_listing_def reported_def Let_def split: if_splits)
    next
      case False
      then show ?thesis using r l(2,3) d1(3) uniq
        by (auto simp: reported_def Let_def)
    qed
    then show ?thesis using d1 by (metis (no_types, lifting) db.surjective db.update_convs(10,12))
  qed
qed

end
