(* ===== verification/Http_Market.thy ===== *)
theory Http_Market
  imports Store_Market Http_Claims
begin

text \<open>
  \<^verbatim>\<open>internal/httpapi/admin_market.go\<close>: the pages of the market, and how the tables of the market
  evolve under the requests of all shops.
\<close>

section \<open>Reading\<close>

definition contactsPerDay :: int where "contactsPerDay = 30"

definition handleListMarket ::
  "bool \<Rightarrow> instant \<Rightarrow> User \<Rightarrow> string \<Rightarrow> string \<Rightarrow> db \<Rightarrow> (Listing list \<times> Region list) reply" where
  "handleListMarket fail now u region kind d =
    (let code = TrimSpace region; raw = TrimSpace kind
     in if code \<noteq> [] \<and> RegionByCode code = None then badRequest
        else case (if raw = [] then Some [] else ParseListingKind raw) of None \<Rightarrow> badRequest
        | Some k \<Rightarrow>
            (case ListListings fail \<lparr>lf_ViewerStoreID = u_StoreID u, lf_RegionCode = code, lf_Kind = k,
                lf_MineOnly = False, lf_Now = now, lf_Limit = 0\<rparr> d of
               Inl _ \<Rightarrow> internalError | Inr ls \<Rightarrow> Done (ls, regions)))"

definition handleMyListings :: "bool \<Rightarrow> instant \<Rightarrow> User \<Rightarrow> db \<Rightarrow> Listing list reply" where
  "handleMyListings fail now u d =
    (case ListListings fail \<lparr>lf_ViewerStoreID = u_StoreID u, lf_RegionCode = [], lf_Kind = [],
        lf_MineOnly = True, lf_Now = now, lf_Limit = 0\<rparr> d of
       Inl _ \<Rightarrow> internalError | Inr ls \<Rightarrow> Done ls)"

definition handleMarketDetail :: "bool \<Rightarrow> instant \<Rightarrow> User \<Rightarrow> string \<Rightarrow> db \<Rightarrow> Listing reply" where
  "handleMarketDetail fail now u lid d =
    (case ListingByID fail lid (u_StoreID u) now d of
       Inl e \<Rightarrow> (if e = ErrNotFound then notFound else internalError) | Inr l \<Rightarrow> Done l)"

section \<open>Writing\<close>

record createListingRequest =
  cr_Name :: string
  cr_Kind :: string
  cr_Qty :: int
  cr_UnitPriceKrw :: int
  cr_Note :: string

record market_env =
  me_now :: instant
  me_fail_read :: bool
  me_between :: "db \<Rightarrow> db"

text \<open>The body is \<open>None\<close> when it does not decode.\<close>

definition handleCreateListing ::
  "(nat \<Rightarrow> nat) \<Rightarrow> Sec \<Rightarrow> listing_env \<Rightarrow> market_env \<Rightarrow> User \<Rightarrow> createListingRequest option \<Rightarrow> db \<Rightarrow> Listing reply \<times> db" where
  "handleCreateListing lc k le e u body d =
    (case body of None \<Rightarrow> (badRequest, d) | Some req \<Rightarrow>
      (case StoreByID k (me_fail_read e) (u_StoreID u) d of Inl _ \<Rightarrow> (internalError, d)
       | Inr st \<Rightarrow>
          if \<not> CanPostListing st then (conflict ''store_incomplete'', d)
          else case ParseListingKind (cr_Kind req) of None \<Rightarrow> (badRequest, d)
          | Some kind \<Rightarrow>
             (let i = \<lparr>li_Name = TrimSpace (cr_Name req), li_Kind = kind, li_Qty = cr_Qty req,
                  li_UnitPriceKRW = cr_UnitPriceKrw req, li_Note = TrimSpace (cr_Note req)\<rparr>
              in if ValidateListing i \<noteq> None then (badRequest, d)
                 else case CreateListing lc le \<lparr>nl_StoreID = u_StoreID u, nl_UserID = u_ID u, nl_Name = li_Name i,
                     nl_Kind = li_Kind i, nl_Qty = li_Qty i, nl_UnitPriceKRW = li_UnitPriceKRW i, nl_Note = li_Note i,
                     nl_RegionCode = sd_RegionCode st, nl_RegionDetail = sd_RegionDetail st, nl_Now = me_now e\<rparr>
                     (me_between e d) of
                   (Inl _, d1) \<Rightarrow> (internalError, d1)
                 | (Inr l, d1) \<Rightarrow> (Done l, d1))))"

definition handleCloseListing :: "bool \<Rightarrow> instant \<Rightarrow> User \<Rightarrow> string \<Rightarrow> db \<Rightarrow> unit reply \<times> db" where
  "handleCloseListing fail db_now u lid d =
    (case CloseListing fail db_now lid (u_StoreID u) d of
       (Inl e, d1) \<Rightarrow> (if e = ErrNotFound then notFound else internalError, d1)
     | (Inr _, d1) \<Rightarrow> (Done (), d1))"

record contactResponse =
  cn_StoreName :: string
  cn_Phone :: string
  cn_BizNo :: string
  cn_RemainingToday :: int

record contact_env =
  ce_market :: market_env
  ce_fail_count :: bool
  ce_fails :: "bool \<times> bool"
  ce_before_record :: "db \<Rightarrow> db"
  ce_db_now :: instant

definition handleListingContact ::
  "contact_env \<Rightarrow> User \<Rightarrow> string \<Rightarrow> db \<Rightarrow> contactResponse reply \<times> db" where
  "handleListingContact e u lid d =
    (case ListingByID (me_fail_read (ce_market e)) lid (u_StoreID u) (me_now (ce_market e)) d of
       Inl err \<Rightarrow> (if err = ErrNotFound then notFound else internalError, d)
     | Inr l \<Rightarrow>
        if lg_Mine l then (Failed 403 ''own_listing'', d)
        else case ContactsTodayFor KST (ce_fail_count e) (u_StoreID u) (me_now (ce_market e)) d of
          Inl _ \<Rightarrow> (internalError, d)
        | Inr used \<Rightarrow>
            if contactsPerDay \<le> used then (Failed 429 ''contact_limit'', d)
            else case ContactFor (ce_fails e) (ce_before_record e) (ce_db_now e) (lg_ID l) (u_StoreID u) (u_ID u)
                (me_between (ce_market e) d) of
              (Inl err, d1) \<Rightarrow> (if err = ErrNotFound then notFound else internalError, d1)
            | (Inr c, d1) \<Rightarrow> (Done \<lparr>cn_StoreName = co_StoreName c, cn_Phone = co_Phone c,
                cn_BizNo = FormatBizNo (co_BizNo c), cn_RemainingToday = contactsPerDay - used - 1\<rparr>, d1))"

text \<open>The reason of a report may be missing; \<open>None\<close> is a body that does not decode.\<close>

definition handleReportListing ::
  "report_env \<Rightarrow> market_env \<Rightarrow> User \<Rightarrow> string \<Rightarrow> string option \<Rightarrow> db \<Rightarrow> bool reply \<times> db" where
  "handleReportListing re e u lid body d =
    (case body of None \<Rightarrow> (badRequest, d) | Some reason \<Rightarrow>
      if 300 < rune_count reason then (badRequest, d)
      else case ListingByID (me_fail_read e) lid (u_StoreID u) (me_now e) d of
        Inl err \<Rightarrow> (if err = ErrNotFound then notFound else internalError, d)
      | Inr l \<Rightarrow>
          if lg_Mine l then (badRequest, d)
          else case ReportListing re (lg_ID l) (u_StoreID u) reason (me_between e d) of
            (Inl _, d1) \<Rightarrow> (internalError, d1)
          | (Inr removed, d1) \<Rightarrow> (Done removed, d1))"

section \<open>The market over time\<close>

text \<open>
  The tables of the market change by these requests only, and by nothing else in the program;
  the other tables are free. Between the statements of a request the database may evolve by
  other requests: what a request finds at its next statement has itself evolved.
\<close>

inductive evolves :: "db \<Rightarrow> db \<Rightarrow> bool" where
  Start: "evolves d0 d0"
| Elsewhere: "evolves d0 d \<Longrightarrow> t_listings d' = t_listings d \<Longrightarrow> t_reports d' = t_reports d
     \<Longrightarrow> t_lcontacts d' = t_lcontacts d \<Longrightarrow> evolves d0 d'"
| Create: "evolves d0 d \<Longrightarrow> evolves d (me_between e d)
     \<Longrightarrow> handleCreateListing lc k le e u body d = (r, d') \<Longrightarrow> evolves d0 d'"
| Close: "evolves d0 d \<Longrightarrow> handleCloseListing fail now u lid d = (r, d') \<Longrightarrow> evolves d0 d'"
| Contact: "evolves d0 d \<Longrightarrow> evolves d (me_between (ce_market ce) d)
     \<Longrightarrow> evolves (me_between (ce_market ce) d) (ce_before_record ce (me_between (ce_market ce) d))
     \<Longrightarrow> handleListingContact ce u lid d = (r, d') \<Longrightarrow> evolves d0 d'"
| Report: "evolves d0 d \<Longrightarrow> evolves d (me_between e d) \<Longrightarrow> u_StoreID u \<noteq> []
     \<Longrightarrow> handleReportListing re e u lid body d = (r, d') \<Longrightarrow> evolves d0 d'"

definition market_ok :: "db \<Rightarrow> bool" where
  "market_ok d \<longleftrightarrow> distinct (map ls_id (t_listings d)) \<and> lr_listing ` set (t_reports d) \<subseteq> ls_id ` set (t_listings d)
    \<and> (\<forall>l \<in> set (t_listings d). ls_reports l = int (card (reporters d (ls_id l))) \<and> ls_store l \<notin> reporters d (ls_id l)
        \<and> (ls_status l = ''open'' \<longrightarrow> card (reporters d (ls_id l)) < 3)
        \<and> (ls_status l = ''removed'' \<longrightarrow> 3 \<le> card (reporters d (ls_id l))))"

definition row_later :: "ListingRow \<Rightarrow> ListingRow \<Rightarrow> bool" where
  "row_later l l' \<longleftrightarrow> ls_id l' = ls_id l \<and> ls_store l' = ls_store l
    \<and> (ls_status l \<noteq> ''open'' \<longrightarrow> ls_status l' = ls_status l)"

definition later :: "db \<Rightarrow> db \<Rightarrow> bool" where
  "later d d' \<longleftrightarrow> (\<forall>l \<in> set (t_listings d). \<exists>l' \<in> set (t_listings d'). row_later l l')"

lemma row_later_refl [simp]: "row_later l l" by (simp add: row_later_def)

lemma row_later_trans: "row_later a b \<Longrightarrow> row_later b c \<Longrightarrow> row_later a c"
  by (auto simp: row_later_def)

lemma later_refl: "later d d" by (auto simp: later_def intro!: bexI row_later_refl)

lemma later_trans: "later a b \<Longrightarrow> later b c \<Longrightarrow> later a c"
  unfolding later_def by (meson row_later_trans)

lemma later_map: "(\<And>l. row_later l (f l)) \<Longrightarrow> t_listings d' = map f (t_listings d) \<Longrightarrow> later d d'"
  by (auto simp: later_def)

lemma reporters_simps [simp]:
  "reporters (d\<lparr>t_listings := x\<rparr>) lid = reporters d lid"
  "reporters (d\<lparr>t_lcontacts := y\<rparr>) lid = reporters d lid"
  "reporters (d\<lparr>t_reports := t_reports d @ [r]\<rparr>) lid
    = (if lr_listing r = lid then insert (lr_store r) (reporters d lid) else reporters d lid)"
  by (auto simp: reporters_def)

lemma reporters_list: "reporters d lid = set (map lr_store (filter (\<lambda>r. lr_listing r = lid) (t_reports d)))"
  by (auto simp: reporters_def)

lemma finite_reporters [simp]: "finite (reporters d lid)" by (simp add: reporters_def)

section \<open>Each request keeps the market in order\<close>

lemma same_tables:
  "t_listings d' = t_listings d \<Longrightarrow> t_reports d' = t_reports d \<Longrightarrow> market_ok d' = market_ok d \<and> later d d'"
  by (auto simp: market_ok_def later_def reporters_def intro!: bexI row_later_refl)

lemma ok_create:
  assumes "market_ok d" "ls_id r \<notin> ls_id ` set (t_listings d)" "ls_status r = ''open''" "ls_reports r = 0"
  shows "market_ok (d\<lparr>t_listings := t_listings d @ [r]\<rparr>) \<and> later d (d\<lparr>t_listings := t_listings d @ [r]\<rparr>)"
proof -
  have "lr_listing x \<noteq> ls_id r" if "x \<in> set (t_reports d)" for x
    using assms(1,2) that unfolding market_ok_def by (metis imageI subsetD)
  then have none: "reporters d (ls_id r) = {}" by (auto simp: reporters_def)
  then show ?thesis using assms by (auto simp: market_ok_def later_def intro!: bexI row_later_refl)
qed

lemma ok_update:
  assumes "market_ok d" "\<And>l. ls_id (f l) = ls_id l \<and> ls_store (f l) = ls_store l \<and> ls_reports (f l) = ls_reports l
    \<and> (ls_status (f l) = ls_status l \<or> ls_status l = ''open'' \<and> ls_status (f l) = ''closed'')"
  shows "market_ok (d\<lparr>t_listings := map f (t_listings d)\<rparr>) \<and> later d (d\<lparr>t_listings := map f (t_listings d)\<rparr>)"
proof
  let ?d = "d\<lparr>t_listings := map f (t_listings d)\<rparr>"
  have ids: "map (ls_id \<circ> f) (t_listings d) = map ls_id (t_listings d)" using assms(2) by simp
  have im: "ls_id ` f ` set (t_listings d) = ls_id ` set (t_listings d)" using assms(2) by (simp add: image_image)
  show "market_ok ?d"
    unfolding market_ok_def
  proof (intro conjI ballI)
    show "distinct (map ls_id (t_listings ?d))" using assms(1) by (simp add: market_ok_def ids)
    show "lr_listing ` set (t_reports ?d) \<subseteq> ls_id ` set (t_listings ?d)" using assms(1) by (simp add: market_ok_def im)
  next
    fix l assume "l \<in> set (t_listings ?d)"
    then obtain m where m: "m \<in> set (t_listings d)" "l = f m" by auto
    have old: "ls_reports m = int (card (reporters d (ls_id m)))" "ls_store m \<notin> reporters d (ls_id m)"
      "ls_status m = ''open'' \<longrightarrow> card (reporters d (ls_id m)) < 3"
      "ls_status m = ''removed'' \<longrightarrow> 3 \<le> card (reporters d (ls_id m))"
      using assms(1) m(1) by (auto simp: market_ok_def)
    note f = assms(2) [of m]
    show "ls_reports l = int (card (reporters ?d (ls_id l)))" using old(1) f by (simp add: m(2))
    show "ls_store l \<notin> reporters ?d (ls_id l)" using old(2) f by (simp add: m(2))
    show "ls_status l = ''open'' \<longrightarrow> card (reporters ?d (ls_id l)) < 3" using old(3) f by (auto simp: m(2))
    show "ls_status l = ''removed'' \<longrightarrow> 3 \<le> card (reporters ?d (ls_id l))" using old(4) f by (auto simp: m(2))
  qed
  show "later d ?d" by (rule later_map [of f]) (use assms(2) in \<open>auto simp: row_later_def\<close>)
qed

lemma ok_report:
  assumes "market_ok d" "lid \<in> ls_id ` set (t_listings d)" "rep \<notin> reporters d lid"
    "\<forall>l \<in> set (t_listings d). ls_id l = lid \<longrightarrow> ls_store l \<noteq> rep" "lr_listing r = lid" "lr_store r = rep"
  shows "market_ok (d\<lparr>t_reports := t_reports d @ [r],
      t_listings := map (\<lambda>l. if ls_id l = lid then reported now l else l) (t_listings d)\<rparr>)
    \<and> later d (d\<lparr>t_reports := t_reports d @ [r],
      t_listings := map (\<lambda>l. if ls_id l = lid then reported now l else l) (t_listings d)\<rparr>)" (is "market_ok ?d \<and> _")
proof
  have keep: "ls_id (reported now l) = ls_id l" "ls_store (reported now l) = ls_store l"
    "ls_reports (reported now l) = ls_reports l + 1" for l
    by (simp_all add: reported_def Let_def)
  have st: "ls_status (reported now l) = (if 3 \<le> ls_reports l + 1 \<and> ls_status l = ''open'' then ''removed'' else ls_status l)" for l
    by (simp add: reported_def Let_def ListingReportLimit_def)
  have ids: "map (ls_id \<circ> (\<lambda>l. if ls_id l = lid then reported now l else l)) xs = map ls_id xs" for xs
    by (simp add: keep)
  have im: "ls_id ` (\<lambda>l. if ls_id l = lid then reported now l else l) ` X = ls_id ` X" for X
    unfolding image_image by (rule image_cong [OF refl]) (simp add: keep)
  have rep: "reporters ?d i = (if i = lid then insert rep (reporters d lid) else reporters d i)" for i
    using assms(5,6) by (auto simp: reporters_def)
  have card: "card (insert rep (reporters d lid)) = Suc (card (reporters d lid))" using assms(3) by simp
  show "market_ok ?d"
    unfolding market_ok_def
  proof (intro conjI ballI)
    show "distinct (map ls_id (t_listings ?d))" using assms(1) by (simp add: market_ok_def ids)
    show "lr_listing ` set (t_reports ?d) \<subseteq> ls_id ` set (t_listings ?d)"
    proof -
      have "lr_listing ` set (t_reports d) \<subseteq> ls_id ` set (t_listings d)" using assms(1) by (simp add: market_ok_def)
      then have "lr_listing ` set (t_reports ?d) \<subseteq> ls_id ` set (t_listings d)" using assms(2,5) by simp
      moreover have "t_listings ?d = map (\<lambda>l. if ls_id l = lid then reported now l else l) (t_listings d)" by simp
      ultimately show ?thesis by (simp only: list.set_map im)
    qed
  next
    fix l assume "l \<in> set (t_listings ?d)"
    then obtain m where m: "m \<in> set (t_listings d)" "l = (if ls_id m = lid then reported now m else m)" by auto
    have old: "ls_reports m = int (card (reporters d (ls_id m)))" "ls_store m \<notin> reporters d (ls_id m)"
      "ls_status m = ''open'' \<longrightarrow> card (reporters d (ls_id m)) < 3"
      "ls_status m = ''removed'' \<longrightarrow> 3 \<le> card (reporters d (ls_id m))"
      using assms(1) m(1) by (auto simp: market_ok_def)
    have id: "ls_id l = ls_id m" using m(2) by (simp add: keep)
    show "ls_reports l = int (card (reporters ?d (ls_id l)))"
      unfolding id rep using old(1) m(2) card by (simp add: keep)
    show "ls_store l \<notin> reporters ?d (ls_id l)" unfolding id rep using old(2) m assms(4) by (auto simp: keep)
    show "ls_status l = ''open'' \<longrightarrow> card (reporters ?d (ls_id l)) < 3"
      unfolding id rep using old(1,3) m(2) card by (auto simp: st)
    show "ls_status l = ''removed'' \<longrightarrow> 3 \<le> card (reporters ?d (ls_id l))"
      unfolding id rep using old(1,4) m(2) card by (auto simp: st split: if_splits)
  qed
  show "later d ?d"
  proof (rule later_map)
    show "t_listings ?d = map (\<lambda>l. if ls_id l = lid then reported now l else l) (t_listings d)" by simp
    show "row_later l (if ls_id l = lid then reported now l else l)" for l by (simp add: row_later_def keep st)
  qed
qed


lemma own_listing:
  assumes "ListingByID fail lid viewer now d = Inr g" "\<not> lg_Mine g" "viewer \<noteq> []"
  shows "lg_ID g = lid \<and> (\<exists>l \<in> set (t_listings d). ls_id l = lid \<and> ls_store l \<noteq> viewer)"
  using ListingByID_Inr [OF assms(1)] assms(2,3) by (auto simp: scan_listing_def Let_def)

lemma owner_persists:
  assumes "later d d1" "market_ok d1" "l \<in> set (t_listings d)" "m \<in> set (t_listings d1)" "ls_id m = ls_id l"
  shows "row_later l m"
proof -
  obtain l' where l': "l' \<in> set (t_listings d1)" "row_later l l'" using assms(1,3) by (auto simp: later_def)
  then have "l' = m" using assms(2,4,5) by (auto simp: market_ok_def row_later_def distinct_map inj_on_def)
  with l'(2) show ?thesis by simp
qed

lemma evolves_ok: "evolves d0 d \<Longrightarrow> market_ok d0 \<Longrightarrow> market_ok d \<and> later d0 d"
proof (induction rule: evolves.induct)
  case (Start d0)
  then show ?case by (simp add: later_refl)
next
  case (Elsewhere d0 d d')
  then show ?case using same_tables [of d' d] later_trans by blast
next
  case (Create d0 d e lc k le u body r d')
  let ?d1 = "me_between e d"
  have 1: "market_ok d" "later d0 d" "market_ok ?d1" "later d ?d1" using Create.IH Create.prems by auto
  have "d' = d \<or> (\<exists>i res. CreateListing lc le i ?d1 = (res, d'))"
    using Create.hyps(3) unfolding handleCreateListing_def Let_def
    by (auto split: option.splits sum.splits prod.splits if_splits)
  then have "market_ok d' \<and> (later d d' \<or> later ?d1 d')"
  proof
    assume "d' = d"
    then show ?thesis using 1(1) later_refl by blast
  next
    assume "\<exists>i res. CreateListing lc le i ?d1 = (res, d')"
    then obtain i res where "CreateListing lc le i ?d1 = (res, d')" by blast
    from CreateListing_cases [OF this] show ?thesis
      using ok_create [OF 1(3), of "listing_row lc le i"] 1(3) later_refl by (auto simp: listing_row_def)
  qed
  then show ?case using 1 later_trans by blast
next
  case (Close d0 d fail now u lid r d')
  have 1: "market_ok d" "later d0 d" using Close.IH Close.prems by auto
  obtain res where "CloseListing fail now lid (u_StoreID u) d = (res, d')"
    using Close.hyps(2) by (auto simp: handleCloseListing_def split: prod.splits sum.splits)
  from CloseListing_cases [OF this] have "market_ok d' \<and> later d d'"
    using 1(1) later_refl
      ok_update [OF 1(1), of "\<lambda>l. if ls_id l = lid \<and> ls_store l = u_StoreID u \<and> ls_status l = ''open''
        then l\<lparr>ls_status := ''closed'', ls_closed := Some now\<rparr> else l"] by auto
  then show ?case using 1 later_trans by blast
next
  case (Contact d0 d ce u lid r d')
  let ?d1 = "me_between (ce_market ce) d" and ?d2 = "ce_before_record ce (me_between (ce_market ce) d)"
  have 1: "market_ok d" "later d0 d" "market_ok ?d1" "later d ?d1" "market_ok ?d2" "later ?d1 ?d2"
    using Contact.IH Contact.prems by auto
  have "d' = d \<or> (\<exists>res i. ContactFor (ce_fails ce) (ce_before_record ce) (ce_db_now ce) i (u_StoreID u) (u_ID u) ?d1 = (res, d'))"
    using Contact.hyps(4) unfolding handleListingContact_def Let_def
    by (auto split: option.splits sum.splits prod.splits if_splits)
  then have "d' = d \<or> d' = ?d1 \<or> (t_listings d' = t_listings ?d2 \<and> t_reports d' = t_reports ?d2)"
    using ContactFor_cases by fastforce
  then have "market_ok d' \<and> (d' = d \<or> d' = ?d1 \<or> later ?d2 d')" using 1 same_tables [of d' ?d2] by auto
  then show ?case using 1 later_trans by meson
next
  case (Report d0 d e u re lid body r d')
  let ?d1 = "me_between e d"
  have 1: "market_ok d" "later d0 d" "market_ok ?d1" "later d ?d1" using Report.IH Report.prems by auto
  have "d' = d \<or> (\<exists>g reason res. ListingByID (me_fail_read e) lid (u_StoreID u) (me_now e) d = Inr g \<and> \<not> lg_Mine g
      \<and> ReportListing re (lg_ID g) (u_StoreID u) reason ?d1 = (res, d'))"
    using Report.hyps(4) unfolding handleReportListing_def
    by (auto split: option.splits sum.splits prod.splits if_splits)
  then have "market_ok d' \<and> (d' = d \<or> later ?d1 d')"
  proof
    assume "d' = d"
    then show ?thesis using 1(1) by simp
  next
    assume "\<exists>g reason res. ListingByID (me_fail_read e) lid (u_StoreID u) (me_now e) d = Inr g \<and> \<not> lg_Mine g
      \<and> ReportListing re (lg_ID g) (u_StoreID u) reason ?d1 = (res, d')"
    then obtain g reason res where g: "ListingByID (me_fail_read e) lid (u_StoreID u) (me_now e) d = Inr g" "\<not> lg_Mine g"
      "ReportListing re (lg_ID g) (u_StoreID u) reason ?d1 = (res, d')" by blast
    obtain l where l: "lg_ID g = lid" "l \<in> set (t_listings d)" "ls_id l = lid" "ls_store l \<noteq> u_StoreID u"
      using own_listing [OF g(1,2) Report.hyps(3)] by blast
    have other: "\<forall>m \<in> set (t_listings ?d1). ls_id m = lid \<longrightarrow> ls_store m \<noteq> u_StoreID u"
      using owner_persists [OF 1(4,3) l(2)] l(3,4) by (auto simp: row_later_def)
    have "distinct (map ls_id (t_listings ?d1))" using 1(3) by (simp add: market_ok_def)
    from ReportListing_cases [OF g(3) [unfolded l(1)] this] show ?thesis
      using ok_report [OF 1(3) _ _ other] 1(3) later_refl by auto
  qed
  then show ?case using 1 later_trans by blast
qed


section \<open>What the market promises\<close>

text \<open>
  C13. It takes three shops to take a listing down. From an empty market, under any interleaving
  of requests by any shops, a listing the reports have removed was reported by at least three
  different shops, none of them its owner; one that is still open by fewer than three. The
  count kept on the listing is the number of those shops, so pressing the button again never counts.
\<close>

theorem three_shops_take_it_down:
  assumes "t_listings d0 = []" "t_reports d0 = []" "evolves d0 d" "l \<in> set (t_listings d)"
  shows "ls_reports l = int (card (reporters d (ls_id l))) \<and> ls_store l \<notin> reporters d (ls_id l)
    \<and> (ls_status l = ''removed'' \<longrightarrow> 3 \<le> card (reporters d (ls_id l)))
    \<and> (ls_status l = ''open'' \<longrightarrow> card (reporters d (ls_id l)) < 3)"
proof -
  have "market_ok d0" using assms(1,2) by (simp add: market_ok_def)
  then show ?thesis using evolves_ok [OF assms(3)] assms(4) by (auto simp: market_ok_def)
qed

lemma hidden_list:
  assumes "\<not> lf_MineOnly f" "ls_status l \<noteq> ''open''" "\<forall>m \<in> set (t_listings d). ls_id m = ls_id l \<longrightarrow> m = l"
    "ListListings fail f d = Inr gs"
  shows "ls_id l \<notin> lg_ID ` set gs"
  using assms by (auto simp: ListListings_def scanListings_def scan_listing_def listing_where_def Let_def joined_in
      dest!: in_set_takeD split: if_splits)

text \<open>
  What has been taken down stays down. Once a listing is closed by its shop or removed by
  reports, then at every later moment, whatever requests ran in between, every other shop gets
  not found for it, does not see it in the market list under any filter, and cannot open the
  contact of its owner through it.
\<close>

theorem taken_down_stays_down:
  assumes "market_ok d" "evolves d d'" "l \<in> set (t_listings d)" "ls_status l \<noteq> ''open''" "u_StoreID u \<noteq> ls_store l"
  shows "handleMarketDetail False now u (ls_id l) d' = notFound
    \<and> (\<forall>fail region kind gs rs. handleListMarket fail now u region kind d' = Done (gs, rs) \<longrightarrow> ls_id l \<notin> lg_ID ` set gs)
    \<and> (\<forall>e a. fst (handleListingContact e u (ls_id l) d') \<noteq> Done a)"
proof -
  have ok: "market_ok d'" "later d d'" using evolves_ok [OF assms(2,1)] by auto
  obtain l' where l': "l' \<in> set (t_listings d')" "row_later l l'" using ok(2) assms(3) by (auto simp: later_def)
  have same: "ls_id l' = ls_id l" "ls_store l' = ls_store l" "ls_status l' \<noteq> ''open''"
    using l'(2) assms(4) by (auto simp: row_later_def)
  have uniq: "m \<in> set (t_listings d') \<Longrightarrow> ls_id m = ls_id l' \<Longrightarrow> m = l'" for m
    using ok(1) l'(1) by (auto simp: market_ok_def distinct_map inj_on_def)
  have gone: "ListingByID fail (ls_id l) (u_StoreID u) t d' \<noteq> Inr g" for fail t g
  proof
    assume "ListingByID fail (ls_id l) (u_StoreID u) t d' = Inr g"
    then obtain m s where m: "m \<in> set (t_listings d')" "ls_id m = ls_id l" "g = scan_listing (u_StoreID u) (m, s)"
      "lg_Mine g \<or> ls_status m = ''open''" using ListingByID_Inr by blast
    then have "m = l'" using uniq same(1) by simp
    with m(3,4) same(2,3) assms(5) show False by (auto simp: scan_listing_def Let_def)
  qed
  have err: "ListingByID False (ls_id l) (u_StoreID u) now d' = Inl ErrNotFound"
  proof (cases "ListingByID False (ls_id l) (u_StoreID u) now d'")
    case (Inl e)
    then show ?thesis by (auto simp: ListingByID_def split: list.splits if_splits)
  next
    case (Inr g)
    then show ?thesis using gone by simp
  qed
  have "handleMarketDetail False now u (ls_id l) d' = notFound" by (simp add: handleMarketDetail_def err)
  moreover have "ls_id l \<notin> lg_ID ` set gs" if "handleListMarket fail now u region kind d' = Done (gs, rs)" for fail region kind gs rs
  proof -
    note shown = that
    obtain k where "ListListings fail \<lparr>lf_ViewerStoreID = u_StoreID u, lf_RegionCode = TrimSpace region, lf_Kind = k,
        lf_MineOnly = False, lf_Now = now, lf_Limit = 0\<rparr> d' = Inr gs"
      using shown unfolding handleListMarket_def Let_def badRequest_def internalError_def
      by (auto split: if_splits option.splits sum.splits)
    from hidden_list [OF _ _ _ this, of l'] show ?thesis using uniq same by simp
  qed
  moreover have "fst (handleListingContact e u (ls_id l) d') \<noteq> Done a" for e a
    using gone unfolding handleListingContact_def notFound_def internalError_def
    by (cases "ListingByID (me_fail_read (ce_market e)) (ls_id l) (u_StoreID u) (me_now (ce_market e)) d'") auto
  ultimately show ?thesis by blast
qed


section \<open>Looking up numbers\<close>

text \<open>The requests of one shop for contacts, one after the other; before each, the others act.\<close>

fun contact_run :: "((db \<Rightarrow> db) \<times> contact_env \<times> User \<times> string) list \<Rightarrow> db \<Rightarrow> contactResponse reply list \<times> db" where
  "contact_run [] d = ([], d)"
| "contact_run ((before, e, u, lid) # cs) d =
    (case handleListingContact e u lid (before d) of (r, d1) \<Rightarrow>
      (case contact_run cs d1 of (rs, d2) \<Rightarrow> (r # rs, d2)))"

definition is_Done :: "'a reply \<Rightarrow> bool" where
  "is_Done r = (case r of Done _ \<Rightarrow> True | Failed _ _ \<Rightarrow> False)"

lemma is_Done_simps [simp]: "is_Done (Done a)" "\<not> is_Done (Failed c t)"
  by (simp_all add: is_Done_def)

lemma contact_once:
  assumes "handleListingContact e u lid d = (r, d')" "day_start KST (me_now (ce_market e)) = t" "t \<le> ce_db_now e"
    "\<And>x. seen_since (u_StoreID u) t (me_between (ce_market e) x) = seen_since (u_StoreID u) t x"
    "\<And>x. seen_since (u_StoreID u) t (ce_before_record e x) = seen_since (u_StoreID u) t x"
  shows "seen_since (u_StoreID u) t d' = seen_since (u_StoreID u) t d + (if is_Done r then 1 else 0)
    \<and> (is_Done r \<longrightarrow> seen_since (u_StoreID u) t d < contactsPerDay)
    \<and> (\<forall>a. r = Done a \<longrightarrow> cn_RemainingToday a = contactsPerDay - seen_since (u_StoreID u) t d')"
proof -
  let ?d1 = "me_between (ce_market e) d"
  have cf: "seen_since (u_StoreID u) t d2 = seen_since (u_StoreID u) t d + (case cres of Inl _ \<Rightarrow> 0 | Inr _ \<Rightarrow> 1)"
    if "ContactFor (ce_fails e) (ce_before_record e) (ce_db_now e) i (u_StoreID u) (u_ID u) ?d1 = (cres, d2)" for i cres d2
    using ContactFor_cases [OF that] assms(3) by (auto simp: seen_since_snoc assms(4,5))
  show ?thesis
  proof (cases "ListingByID (me_fail_read (ce_market e)) lid (u_StoreID u) (me_now (ce_market e)) d")
    case (Inl err)
    then show ?thesis using assms(1) by (auto simp: handleListingContact_def notFound_def internalError_def split: if_splits)
  next
    case (Inr l)
    obtain cres d2 where c: "ContactFor (ce_fails e) (ce_before_record e) (ce_db_now e) (lg_ID l) (u_StoreID u) (u_ID u) ?d1
        = (cres, d2)" by fastforce
    show ?thesis
      using assms(1) Inr c cf [OF c] unfolding handleListingContact_def ContactsTodayFor_def assms(2)
      by (auto simp: notFound_def internalError_def split: sum.splits if_splits)
  qed
qed

text \<open>
  A call of shop \<open>s\<close> on the day that starts at \<open>t\<close>, during which nobody else adds records under
  the name of \<open>s\<close>.
\<close>

definition own_call :: "string \<Rightarrow> instant \<Rightarrow> (db \<Rightarrow> db) \<times> contact_env \<times> User \<times> string \<Rightarrow> bool" where
  "own_call s t c \<longleftrightarrow> (case c of (before, e, u, lid) \<Rightarrow>
    u_StoreID u = s \<and> day_start KST (me_now (ce_market e)) = t \<and> t \<le> ce_db_now e
    \<and> (\<forall>x. seen_since s t (before x) = seen_since s t x) \<and> (\<forall>x. seen_since s t (me_between (ce_market e) x) = seen_since s t x)
    \<and> (\<forall>x. seen_since s t (ce_before_record e x) = seen_since s t x))"

text \<open>
  C36. Thirty numbers a day, each with its record. When one shop's requests for contacts on a
  day come one at a time, then whatever the other shops do meanwhile, the numbers it is given
  are exactly the records that are added under its name, the records of its day never pass
  thirty (unless they already had), and every answer says truly how many are left.
\<close>

theorem numbers_per_day:
  assumes "contact_run cs d = (rs, d')" "list_all (own_call s t) cs"
  shows "seen_since s t d' = seen_since s t d + int (length (filter is_Done rs))
    \<and> seen_since s t d' \<le> max 30 (seen_since s t d)
    \<and> (\<forall>i a. i < length rs \<and> rs ! i = Done a
        \<longrightarrow> cn_RemainingToday a = 30 - seen_since s t d - int (length (filter is_Done (take (Suc i) rs))))"
  using assms
proof (induction cs arbitrary: d rs)
  case Nil
  then show ?case by simp
next
  case (Cons c cs)
  obtain b e u lid where c: "c = (b, e, u, lid)" by (cases c)
  have s: "u_StoreID u = s" and env: "day_start KST (me_now (ce_market e)) = t" "t \<le> ce_db_now e"
    "\<And>x. seen_since s t (b x) = seen_since s t x"
    "\<And>x. seen_since s t (me_between (ce_market e) x) = seen_since s t x"
    "\<And>x. seen_since s t (ce_before_record e x) = seen_since s t x"
    using Cons.prems(2) by (simp_all add: c own_call_def)
  obtain r d1 where one: "handleListingContact e u lid (b d) = (r, d1)" by fastforce
  obtain rs' where rest: "contact_run cs d1 = (rs', d')" "rs = r # rs'"
    using Cons.prems(1) one by (auto simp: c split: prod.splits)
  have first: "seen_since s t d1 = seen_since s t d + (if is_Done r then 1 else 0)"
    "is_Done r \<longrightarrow> seen_since s t d < contactsPerDay"
    "\<forall>a. r = Done a \<longrightarrow> cn_RemainingToday a = contactsPerDay - seen_since s t d1"
    using contact_once [OF one env(1,2)] env(3-5) s by auto
  have ih: "seen_since s t d' = seen_since s t d1 + int (length (filter is_Done rs'))"
    "seen_since s t d' \<le> max 30 (seen_since s t d1)"
    "i < length rs' \<and> rs' ! i = Done a
      \<longrightarrow> cn_RemainingToday a = 30 - seen_since s t d1 - int (length (filter is_Done (take (Suc i) rs')))" for i a
    using Cons.IH [OF rest(1)] Cons.prems(2) by auto
  have "cn_RemainingToday a = 30 - seen_since s t d - int (length (filter is_Done (take (Suc i) rs)))"
    if "i < length rs" "rs ! i = Done a" for i a
  proof (cases i)
    case 0
    then show ?thesis using that rest(2) first(1,3) by (simp add: contactsPerDay_def)
  next
    case (Suc j)
    then show ?thesis using that rest(2) first(1) ih(3) [of j a] by simp
  qed
  then show ?case using first ih(1,2) rest(2) by (auto simp: contactsPerDay_def)
qed

text \<open>Two requests at once get past the limit: the records are counted before either is added.\<close>

lemma two_numbers_at_once:
  assumes "handleListingContact e u lid d = (Done a, d')" "day_start KST (me_now (ce_market e)) = t" "t \<le> ce_db_now e"
    "seen_since (u_StoreID u) t d = 29" "seen_since (u_StoreID u) t (ce_before_record e (me_between (ce_market e) d)) = 30"
  shows "seen_since (u_StoreID u) t d' = 31 \<and> cn_RemainingToday a = 0"
proof -
  obtain l where l: "ListingByID (me_fail_read (ce_market e)) lid (u_StoreID u) (me_now (ce_market e)) d = Inr l"
    using assms(1) by (cases "ListingByID (me_fail_read (ce_market e)) lid (u_StoreID u) (me_now (ce_market e)) d")
      (auto simp: handleListingContact_def notFound_def internalError_def split: if_splits)
  obtain cres d2 where c: "ContactFor (ce_fails e) (ce_before_record e) (ce_db_now e) (lg_ID l) (u_StoreID u) (u_ID u)
      (me_between (ce_market e) d) = (cres, d2)" by fastforce
  show ?thesis
    using assms(1,3-5) l c ContactFor_cases [OF c] unfolding handleListingContact_def ContactsTodayFor_def assms(2)
    by (auto simp: notFound_def internalError_def contactsPerDay_def seen_since_snoc split: sum.splits if_splits)
qed


section \<open>A market with one listing\<close>

definition demo_store :: "string \<Rightarrow> StoreRow" where
  "demo_store i = \<lparr>st_id = i, st_name = ''Shop'', st_phone = Some ''010-1234-5678'', st_type = ''claw'', st_payout_provider = [],
     st_payout_template = [], st_payout_bank_code = [], st_payout_account_enc = None, st_region_code = ''seoul'',
     st_region_detail = ''Mapo'', st_biz_no = ''2208162517''\<rparr>"

definition demo_market :: db where
  "demo_market = empty_db\<lparr>t_stores := map demo_store [''s1'', ''s2'', ''s3'', ''s4'']\<rparr>"

definition demo_member :: "string \<Rightarrow> User" where
  "demo_member s = \<lparr>u_ID = [], u_StoreID = s, u_Email = [], u_Name = [], u_Phone = [], u_Active = True\<rparr>"

definition demo_listing_env :: listing_env where
  "demo_listing_env = \<lparr>le_id = ''l1'', le_db_now = 5, le_fail_insert = False, le_fail_read = False\<rparr>"

definition demo_market_env :: market_env where
  "demo_market_env = \<lparr>me_now = 5, me_fail_read = False, me_between = (\<lambda>d. d)\<rparr>"

definition demo_new_listing :: CreateListingInput where
  "demo_new_listing = \<lparr>nl_StoreID = ''s1'', nl_UserID = [], nl_Name = ''K'', nl_Kind = ListingSwap, nl_Qty = 3, nl_UnitPriceKRW = 0,
     nl_Note = [], nl_RegionCode = ''seoul'', nl_RegionDetail = ''Mapo'', nl_Now = 5\<rparr>"

definition demo_up :: ListingRow where
  "demo_up = listing_row (\<lambda>r. r) demo_listing_env demo_new_listing"

lemma demo_up_simps [simp]:
  "ls_id demo_up = ''l1''" "ls_store demo_up = ''s1''" "ls_status demo_up = ''open''" "ls_reports demo_up = 0"
  "ls_expires demo_up = AddDays ListingDays 5" "ls_qty demo_up = 3" "ls_price demo_up = 0" "ls_by demo_up = None"
  by (simp_all add: demo_up_def listing_row_def demo_listing_env_def demo_new_listing_def NeedsPrice_def nilUUID_def)

lemma demo_unexpired: "5 < AddDays ListingDays 5"
  by (simp add: AddDays_def ListingDays_def duration_defs)

text \<open>Its shop sees it at once.\<close>

lemma demo_create_done:
  "\<exists>l. handleCreateListing (\<lambda>r. r) k demo_listing_env demo_market_env (demo_member ''s1'')
     (Some \<lparr>cr_Name = ''K'', cr_Kind = ''swap'', cr_Qty = 3, cr_UnitPriceKrw = 0, cr_Note = []\<rparr>) demo_market
   = (Done l, demo_market\<lparr>t_listings := [demo_up]\<rparr>)"
proof -
  have a: "is_ascii ''K''" by (simp add: byte_def)
  have t: "TrimSpace ''K'' = ''K''" "TrimSpace [] = []" by (simp_all add: TrimSpace_ascii a byte_def is_space_def)
  have rc: "rune_count ''K'' = 1" "rune_count [] = 0" by (simp_all add: rune_count_def segs_ascii [OF a])
  have kind: "ParseListingKind ''swap'' = Some ListingSwap"
    by (simp add: ParseListingKind_def AllListingKinds_def ListingSwap_def ListingSell_def)
  have st: "\<exists>st. StoreByID k False ''s1'' demo_market = Inr st \<and> sd_RegionCode st = ''seoul'' \<and> sd_RegionDetail st = ''Mapo''
     \<and> sd_BizNo st = ''2208162517''"
    by (simp add: StoreByID_def demo_market_def demo_store_def)
  have v: "ValidateListing \<lparr>li_Name = ''K'', li_Kind = ListingSwap, li_Qty = 3, li_UnitPriceKRW = 0, li_Note = []\<rparr> = None"
    using kind by (simp add: ValidateListing_def t rc NeedsPrice_def maxDollNameRunes_def maxListingNoteRunes_def
        ListingSwap_def)
  have read: "\<exists>l. ListingByID False ''l1'' ''s1'' 5 (demo_market\<lparr>t_listings := [demo_up]\<rparr>) = Inr l"
    by (simp add: ListingByID_def joined_listings_def demo_market_def demo_store_def scanListings_def scan_listing_def Let_def)
  have c: "\<exists>l. CreateListing (\<lambda>r. r) demo_listing_env demo_new_listing demo_market = (Inr l, demo_market\<lparr>t_listings := [demo_up]\<rparr>)"
    using demo_up_simps read unfolding demo_up_def
    by (simp add: CreateListing_def insert_listing_def demo_market_def empty_db_def demo_store_def demo_listing_env_def demo_new_listing_def)
  obtain st where st': "StoreByID k False ''s1'' demo_market = Inr st" "sd_RegionCode st = ''seoul''" "sd_RegionDetail st = ''Mapo''"
     "sd_BizNo st = ''2208162517''" using st by blast
  obtain l where l: "CreateListing (\<lambda>r. r) demo_listing_env demo_new_listing demo_market = (Inr l, demo_market\<lparr>t_listings := [demo_up]\<rparr>)"
    using c by blast
  show ?thesis
    using l unfolding demo_new_listing_def
    by (simp add: handleCreateListing_def demo_member_def demo_market_env_def st' CanPostListing_def kind t v Let_def)
qed

definition demo_report_env :: report_env where
  "demo_report_env = \<lparr>re_db_now = 9, re_fail_insert = False, re_fail_count = False, re_fail_remove = False, re_commit_ok = True\<rparr>"

lemma demo_report:
  assumes "t_listings d = [l]" "ls_id l = ''l1''" "ls_status l = ''open''" "ls_expires l = AddDays ListingDays 5" "ls_store l = ''s1''"
    "t_stores d = t_stores demo_market" "s \<in> {''s2'', ''s3'', ''s4''}" "s \<notin> reporters d ''l1''"
  shows "\<exists>r. handleReportListing demo_report_env demo_market_env (demo_member s) ''l1'' (Some []) d
    = (r, d\<lparr>t_reports := t_reports d @ [\<lparr>lr_listing = ''l1'', lr_store = s, lr_reason = [], lr_created = 9\<rparr>],
        t_listings := [reported 9 l]\<rparr>)"
proof -
  have t: "TrimSpace [] = []" "rune_count [] = 0" by (simp_all add: TrimSpace_ascii rune_count_def segs_ascii)
  have row: "\<exists>g. ListingByID False ''l1'' s 5 d = Inr g \<and> \<not> lg_Mine g \<and> lg_ID g = ''l1''"
    using assms demo_unexpired
    by (auto simp: ListingByID_def joined_listings_def demo_market_def demo_store_def scanListings_def scan_listing_def Let_def)
  have new: "\<not> list_ex (\<lambda>x. lr_listing x = ''l1'' \<and> lr_store x = s) (t_reports d)"
    using assms(8) by (auto simp: reporters_def list_ex_iff)
  have store: "s \<in> st_id ` set (t_stores d)" using assms(6,7) by (auto simp: demo_market_def demo_store_def)
  show ?thesis
    using row new store assms(1-4)
    by (auto simp: handleReportListing_def demo_market_env_def demo_member_def t ReportListing_def report_body_def tx_def
        and_then_def insert_report_def demo_report_env_def count_report_def remove_listing_def reported_def Let_def)
qed

lemma three_shops_take_it_down_witness:
  "\<exists>d l. evolves demo_market d \<and> l \<in> set (t_listings d) \<and> ls_status l = ''removed'' \<and> 3 \<le> card (reporters d (ls_id l))"
proof -
  let ?r = "\<lambda>s. \<lparr>lr_listing = ''l1'', lr_store = s, lr_reason = [], lr_created = 9\<rparr>"
  let ?d1 = "demo_market\<lparr>t_listings := [demo_up]\<rparr>"
  let ?d2 = "?d1\<lparr>t_reports := [?r ''s2''], t_listings := [reported 9 demo_up]\<rparr>"
  let ?d3 = "?d1\<lparr>t_reports := [?r ''s2'', ?r ''s3''], t_listings := [reported 9 (reported 9 demo_up)]\<rparr>"
  let ?d4 = "?d1\<lparr>t_reports := [?r ''s2'', ?r ''s3'', ?r ''s4''], t_listings := [reported 9 (reported 9 (reported 9 demo_up))]\<rparr>"
  have b: "me_between demo_market_env = (\<lambda>d. d)" by (simp add: demo_market_env_def)
  have m: "u_StoreID (demo_member s) = s" for s by (simp add: demo_member_def)
  have none: "t_listings demo_market = []" "t_reports demo_market = []" by (simp_all add: demo_market_def empty_db_def)
  have rep: "ls_id (reported 9 l) = ls_id l" "ls_store (reported 9 l) = ls_store l" "ls_reports (reported 9 l) = ls_reports l + 1"
    "ls_expires (reported 9 l) = ls_expires l"
    "ls_status (reported 9 l) = (if 3 \<le> ls_reports l + 1 \<and> ls_status l = ''open'' then ''removed'' else ls_status l)" for l
    by (simp_all add: reported_def Let_def ListingReportLimit_def)
  have 1: "evolves demo_market ?d1"
    using demo_create_done evolves.Create [OF evolves.Start] b evolves.Start by metis
  have 2: "\<exists>r. handleReportListing demo_report_env demo_market_env (demo_member ''s2'') ''l1'' (Some []) ?d1 = (r, ?d2)"
    using demo_report [of ?d1 demo_up "''s2''"] none by (simp add: reporters_def)
  have 3: "\<exists>r. handleReportListing demo_report_env demo_market_env (demo_member ''s3'') ''l1'' (Some []) ?d2 = (r, ?d3)"
    using demo_report [of ?d2 "reported 9 demo_up" "''s3''"] by (simp add: reporters_list rep)
  have 4: "\<exists>r. handleReportListing demo_report_env demo_market_env (demo_member ''s4'') ''l1'' (Some []) ?d3 = (r, ?d4)"
    using demo_report [of ?d3 "reported 9 (reported 9 demo_up)" "''s4''"] by (simp add: reporters_list rep)
  have step: "evolves demo_market d \<Longrightarrow> s \<noteq> [] \<Longrightarrow>
      \<exists>r. handleReportListing demo_report_env demo_market_env (demo_member s) ''l1'' (Some []) d = (r, d') \<Longrightarrow> evolves demo_market d'" for d d' s
    using evolves.Report [of demo_market d demo_market_env "demo_member s"] evolves.Start b m by metis
  have 5: "evolves demo_market ?d4"
    by (rule step [OF step [OF step [OF 1 _ 2] _ 3] _ 4]) simp_all
  have "ls_status (reported 9 (reported 9 (reported 9 demo_up))) = ''removed''" by (simp add: rep)
  with three_shops_take_it_down [OF none 5, of "reported 9 (reported 9 (reported 9 demo_up))"] 5 show ?thesis by fastforce
qed

definition demo_closed :: db where
  "demo_closed = demo_market\<lparr>t_listings := [demo_up\<lparr>ls_status := ''closed''\<rparr>]\<rparr>"

lemma taken_down_stays_down_witness:
  "market_ok demo_closed \<and> handleMarketDetail False 6 (demo_member ''s2'') ''l1'' demo_closed = notFound"
proof -
  have ok: "market_ok demo_closed" by (simp add: market_ok_def demo_closed_def demo_market_def empty_db_def reporters_def)
  then show ?thesis
    using taken_down_stays_down [OF ok evolves.Start, of "demo_up\<lparr>ls_status := ''closed''\<rparr>" "demo_member ''s2''" 6]
    by (simp add: demo_closed_def demo_member_def)
qed

definition demo_contact_env :: contact_env where
  "demo_contact_env = \<lparr>ce_market = demo_market_env, ce_fail_count = False, ce_fails = (False, False), ce_before_record = (\<lambda>d. d),
     ce_db_now = 6\<rparr>"

lemma numbers_per_day_witness:
  "\<exists>a d'. contact_run [(\<lambda>d. d, demo_contact_env, demo_member ''s2'', ''l1'')] (demo_market\<lparr>t_listings := [demo_up]\<rparr>) = ([Done a], d')
     \<and> cn_Phone a = ''010-1234-5678'' \<and> cn_RemainingToday a = 29
     \<and> seen_since ''s2'' (day_start KST 5) d' = 1"
proof -
  let ?d = "demo_market\<lparr>t_listings := [demo_up]\<rparr>"
  obtain a d' where run: "contact_run [(\<lambda>d. d, demo_contact_env, demo_member ''s2'', ''l1'')] ?d = ([Done a], d')"
    and phone: "cn_Phone a = ''010-1234-5678''"
    using demo_unexpired
    by (auto simp: handleListingContact_def demo_contact_env_def demo_market_env_def demo_member_def ListingByID_def
        joined_listings_def demo_market_def demo_store_def scanListings_def scan_listing_def Let_def ContactsTodayFor_def
        contactsPerDay_def seen_since_def empty_db_def ContactFor_def contact_row_def insert_contact_def nilUUID_def)
  have zero: "seen_since ''s2'' (day_start KST 5) ?d = 0" by (simp add: seen_since_def demo_market_def empty_db_def)
  have own: "list_all (own_call ''s2'' (day_start KST 5)) [(\<lambda>d. d, demo_contact_env, demo_member ''s2'', ''l1'')]"
    using day_start_le [of KST 5] by (simp add: own_call_def demo_contact_env_def demo_market_env_def demo_member_def)
  from numbers_per_day [OF run own] zero run phone show ?thesis by auto
qed

end
