(* ===== verification/Http_Settings.thy ===== *)
theory Http_Settings
  imports Http_Market Store_Accounts Payout_Links
begin

text \<open>
  \<^verbatim>\<open>internal/httpapi/admin_settings.go\<close> and \<^verbatim>\<open>internal/bizverify\<close>:
  the account of a member, the settings of the shop, the accounts of its staff and the way it pays.
  A body that does not decode is \<open>None\<close>.
\<close>

section \<open>The account of a member\<close>

record profileResponse =
  po_ID :: string
  po_Email :: string
  po_Name :: string
  po_Phone :: string
  po_Active :: bool

definition toProfile :: "User \<Rightarrow> profileResponse" where
  "toProfile u = \<lparr>po_ID = u_ID u, po_Email = u_Email u, po_Name = u_Name u, po_Phone = u_Phone u, po_Active = u_Active u\<rparr>"

record profileRequest =
  qp_Name :: string
  qp_Phone :: string

definition normalizeOptionalPhone :: "string \<Rightarrow> (phone_error, string) result" where
  "normalizeOptionalPhone raw = (let s = TrimSpace raw in if s = [] then Inr [] else NormalizePhone s)"

definition name_ok :: "nat \<Rightarrow> string \<Rightarrow> bool" where
  "name_ok longest name \<longleftrightarrow> 1 \<le> rune_count name \<and> rune_count name \<le> longest"

definition handleUpdateMe :: "bool \<Rightarrow> User \<Rightarrow> profileRequest option \<Rightarrow> db \<Rightarrow> profileResponse reply \<times> db" where
  "handleUpdateMe fail u body d =
    (case body of None \<Rightarrow> (badRequest, d) | Some req \<Rightarrow>
      (let name = TrimSpace (qp_Name req)
       in if \<not> name_ok 40 name then (badRequest, d)
          else case normalizeOptionalPhone (qp_Phone req) of Inl _ \<Rightarrow> (badRequest, d)
          | Inr phone \<Rightarrow>
              (case UpdateUser fail (u_StoreID u) (u_ID u) name phone d of
                 (Inl _, d1) \<Rightarrow> (internalError, d1) | (Inr v, d1) \<Rightarrow> (Done (toProfile v), d1))))"

section \<open>The shop\<close>

record storeResponse =
  sr_ID :: string
  sr_Name :: string
  sr_Phone :: string
  sr_StoreType :: StoreType
  sr_RegionCode :: string
  sr_RegionDetail :: string
  sr_BizNo :: string
  sr_CanPostListing :: bool

definition toStoreResponse :: "StoreDetail \<Rightarrow> storeResponse" where
  "toStoreResponse x = \<lparr>sr_ID = sd_ID x, sr_Name = sd_Name x, sr_Phone = sd_Phone x,
     sr_StoreType = NormalizeStoreType (sd_Type x), sr_RegionCode = sd_RegionCode x, sr_RegionDetail = sd_RegionDetail x,
     sr_BizNo = FormatBizNo (sd_BizNo x), sr_CanPostListing = CanPostListing x\<rparr>"

definition handleGetStore :: "Sec \<Rightarrow> bool \<Rightarrow> User \<Rightarrow> db \<Rightarrow> storeResponse reply" where
  "handleGetStore k fail u d =
    (case StoreByID k fail (u_StoreID u) d of Inl _ \<Rightarrow> internalError | Inr x \<Rightarrow> Done (toStoreResponse x))"

text \<open>\<^verbatim>\<open>bizverify\<close>: whether a number may be used, and whether the business is known to exist.\<close>

record BizResult =
  br_OK :: bool
  br_Checked :: bool

text \<open>\<open>Checksum.Verify\<close>, the verifier the server is built with.\<close>

definition Verify :: "string \<Rightarrow> BizResult" where
  "Verify bizNo = (if ValidateBizNo bizNo \<noteq> None then \<lparr>br_OK = False, br_Checked = False\<rparr>
     else \<lparr>br_OK = True, br_Checked = False\<rparr>)"

definition onlyDigits :: "string \<Rightarrow> string" where
  "onlyDigits s = u8 (filter (\<lambda>r. 48 \<le> r \<and> r \<le> 57) (runes s))"

record storeRequest =
  qs_Name :: string
  qs_Phone :: string
  qs_RegionCode :: string
  qs_RegionDetail :: string
  qs_BizNo :: string
  qs_StoreType :: string

text \<open>The profile the request asks for, when every field that is filled in is right.\<close>

definition store_profile :: "storeRequest \<Rightarrow> StoreProfile option" where
  "store_profile req =
    (let name = TrimSpace (qs_Name req); phone = TrimSpace (qs_Phone req); digits = onlyDigits phone;
         type = TrimSpace (qs_StoreType req); code = TrimSpace (qs_RegionCode req); biz = TrimSpace (qs_BizNo req)
     in if \<not> name_ok 60 name then None
        else if phone \<noteq> [] \<and> (length digits < 8 \<or> 12 < length digits) then None
        else if type \<noteq> [] \<and> \<not> ValidStoreType type then None
        else if code \<noteq> [] \<and> (RegionByCode code = None \<or> ValidateRegionDetail (qs_RegionDetail req) \<noteq> None) then None
        else if biz \<noteq> [] \<and> \<not> br_OK (Verify biz) then None
        else Some \<lparr>sp_Name = name, sp_Phone = digits, sp_Type = type, sp_RegionCode = code,
          sp_RegionDetail = (if code = [] then [] else TrimSpace (qs_RegionDetail req)),
          sp_BizNo = (if biz = [] then [] else NormalizeBizNo biz)\<rparr>)"

definition handleUpdateStore :: "Sec \<Rightarrow> bool \<times> bool \<Rightarrow> User \<Rightarrow> storeRequest option \<Rightarrow> db \<Rightarrow> storeResponse reply \<times> db" where
  "handleUpdateStore k fails u body d =
    (case body of None \<Rightarrow> (badRequest, d) | Some req \<Rightarrow>
      (case store_profile req of None \<Rightarrow> (badRequest, d)
       | Some p \<Rightarrow>
          (case UpdateStore k fails (u_StoreID u) p d of
             (Inl _, d1) \<Rightarrow> (internalError, d1) | (Inr x, d1) \<Rightarrow> (Done (toStoreResponse x), d1))))"

definition handleRegions :: "Region list reply" where "handleRegions = Done regions"

section \<open>The staff\<close>

definition handleListUsers :: "bool \<Rightarrow> User \<Rightarrow> db \<Rightarrow> (profileResponse list \<times> string) reply" where
  "handleListUsers fail u d =
    (if fail then internalError else Done (map toProfile (ListUsers (u_StoreID u) d), u_ID u))"

record createUserRequest =
  qu_Email :: string
  qu_Password :: string
  qu_Name :: string
  qu_Phone :: string

record staff_env =
  sv_lower :: "nat \<Rightarrow> nat"
  sv_bcrypt :: Bcrypt
  sv_fail :: bool
  sv_id :: string
  sv_db_now :: instant

definition handleCreateUser :: "staff_env \<Rightarrow> User \<Rightarrow> createUserRequest option \<Rightarrow> db \<Rightarrow> profileResponse reply \<times> db" where
  "handleCreateUser e u body d =
    (case body of None \<Rightarrow> (badRequest, d) | Some req \<Rightarrow>
      (let email = TrimSpace (ToLower (sv_lower e) (qu_Email req)); name = TrimSpace (qu_Name req)
       in if \<not> Contains email ''@'' \<or> 200 < length email then (badRequest, d)
          else if \<not> name_ok 40 name then (badRequest, d)
          else if length (qu_Password req) < 8 then (badRequest, d)
          else case normalizeOptionalPhone (qu_Phone req) of Inl _ \<Rightarrow> (badRequest, d)
          | Inr phone \<Rightarrow>
              (case CreateUser (sv_bcrypt e) (sv_fail e) (sv_id e) (sv_db_now e) (u_StoreID u) email (qu_Password req) name phone d of
                 (Inl _, d1) \<Rightarrow> (badRequest, d1) | (Inr v, d1) \<Rightarrow> (Done (toProfile v), d1))))"

text \<open>The body says whether the account is to be active.\<close>

definition handleSetUserActive ::
  "bool \<times> bool \<Rightarrow> (db \<Rightarrow> db) \<Rightarrow> User \<Rightarrow> string \<Rightarrow> bool option \<Rightarrow> db \<Rightarrow> bool reply \<times> db" where
  "handleSetUserActive fails meanwhile u uid body d =
    (case body of None \<Rightarrow> (badRequest, d) | Some active \<Rightarrow>
      if uid = u_ID u \<and> \<not> active then (badRequest, d)
      else case SetUserActive fails meanwhile (u_StoreID u) uid active d of
        (Inl err, d1) \<Rightarrow> (if err = ErrNotFound then notFound else badRequest, d1)
      | (Inr _, d1) \<Rightarrow> (Done active, d1))"

section \<open>How the shop pays\<close>

record payoutSettingsResponse =
  ps_Providers :: "Provider list"
  ps_Banks :: "Bank list"
  ps_Provider :: string
  ps_Template :: string
  ps_BankCode :: string
  ps_Account :: string

definition handleGetPayoutSettings :: "Sec \<Rightarrow> bool \<Rightarrow> User \<Rightarrow> db \<Rightarrow> payoutSettingsResponse reply" where
  "handleGetPayoutSettings k fail u d =
    (case StoreByID k fail (u_StoreID u) d of Inl _ \<Rightarrow> internalError
     | Inr st \<Rightarrow> Done \<lparr>ps_Providers = providers, ps_Banks = banks,
         ps_Provider = (if sd_PayoutProvider st = [] then ProviderNone else sd_PayoutProvider st),
         ps_Template = sd_PayoutTemplate st, ps_BankCode = sd_PayoutBankCode st, ps_Account = sd_PayoutAccount st\<rparr>)"

record payoutSettingsRequest =
  qy_Provider :: string
  qy_Template :: string
  qy_BankCode :: string
  qy_Account :: string

definition payout_settings :: "payoutSettingsRequest \<Rightarrow> PayoutSettings option" where
  "payout_settings req =
    (let tpl = TrimSpace (qy_Template req); account = onlyDigits (qy_Account req); code = TrimSpace (qy_BankCode req)
     in if ProviderByID (qy_Provider req) = None then None
        else if qy_Provider req = ProviderCustom \<and> (tpl = [] \<or> \<not> Contains tpl ''://'') then None
        else if account \<noteq> [] \<and> (length account < 6 \<or> 20 < length account \<or> BankByCode code = None) then None
        else Some \<lparr>py_Provider = qy_Provider req,
          py_Template = (if qy_Provider req = ProviderCustom then tpl else []),
          py_BankCode = (if account = [] then [] else code), py_Account = account\<rparr>)"

definition handleUpdatePayoutSettings ::
  "Sec \<Rightarrow> string option \<Rightarrow> bool \<times> bool \<Rightarrow> User \<Rightarrow> payoutSettingsRequest option \<Rightarrow> db \<Rightarrow> payoutSettingsResponse reply \<times> db" where
  "handleUpdatePayoutSettings k rnd fails u body d =
    (case body of None \<Rightarrow> (badRequest, d) | Some req \<Rightarrow>
      (case payout_settings req of None \<Rightarrow> (badRequest, d)
       | Some p \<Rightarrow>
          (case UpdatePayoutSettings k rnd fails (u_StoreID u) p d of
             (Inl _, d1) \<Rightarrow> (internalError, d1)
           | (Inr st, d1) \<Rightarrow> (Done \<lparr>ps_Providers = providers, ps_Banks = banks, ps_Provider = sd_PayoutProvider st,
               ps_Template = sd_PayoutTemplate st, ps_BankCode = sd_PayoutBankCode st, ps_Account = sd_PayoutAccount st\<rparr>, d1))))"


section \<open>What a shop's row may hold\<close>

text \<open>
  The type of a shop's settings, beyond the columns of the table: a known kind of shop, a known
  region with a detail of 1 to 20 runes or no region at all, a business number of ten digits
  that passes its check or none, and a provider the server knows or none yet.
\<close>

definition region_ok :: "string \<Rightarrow> string \<Rightarrow> bool" where
  "region_ok code detail \<longleftrightarrow> (code = [] \<and> detail = [])
    \<or> (RegionByCode code \<noteq> None \<and> detail \<noteq> [] \<and> rune_count detail \<le> maxRegionDetailRunes)"

definition store_ok :: "StoreRow \<Rightarrow> bool" where
  "store_ok s \<longleftrightarrow> ValidStoreType (st_type s) \<and> region_ok (st_region_code s) (st_region_detail s)
    \<and> (st_biz_no s = [] \<or> (ValidateBizNo (st_biz_no s) = None \<and> length (st_biz_no s) = 10 \<and> list_all is_digit (st_biz_no s)))
    \<and> (st_payout_provider s = [] \<or> ProviderByID (st_payout_provider s) \<noteq> None)
    \<and> (st_payout_template s \<noteq> [] \<longrightarrow> st_payout_provider s = ProviderCustom \<and> Contains (st_payout_template s) ''://'')"

definition stores_ok :: "db \<Rightarrow> bool" where
  "stores_ok d \<longleftrightarrow> list_all store_ok (t_stores d)"

lemma store_profile_Some:
  assumes "store_profile req = Some p"
  shows "(sp_Type p = [] \<or> ValidStoreType (sp_Type p)) \<and> region_ok (sp_RegionCode p) (sp_RegionDetail p)
    \<and> (sp_BizNo p = [] \<or> (ValidateBizNo (sp_BizNo p) = None \<and> length (sp_BizNo p) = 10 \<and> list_all is_digit (sp_BizNo p)))"
proof -
  have digits: "filter is_digit (filter is_digit x) = filter is_digit x" for x :: string by simp
  have biz: "ValidateBizNo (NormalizeBizNo b) = None \<and> length (NormalizeBizNo b) = 10 \<and> list_all is_digit (NormalizeBizNo b)"
    if "ValidateBizNo b = None" for b
    using that unfolding ValidateBizNo_None_iff NormalizeBizNo_eq digits by (auto simp: list_all_iff)
  have region: "region_ok c (TrimSpace x)" if "RegionByCode c \<noteq> None" "ValidateRegionDetail x = None" for c x
    using that by (auto simp: region_ok_def ValidateRegionDetail_def Let_def split: if_splits)
  let ?ty = "TrimSpace (qs_StoreType req)" and ?code = "TrimSpace (qs_RegionCode req)" and ?biz = "TrimSpace (qs_BizNo req)"
  have p: "sp_Type p = ?ty \<and> sp_RegionCode p = ?code \<and> sp_RegionDetail p = (if ?code = [] then [] else TrimSpace (qs_RegionDetail req))
      \<and> sp_BizNo p = (if ?biz = [] then [] else NormalizeBizNo ?biz)"
    and c: "?ty = [] \<or> ValidStoreType ?ty"
      "?code = [] \<or> (RegionByCode ?code \<noteq> None \<and> ValidateRegionDetail (qs_RegionDetail req) = None)"
      "?biz = [] \<or> br_OK (Verify ?biz)"
    using assms unfolding store_profile_def Let_def by (auto split: if_splits)
  have "region_ok (sp_RegionCode p) (sp_RegionDetail p)" using p c(2) region by (auto simp: region_ok_def)
  moreover have "ValidateBizNo ?biz = None" if "?biz \<noteq> []" using c(3) that by (simp add: Verify_def split: if_splits)
  ultimately show ?thesis using p c(1) biz by simp
qed

lemma payout_settings_Some:
  assumes "payout_settings req = Some p"
  shows "ProviderByID (py_Provider p) \<noteq> None
    \<and> (py_Template p \<noteq> [] \<longrightarrow> py_Provider p = ProviderCustom \<and> Contains (py_Template p) ''://'')"
  using assms by (auto simp: payout_settings_def Let_def split: if_splits)

lemma update_stores_ok:
  assumes "update_stores fail sid f d = (r, d')" "stores_ok d" "\<And>s. store_ok s \<Longrightarrow> store_ok (f s)"
  shows "stores_ok d'"
  using assms by (auto simp: update_stores_def stores_ok_def list_all_iff split: if_splits)

lemma UpdateStore_ok:
  assumes "UpdateStore k fails sid p d = (r, d')" "stores_ok d" "store_profile req = Some p"
  shows "stores_ok d'"
proof -
  let ?f = "\<lambda>s. s\<lparr>st_name := sp_Name p, st_phone := Some (sp_Phone p), st_region_code := sp_RegionCode p,
    st_region_detail := sp_RegionDetail p, st_biz_no := sp_BizNo p, st_type := (if sp_Type p = [] then st_type s else sp_Type p)\<rparr>"
  obtain r1 d1 where u: "update_stores (fst fails) sid ?f d = (r1, d1)" by fastforce
  have "stores_ok d1"
    by (rule update_stores_ok [OF u assms(2)]) (use store_profile_Some [OF assms(3)] in \<open>auto simp: store_ok_def\<close>)
  moreover have "d' = d \<or> d' = d1" using assms(1) u by (auto simp: UpdateStore_def split: if_splits sum.splits)
  ultimately show ?thesis using assms(2) by blast
qed

lemma UpdatePayoutSettings_ok:
  assumes "UpdatePayoutSettings k rnd fails sid p d = (r, d')" "stores_ok d" "payout_settings req = Some p"
  shows "stores_ok d'"
proof (cases "if py_Account p \<noteq> [] then map_sum id Some (Encrypt (sec_aead k) rnd (py_Account p)) else Inr None")
  case (Inl e)
  then show ?thesis using assms(1,2) by (simp add: UpdatePayoutSettings_def)
next
  case (Inr enc)
  let ?f = "\<lambda>s. s\<lparr>st_payout_provider := py_Provider p, st_payout_template := py_Template p,
    st_payout_bank_code := py_BankCode p, st_payout_account_enc := enc\<rparr>"
  obtain r1 d1 where u: "update_stores (fst fails) sid ?f d = (r1, d1)" by fastforce
  have "stores_ok d1"
    by (rule update_stores_ok [OF u assms(2)]) (use payout_settings_Some [OF assms(3)] in \<open>auto simp: store_ok_def\<close>)
  moreover have "d' = d1" using assms(1) u Inr by (auto simp: UpdatePayoutSettings_def split: sum.splits if_splits)
  ultimately show ?thesis by simp
qed

lemma CreateStoreWithOwner_ok:
  assumes "CreateStoreWithOwner bc fails ids now n ph ty email pw name d = (r, d')" "stores_ok d"
  shows "stores_ok d'"
proof -
  have new: "store_ok (new_store i n ph (NormalizeStoreType ty))" for i
    by (simp add: store_ok_def new_store_def region_ok_def NormalizeStoreType_def ValidStoreType_iff AllStoreTypes_def storeTypeLabels_def)
  have u: "t_stores (snd (insert_user f u d)) = t_stores d" for f u d by (simp add: insert_user_def)
  have s: "stores_ok (snd (insert_store f (new_store i n ph (NormalizeStoreType ty)) d))" for f i
    using assms(2) new by (auto simp: insert_store_def stores_ok_def)
  have body: "stores_ok d'" if "(case insert_user f v d1 of
        (Inl UniqueViolation, d2) \<Rightarrow> (Inl (BadInput x), d2) | (Inl e, d2) \<Rightarrow> (Inl e, d2) | (Inr _, d2) \<Rightarrow> (Inr y, d2)) = (Inr z, d')"
      "stores_ok d1" for f v d1 x y z
  proof (cases "insert_user f v d1")
    case (Pair ri d2)
    then have "d' = d2" using that(1) by (cases ri) (auto split: db_error.splits)
    then show ?thesis using that(2) u [of f v d1] Pair by (simp add: stores_ok_def)
  qed
  show ?thesis
  proof (cases r)
    case (Inl e)
    then show ?thesis using assms unfolding CreateStoreWithOwner_def
      by (auto split: if_splits option.splits dest!: tx_cases)
  next
    case (Inr v)
    then obtain hash d1 where "insert_store (fst fails) (new_store (fst ids) n ph (NormalizeStoreType ty)) d = (Inr (), d1)"
      and run: "(case insert_user (fst (snd fails)) (new_user (snd ids) now (fst ids) email hash name []) d1 of
        (Inl UniqueViolation, d2) \<Rightarrow> (Inl (BadInput ''email''), d2) | (Inl e, d2) \<Rightarrow> (Inl e, d2)
        | (Inr _, d2) \<Rightarrow> (Inr (fst ids, user_of (new_user (snd ids) now (fst ids) email hash name [])), d2)) = (Inr v, d')"
      using assms(1) unfolding CreateStoreWithOwner_def by (auto simp: tx_Inr and_then_Inr split: if_splits option.splits)
    then have "stores_ok d1" using s [of "fst fails" "fst ids"] by simp
    then show ?thesis by (rule body [OF run])
  qed
qed


lemma handleUpdateStore_ok: "stores_ok d \<Longrightarrow> stores_ok (snd (handleUpdateStore k fails u body d))"
proof (cases body)
  case (Some req)
  assume ok: "stores_ok d"
  show ?thesis
  proof (cases "store_profile req")
    case (Some p)
    obtain r d' where "UpdateStore k fails (u_StoreID u) p d = (r, d')" by fastforce
    with UpdateStore_ok [OF this ok Some] \<open>body = Some req\<close> Some show ?thesis
      by (cases r) (simp_all add: handleUpdateStore_def)
  qed (simp add: handleUpdateStore_def \<open>body = Some req\<close> ok)
qed (simp add: handleUpdateStore_def)

lemma handleUpdatePayoutSettings_ok: "stores_ok d \<Longrightarrow> stores_ok (snd (handleUpdatePayoutSettings k rnd fails u body d))"
proof (cases body)
  case (Some req)
  assume ok: "stores_ok d"
  show ?thesis
  proof (cases "payout_settings req")
    case (Some p)
    obtain r d' where "UpdatePayoutSettings k rnd fails (u_StoreID u) p d = (r, d')" by fastforce
    with UpdatePayoutSettings_ok [OF this ok Some] \<open>body = Some req\<close> Some show ?thesis
      by (cases r) (simp_all add: handleUpdatePayoutSettings_def)
  qed (simp add: handleUpdatePayoutSettings_def \<open>body = Some req\<close> ok)
qed (simp add: handleUpdatePayoutSettings_def)

lemma StoreByID_Inr:
  assumes "StoreByID k fail sid d = Inr st"
  shows "\<exists>s \<in> set (t_stores d). st_id s = sid \<and> sd_RegionCode st = st_region_code s \<and> sd_BizNo st = st_biz_no s"
proof -
  obtain s where s: "find (\<lambda>s. st_id s = sid) (t_stores d) = Some s"
    using assms by (auto simp: StoreByID_def split: if_splits option.splits)
  then have "sd_RegionCode st = st_region_code s \<and> sd_BizNo st = st_biz_no s"
    using assms by (auto simp: StoreByID_def split: if_splits option.splits sum.splits)
  then show ?thesis using find_Some_in [OF s] by auto
qed

lemma posted_listing:
  assumes "handleCreateListing lc k le e u body d = (Done l, d')" "me_between e = id"
  shows "\<exists>st. StoreByID k (me_fail_read e) (u_StoreID u) d = Inr st \<and> CanPostListing st \<and> lg_RegionCode l = sd_RegionCode st"
proof -
  obtain req st where st: "body = Some req" "StoreByID k (me_fail_read e) (u_StoreID u) d = Inr st" "CanPostListing st"
    using assms unfolding handleCreateListing_def Let_def
    by (auto simp: badRequest_def internalError_def conflict_def split: option.splits sum.splits if_splits)
  obtain kind where kind: "ParseListingKind (cr_Kind req) = Some kind"
    using assms st unfolding handleCreateListing_def Let_def by (cases "ParseListingKind (cr_Kind req)") (auto simp: badRequest_def)
  define i where "i = \<lparr>nl_StoreID = u_StoreID u, nl_UserID = u_ID u, nl_Name = TrimSpace (cr_Name req), nl_Kind = kind,
    nl_Qty = cr_Qty req, nl_UnitPriceKRW = cr_UnitPriceKrw req, nl_Note = TrimSpace (cr_Note req),
    nl_RegionCode = sd_RegionCode st, nl_RegionDetail = sd_RegionDetail st, nl_Now = me_now e\<rparr>"
  have run: "CreateListing lc le i d = (Inr l, d')"
    using assms st kind unfolding handleCreateListing_def Let_def i_def
    by (auto simp: badRequest_def internalError_def split: sum.splits if_splits prod.splits)
  obtain r1 d1 where ins: "insert_listing (le_fail_insert le) (listing_row lc le i) d = (r1, d1)" by fastforce
  have ok: "r1 = Inr ()" "d' = d1" "ListingByID (le_fail_read le) (le_id le) (nl_StoreID i) (nl_Now i) d1 = Inr l"
    using run ins by (auto simp: CreateListing_def split: sum.splits)
  have d1: "d1 = d\<lparr>t_listings := t_listings d @ [listing_row lc le i]\<rparr>" "le_id le \<notin> ls_id ` set (t_listings d)"
    using ins ok(1) by (auto simp: insert_listing_def listing_row_def split: if_splits)
  obtain x s where x: "x \<in> set (t_listings d1)" "ls_id x = le_id le" "l = scan_listing (nl_StoreID i) (x, s)"
    using ListingByID_Inr [OF ok(3)] by blast
  have "x \<notin> set (t_listings d)" using x(2) d1(2) by (metis imageI)
  then have "x = listing_row lc le i" using x(1) d1(1) by simp
  then have "lg_RegionCode l = nl_RegionCode i" using x(3) by (simp add: scan_listing_def listing_row_def Let_def)
  with st show ?thesis by (simp add: i_def)
qed

text \<open>
  C37. The settings of a shop are always of their type. From well-formed shops, saving a profile,
  saving the way of paying and founding a shop each leave every shop well formed, whether the
  request succeeds or not: its kind, region, business number and provider are known and right,
  or not set. So every listing that goes up is in a known region and comes from a shop whose
  business number passes the check.
\<close>

theorem settings_well_typed:
  assumes "stores_ok d" and "me_between e = id"
  shows "stores_ok (snd (handleUpdateStore k fails u body d))
    \<and> stores_ok (snd (handleUpdatePayoutSettings k rnd fails u pay d))
    \<and> stores_ok (snd (CreateStoreWithOwner bc fs ids now n ph ty email pw name d))
    \<and> (\<forall>l d'. handleCreateListing lc k le e u item d = (Done l, d') \<longrightarrow> RegionByCode (lg_RegionCode l) \<noteq> None
        \<and> (\<exists>s \<in> set (t_stores d). st_id s = u_StoreID u \<and> ValidateBizNo (st_biz_no s) = None))"
proof (intro conjI allI impI)
  show "stores_ok (snd (handleUpdateStore k fails u body d))" by (rule handleUpdateStore_ok [OF assms(1)])
  show "stores_ok (snd (handleUpdatePayoutSettings k rnd fails u pay d))" by (rule handleUpdatePayoutSettings_ok [OF assms(1)])
  show "stores_ok (snd (CreateStoreWithOwner bc fs ids now n ph ty email pw name d))"
    by (cases "CreateStoreWithOwner bc fs ids now n ph ty email pw name d") (use CreateStoreWithOwner_ok assms in fastforce)
next
  fix l d' assume "handleCreateListing lc k le e u item d = (Done l, d')"
  then obtain st where st: "StoreByID k (me_fail_read e) (u_StoreID u) d = Inr st" "CanPostListing st" "lg_RegionCode l = sd_RegionCode st"
    using posted_listing assms(2) by blast
  obtain s where s: "s \<in> set (t_stores d)" "st_id s = u_StoreID u" "sd_RegionCode st = st_region_code s" "sd_BizNo st = st_biz_no s"
    using StoreByID_Inr [OF st(1)] by blast
  have ok: "store_ok s" using assms(1) s(1) by (auto simp: stores_ok_def list_all_iff)
  then show "RegionByCode (lg_RegionCode l) \<noteq> None" using s st(2,3) by (auto simp: store_ok_def region_ok_def CanPostListing_def)
  show "\<exists>s \<in> set (t_stores d). st_id s = u_StoreID u \<and> ValidateBizNo (st_biz_no s) = None"
    using ok s st(2) by (auto simp: store_ok_def CanPostListing_def)
qed

lemma settings_well_typed_witness:
  "\<exists>l d'. handleCreateListing (\<lambda>r. r) demo_sec demo_listing_env demo_market_env (demo_member ''s1'')
     (Some \<lparr>cr_Name = ''K'', cr_Kind = ''swap'', cr_Qty = 3, cr_UnitPriceKrw = 0, cr_Note = []\<rparr>) demo_market = (Done l, d')
     \<and> RegionByCode (lg_RegionCode l) \<noteq> None \<and> stores_ok (snd (handleUpdateStore demo_sec (False, False) (demo_member ''s1'') None demo_market))"
proof -
  have biz: "ValidateBizNo ''2208162517'' = None" "list_all is_digit ''2208162517''" by code_simp+
  have region: "RegionByCode ''seoul'' \<noteq> None" by (simp add: RegionByCode_def regions_def)
  have detail: "rune_count ''Mapo'' = 4"
  proof -
    have "is_ascii ''Mapo''" by (simp add: byte_def)
    then show ?thesis by (simp add: rune_count_def segs_ascii)
  qed
  have ok: "stores_ok demo_market"
    using biz region detail by (simp add: stores_ok_def demo_market_def demo_store_def store_ok_def region_ok_def
        ValidStoreType_iff AllStoreTypes_def storeTypeLabels_def maxRegionDetailRunes_def)
  have b: "me_between demo_market_env = id" by (simp add: demo_market_env_def id_def)
  obtain l where l: "handleCreateListing (\<lambda>r. r) demo_sec demo_listing_env demo_market_env (demo_member ''s1'')
     (Some \<lparr>cr_Name = ''K'', cr_Kind = ''swap'', cr_Qty = 3, cr_UnitPriceKrw = 0, cr_Note = []\<rparr>) demo_market
     = (Done l, demo_market\<lparr>t_listings := [demo_up]\<rparr>)"
    using demo_create_done by blast
  have "stores_ok (snd (handleUpdateStore demo_sec (False, False) (demo_member ''s1'') None demo_market))"
    by (rule settings_well_typed [OF ok b, THEN conjunct1])
  moreover have "RegionByCode (lg_RegionCode l) \<noteq> None"
    by (rule settings_well_typed [OF ok b, THEN conjunct2, THEN conjunct2, THEN conjunct2, rule_format, OF l, THEN conjunct1])
  ultimately show ?thesis using l by blast
qed

end
