(* ===== verification/Http_Machines.thy ===== *)
theory Http_Machines
  imports Http_Access Store_Machines Store_Stats Store_Queries
begin

text \<open>
  \<^verbatim>\<open>internal/httpapi/admin_machines.go\<close>: the machines of a shop and their stickers, the contacts
  it watches, and its daily numbers. The picture of the QR code is drawn by a library outside
  the repository; here the page gives the address that goes into it.
\<close>

section \<open>Machines\<close>

record machineItem =
  mi_ID :: string
  mi_Code :: string
  mi_Label :: string
  mi_Location :: string
  mi_Active :: bool
  mi_Claims24h :: nat
  mi_Claims7d :: nat
  mi_OpenClaims :: nat
  mi_Daily7d :: "nat list"
  mi_QRTarget :: string
  mi_NeedsCheck :: bool

definition qrTarget :: "string \<Rightarrow> string \<Rightarrow> string" where
  "qrTarget base code = TrimRightSlash base @ ''/r/'' @ code"

definition machine_item :: "string \<Rightarrow> int \<Rightarrow> MachineStat \<Rightarrow> machineItem" where
  "machine_item base threshold x = (let m = mt_Machine x in
    \<lparr>mi_ID = mc_ID m, mi_Code = mc_Code m, mi_Label = mc_Label m, mi_Location = mc_Location m, mi_Active = mc_Active m,
     mi_Claims24h = mt_Claims24h x, mi_Claims7d = mt_Claims7d x, mi_OpenClaims = mt_OpenClaims x, mi_Daily7d = mt_Daily7d x,
     mi_QRTarget = qrTarget base (mc_Code m), mi_NeedsCheck = threshold \<le> int (mt_Claims24h x)\<rparr>)"

definition handleListMachines ::
  "string \<Rightarrow> int \<Rightarrow> zone \<Rightarrow> instant \<Rightarrow> (nat \<Rightarrow> bool) \<Rightarrow> User \<Rightarrow> db \<Rightarrow> machineItem list reply" where
  "handleListMachines base threshold z now fail u d =
    (case ListMachines z now fail (u_StoreID u) d of Inl _ \<Rightarrow> internalError
     | Inr ms \<Rightarrow> Done (map (machine_item base threshold) ms))"

text \<open>A field of the body that is not sent is empty; \<open>mq_Active\<close> tells not sent from false.\<close>

record machineRequest =
  mq_Label :: string
  mq_Location :: string
  mq_Active :: "bool option"

definition plain_item :: "string \<Rightarrow> Machine \<Rightarrow> machineItem" where
  "plain_item base m = \<lparr>mi_ID = mc_ID m, mi_Code = mc_Code m, mi_Label = mc_Label m, mi_Location = mc_Location m,
     mi_Active = mc_Active m, mi_Claims24h = 0, mi_Claims7d = 0, mi_OpenClaims = 0, mi_Daily7d = replicate 7 0,
     mi_QRTarget = qrTarget base (mc_Code m), mi_NeedsCheck = False\<rparr>"

definition handleCreateMachine ::
  "string \<Rightarrow> machine_attempt list \<Rightarrow> User \<Rightarrow> machineRequest option \<Rightarrow> db \<Rightarrow> machineItem reply \<times> db" where
  "handleCreateMachine base as u body d =
    (case body of None \<Rightarrow> (badRequest, d) | Some req \<Rightarrow>
      (let label = TrimSpace (mq_Label req)
       in if rune_count label < 1 \<or> 50 < rune_count label then (badRequest, d)
          else case CreateMachine as (u_StoreID u) label (TrimSpace (mq_Location req)) d of
            (Inl _, d1) \<Rightarrow> (internalError, d1) | (Inr m, d1) \<Rightarrow> (Done (plain_item base m), d1)))"

text \<open>The machine as the request wants it: what is not sent stays. \<open>None\<close> when the name is too long.\<close>

definition patched :: "machineRequest \<Rightarrow> Machine \<Rightarrow> Machine option" where
  "patched req m =
    (let v = TrimSpace (mq_Label req)
     in if v \<noteq> [] \<and> 50 < rune_count v then None
        else Some (m\<lparr>mc_Label := (if v \<noteq> [] then v else mc_Label m),
          mc_Location := (if mq_Location req \<noteq> [] then TrimSpace (mq_Location req) else mc_Location m),
          mc_Active := (case mq_Active req of None \<Rightarrow> mc_Active m | Some a \<Rightarrow> a)\<rparr>))"

definition handleUpdateMachine ::
  "string \<Rightarrow> bool \<times> bool \<Rightarrow> (db \<Rightarrow> db) \<Rightarrow> User \<Rightarrow> string \<Rightarrow> machineRequest option \<Rightarrow> db \<Rightarrow> machineItem reply \<times> db" where
  "handleUpdateMachine base fails meanwhile u mid body d =
    (case MachineByID (fst fails) (u_StoreID u) mid d of
       Inl e \<Rightarrow> (if e = ErrNotFound then notFound else internalError, d)
     | Inr current \<Rightarrow>
        (case body of None \<Rightarrow> (badRequest, d) | Some req \<Rightarrow>
          (case patched req current of None \<Rightarrow> (badRequest, d)
           | Some m \<Rightarrow>
              (case UpdateMachine (snd fails) (u_StoreID u) mid (mc_Label m) (mc_Location m) (mc_Active m) (meanwhile d) of
                 (Inl e, d1) \<Rightarrow> (if e = ErrNotFound then notFound else internalError, d1)
               | (Inr _, d1) \<Rightarrow> (Done (plain_item base (m\<lparr>mc_ID := mid\<rparr>)), d1)))))"

text \<open>\<open>encode\<close> is the QR library: a text to a picture, or a failure.\<close>

definition handleMachineQR ::
  "(string \<Rightarrow> 'png option) \<Rightarrow> string \<Rightarrow> bool \<Rightarrow> User \<Rightarrow> string \<Rightarrow> db \<Rightarrow> 'png reply" where
  "handleMachineQR encode base fail u mid d =
    (case MachineByID fail (u_StoreID u) mid d of
       Inl e \<Rightarrow> (if e = ErrNotFound then notFound else internalError)
     | Inr m \<Rightarrow> (case encode (qrTarget base (mc_Code m)) of None \<Rightarrow> internalError | Some png \<Rightarrow> Done png))"

section \<open>Contacts\<close>

definition handleListContacts :: "Sec \<Rightarrow> bool \<Rightarrow> User \<Rightarrow> db \<Rightarrow> ContactSummary list reply" where
  "handleListContacts k fail u d =
    (case ListContacts k fail (u_StoreID u) d of Inl _ \<Rightarrow> internalError | Inr cs \<Rightarrow> Done cs)"

text \<open>\<open>hex.DecodeString\<close>: pairs of digits in either case.\<close>

definition hex_nibble :: "char \<Rightarrow> nat option" where
  "hex_nibble c = (let b = byte c in
    if 48 \<le> b \<and> b \<le> 57 then Some (b - 48)
    else if 97 \<le> b \<and> b \<le> 102 then Some (b - 87)
    else if 65 \<le> b \<and> b \<le> 70 then Some (b - 55) else None)"

fun hex_decode :: "string \<Rightarrow> string option" where
  "hex_decode [] = Some []"
| "hex_decode [_] = None"
| "hex_decode (a # b # s) =
    (case (hex_nibble a, hex_nibble b, hex_decode s) of
       (Some x, Some y, Some t) \<Rightarrow> Some (char_of (16 * x + y) # t) | _ \<Rightarrow> None)"

record contactStatusRequest =
  kr_Status :: string
  kr_Note :: string
  kr_Kind :: string

definition handleSetContactStatus ::
  "bool \<Rightarrow> instant \<Rightarrow> User \<Rightarrow> string \<Rightarrow> contactStatusRequest option \<Rightarrow> db \<Rightarrow> string reply \<times> db" where
  "handleSetContactStatus fail now u hash body d =
    (case hex_decode hash of None \<Rightarrow> (badRequest, d)
     | Some h \<Rightarrow>
        if length h \<noteq> 32 then (badRequest, d)
        else case body of None \<Rightarrow> (badRequest, d)
        | Some req \<Rightarrow>
            if ParseContactStatus (kr_Status req) = None then (badRequest, d)
            else case SetContactStatus fail now (u_StoreID u) h (if kr_Kind req = [] then ''phone'' else kr_Kind req)
                (kr_Status req) (TrimSpace (kr_Note req)) (u_ID u) d of
              (Inl _, d1) \<Rightarrow> (badRequest, d1)
            | (Inr _, d1) \<Rightarrow> (Done (kr_Status req), d1))"

section \<open>Daily numbers\<close>

text \<open>
  \<open>parse\<close> is \<open>time.Parse\<close> with the date layout: midnight UTC. \<open>srv\<close> is the zone of the server's
  clock; a time reaches the query as the date it has in its own zone, which \<open>wall\<close> moves to UTC.
\<close>

definition wall :: "zone \<Rightarrow> instant \<Rightarrow> instant" where
  "wall z t = t + z * Second"

definition handleDailyStats ::
  "(string \<Rightarrow> instant option) \<Rightarrow> zone \<Rightarrow> zone \<Rightarrow> instant \<Rightarrow> bool \<Rightarrow> User \<Rightarrow> string \<Rightarrow> string \<Rightarrow> db \<Rightarrow> DailyStat list reply" where
  "handleDailyStats parse z srv now fail u qfrom qto d =
    (case (if qfrom = [] then Some (AddDays (- 29) now, srv) else map_option (\<lambda>t. (t, UTC)) (parse qfrom)) of
       None \<Rightarrow> badRequest
     | Some (from, zf) \<Rightarrow>
        (case (if qto = [] then Some (now, srv) else map_option (\<lambda>t. (t, UTC)) (parse qto)) of
           None \<Rightarrow> badRequest
         | Some (to, zt) \<Rightarrow>
            if to < from then badRequest
            else if 366 * 24 * Hour < Sub to from then badRequest
            else case DailyStats z UTC fail (u_StoreID u) (wall zf from) (wall zt to) d of
              Inl _ \<Rightarrow> internalError | Inr days \<Rightarrow> Done days))"

lemma days_between:
  assumes "a \<le> b" "b - a \<le> 366 * Day" "- 14 * 3600 \<le> srv" "srv \<le> 14 * 3600" "zf \<in> {0, srv}" "zt \<in> {0, srv}"
  shows "local_days 0 (wall zt b) - local_days 0 (wall zf a) \<le> 367"
proof -
  have d: "Day = 86400 * Second" "Second = 1000000000" by (simp_all add: duration_defs)
  have "wall zt b - wall zf a \<le> 366 * Day + 14 * 3600 * Second"
    using assms unfolding wall_def d by (auto simp: algebra_simps)
  then have "(wall zt b) div Day \<le> (wall zf a + 366 * Day + 14 * 3600 * Second) div Day"
    by (intro zdiv_mono1) (simp_all add: d)
  also have "\<dots> \<le> (wall zf a + 367 * Day) div Day" by (intro zdiv_mono1) (simp_all add: d)
  also have "\<dots> = wall zf a div Day + 367" by (simp add: d)
  finally show ?thesis by (simp add: local_days_def)
qed

text \<open>
  The daily numbers are bounded: whatever period is asked for, an answer has one line for
  each day of a run of days, in order and without a gap, and never more than 368 of them.
\<close>

theorem daily_stats_bounded:
  assumes "handleDailyStats parse z srv now fail u qfrom qto d = Done days" "- 14 * 3600 \<le> srv" "srv \<le> 14 * 3600"
  shows "length days \<le> 368 \<and> (\<exists>a b. map dy_Day days = map day_text [a .. b])"
proof -
  obtain fr zf where f: "(if qfrom = [] then Some (AddDays (- 29) now, srv) else map_option (\<lambda>t. (t, UTC)) (parse qfrom)) = Some (fr, zf)"
    using assms(1) by (cases "if qfrom = [] then Some (AddDays (- 29) now, srv) else map_option (\<lambda>t. (t, UTC)) (parse qfrom)")
      (auto simp: handleDailyStats_def badRequest_def)
  obtain en zt where t: "(if qto = [] then Some (now, srv) else map_option (\<lambda>t. (t, UTC)) (parse qto)) = Some (en, zt)"
    using assms(1) f by (cases "if qto = [] then Some (now, srv) else map_option (\<lambda>t. (t, UTC)) (parse qto)")
      (auto simp: handleDailyStats_def badRequest_def)
  have r: "fr \<le> en" "Sub en fr \<le> 366 * 24 * Hour" "DailyStats z UTC fail (u_StoreID u) (wall zf fr) (wall zt en) d = Inr days"
    using assms(1) unfolding handleDailyStats_def f t
    by (auto simp: badRequest_def internalError_def split: if_splits sum.splits)
  have zones: "zf \<in> {0, srv}" "zt \<in> {0, srv}" using f t by (auto simp: UTC_def split: if_splits)
  have "en - fr \<le> 366 * Day" using r(2) by (simp add: Sub_def int_min_def int_max_def duration_defs split: if_splits)
  from days_between [OF r(1) this assms(2,3) zones]
  have n: "local_days 0 (wall zt en) - local_days 0 (wall zf fr) \<le> 367" .
  have "days = map (\<lambda>day. let rs = filter (\<lambda>r. local_days z (c_created r) = day) (claims_of (u_StoreID u) d)
         in \<lparr>dy_Day = day_text day, dy_ClaimCount = int (length rs),
             dy_PaidCount = count_of (\<lambda>r. c_status r = StatusPaid) rs, dy_PaidTotalKRW = paid_sum rs\<rparr>)
       [local_days UTC (wall zf fr) .. local_days UTC (wall zt en)]"
    using r(3) by (simp add: DailyStats_def split: if_splits)
  then have "map dy_Day days = map day_text [local_days UTC (wall zf fr) .. local_days UTC (wall zt en)]"
    by (simp add: comp_def Let_def)
  moreover from arg_cong [OF this, of length] n have "length days \<le> 368" by (simp add: UTC_def)
  ultimately show ?thesis by blast
qed

lemma daily_stats_bounded_witness:
  "\<exists>days. handleDailyStats (\<lambda>_. None) KST KST 0 False (user_of (new_user ''u1'' 0 ''s1'' [] [] [] [])) [] [] empty_db = Done days
     \<and> length days \<le> 368"
proof -
  have "\<exists>days. handleDailyStats (\<lambda>_. None) KST KST 0 False (user_of (new_user ''u1'' 0 ''s1'' [] [] [] [])) [] [] empty_db = Done days"
    by (simp add: handleDailyStats_def AddDays_def Sub_def int_min_def int_max_def duration_defs DailyStats_def)
  then obtain days where days: "handleDailyStats (\<lambda>_. None) KST KST 0 False (user_of (new_user ''u1'' 0 ''s1'' [] [] [] [])) [] [] empty_db
    = Done days" by blast
  then show ?thesis using daily_stats_bounded [OF days] by (simp add: KST_def)
qed

end
