(* ===== verification/Config.thy ===== *)
theory Config
  imports Go_Base64 Domain_Risk
begin

text \<open>
  \<^verbatim>\<open>internal/config\<close>: the settings a process starts with, from the environment and the file
  \<^verbatim>\<open>.env\<close>. The JSON decoder of the standard library is a parameter.
\<close>

section \<open>The file\<close>

text \<open>\<open>bufio.Scanner\<close> with lines: a carriage return before the end is dropped; a line of 64 KiB ends the scan.\<close>

fun split_lines :: "string \<Rightarrow> string list" where
  "split_lines [] = []"
| "split_lines (c # s) =
    (if c = CHR 0x0A then [] # split_lines s
     else (case split_lines s of [] \<Rightarrow> [[c]] | l # ls \<Rightarrow> (c # l) # ls))"

definition scan_lines :: "string \<Rightarrow> string list" where
  "scan_lines s = map (\<lambda>l. TrimSuffix l [CHR 0x0D]) (takeWhile (\<lambda>l. length l < 65536) (split_lines s))"

definition trim_right_blanks :: "string \<Rightarrow> string" where
  "trim_right_blanks s = rev (dropWhile (\<lambda>c. c = CHR '' '' \<or> c = CHR 0x09) (rev s))"

definition unquote :: "string \<Rightarrow> string" where
  "unquote v =
    (if 2 \<le> length v \<and> (hd v = CHR 0x22 \<and> last v = CHR 0x22 \<or> hd v = CHR 0x27 \<and> last v = CHR 0x27)
     then butlast (tl v)
     else trim_right_blanks (case Index v '' #'' of None \<Rightarrow> v | Some i \<Rightarrow> take i v))"

definition bom :: string where "bom = [CHR 0xEF, CHR 0xBB, CHR 0xBF]"

definition dotenv_line :: "string \<Rightarrow> (string \<times> string) option" where
  "dotenv_line line0 =
    (let line1 = TrimSpace line0
     in if line1 = [] \<or> HasPrefix line1 ''#'' then None
        else (case Cut (TrimPrefix line1 ''export '') CHR ''='' of None \<Rightarrow> None
          | Some (k, v) \<Rightarrow> (let key = TrimSpace k in if key = [] then None else Some (key, unquote (TrimSpace v)))))"

text \<open>The file's contents, or \<open>None\<close> when it cannot be opened.\<close>

definition loadDotEnv :: "string option \<Rightarrow> (string \<rightharpoonup> string) \<times> bool" where
  "loadDotEnv file =
    (case file of None \<Rightarrow> (Map.empty, False)
     | Some s \<Rightarrow>
        (let ls = map (\<lambda>l. TrimSuffix l [CHR 0x0D]) (scan_lines s);
             ls' = (case ls of [] \<Rightarrow> [] | l # r \<Rightarrow> TrimPrefix l bom # r)
         in (fold (\<lambda>kv m. m(fst kv \<mapsto> snd kv)) (List.map_filter dotenv_line ls') Map.empty, True)))"

definition envWithDotEnv :: "(string \<Rightarrow> string) \<Rightarrow> (string \<rightharpoonup> string) \<Rightarrow> string \<Rightarrow> string" where
  "envWithDotEnv env file k = (if env k \<noteq> [] then env k else case file k of None \<Rightarrow> [] | Some v \<Rightarrow> v)"

section \<open>Reading one setting\<close>

datatype problem = Missing string | NotBase64 string | KeyLength string nat | NotBool string string
  | NotInt string string | NotJson string

definition keyLen :: nat where "keyLen = 32"

text \<open>\<open>base64.StdEncoding\<close>: the plus and slash alphabet, with padding.\<close>

definition std_val :: "char \<Rightarrow> nat option" where
  "std_val c = (if c = CHR ''+'' then Some 62 else if c = CHR ''/'' then Some 63
     else if c = CHR ''-'' \<or> c = CHR ''_'' then None else b64_val c)"

fun std_vals :: "string \<Rightarrow> nat list option" where
  "std_vals [] = Some []"
| "std_vals (c # cs) = (case std_val c of None \<Rightarrow> None | Some v \<Rightarrow> map_option (Cons v) (std_vals cs))"

definition StdDecode :: "string \<Rightarrow> string option" where
  "StdDecode s0 =
    (let s = filter (\<lambda>c. byte c \<notin> {10, 13}) s0;
         body = (if HasSuffix s ''=='' then take (length s - 2) s else if HasSuffix s ''='' then butlast s else s)
     in if length s mod 4 \<noteq> 0 then None
        else case std_vals body of None \<Rightarrow> None | Some vs \<Rightarrow> map_option (map char_of) (octets vs))"

text \<open>A reader gives the value, which falls back, and what is wrong with the text it found.\<close>

definition str :: "string \<Rightarrow> string \<Rightarrow> string" where
  "str dflt s = (if s \<noteq> [] then s else dflt)"

definition required :: "string \<Rightarrow> string \<Rightarrow> string \<times> problem option" where
  "required name s = (s, if s = [] then Some (Missing name) else None)"

definition key :: "string \<Rightarrow> string \<Rightarrow> string \<times> problem option" where
  "key name raw =
    (if raw = [] then ([], Some (Missing name))
     else case StdDecode raw of None \<Rightarrow> ([], Some (NotBase64 name))
     | Some b \<Rightarrow> if length b \<noteq> keyLen then ([], Some (KeyLength name (length b))) else (b, None))"

definition boolVal :: "(nat \<Rightarrow> nat) \<Rightarrow> string \<Rightarrow> bool \<Rightarrow> string \<Rightarrow> bool \<times> problem option" where
  "boolVal lc name dflt s =
    (let raw = ToLower lc (TrimSpace s)
     in if raw = [] then (dflt, None)
        else if raw \<in> {''1'', ''true'', ''yes'', ''on''} then (True, None)
        else if raw \<in> {''0'', ''false'', ''no'', ''off''} then (False, None)
        else (dflt, Some (NotBool name raw)))"

definition intVal :: "string \<Rightarrow> int \<Rightarrow> string \<Rightarrow> int \<times> problem option" where
  "intVal name dflt raw =
    (if raw = [] then (dflt, None)
     else case Atoi raw of None \<Rightarrow> (dflt, Some (NotInt name raw)) | Some n \<Rightarrow> (n, None))"

definition jsonMap :: "(string \<Rightarrow> (string \<rightharpoonup> string) option) \<Rightarrow> string \<Rightarrow> string \<Rightarrow> (string \<rightharpoonup> string) \<times> problem option" where
  "jsonMap json name raw =
    (if raw = [] then (Map.empty, None)
     else case json raw of None \<Rightarrow> (Map.empty, Some (NotJson name)) | Some m \<Rightarrow> (m, None))"

section \<open>All settings\<close>

record ConfigPolicy =
  pc_ReviewThresholdKRW :: int
  pc_RepeatWatchCount :: int
  pc_RepeatHoldCount :: int
  pc_AccountSharingPhones :: int
  pc_PayoutCeilingKRW :: int
  pc_MaxAmountKRW :: int
  pc_MachineAlertCount :: int
  pc_PhotoRetentionDays :: int

record Config =
  g_Addr :: string
  g_DatabaseURL :: string
  g_RedisURL :: string
  g_DataEncryptionKey :: string
  g_HashPepper :: string
  g_SessionSecret :: string
  g_SlackWebhookURL :: string
  g_VapidPublicKey :: string
  g_VapidPrivateKey :: string
  g_VapidSubject :: string
  g_MediaDir :: string
  g_PublicBaseURL :: string
  g_PayoutDeeplinkTemplates :: "string \<rightharpoonup> string"
  g_SignupOpen :: bool
  g_Policy :: ConfigPolicy

text \<open>The standard library's part: lower case, and JSON.\<close>

record std =
  sl_lower :: "nat \<Rightarrow> nat"
  sl_json :: "string \<Rightarrow> (string \<rightharpoonup> string) option"

text \<open>The settings that can be wrong, in the order they are read, with what is wrong with a text.\<close>

definition checks :: "std \<Rightarrow> (string \<times> (string \<Rightarrow> problem option)) list" where
  "checks l =
    [(''DATABASE_URL'', \<lambda>s. snd (required ''DATABASE_URL'' s)),
     (''DATA_ENCRYPTION_KEY'', \<lambda>s. snd (key ''DATA_ENCRYPTION_KEY'' s)),
     (''HASH_PEPPER'', \<lambda>s. snd (key ''HASH_PEPPER'' s)),
     (''SESSION_SECRET'', \<lambda>s. snd (key ''SESSION_SECRET'' s)),
     (''PAYOUT_DEEPLINK_TEMPLATES'', \<lambda>s. snd (jsonMap (sl_json l) ''PAYOUT_DEEPLINK_TEMPLATES'' s)),
     (''SIGNUP_OPEN'', \<lambda>s. snd (boolVal (sl_lower l) ''SIGNUP_OPEN'' True s)),
     (''POLICY_REVIEW_THRESHOLD_KRW'', \<lambda>s. snd (intVal ''POLICY_REVIEW_THRESHOLD_KRW'' 10000 s)),
     (''POLICY_REPEAT_WATCH_COUNT'', \<lambda>s. snd (intVal ''POLICY_REPEAT_WATCH_COUNT'' 3 s)),
     (''POLICY_REPEAT_HOLD_COUNT'', \<lambda>s. snd (intVal ''POLICY_REPEAT_HOLD_COUNT'' 5 s)),
     (''POLICY_ACCOUNT_SHARING_PHONES'', \<lambda>s. snd (intVal ''POLICY_ACCOUNT_SHARING_PHONES'' 3 s)),
     (''POLICY_PAYOUT_CEILING_KRW'', \<lambda>s. snd (intVal ''POLICY_PAYOUT_CEILING_KRW'' 50000 s)),
     (''POLICY_MAX_AMOUNT_KRW'', \<lambda>s. snd (intVal ''POLICY_MAX_AMOUNT_KRW'' 1000000 s)),
     (''POLICY_MACHINE_ALERT_COUNT'', \<lambda>s. snd (intVal ''POLICY_MACHINE_ALERT_COUNT'' 3 s)),
     (''PHOTO_RETENTION_DAYS'', \<lambda>s. snd (intVal ''PHOTO_RETENTION_DAYS'' 90 s))]"

definition problems :: "std \<Rightarrow> (string \<Rightarrow> string) \<Rightarrow> problem list" where
  "problems l get = List.map_filter (\<lambda>c. snd c (get (fst c))) (checks l)"

definition config_of :: "std \<Rightarrow> (string \<Rightarrow> string) \<Rightarrow> Config" where
  "config_of l get =
    \<lparr>g_Addr = str '':8080'' (get ''ADDR''), g_DatabaseURL = fst (required ''DATABASE_URL'' (get ''DATABASE_URL'')),
     g_RedisURL = str [] (get ''REDIS_URL''),
     g_DataEncryptionKey = fst (key ''DATA_ENCRYPTION_KEY'' (get ''DATA_ENCRYPTION_KEY'')),
     g_HashPepper = fst (key ''HASH_PEPPER'' (get ''HASH_PEPPER'')),
     g_SessionSecret = fst (key ''SESSION_SECRET'' (get ''SESSION_SECRET'')),
     g_SlackWebhookURL = str [] (get ''SLACK_WEBHOOK_URL''), g_VapidPublicKey = str [] (get ''VAPID_PUBLIC_KEY''),
     g_VapidPrivateKey = str [] (get ''VAPID_PRIVATE_KEY''), g_VapidSubject = str [] (get ''VAPID_SUBJECT''),
     g_MediaDir = str ''./data/photos'' (get ''MEDIA_DIR''),
     g_PublicBaseURL = str ''http://localhost:3000'' (get ''PUBLIC_BASE_URL''),
     g_PayoutDeeplinkTemplates = fst (jsonMap (sl_json l) ''PAYOUT_DEEPLINK_TEMPLATES'' (get ''PAYOUT_DEEPLINK_TEMPLATES'')),
     g_SignupOpen = fst (boolVal (sl_lower l) ''SIGNUP_OPEN'' True (get ''SIGNUP_OPEN'')),
     g_Policy = \<lparr>
       pc_ReviewThresholdKRW = fst (intVal ''POLICY_REVIEW_THRESHOLD_KRW'' 10000 (get ''POLICY_REVIEW_THRESHOLD_KRW'')),
       pc_RepeatWatchCount = fst (intVal ''POLICY_REPEAT_WATCH_COUNT'' 3 (get ''POLICY_REPEAT_WATCH_COUNT'')),
       pc_RepeatHoldCount = fst (intVal ''POLICY_REPEAT_HOLD_COUNT'' 5 (get ''POLICY_REPEAT_HOLD_COUNT'')),
       pc_AccountSharingPhones = fst (intVal ''POLICY_ACCOUNT_SHARING_PHONES'' 3 (get ''POLICY_ACCOUNT_SHARING_PHONES'')),
       pc_PayoutCeilingKRW = fst (intVal ''POLICY_PAYOUT_CEILING_KRW'' 50000 (get ''POLICY_PAYOUT_CEILING_KRW'')),
       pc_MaxAmountKRW = fst (intVal ''POLICY_MAX_AMOUNT_KRW'' 1000000 (get ''POLICY_MAX_AMOUNT_KRW'')),
       pc_MachineAlertCount = fst (intVal ''POLICY_MACHINE_ALERT_COUNT'' 3 (get ''POLICY_MACHINE_ALERT_COUNT'')),
       pc_PhotoRetentionDays = fst (intVal ''PHOTO_RETENTION_DAYS'' 90 (get ''PHOTO_RETENTION_DAYS''))\<rparr>\<rparr>"

definition LoadFrom :: "std \<Rightarrow> (string \<Rightarrow> string) \<Rightarrow> (problem list, Config) result" where
  "LoadFrom l get = (if problems l get \<noteq> [] then Inl (problems l get) else Inr (config_of l get))"

text \<open>\<open>Load\<close>; the error also tells of a missing file, which is the flag here.\<close>

definition Load :: "std \<Rightarrow> (string \<Rightarrow> string) \<Rightarrow> string option \<Rightarrow> (problem list \<times> bool, Config) result" where
  "Load l env file =
    (case loadDotEnv file of (m, found) \<Rightarrow>
      (case LoadFrom l (envWithDotEnv env m) of Inl ps \<Rightarrow> Inl (ps, \<not> found) | Inr c \<Rightarrow> Inr c))"

section \<open>Fixing a configuration\<close>

fun problem_name :: "problem \<Rightarrow> string" where
  "problem_name (Missing n) = n"
| "problem_name (NotBase64 n) = n"
| "problem_name (KeyLength n _) = n"
| "problem_name (NotBool n _) = n"
| "problem_name (NotInt n _) = n"
| "problem_name (NotJson n) = n"

text \<open>Whether the text of a setting is right.\<close>

definition setting_ok :: "std \<Rightarrow> string \<Rightarrow> string \<Rightarrow> bool" where
  "setting_ok l name s \<longleftrightarrow> (case map_of (checks l) name of None \<Rightarrow> True | Some c \<Rightarrow> c s = None)"

lemma check_names: "distinct (map fst (checks l))"
  by (simp add: checks_def)

lemma reader_problem:
  "snd (required n s) = Some p \<Longrightarrow> problem_name p = n"
  "snd (key n s) = Some p \<Longrightarrow> problem_name p = n"
  "snd (boolVal lc n b s) = Some p \<Longrightarrow> problem_name p = n"
  "snd (intVal n i s) = Some p \<Longrightarrow> problem_name p = n"
  "snd (jsonMap j n s) = Some p \<Longrightarrow> problem_name p = n"
  by (auto simp: required_def key_def boolVal_def intVal_def jsonMap_def Let_def split: if_splits option.splits)

lemma check_problem: "list_all (\<lambda>(n, c). \<forall>s p. c s = Some p \<longrightarrow> problem_name p = n) (checks l)"
  unfolding checks_def by (simp add: reader_problem)

lemma set_problems: "set (problems l get) = {p. \<exists>n c. (n, c) \<in> set (checks l) \<and> c (get n) = Some p}"
  by (force simp: problems_def map_filter_def)

lemma setting_ok_check: "(n, c) \<in> set (checks l) \<Longrightarrow> setting_ok l n s \<longleftrightarrow> c s = None"
  using check_names [of l] by (simp add: setting_ok_def)

lemma problem_names:
  "n \<in> problem_name ` set (problems l get) \<longleftrightarrow> n \<in> fst ` set (checks l) \<and> \<not> setting_ok l n (get n)"
proof
  assume "n \<in> problem_name ` set (problems l get)"
  then obtain m c p where "(m, c) \<in> set (checks l)" "c (get m) = Some p" "problem_name p = n"
    by (auto simp: set_problems)
  moreover from this have "m = n" using check_problem [of l] by (fastforce simp: list_all_iff)
  ultimately show "n \<in> fst ` set (checks l) \<and> \<not> setting_ok l n (get n)"
    by (metis fst_conv image_eqI option.distinct(1) setting_ok_check)
next
  assume n: "n \<in> fst ` set (checks l) \<and> \<not> setting_ok l n (get n)"
  then obtain c where c: "(n, c) \<in> set (checks l)" by auto
  then obtain p where p: "c (get n) = Some p" using n setting_ok_check [OF c] by auto
  moreover have "problem_name p = n" using check_problem [of l] c p by (fastforce simp: list_all_iff)
  ultimately show "n \<in> problem_name ` set (problems l get)" using c by (force simp: set_problems image_iff)
qed

lemma LoadFrom_keys:
  assumes "LoadFrom l get = Inr c"
  shows "c = config_of l get" "g_DatabaseURL c \<noteq> []" "length (g_DataEncryptionKey c) = 32"
    "length (g_HashPepper c) = 32" "length (g_SessionSecret c) = 32"
proof -
  have none: "problems l get = []" and c: "c = config_of l get" using assms by (auto simp: LoadFrom_def split: if_splits)
  then have fine: "f (get n) = None" if "(n, f) \<in> set (checks l)" for n f
  proof (cases "f (get n)")
    case (Some p)
    with that have "p \<in> set (problems l get)" unfolding set_problems by blast
    with none show ?thesis by simp
  qed
  have k: "length (fst (key n (get n))) = 32" if "(n, \<lambda>s. snd (key n s)) \<in> set (checks l)" for n
    using fine [OF that] by (auto simp: key_def keyLen_def split: if_splits option.splits)
  show "c = config_of l get" by (rule c)
  have "snd (required ''DATABASE_URL'' (get ''DATABASE_URL'')) = None" by (rule fine) (simp add: checks_def)
  then show "g_DatabaseURL c \<noteq> []" by (simp add: c config_of_def required_def split: if_splits)
  show "length (g_DataEncryptionKey c) = 32" "length (g_HashPepper c) = 32" "length (g_SessionSecret c) = 32"
    using k [of "''DATA_ENCRYPTION_KEY''"] k [of "''HASH_PEPPER''"] k [of "''SESSION_SECRET''"]
    by (simp_all add: c config_of_def checks_def)
qed

text \<open>
  C38. Fix what it lists and it starts. When the settings are refused, the settings named are
  exactly the wrong ones, all of them at once; and any environment that gives those a right
  value and leaves the others as they are is accepted, with every key of 32 bytes.
\<close>

theorem fix_what_it_lists:
  assumes "LoadFrom l get = Inl ps"
    and "\<forall>n. n \<notin> problem_name ` set ps \<longrightarrow> get' n = get n"
    and "\<forall>n \<in> problem_name ` set ps. setting_ok l n (get' n)"
  shows "(\<forall>n. n \<in> problem_name ` set ps \<longleftrightarrow> \<not> setting_ok l n (get n))
    \<and> (\<exists>c. LoadFrom l get' = Inr c \<and> length (g_DataEncryptionKey c) = 32 \<and> length (g_HashPepper c) = 32
        \<and> length (g_SessionSecret c) = 32)"
proof -
  have ps: "ps = problems l get" using assms(1) by (simp add: LoadFrom_def split: if_splits)
  have out: "setting_ok l n s" if "n \<notin> fst ` set (checks l)" for n s
    using that by (simp add: setting_ok_def map_of_eq_None_iff [symmetric])
  have wrong: "n \<in> problem_name ` set ps \<longleftrightarrow> \<not> setting_ok l n (get n)" for n
    unfolding ps problem_names using out by blast
  have fine: "setting_ok l n (get' n)" for n
  proof (cases "n \<in> problem_name ` set ps")
    case True
    then show ?thesis by (rule bspec [OF assms(3)])
  next
    case False
    then show ?thesis using assms(2) wrong by simp
  qed
  have none: "problems l get' = []"
  proof (rule ccontr)
    assume "problems l get' \<noteq> []"
    then obtain p where "p \<in> set (problems l get')" by (cases "problems l get'") auto
    then have "problem_name p \<in> problem_name ` set (problems l get')" by simp
    with fine show False unfolding problem_names by simp
  qed
  have "LoadFrom l get' = Inr (config_of l get')" using none by (simp add: LoadFrom_def)
  with LoadFrom_keys [OF this] wrong show ?thesis by blast
qed


definition demo_std :: std where
  "demo_std = \<lparr>sl_lower = (\<lambda>r. r), sl_json = (\<lambda>_. None)\<rparr>"

definition demo_key :: string where
  "demo_key = replicate 43 CHR ''A'' @ ''=''"

definition demo_environment :: "string \<Rightarrow> string" where
  "demo_environment n = (if n = ''DATABASE_URL'' then ''postgres:''
     else if n \<in> {''DATA_ENCRYPTION_KEY'', ''HASH_PEPPER'', ''SESSION_SECRET''} then demo_key else [])"

lemma octets_zeros: "octets (replicate (4 * k) 0 @ [0, 0, 0]) = Some (replicate (3 * k + 2) 0)"
proof (induction k)
  case (Suc k)
  have n: "4 * Suc k = Suc (Suc (Suc (Suc (4 * k))))" "3 * Suc k + 2 = Suc (Suc (Suc (3 * k + 2)))" by simp_all
  show ?case unfolding n replicate_Suc append_Cons octets.simps Suc by simp
next
  case 0
  have "(2::nat) = Suc (Suc 0)" by simp
  then show ?case by simp
qed

lemma std_vals_A: "std_vals (replicate n CHR ''A'') = Some (replicate n 0)"
  by (induction n) (simp_all add: std_val_def b64_val_def byte_def)

lemma demo_key_decodes: "\<exists>b. StdDecode demo_key = Some b \<and> length b = 32"
proof -
  have f: "filter (\<lambda>c. byte c \<notin> {10, 13}) demo_key = demo_key" by (simp add: demo_key_def byte_def)
  have s: "HasSuffix demo_key ''=''" "\<not> HasSuffix demo_key ''==''"
    by (simp_all add: demo_key_def HasSuffix_def HasPrefix_def numeral_eq_Suc)
  have b: "butlast demo_key = replicate 43 CHR ''A''" "length demo_key = 44" by (simp_all add: demo_key_def butlast_append)
  have "replicate 43 (0::nat) = replicate (4 * 10) 0 @ [0, 0, 0]" by (simp add: numeral_eq_Suc)
  then have o: "octets (replicate 43 0) = Some (replicate 32 0)" using octets_zeros [of 10] by simp
  have "StdDecode demo_key = Some (map char_of (replicate 32 (0::nat)))"
    unfolding StdDecode_def f Let_def using s b by (simp add: std_vals_A o)
  then show ?thesis by simp
qed

lemma setting_ok_required: "setting_ok l ''DATABASE_URL'' s \<longleftrightarrow> s \<noteq> []"
  using setting_ok_check [of "''DATABASE_URL''" "\<lambda>s. snd (required ''DATABASE_URL'' s)" l s]
  by (simp add: checks_def required_def)

lemma setting_ok_key:
  "setting_ok l ''DATA_ENCRYPTION_KEY'' s \<longleftrightarrow> snd (key ''DATA_ENCRYPTION_KEY'' s) = None"
  "setting_ok l ''HASH_PEPPER'' s \<longleftrightarrow> snd (key ''HASH_PEPPER'' s) = None"
  "setting_ok l ''SESSION_SECRET'' s \<longleftrightarrow> snd (key ''SESSION_SECRET'' s) = None"
  subgoal by (rule setting_ok_check [where c = "\<lambda>s. snd (key ''DATA_ENCRYPTION_KEY'' s)"], unfold checks_def list.set, (rule insertI1 | rule insertI2)+)
  subgoal by (rule setting_ok_check [where c = "\<lambda>s. snd (key ''HASH_PEPPER'' s)"], unfold checks_def list.set, (rule insertI1 | rule insertI2)+)
  subgoal by (rule setting_ok_check [where c = "\<lambda>s. snd (key ''SESSION_SECRET'' s)"], unfold checks_def list.set, (rule insertI1 | rule insertI2)+)
  done

lemma fix_what_it_lists_witness:
  "\<exists>ps c. LoadFrom demo_std (\<lambda>_. []) = Inl ps \<and> length ps = 4
     \<and> LoadFrom demo_std demo_environment = Inr c \<and> length (g_SessionSecret c) = 32"
proof -
  have e: "TrimSpace [] = []" "ToLower lc [] = []" for lc by (simp_all add: TrimSpace_ascii ToLower_def runes_def u8_def)
  let ?ps = "[Missing ''DATABASE_URL'', Missing ''DATA_ENCRYPTION_KEY'', Missing ''HASH_PEPPER'', Missing ''SESSION_SECRET'']"
  have ps: "problems demo_std (\<lambda>_. []) = ?ps"
    by (simp add: problems_def checks_def map_filter_simps required_def key_def jsonMap_def boolVal_def intVal_def e)
  then have bad: "LoadFrom demo_std (\<lambda>_. []) = Inl ?ps" by (simp add: LoadFrom_def)
  have k: "demo_key \<noteq> []" by (simp add: demo_key_def)
  have "snd (key n demo_key) = None" for n using demo_key_decodes k by (auto simp: key_def keyLen_def)
  then have ok: "setting_ok demo_std n (demo_environment n)"
    if "n \<in> {''DATABASE_URL'', ''DATA_ENCRYPTION_KEY'', ''HASH_PEPPER'', ''SESSION_SECRET''}" for n
    using that by (auto simp: setting_ok_required setting_ok_key demo_environment_def)
  have rest: "n \<notin> problem_name ` set ?ps \<longrightarrow> demo_environment n = (\<lambda>_. []) n" for n
    by (simp add: demo_environment_def)
  have listed: "\<forall>n \<in> problem_name ` set ?ps. setting_ok demo_std n (demo_environment n)" using ok by simp
  obtain c where "LoadFrom demo_std demo_environment = Inr c" "length (g_SessionSecret c) = 32"
    using fix_what_it_lists [OF bad, of demo_environment] rest listed by blast
  then show ?thesis using bad by auto
qed

end
