(* ===== verification/Store_Migrate.thy ===== *)
theory Store_Migrate
  imports Store_Tables "HOL-Library.List_Lexorder" "HOL-Library.Char_ord"
begin

text \<open>
  \<^verbatim>\<open>internal/store/store.go\<close>: bringing the schema up to date. The schema itself, and what running
  a file of SQL does to it, is a parameter: a file either fails or gives the next schema. What
  other processes commit between two statements is an argument too.
\<close>

section \<open>The run\<close>

record 's schema_db =
  sc_versions :: "string list"
  sc_schema :: 's

record entry_info =
  fi_name :: string
  fi_dir :: bool
  fi_body :: string

definition migration_names :: "entry_info list \<Rightarrow> string list" where
  "migration_names es = sort (map fi_name (filter (\<lambda>e. \<not> fi_dir e \<and> HasSuffix (fi_name e) ''.sql'') es))"

definition migration_body :: "entry_info list \<Rightarrow> string \<Rightarrow> string option" where
  "migration_body es n = map_option fi_body (find (\<lambda>e. fi_name e = n \<and> \<not> fi_dir e) es)"

datatype migrate_error =
    TableFailure | ReadDirFailure | CheckFailure string | ReadFailure string | BeginFailure
  | RunFailure string | RecordFailure string | CommitFailure

text \<open>
  What can go wrong at each statement, and what the others do before it: \<open>mi_first\<close> before the
  look at the table of versions, \<open>mi_second\<close> between that look and the transaction.
\<close>

record 's migrate_env =
  mi_exec :: "string \<Rightarrow> 's \<Rightarrow> 's option"
  mi_fail_table :: bool
  mi_fail_dir :: bool
  mi_fail_check :: "string \<Rightarrow> bool"
  mi_fail_begin :: "string \<Rightarrow> bool"
  mi_fail_record :: "string \<Rightarrow> bool"
  mi_fail_commit :: "string \<Rightarrow> bool"
  mi_first :: "string \<Rightarrow> 's schema_db \<Rightarrow> 's schema_db"
  mi_second :: "string \<Rightarrow> 's schema_db \<Rightarrow> 's schema_db"

text \<open>
  One migration and its record, in one transaction. The version is the primary key: recording
  one that is there already fails, and the transaction is rolled back.
\<close>

definition apply_migration ::
  "'s migrate_env \<Rightarrow> string \<Rightarrow> string \<Rightarrow> 's schema_db \<Rightarrow> (migrate_error, unit) result \<times> 's schema_db" where
  "apply_migration e n body d =
    (if mi_fail_begin e n then (Inl BeginFailure, d)
     else case mi_exec e body (sc_schema d) of None \<Rightarrow> (Inl (RunFailure n), d)
       | Some s \<Rightarrow>
          if mi_fail_record e n \<or> n \<in> set (sc_versions d) then (Inl (RecordFailure n), d)
          else if mi_fail_commit e n then (Inl CommitFailure, d)
          else (Inr (), \<lparr>sc_versions = sc_versions d @ [n], sc_schema = s\<rparr>))"

fun migrate_all ::
  "'s migrate_env \<Rightarrow> (string \<Rightarrow> string option) \<Rightarrow> string list \<Rightarrow> 's schema_db
    \<Rightarrow> (migrate_error, unit) result \<times> 's schema_db" where
  "migrate_all e bodies [] d = (Inr (), d)"
| "migrate_all e bodies (n # ns) d0 =
    (let d = mi_first e n d0
     in if mi_fail_check e n then (Inl (CheckFailure n), d)
        else if n \<in> set (sc_versions d) then migrate_all e bodies ns d
        else case bodies n of None \<Rightarrow> (Inl (ReadFailure n), d)
          | Some body \<Rightarrow>
             (case apply_migration e n body (mi_second e n d) of
                (Inl err, d') \<Rightarrow> (Inl err, d')
              | (Inr _, d') \<Rightarrow> migrate_all e bodies ns d'))"

definition Migrate ::
  "'s migrate_env \<Rightarrow> entry_info list \<Rightarrow> 's schema_db \<Rightarrow> (migrate_error, unit) result \<times> 's schema_db" where
  "Migrate e es d =
    (if mi_fail_table e then (Inl TableFailure, d)
     else if mi_fail_dir e then (Inl ReadDirFailure, d)
     else migrate_all e (migration_body es) (migration_names es) d)"

section \<open>In order, once each, and never half\<close>

text \<open>The schema after some files have been run on an empty one.\<close>

fun schema_after :: "(string \<Rightarrow> 's \<Rightarrow> 's option) \<Rightarrow> (string \<Rightarrow> string option) \<Rightarrow> string list \<Rightarrow> 's \<Rightarrow> 's option" where
  "schema_after exec bodies [] s = Some s"
| "schema_after exec bodies (n # ns) s =
    Option.bind (bodies n) (\<lambda>b. Option.bind (exec b s) (schema_after exec bodies ns))"

text \<open>The database stands at the \<open>k\<close>-th migration.\<close>

definition stands_at ::
  "(string \<Rightarrow> 's \<Rightarrow> 's option) \<Rightarrow> entry_info list \<Rightarrow> 's \<Rightarrow> nat \<Rightarrow> 's schema_db \<Rightarrow> bool" where
  "stands_at exec es s0 k d \<longleftrightarrow> k \<le> length (migration_names es)
     \<and> sc_versions d = take k (migration_names es)
     \<and> schema_after exec (migration_body es) (take k (migration_names es)) s0 = Some (sc_schema d)"

text \<open>A step forward: what every process that migrates the same files can do to the database.\<close>

definition forward ::
  "(string \<Rightarrow> 's \<Rightarrow> 's option) \<Rightarrow> entry_info list \<Rightarrow> 's \<Rightarrow> ('s schema_db \<Rightarrow> 's schema_db) \<Rightarrow> bool" where
  "forward exec es s0 f \<longleftrightarrow>
     (\<forall>k d. stands_at exec es s0 k d \<longrightarrow> (\<exists>j \<ge> k. stands_at exec es s0 j (f d)))"

lemma forward_step: "forward exec es s0 f \<Longrightarrow> stands_at exec es s0 k d \<Longrightarrow> \<exists>j \<ge> k. stands_at exec es s0 j (f d)"
  by (simp add: forward_def)

lemma schema_after_append:
  "schema_after exec bodies (ns @ ms) s = Option.bind (schema_after exec bodies ns s) (schema_after exec bodies ms)"
  by (induction ns arbitrary: s) (auto split: Option.bind_split)

lemma in_take_nth: "distinct ns \<Longrightarrow> i < length ns \<Longrightarrow> ns ! i \<in> set (take k ns) \<longleftrightarrow> i < k"
  by (auto simp: in_set_conv_nth nth_eq_iff_index_eq)

lemma applied_once:
  assumes at: "stands_at (mi_exec e) es s0 k d" and i: "i \<le> k" "i < length (migration_names es)"
    and names: "distinct (migration_names es)" and body: "migration_body es (migration_names es ! i) = Some body"
    and run: "apply_migration e (migration_names es ! i) body d = (r, d')"
  shows "if r = Inr () then k = i \<and> stands_at (mi_exec e) es s0 (Suc i) d' else d' = d"
proof (cases "r = Inr ()")
  case True
  with run obtain s where s: "mi_exec e body (sc_schema d) = Some s"
    and new: "migration_names es ! i \<notin> set (sc_versions d)"
    and d': "d' = \<lparr>sc_versions = sc_versions d @ [migration_names es ! i], sc_schema = s\<rparr>"
    by (auto simp: apply_migration_def split: if_splits option.splits)
  have "k = i" using new at i in_take_nth [OF names i(2), of k] by (simp add: stands_at_def)
  moreover from this have "stands_at (mi_exec e) es s0 (Suc i) d'"
    using at i s body d' by (simp add: stands_at_def take_Suc_conv_app_nth schema_after_append)
  ultimately show ?thesis using True by simp
next
  case False
  with run show ?thesis by (auto simp: apply_migration_def split: if_splits option.splits)
qed

lemma migrate_all_forward:
  assumes names: "distinct (migration_names es)" "\<forall>n \<in> set (migration_names es). migration_body es n \<noteq> None"
    and others: "\<And>n. forward (mi_exec e) es s0 (mi_first e n)" "\<And>n. forward (mi_exec e) es s0 (mi_second e n)"
    and at: "stands_at (mi_exec e) es s0 k d" and i: "i \<le> k"
    and run: "migrate_all e (migration_body es) (drop i (migration_names es)) d = (r, d')"
  shows "\<exists>j \<ge> k. stands_at (mi_exec e) es s0 j d' \<and> (r = Inr () \<longrightarrow> j = length (migration_names es))"
  using at i run
proof (induction "drop i (migration_names es)" arbitrary: i k d)
  case Nil
  then have "length (migration_names es) \<le> i" "d' = d" "r = Inr ()" by simp_all
  with Nil.prems show ?case by (intro exI [of _ k]) (auto simp: stands_at_def)
next
  case (Cons n ns)
  let ?N = "migration_names es"
  have il: "i < length ?N" and n: "n = ?N ! i" and ns: "ns = drop (Suc i) ?N"
    using Cons.hyps(2) by (metis drop_eq_Nil list.distinct(1) not_le, metis Cons_nth_drop_Suc drop_eq_Nil list.inject
        list.distinct(1) not_le, metis Cons_nth_drop_Suc drop_eq_Nil list.inject list.distinct(1) not_le)
  obtain j where j: "k \<le> j" "stands_at (mi_exec e) es s0 j (mi_first e n d)"
    using forward_step [OF others(1) Cons.prems(1)] by blast
  obtain body where body: "migration_body es (?N ! i) = Some body" using names(2) il nth_mem by blast
  have run: "migrate_all e (migration_body es) (n # ns) d = (r, d')"
    using Cons.prems(3) Cons.hyps(2) by simp
  show ?case
  proof (cases "mi_fail_check e n")
    case True
    with run j show ?thesis by (auto simp: Let_def)
  next
    case False
    show ?thesis
    proof (cases "n \<in> set (sc_versions (mi_first e n d))")
      case True
      then have "Suc i \<le> j" using j(2) in_take_nth [OF names(1) il, of j] by (simp add: stands_at_def n)
      moreover have "migrate_all e (migration_body es) (drop (Suc i) ?N) (mi_first e n d) = (r, d')"
        using run False True by (simp add: Let_def ns)
      ultimately obtain m where "j \<le> m" "stands_at (mi_exec e) es s0 m d' \<and> (r = Inr () \<longrightarrow> m = length ?N)"
        using Cons.hyps(1) [OF ns j(2)] by blast
      with j(1) show ?thesis by (intro exI [of _ m]) auto
    next
      case absent: False
      obtain m where m: "j \<le> m" "stands_at (mi_exec e) es s0 m (mi_second e n (mi_first e n d))"
        using forward_step [OF others(2) j(2)] by blast
      obtain q d2 where q: "apply_migration e n body (mi_second e n (mi_first e n d)) = (q, d2)" by fastforce
      have "i \<le> m" using Cons.prems(2) j(1) m(1) by simp
      from applied_once [OF m(2) this il names(1) body] q
      have once: "if q = Inr () then m = i \<and> stands_at (mi_exec e) es s0 (Suc i) d2
        else d2 = mi_second e n (mi_first e n d)" by (simp add: n)
      show ?thesis
      proof (cases q)
        case (Inl err)
        with once have "d2 = mi_second e n (mi_first e n d)" by simp
        moreover have "r = Inl err" "d' = d2" using run False absent body n q Inl by (simp_all add: Let_def)
        ultimately show ?thesis using m j(1) by (intro exI [of _ m]) simp
      next
        case (Inr u)
        then have st: "m = i" "stands_at (mi_exec e) es s0 (Suc i) d2" using once by simp_all
        have "migrate_all e (migration_body es) ns d2 = (r, d')"
          using run False absent body n q Inr by (simp add: Let_def)
        from Cons.hyps(1) [OF ns st(2) _ this [unfolded ns]] obtain p
          where "p \<ge> Suc i" "stands_at (mi_exec e) es s0 p d'" "r = Inr () \<longrightarrow> p = length ?N" by auto
        moreover have "k \<le> i" using j(1) m(1) st(1) by simp
        ultimately show ?thesis by (intro exI [of _ p]) auto
      qed
    qed
  qed
qed

lemma names_of_dir:
  assumes "distinct (map fi_name es)"
  shows "distinct (migration_names es)" and "\<forall>n \<in> set (migration_names es). migration_body es n \<noteq> None"
proof -
  have "distinct (map fi_name (filter (\<lambda>e. \<not> fi_dir e \<and> HasSuffix (fi_name e) ''.sql'') es))"
    using assms by (rule distinct_map_filter)
  then show "distinct (migration_names es)" by (simp add: migration_names_def)
  show "\<forall>n \<in> set (migration_names es). migration_body es n \<noteq> None"
    by (auto simp: migration_names_def migration_body_def find_None_iff)
qed

lemma Migrate_forward:
  assumes names: "distinct (map fi_name es)"
    and others: "\<And>n. forward (mi_exec e) es s0 (mi_first e n) \<and> forward (mi_exec e) es s0 (mi_second e n)"
    and at: "stands_at (mi_exec e) es s0 k d"
  shows "\<exists>j \<ge> k. stands_at (mi_exec e) es s0 j (snd (Migrate e es d))
    \<and> (fst (Migrate e es d) = Inr () \<longrightarrow> j = length (migration_names es))"
proof (cases "mi_fail_table e \<or> mi_fail_dir e")
  case True
  with at show ?thesis by (auto simp: Migrate_def intro!: exI [of _ k])
next
  case False
  then have "migrate_all e (migration_body es) (drop 0 (migration_names es)) d = (fst (Migrate e es d), snd (Migrate e es d))"
    by (simp add: Migrate_def)
  with migrate_all_forward [OF names_of_dir [OF names] _ _ at _ this] others show ?thesis by blast
qed

text \<open>A run that nothing fails and nobody disturbs.\<close>

definition undisturbed :: "'s migrate_env \<Rightarrow> bool" where
  "undisturbed e \<longleftrightarrow> \<not> mi_fail_table e \<and> \<not> mi_fail_dir e
     \<and> (\<forall>n. \<not> mi_fail_check e n \<and> \<not> mi_fail_begin e n \<and> \<not> mi_fail_record e n \<and> \<not> mi_fail_commit e n
          \<and> mi_first e n = id \<and> mi_second e n = id)"

lemma migrate_all_finishes:
  assumes names: "distinct (migration_names es)" "\<forall>n \<in> set (migration_names es). migration_body es n \<noteq> None"
    and calm: "undisturbed e" and good: "schema_after (mi_exec e) (migration_body es) (migration_names es) s0 \<noteq> None"
    and at: "stands_at (mi_exec e) es s0 k d" "i \<le> k"
  shows "fst (migrate_all e (migration_body es) (drop i (migration_names es)) d) = Inr ()"
  using at
proof (induction "drop i (migration_names es)" arbitrary: i k d)
  case (Cons n ns)
  let ?N = "migration_names es"
  have il: "i < length ?N" using Cons.hyps(2) by (metis drop_eq_Nil list.distinct(1) not_le)
  then have n: "n = ?N ! i" and ns: "ns = drop (Suc i) ?N"
    using Cons.hyps(2) by (simp_all add: Cons_nth_drop_Suc [symmetric])
  have quiet: "mi_first e n = id" "mi_second e n = id" "\<not> mi_fail_check e n" using calm by (simp_all add: undisturbed_def)
  obtain body where body: "migration_body es n = Some body" using names(2) il nth_mem n by blast
  have seen: "n \<in> set (sc_versions d) \<longleftrightarrow> i < k"
    using Cons.prems(1) in_take_nth [OF names(1) il] by (simp add: stands_at_def n)
  show ?case
  proof (cases "i < k")
    case True
    with Cons.hyps(1) [OF ns Cons.prems(1)] have "fst (migrate_all e (migration_body es) ns d) = Inr ()"
      by (simp add: ns)
    with True seen quiet show ?thesis by (simp flip: Cons.hyps(2))
  next
    case False
    then have k: "k = i" using Cons.prems(2) by simp
    have "?N = take i ?N @ n # ns" using il n ns id_take_nth_drop by blast
    then have "schema_after (mi_exec e) (migration_body es) (take i ?N @ n # ns) s0 \<noteq> None" using good by simp
    then obtain s where s: "mi_exec e body (sc_schema d) = Some s"
      using Cons.prems(1) by (auto simp: schema_after_append stands_at_def k body split: Option.bind_splits)
    have new: "n \<notin> set (sc_versions d)" using seen False by simp
    define d2 where "d2 = \<lparr>sc_versions = sc_versions d @ [n], sc_schema = s\<rparr>"
    have run: "apply_migration e n body d = (Inr (), d2)"
      using calm new s by (simp add: apply_migration_def undisturbed_def d2_def)
    have "stands_at (mi_exec e) es s0 (Suc i) d2"
      using applied_once [OF Cons.prems(1) _ il names(1)] run body k by (simp add: n)
    from Cons.hyps(1) [OF ns this] have "fst (migrate_all e (migration_body es) ns d2) = Inr ()"
      by (simp add: ns)
    with seen False quiet body run show ?thesis by (simp flip: Cons.hyps(2))
  qed
qed simp

text \<open>
  C17. Migrations run in order, once each, and never half. Start from a database that stands at
  some migration, and let other processes migrate it at the same time. However the run ends,
  the database has moved forward to some migration: the versions recorded are an initial part of
  the file names in order, and the schema is what those files give, each run once. A run that reports
  success has run all of them. The run itself only moves forward, so any number of processes
  may do this at once; and the next run that nothing disturbs finishes what is missing.
\<close>

theorem migrations_once_in_order:
  assumes "distinct (map fi_name es)"
    and "\<And>n. forward (mi_exec e) es s0 (mi_first e n) \<and> forward (mi_exec e) es s0 (mi_second e n)"
    and "stands_at (mi_exec e) es s0 k d" and "Migrate e es d = (r, d')"
  shows "(\<exists>j \<ge> k. stands_at (mi_exec e) es s0 j d' \<and> (r = Inr () \<longrightarrow> sc_versions d' = migration_names es))
    \<and> forward (mi_exec e) es s0 (\<lambda>d. snd (Migrate e es d))
    \<and> (undisturbed e2 \<and> mi_exec e2 = mi_exec e
          \<and> schema_after (mi_exec e) (migration_body es) (migration_names es) s0 = Some s \<longrightarrow>
        Migrate e2 es d' = (Inr (), \<lparr>sc_versions = migration_names es, sc_schema = s\<rparr>))"
proof (intro conjI impI)
  obtain j where j: "k \<le> j" "stands_at (mi_exec e) es s0 j d'" "r = Inr () \<longrightarrow> j = length (migration_names es)"
    using Migrate_forward [OF assms(1-3)] assms(4) by auto
  then show "\<exists>j \<ge> k. stands_at (mi_exec e) es s0 j d' \<and> (r = Inr () \<longrightarrow> sc_versions d' = migration_names es)"
    by (intro exI [of _ j]) (auto simp: stands_at_def)
  show "forward (mi_exec e) es s0 (\<lambda>d. snd (Migrate e es d))"
    unfolding forward_def using Migrate_forward [OF assms(1,2)] by blast
  assume next_run: "undisturbed e2 \<and> mi_exec e2 = mi_exec e
    \<and> schema_after (mi_exec e) (migration_body es) (migration_names es) s0 = Some s"
  have at: "stands_at (mi_exec e2) es s0 j d'" using j(2) next_run by simp
  have ok: "fst (Migrate e2 es d') = Inr ()"
    using migrate_all_finishes [OF names_of_dir [OF assms(1)] _ _ at, of 0] next_run
    by (simp add: Migrate_def undisturbed_def)
  have calm: "forward (mi_exec e2) es s0 (mi_first e2 n) \<and> forward (mi_exec e2) es s0 (mi_second e2 n)" for n
    using next_run by (auto simp: undisturbed_def forward_def)
  from Migrate_forward [OF assms(1) calm at] ok
  have "stands_at (mi_exec e2) es s0 (length (migration_names es)) (snd (Migrate e2 es d'))" by blast
  then have "snd (Migrate e2 es d') = \<lparr>sc_versions = migration_names es, sc_schema = s\<rparr>"
    using next_run by (cases "snd (Migrate e2 es d')") (simp add: stands_at_def)
  with ok show "Migrate e2 es d' = (Inr (), \<lparr>sc_versions = migration_names es, sc_schema = s\<rparr>)"
    by (simp add: prod_eq_iff)
qed

section \<open>Examples\<close>

definition demo_dir :: "entry_info list" where
  "demo_dir = [\<lparr>fi_name = ''2.sql'', fi_dir = False, fi_body = ''B''\<rparr>, \<lparr>fi_name = ''notes.txt'', fi_dir = False, fi_body = []\<rparr>,
     \<lparr>fi_name = ''1.sql'', fi_dir = False, fi_body = ''A''\<rparr>]"

text \<open>A schema that is the text of the files run; the same file cannot be run twice.\<close>

definition demo_exec :: "string \<Rightarrow> string \<Rightarrow> string option" where
  "demo_exec body s = (if Contains s body then None else Some (s @ body))"

definition demo_migrate_env :: "(string \<Rightarrow> bool) \<Rightarrow> string migrate_env" where
  "demo_migrate_env fail = \<lparr>mi_exec = demo_exec, mi_fail_table = False, mi_fail_dir = False, mi_fail_check = (\<lambda>_. False),
     mi_fail_begin = (\<lambda>_. False), mi_fail_record = (\<lambda>_. False), mi_fail_commit = fail,
     mi_first = (\<lambda>_. id), mi_second = (\<lambda>_. id)\<rparr>"

lemma demo_names: "migration_names demo_dir = [''1.sql'', ''2.sql'']"
  by code_simp

lemma migrations_once_in_order_witness:
  "Migrate (demo_migrate_env (\<lambda>n. n = ''2.sql'')) demo_dir \<lparr>sc_versions = [], sc_schema = []\<rparr>
      = (Inl CommitFailure, \<lparr>sc_versions = [''1.sql''], sc_schema = ''A''\<rparr>)
   \<and> Migrate (demo_migrate_env (\<lambda>_. False)) demo_dir \<lparr>sc_versions = [''1.sql''], sc_schema = ''A''\<rparr>
      = (Inr (), \<lparr>sc_versions = [''1.sql'', ''2.sql''], sc_schema = ''AB''\<rparr>)"
proof -
  let ?e = "demo_migrate_env (\<lambda>n. n = ''2.sql'')"
  have bodies: "migration_body demo_dir ''1.sql'' = Some ''A''" "migration_body demo_dir ''2.sql'' = Some ''B''"
    by (simp_all add: migration_body_def demo_dir_def)
  have run: "Migrate ?e demo_dir \<lparr>sc_versions = [], sc_schema = []\<rparr>
      = (Inl CommitFailure, \<lparr>sc_versions = [''1.sql''], sc_schema = ''A''\<rparr>)"
    by (simp add: Migrate_def demo_names demo_migrate_env_def apply_migration_def bodies demo_exec_def Contains_def HasPrefix_def)
  have at: "stands_at (mi_exec ?e) demo_dir [] 0 \<lparr>sc_versions = [], sc_schema = []\<rparr>" by (simp add: stands_at_def)
  have same: "forward (mi_exec ?e) demo_dir [] (mi_first ?e n) \<and> forward (mi_exec ?e) demo_dir [] (mi_second ?e n)" for n
    by (auto simp: demo_migrate_env_def forward_def)
  have all: "schema_after (mi_exec ?e) (migration_body demo_dir) (migration_names demo_dir) [] = Some ''AB''"
    by (simp add: demo_names bodies demo_migrate_env_def demo_exec_def Contains_def HasPrefix_def)
  have dir: "distinct (map fi_name demo_dir)" by (simp add: demo_dir_def)
  have "undisturbed (demo_migrate_env (\<lambda>_. False))" "mi_exec (demo_migrate_env (\<lambda>_. False)) = mi_exec ?e"
    by (simp_all add: undisturbed_def demo_migrate_env_def)
  with migrations_once_in_order [OF dir same at run, THEN conjunct2, THEN conjunct2, THEN mp, OF conjI [OF _ conjI [OF _ all]]] run
  show ?thesis by (simp add: demo_names)
qed

text \<open>
  Two processes starting on an empty database at the same moment: the one that comes second
  finds its file already run, and does not start.
\<close>

lemma second_starter_fails:
  "Migrate (demo_migrate_env (\<lambda>_. False)\<lparr>mi_second := (\<lambda>_ d. snd (Migrate (demo_migrate_env (\<lambda>_. False)) demo_dir d))\<rparr>)
      demo_dir \<lparr>sc_versions = [], sc_schema = []\<rparr>
    = (Inl (RunFailure ''1.sql''), \<lparr>sc_versions = [''1.sql'', ''2.sql''], sc_schema = ''AB''\<rparr>)"
proof -
  have bodies: "migration_body demo_dir ''1.sql'' = Some ''A''" "migration_body demo_dir ''2.sql'' = Some ''B''"
    by (simp_all add: migration_body_def demo_dir_def)
  show ?thesis
    by (simp add: Migrate_def demo_names demo_migrate_env_def apply_migration_def bodies demo_exec_def Contains_def HasPrefix_def)
qed

end
