(* ===== verification/App_Build.thy ===== *)
theory App_Build
  imports Config Store_Migrate Notify_Push Cache_Memory Payout_Links
begin

text \<open>
  \<^verbatim>\<open>internal/app/app.go\<close>: how a process is put together from its settings, with what it opens
  and closes on the way; \<^verbatim>\<open>store.Open\<close>, \<^verbatim>\<open>cache.New\<close> and \<^verbatim>\<open>media.NewLocal\<close>; and the policy the
  server takes over (\<^verbatim>\<open>httpapi.New\<close>).
\<close>

section \<open>Opening things\<close>

text \<open>A process: the database it sees, its open connection pools and its open cache clients.\<close>

record 's process =
  pr_db :: "'s schema_db"
  pr_pools :: nat
  pr_clients :: nat

datatype boot_error =
    ConfigError "problem list" bool | KeyError crypto_error | DsnFailure | PoolFailure | PingFailure
  | MigrateError migrate_error | CacheFailure | MediaFailure

record 's boot_env =
  be_std :: std
  be_getenv :: "string \<Rightarrow> string"
  be_file :: "string option"
  be_gcm :: "string \<Rightarrow> AEAD option"
  be_dsn_ok :: "string \<Rightarrow> bool"
  be_pool_ok :: bool
  be_ping_ok :: bool
  be_migrate :: "'s migrate_env"
  be_dir :: "entry_info list"
  be_redis_ok :: "string \<Rightarrow> bool"
  be_media :: "string \<Rightarrow> string option"

definition store_Open :: "'s boot_env \<Rightarrow> string \<Rightarrow> 's process \<Rightarrow> (boot_error, unit) result \<times> 's process" where
  "store_Open e dsn p =
    (if \<not> be_dsn_ok e dsn then (Inl DsnFailure, p)
     else if \<not> be_pool_ok e then (Inl PoolFailure, p)
     else if \<not> be_ping_ok e then
       (let p1 = p\<lparr>pr_pools := pr_pools p + 1\<rparr> in (Inl PingFailure, p1\<lparr>pr_pools := pr_pools p1 - 1\<rparr>))
     else (Inr (), p\<lparr>pr_pools := pr_pools p + 1\<rparr>))"

definition store_Close :: "'s process \<Rightarrow> 's process" where
  "store_Close p = p\<lparr>pr_pools := pr_pools p - 1\<rparr>"

datatype cache_kind = InMemory memory | RedisAt string

definition cache_New :: "'s boot_env \<Rightarrow> string \<Rightarrow> 's process \<Rightarrow> (boot_error, cache_kind) result \<times> 's process" where
  "cache_New e url p =
    (if url = [] then (Inr (InMemory NewMemory), p)
     else if be_redis_ok e url then (Inr (RedisAt url), p\<lparr>pr_clients := pr_clients p + 1\<rparr>)
     else (Inl CacheFailure, p))"

definition cache_Close :: "cache_kind \<Rightarrow> 's process \<Rightarrow> 's process" where
  "cache_Close c p = (case c of InMemory _ \<Rightarrow> p | RedisAt _ \<Rightarrow> p\<lparr>pr_clients := pr_clients p - 1\<rparr>)"

text \<open>The root is the absolute path, once the directory exists.\<close>

definition NewLocal :: "'s boot_env \<Rightarrow> string \<Rightarrow> (boot_error, string) result" where
  "NewLocal e dir = (case be_media e dir of None \<Rightarrow> Inl MediaFailure | Some root \<Rightarrow> Inr root)"

section \<open>Putting a process together\<close>

datatype channel = is_SlackTo: SlackTo string string | is_PushWith: PushWith string string string string

datatype notifier = Noop | Multi "channel list"

record App =
  ap_Config :: Config
  ap_Cipher :: AEAD
  ap_Pepper :: string
  ap_Cache :: cache_kind
  ap_Media :: string
  ap_Notify :: notifier
  ap_Payout :: "string \<rightharpoonup> string"

definition channels :: "Config \<Rightarrow> channel list" where
  "channels c =
    (if g_SlackWebhookURL c \<noteq> [] then [SlackTo (g_SlackWebhookURL c) (g_PublicBaseURL c)] else [])
    @ (if g_VapidPublicKey c \<noteq> [] \<and> g_VapidPrivateKey c \<noteq> [] \<and> g_VapidSubject c \<noteq> []
       then [PushWith (g_VapidPublicKey c) (g_VapidPrivateKey c) (g_VapidSubject c) (g_PublicBaseURL c)] else [])"

text \<open>\<open>payout.NewDeeplink\<close> on the map of the settings: blank templates are left out.\<close>

definition live_templates :: "(string \<rightharpoonup> string) \<Rightarrow> (string \<rightharpoonup> string)" where
  "live_templates m k = (case m k of None \<Rightarrow> None | Some v \<Rightarrow> if TrimSpace v \<noteq> [] then Some v else None)"

lemma live_templates_list:
  "distinct (map fst ts) \<Longrightarrow> map_of (NewDeeplink ts) = live_templates (map_of ts)"
  by (rule ext, induction ts) (auto simp: NewDeeplink_def live_templates_def map_of_eq_None_iff image_iff dest: map_of_SomeD split: option.splits)

definition Build :: "'s boot_env \<Rightarrow> 's process \<Rightarrow> (boot_error, App) result \<times> 's process" where
  "Build e p =
    (case Load (be_std e) (be_getenv e) (be_file e) of
       Inl (ps, missing) \<Rightarrow> (Inl (ConfigError ps missing), p)
     | Inr cfg \<Rightarrow>
      (case NewCipher (be_gcm e) (g_DataEncryptionKey cfg) of
         Inl err \<Rightarrow> (Inl (KeyError err), p)
       | Inr aead \<Rightarrow>
        (case NewHasher (g_HashPepper cfg) of
           Inl err \<Rightarrow> (Inl (KeyError err), p)
         | Inr pepper \<Rightarrow>
          (case store_Open e (g_DatabaseURL cfg) p of
             (Inl err, p1) \<Rightarrow> (Inl err, p1)
           | (Inr _, p1) \<Rightarrow>
            (case Migrate (be_migrate e) (be_dir e) (pr_db p1) of
               (Inl err, d) \<Rightarrow> (Inl (MigrateError err), store_Close (p1\<lparr>pr_db := d\<rparr>))
             | (Inr _, d) \<Rightarrow>
              (case cache_New e (g_RedisURL cfg) (p1\<lparr>pr_db := d\<rparr>) of
                 (Inl err, p2) \<Rightarrow> (Inl err, store_Close p2)
               | (Inr c, p2) \<Rightarrow>
                (case NewLocal e (g_MediaDir cfg) of
                   Inl err \<Rightarrow> (Inl err, store_Close p2)
                 | Inr root \<Rightarrow>
                    (Inr \<lparr>ap_Config = cfg, ap_Cipher = aead, ap_Pepper = pepper, ap_Cache = c, ap_Media = root,
                       ap_Notify = (if channels cfg \<noteq> [] then Multi (NewMulti (map Some (channels cfg))) else Noop),
                       ap_Payout = live_templates (g_PayoutDeeplinkTemplates cfg)\<rparr>, p2))))))))"

definition Close :: "App \<Rightarrow> 's process \<Rightarrow> 's process" where
  "Close a p = cache_Close (ap_Cache a) (store_Close p)"

section \<open>All of it or nothing\<close>

lemma store_Open_cases:
  assumes "store_Open e dsn p = (r, p1)"
  obtains (failed) err where "r = Inl err" "p1 = p" "err \<in> {DsnFailure, PoolFailure, PingFailure}"
    | (opened) "r = Inr ()" "p1 = p\<lparr>pr_pools := pr_pools p + 1\<rparr>"
  using assms by (auto simp: store_Open_def Let_def split: if_splits)

lemma channels_live: "NewMulti (map Some (channels c)) = channels c"
  by (simp add: NewMulti_def map_filter_def comp_def)

lemma Load_Inr:
  assumes "Load l env file = Inr c"
  shows "\<exists>get. LoadFrom l get = Inr c"
  using assms by (auto simp: Load_def split: prod.splits sum.splits)

lemma channels_by_settings:
  assumes "n = (if channels c \<noteq> [] then Multi (channels c) else Noop)"
  shows "\<exists>cs. n = (if cs = [] then Noop else Multi cs)
    \<and> (list_ex is_SlackTo cs \<longleftrightarrow> g_SlackWebhookURL c \<noteq> [])
    \<and> (list_ex is_PushWith cs \<longleftrightarrow> [] \<notin> {g_VapidPublicKey c, g_VapidPrivateKey c, g_VapidSubject c})"
  by (rule exI [of _ "channels c"]) (use assms in \<open>auto simp: channels_def split: if_splits\<close>)

text \<open>
  C39. A process has all it needs, or leaves nothing open. If the start fails, no connection
  pool stays open, and unless it got as far as the migrations the database is as it was. If
  it succeeds: the settings passed every check; the cipher is keyed with 32 bytes and so are the hashes
  and the sessions; one pool is open; all migrations are in; push is on exactly when its three
  settings are there and Slack exactly when its address is; and closing the process gives back
  what it had opened.
\<close>

theorem all_it_needs_or_nothing:
  assumes "distinct (map fi_name (be_dir e))"
    and "\<And>n. forward (mi_exec (be_migrate e)) (be_dir e) s0 (mi_first (be_migrate e) n)
      \<and> forward (mi_exec (be_migrate e)) (be_dir e) s0 (mi_second (be_migrate e) n)"
    and "stands_at (mi_exec (be_migrate e)) (be_dir e) s0 k (pr_db p)"
    and "Build e p = (r, p')"
  shows "case r of
      Inl err \<Rightarrow> pr_pools p' = pr_pools p
        \<and> (pr_db p' = pr_db p \<or> (\<exists>m. err = MigrateError m) \<or> err = CacheFailure \<or> err = MediaFailure)
        \<and> (pr_clients p' = pr_clients p \<or> err = MediaFailure)
    | Inr a \<Rightarrow> (\<exists>get. LoadFrom (be_std e) get = Inr (ap_Config a))
        \<and> be_gcm e (g_DataEncryptionKey (ap_Config a)) = Some (ap_Cipher a)
        \<and> map length [g_DataEncryptionKey (ap_Config a), ap_Pepper a, g_SessionSecret (ap_Config a)] = [32, 32, 32]
        \<and> pr_pools p' = Suc (pr_pools p) \<and> sc_versions (pr_db p') = migration_names (be_dir e)
        \<and> (\<exists>cs. ap_Notify a = (if cs = [] then Noop else Multi cs)
              \<and> (list_ex is_SlackTo cs \<longleftrightarrow> g_SlackWebhookURL (ap_Config a) \<noteq> [])
              \<and> (list_ex is_PushWith cs \<longleftrightarrow> [] \<notin> {g_VapidPublicKey (ap_Config a), g_VapidPrivateKey (ap_Config a),
                    g_VapidSubject (ap_Config a)}))
        \<and> pr_pools (Close a p') = pr_pools p \<and> pr_clients (Close a p') = pr_clients p"
proof -
  let ?M = "Migrate (be_migrate e) (be_dir e) (pr_db p)"
  have all: "sc_versions d = migration_names (be_dir e)" if "?M = (Inr (), d)" for d
    using Migrate_forward [OF assms(1-3)] that by (auto simp: stands_at_def)
  show ?thesis
  proof (cases r)
    case (Inl err)
    with assms(4) show ?thesis
      by (auto simp: Build_def store_Open_def store_Close_def cache_New_def NewLocal_def Let_def
          split: sum.splits prod.splits if_splits option.splits)
  next
    case (Inr a)
    with assms(4) obtain p1 d c root where
      load: "Load (be_std e) (be_getenv e) (be_file e) = Inr (ap_Config a)"
      and keyed: "NewCipher (be_gcm e) (g_DataEncryptionKey (ap_Config a)) = Inr (ap_Cipher a)"
        "NewHasher (g_HashPepper (ap_Config a)) = Inr (ap_Pepper a)"
      and opened: "store_Open e (g_DatabaseURL (ap_Config a)) p = (Inr (), p1)"
      and moved: "Migrate (be_migrate e) (be_dir e) (pr_db p1) = (Inr (), d)"
      and cached: "cache_New e (g_RedisURL (ap_Config a)) (p1\<lparr>pr_db := d\<rparr>) = (Inr (ap_Cache a), p')"
      and notify: "ap_Notify a = (if channels (ap_Config a) \<noteq> [] then Multi (channels (ap_Config a)) else Noop)"
      by (auto simp: Build_def channels_live split: sum.splits prod.splits)
    note loaded = Load_Inr [OF load]
    then obtain get where "LoadFrom (be_std e) get = Inr (ap_Config a)" by blast
    note LoadFrom_keys(3-5) [OF this]
    moreover note loaded
    moreover have "be_gcm e (g_DataEncryptionKey (ap_Config a)) = Some (ap_Cipher a)" "ap_Pepper a = g_HashPepper (ap_Config a)"
      using keyed by (auto simp: NewCipher_def NewHasher_def split: if_splits option.splits)
    moreover have p1: "p1 = p\<lparr>pr_pools := pr_pools p + 1\<rparr>" by (rule store_Open_cases [OF opened]) auto
    moreover have "sc_versions d = migration_names (be_dir e)" using all moved p1 by simp
    moreover have "pr_db p' = d" "pr_pools p' = Suc (pr_pools p)" "pr_pools (Close a p') = pr_pools p"
      "pr_clients (Close a p') = pr_clients p"
      using cached p1
      by (cases "ap_Cache a"; auto simp: cache_New_def Close_def store_Close_def cache_Close_def split: if_splits)+
    moreover note channels_by_settings [OF notify]
    ultimately show ?thesis using Inr by simp
  qed
qed

section \<open>Examples\<close>

definition demo_boot :: "bool \<Rightarrow> string boot_env" where
  "demo_boot media_ok = \<lparr>be_std = demo_std,
     be_getenv = demo_environment(''REDIS_URL'' := ''redis:'', ''SLACK_WEBHOOK_URL'' := ''https:'', ''VAPID_SUBJECT'' := ''mailto:''),
     be_file = None, be_gcm = (\<lambda>_. Some demo_aead), be_dsn_ok = (\<lambda>_. True), be_pool_ok = True, be_ping_ok = True,
     be_migrate = demo_migrate_env (\<lambda>_. False), be_dir = demo_dir, be_redis_ok = (\<lambda>_. True),
     be_media = (\<lambda>_. if media_ok then Some ''/data'' else None)\<rparr>"

definition demo_process :: "string process" where
  "demo_process = \<lparr>pr_db = \<lparr>sc_versions = [''1.sql''], sc_schema = ''A''\<rparr>, pr_pools = 0, pr_clients = 0\<rparr>"

lemma demo_loads:
  "LoadFrom demo_std (be_getenv (demo_boot m)) = Inr (config_of demo_std (be_getenv (demo_boot m)))"
proof -
  have e: "TrimSpace [] = []" "ToLower lc [] = []" for lc by (simp_all add: TrimSpace_ascii ToLower_def runes_def u8_def)
  have k: "demo_key \<noteq> []" by (simp add: demo_key_def)
  have "snd (key n demo_key) = None" for n using demo_key_decodes k by (auto simp: key_def keyLen_def)
  then have "problems demo_std (be_getenv (demo_boot m)) = []"
    by (simp add: problems_def checks_def map_filter_simps required_def jsonMap_def boolVal_def intVal_def e demo_boot_def
        demo_environment_def)
  then show ?thesis by (simp add: LoadFrom_def)
qed

lemma demo_builds:
  fixes m
  defines "c \<equiv> config_of demo_std (be_getenv (demo_boot m))"
  shows "Build (demo_boot m) demo_process = (if m then
      (Inr \<lparr>ap_Config = c, ap_Cipher = demo_aead, ap_Pepper = g_HashPepper c, ap_Cache = RedisAt ''redis:'',
         ap_Media = ''/data'', ap_Notify = Multi [SlackTo ''https:'' (g_PublicBaseURL c)],
         ap_Payout = live_templates (g_PayoutDeeplinkTemplates c)\<rparr>,
       \<lparr>pr_db = \<lparr>sc_versions = [''1.sql'', ''2.sql''], sc_schema = ''AB''\<rparr>, pr_pools = 1, pr_clients = 1\<rparr>)
    else (Inl MediaFailure,
       \<lparr>pr_db = \<lparr>sc_versions = [''1.sql'', ''2.sql''], sc_schema = ''AB''\<rparr>, pr_pools = 0, pr_clients = 1\<rparr>))"
proof -
  have load: "Load demo_std (be_getenv (demo_boot m)) None = Inr c"
  proof -
    have "envWithDotEnv f Map.empty = f" for f by (rule ext) (simp add: envWithDotEnv_def)
    with demo_loads [of m] show ?thesis by (simp add: Load_def loadDotEnv_def c_def)
  qed
  note keys = LoadFrom_keys(3-5) [OF demo_loads, of m, folded c_def]
  have bodies: "migration_body demo_dir ''2.sql'' = Some ''B''" by (simp add: migration_body_def demo_dir_def)
  have mig: "Migrate (demo_migrate_env (\<lambda>_. False)) demo_dir \<lparr>sc_versions = [''1.sql''], sc_schema = ''A''\<rparr>
      = (Inr (), \<lparr>sc_versions = [''1.sql'', ''2.sql''], sc_schema = ''AB''\<rparr>)"
    by (simp add: Migrate_def demo_names demo_migrate_env_def apply_migration_def bodies demo_exec_def Contains_def HasPrefix_def)
  have vals: "g_RedisURL c = ''redis:''" "g_SlackWebhookURL c = ''https:''" "g_VapidPublicKey c = []"
    by (simp_all add: c_def config_of_def str_def demo_boot_def demo_environment_def)
  have "be_std (demo_boot m) = demo_std" "be_file (demo_boot m) = None" by (simp_all add: demo_boot_def)
  then show ?thesis
    using load keys vals mig
    by (simp add: Build_def NewCipher_def NewHasher_def KeyLen_def store_Open_def cache_New_def NewLocal_def store_Close_def
        NewMulti_def map_filter_simps channels_def demo_boot_def demo_process_def Let_def)
qed

text \<open>
  When the photo directory cannot be made, the pool is closed but the cache client is left open.
\<close>

lemma cache_left_open: "fst (Build (demo_boot False) demo_process) = Inl MediaFailure
    \<and> pr_clients (snd (Build (demo_boot False) demo_process)) = Suc (pr_clients demo_process)"
  by (simp add: demo_builds) (simp add: demo_process_def)

lemma all_it_needs_or_nothing_witness:
  "\<exists>a p. Build (demo_boot True) demo_process = (Inr a, p) \<and> sc_versions (pr_db p) = [''1.sql'', ''2.sql'']
     \<and> pr_clients (Close a p) = 0"
proof -
  obtain a p where run: "Build (demo_boot True) demo_process = (Inr a, p)"
    and p: "sc_versions (pr_db p) = [''1.sql'', ''2.sql'']"
    using demo_builds [of True] by auto
  have dir: "distinct (map fi_name (be_dir (demo_boot True)))" by (simp add: demo_boot_def demo_dir_def)
  have calm: "forward (mi_exec (be_migrate (demo_boot True))) (be_dir (demo_boot True)) [] (mi_first (be_migrate (demo_boot True)) n)
      \<and> forward (mi_exec (be_migrate (demo_boot True))) (be_dir (demo_boot True)) [] (mi_second (be_migrate (demo_boot True)) n)" for n
    by (auto simp: demo_boot_def demo_migrate_env_def forward_def)
  have at: "stands_at (mi_exec (be_migrate (demo_boot True))) (be_dir (demo_boot True)) [] 1 (pr_db demo_process)"
  proof -
    have "migration_body demo_dir ''1.sql'' = Some ''A''" by (simp add: migration_body_def demo_dir_def)
    then show ?thesis
      by (simp add: stands_at_def demo_boot_def demo_process_def demo_names demo_migrate_env_def
          demo_exec_def Contains_def HasPrefix_def)
  qed
  from all_it_needs_or_nothing [OF dir calm at run] have "pr_clients (Close a p) = pr_clients demo_process" by simp
  with run p show ?thesis by (auto simp: demo_process_def)
qed

end
