(* ===== verification/Cmd_Setup.thy ===== *)
theory Cmd_Setup
  imports App_Build Http_Access
begin

text \<open>
  \<^verbatim>\<open>cmd/setup\<close>: the command on the server that founds a shop with its first account, sets a
  password anew, lists the accounts and makes the keys for web push. The flags are already
  parsed; the tables are the schema of the database the process opens.
\<close>

section \<open>The command\<close>

record setup_flags =
  sf_store :: string
  sf_phone :: string
  sf_email :: string
  sf_password :: string
  sf_name :: string
  sf_type :: string
  sf_reset :: bool
  sf_list :: bool
  sf_stdin :: bool
  sf_vapid :: bool

text \<open>
  What is there when it runs: the whole standard input (\<open>None\<close> when reading fails), a fresh pair of
  keys, faults of the database, ids, hashing, the clock and the local zone.
\<close>

record setup_env =
  sn_boot :: "db boot_env"
  sn_stdin :: "string option"
  sn_keys :: "(string \<times> string) option"
  sn_bcrypt :: Bcrypt
  sn_lower :: "nat \<Rightarrow> nat"
  sn_fails :: "bool \<times> bool \<times> bool"
  sn_ids :: "string \<times> string"
  sn_now :: instant
  sn_zone :: zone

datatype setup_out =
    Usage | BothPasswords | StdinUnreadable | StdinEmpty | ResetNeedsFlags | BadType string
  | BootFailed boot_error | KeysFailed | Keys string string | ListFailed | NoAccounts | Accounts "string list"
  | ResetFailed db_error | NoSuchAccount string | PasswordSet string | CreateFailed db_error | Founded string string string

text \<open>All of the input up to 4096 bytes, less one line end: blanks of a password stay.\<close>

definition readPasswordStdin :: "string option \<Rightarrow> (setup_out, string) result" where
  "readPasswordStdin input =
    (case input of None \<Rightarrow> Inl StdinUnreadable
     | Some s \<Rightarrow>
        (let pw = TrimSuffix (TrimSuffix (take 4096 s) [CHR 0x0A]) [CHR 0x0D]
         in if pw = [] then Inl StdinEmpty else Inr pw))"

text \<open>\<open>%-32s\<close>: blanks on the right up to a width in characters.\<close>

definition pad_right :: "nat \<Rightarrow> string \<Rightarrow> string" where
  "pad_right n s = s @ replicate (n - rune_count s) CHR '' ''"

text \<open>\<open>01-02 15:04\<close>, in the local zone.\<close>

definition format_short :: "zone \<Rightarrow> instant \<Rightarrow> string" where
  "format_short z t =
    (case Date z t of (y, m, d) \<Rightarrow> pad 2 m @ ''-'' @ pad 2 d @ '' '' @ take 5 (format_clock z t))"

definition account_line :: "instant \<Rightarrow> zone \<Rightarrow> AdminUserRow \<Rightarrow> string" where
  "account_line now z r =
    (let off = (if \<not> au_Active r then (u8 [0x20, 0x20, 0x5B, 0xBE44, 0xD65C, 0xC131, 0x20, 0x2014, 0x20, 0xB85C, 0xADF8, 0xC778, 0x20, 0xBD88, 0xAC00, 0x5D]) else []);
         locked = (case au_LockedUntil r of None \<Rightarrow> []
           | Some t \<Rightarrow> if now < t then (u8 [0x20, 0x20, 0x5B, 0xC7A0, 0xAE40, 0x3A, 0x20]) @ format_short z t @ (u8 [0x20, 0xAE4C, 0xC9C0, 0x5D]) else [])
     in pad_right 32 (au_Email r) @ ''  '' @ pad_right 12 (au_Name r) @ ''  '' @ au_StoreName r @ off @ locked)"

type_synonym setup_result = "(nat \<times> setup_out) \<times> db process"

definition in_tables :: "(db \<Rightarrow> 'a \<times> db) \<Rightarrow> db process \<Rightarrow> 'a \<times> db process" where
  "in_tables f p =
    (case f (sc_schema (pr_db p)) of (r, d) \<Rightarrow> (r, p\<lparr>pr_db := (pr_db p)\<lparr>sc_schema := d\<rparr>\<rparr>))"

definition resetPassword :: "setup_env \<Rightarrow> string \<Rightarrow> string \<Rightarrow> db process \<Rightarrow> setup_result" where
  "resetPassword e email password p =
    (case Build (sn_boot e) p of
       (Inl err, p1) \<Rightarrow> ((1, BootFailed err), p1)
     | (Inr a, p1) \<Rightarrow>
        (case in_tables (SetPassword (sn_bcrypt e) (sn_lower e) (fst (sn_fails e)) email password) p1 of
           (Inl err, p2) \<Rightarrow> ((1, if err = ErrNotFound then NoSuchAccount email else ResetFailed err), p2)
         | (Inr _, p2) \<Rightarrow> ((0, PasswordSet email), Close a p2)))"

definition listAllUsers :: "setup_env \<Rightarrow> db process \<Rightarrow> setup_result" where
  "listAllUsers e p =
    (case Build (sn_boot e) p of
       (Inl err, p1) \<Rightarrow> ((1, BootFailed err), p1)
     | (Inr a, p1) \<Rightarrow>
        if fst (sn_fails e) then ((1, ListFailed), p1)
        else (let rows = ListAllUsers (sc_schema (pr_db p1))
              in if rows = [] then ((0, NoAccounts), Close a p1)
                 else ((0, Accounts (map (account_line (sn_now e) (sn_zone e)) rows)), Close a p1)))"

definition printVapidKeys :: "setup_env \<Rightarrow> nat \<times> setup_out" where
  "printVapidKeys e = (case sn_keys e of None \<Rightarrow> (1, KeysFailed) | Some (priv, pub) \<Rightarrow> (0, Keys pub priv))"

definition found_shop :: "setup_env \<Rightarrow> setup_flags \<Rightarrow> string \<Rightarrow> db process \<Rightarrow> setup_result" where
  "found_shop e g password p =
    (case Build (sn_boot e) p of
       (Inl err, p1) \<Rightarrow> ((1, BootFailed err), p1)
     | (Inr a, p1) \<Rightarrow>
        (case in_tables (CreateStoreWithOwner (sn_bcrypt e) (sn_fails e) (sn_ids e) (sn_now e) (sf_store g) (sf_phone g)
               (sf_type g) (sf_email g) password (sf_name g)) p1 of
           (Inl err, p2) \<Rightarrow> ((1, CreateFailed err), p2)
         | (Inr (sid, u), p2) \<Rightarrow> ((0, Founded sid (u_ID u) (u_Email u)), Close a p2)))"

definition given_password :: "setup_env \<Rightarrow> setup_flags \<Rightarrow> (setup_out, string) result" where
  "given_password e g =
    (if sf_stdin g then (if sf_password g \<noteq> [] then Inl BothPasswords else readPasswordStdin (sn_stdin e))
     else Inr (sf_password g))"

definition setup_main :: "setup_env \<Rightarrow> setup_flags \<Rightarrow> db process \<Rightarrow> setup_result" where
  "setup_main e g p =
    (if sf_vapid g then (printVapidKeys e, p)
     else if sf_list g then listAllUsers e p
     else case given_password e g of
       Inl why \<Rightarrow> ((2, why), p)
     | Inr password \<Rightarrow>
        if sf_reset g then
          (if sf_email g = [] \<or> password = [] then ((2, ResetNeedsFlags), p)
           else resetPassword e (sf_email g) password p)
        else if sf_store g = [] \<or> sf_email g = [] \<or> password = [] then ((2, Usage), p)
        else if \<not> ValidStoreType (sf_type g) then ((2, BadType (sf_type g)), p)
        else found_shop e g password p)"

section \<open>What a run changes\<close>

abbreviation tables :: "db process \<Rightarrow> db" where
  "tables p \<equiv> sc_schema (pr_db p)"

lemma tables_Close [simp]: "pr_db (Close a p) = pr_db p"
  by (simp add: Close_def store_Close_def cache_Close_def split: cache_kind.split)

lemma in_tables_eq: "in_tables f p = (r, p') \<longleftrightarrow>
    (\<exists>d. f (tables p) = (r, d) \<and> p' = p\<lparr>pr_db := (pr_db p)\<lparr>sc_schema := d\<rparr>\<rparr>)"
  by (auto simp: in_tables_def split: prod.splits)

definition new_password :: "(nat \<Rightarrow> nat) \<Rightarrow> string \<Rightarrow> string \<Rightarrow> db \<Rightarrow> db" where
  "new_password lc email hash d = d\<lparr>t_users := map (\<lambda>u. if us_email u = TrimSpace (ToLower lc email)
     then u\<lparr>us_password_hash := hash, us_failed := 0, us_locked_until := None\<rparr> else u) (t_users d)\<rparr>"

lemma SetPassword_effect:
  assumes "SetPassword bc lc fail email pw d = (r, d')"
  shows "(\<exists>err. r = Inl err \<and> d' = d) \<or> (\<exists>hash. r = Inr () \<and> bc_generate bc pw = Some hash \<and> d' = new_password lc email hash d)"
proof -
  have same: "map (\<lambda>u. if P u then f u else u) us = us" if "filter P us = []" for P and f :: "UserRow \<Rightarrow> UserRow" and us
    using that by (induction us) (auto split: if_splits)
  show ?thesis
    using assms same [of "\<lambda>u. us_email u = TrimSpace (ToLower lc email)" "t_users d"]
    by (auto simp: SetPassword_def Let_def update_users_def new_password_def split: if_splits option.splits)
qed

lemma CreateStoreWithOwner_effect:
  assumes "CreateStoreWithOwner bc fs ids now n ph ty email pw name d = (r, d')"
  shows "(\<exists>err. r = Inl err \<and> d' = d)
    \<or> (\<exists>hash. let u = new_user (snd ids) now (fst ids) email hash name [] in
        r = Inr (fst ids, user_of u) \<and> bc_generate bc pw = Some hash
        \<and> email \<notin> us_email ` set (t_users d) \<and> snd ids \<notin> us_id ` set (t_users d) \<and> fst ids \<notin> st_id ` set (t_stores d)
        \<and> d' = d\<lparr>t_stores := t_stores d @ [new_store (fst ids) n ph (NormalizeStoreType ty)],
               t_users := t_users d @ [u]\<rparr>)"
  using assms
  by (auto simp: CreateStoreWithOwner_def Let_def insert_store_def insert_user_def new_user_def new_store_def and_then_def tx_def
      split: if_splits option.splits prod.splits sum.splits db_error.splits)

definition plain :: "setup_out \<Rightarrow> bool" where
  "plain out = (case out of PasswordSet _ \<Rightarrow> False | Founded _ _ _ \<Rightarrow> False | _ \<Rightarrow> True)"

lemma resetPassword_effect:
  assumes "resetPassword e email pw p = ((code, out), p')"
  defines "d1 \<equiv> tables (snd (Build (sn_boot e) p))"
  shows "code = 1 \<and> plain out \<and> tables p' = d1
    \<or> code = 0 \<and> out = PasswordSet email
      \<and> (\<exists>hash. bc_generate (sn_bcrypt e) pw = Some hash \<and> tables p' = new_password (sn_lower e) email hash d1)"
  using assms(1)
  by (auto simp: resetPassword_def d1_def in_tables_eq plain_def
      split: prod.splits sum.splits if_splits dest!: SetPassword_effect)

lemma listAllUsers_effect:
  assumes "listAllUsers e p = ((code, out), p')"
  shows "code \<le> 1 \<and> plain out \<and> tables p' = tables (snd (Build (sn_boot e) p))"
  using assms by (auto simp: listAllUsers_def Let_def plain_def split: prod.splits sum.splits if_splits)

lemma found_shop_effect:
  assumes "found_shop e g pw p = ((code, out), p')"
  defines "d1 \<equiv> tables (snd (Build (sn_boot e) p))"
  shows "code = 1 \<and> plain out \<and> tables p' = d1
    \<or> code = 0 \<and> out = Founded (fst (sn_ids e)) (snd (sn_ids e)) (sf_email g)
      \<and> (\<exists>hash. bc_generate (sn_bcrypt e) pw = Some hash
          \<and> sf_email g \<notin> us_email ` set (t_users d1) \<and> snd (sn_ids e) \<notin> us_id ` set (t_users d1)
          \<and> tables p' = d1\<lparr>t_stores := t_stores d1 @ [new_store (fst (sn_ids e)) (sf_store g) (sf_phone g) (NormalizeStoreType (sf_type g))],
                 t_users := t_users d1 @ [new_user (snd (sn_ids e)) (sn_now e) (fst (sn_ids e)) (sf_email g) hash (sf_name g) []]\<rparr>)"
  using assms(1)
  by (auto simp: found_shop_def d1_def in_tables_eq plain_def Let_def user_of_def new_user_def
      split: prod.splits sum.splits dest!: CreateStoreWithOwner_effect)

lemma given_password_plain: "given_password e g = Inl why \<Longrightarrow> plain why"
  by (auto simp: given_password_def readPasswordStdin_def Let_def plain_def split: if_splits option.splits)

lemmas setup_effects = resetPassword_effect listAllUsers_effect found_shop_effect

text \<open>
  The setup command does what its flags say and nothing else. A refused command line does not
  even connect. After the start and its migrations, a run that fails leaves the tables alone; a
  listing changes nothing; setting a password changes the accounts of that address only, and
  only their password and lock; founding adds one shop and one account of it. A password from
  standard input is used as it is, blanks included.
\<close>

theorem setup_does_one_thing:
  assumes "setup_main e g p = ((code, out), p')"
  shows "code \<le> 2 \<and> (code = 2 \<longrightarrow> p' = p)
    \<and> (\<exists>p1. (p1 = p \<or> p1 = snd (Build (sn_boot e) p)) \<and> (code \<noteq> 0 \<longrightarrow> tables p' = tables p1)
        \<and> (case out of
             PasswordSet email \<Rightarrow> sf_reset g \<and> email = sf_email g \<and> (\<exists>pw hash. given_password e g = Inr pw
               \<and> bc_generate (sn_bcrypt e) pw = Some hash \<and> tables p' = new_password (sn_lower e) email hash (tables p1))
           | Founded sid uid email \<Rightarrow> \<not> sf_reset g \<and> email = sf_email g \<and> (\<exists>pw hash. given_password e g = Inr pw
               \<and> bc_generate (sn_bcrypt e) pw = Some hash
               \<and> tables p' = (tables p1)\<lparr>t_stores := t_stores (tables p1) @ [new_store sid (sf_store g) (sf_phone g) (sf_type g)],
                   t_users := t_users (tables p1) @ [new_user uid (sn_now e) sid email hash (sf_name g) []]\<rparr>)
           | _ \<Rightarrow> tables p' = tables p1))"
proof -
  have other: "(case out of PasswordSet x \<Rightarrow> P x | Founded x y z \<Rightarrow> Q x y z | _ \<Rightarrow> R) = R" if "plain out" for P Q R
    using that by (simp add: plain_def split: setup_out.splits)
  define p1 where "p1 = snd (Build (sn_boot e) p)"
  show ?thesis
  proof (cases "sf_vapid g \<or> sf_list g")
    case True
    show ?thesis
    proof (cases "sf_vapid g")
      case True
      with assms have "code \<le> 1" "plain out" "p' = p"
        by (auto simp: setup_main_def printVapidKeys_def plain_def split: option.splits)
      then show ?thesis by (auto simp: other)
    next
      case False
      with True assms have "listAllUsers e p = ((code, out), p')" by (simp add: setup_main_def)
      note listAllUsers_effect [OF this]
      then show ?thesis by (auto simp: other)
    qed
  next
    case go: False
    show ?thesis
    proof (cases "given_password e g")
      case (Inl why)
      with assms go have "code = 2" "plain out" "p' = p"
        using given_password_plain [OF Inl] by (auto simp: setup_main_def)
      then show ?thesis by (auto simp: other)
    next
      case (Inr pw)
      show ?thesis
      proof (cases "code = 2")
        case True
        with assms go Inr have "plain out" "p' = p"
          by (auto simp: setup_main_def plain_def split: if_splits dest: resetPassword_effect found_shop_effect)
        with True show ?thesis by (auto simp: other)
      next
        case False
        show ?thesis
        proof (cases "sf_reset g")
          case True
          with assms go Inr False have "resetPassword e (sf_email g) pw p = ((code, out), p')"
            by (auto simp: setup_main_def split: if_splits)
          from resetPassword_effect [OF this, folded p1_def] True Inr show ?thesis
            unfolding p1_def [symmetric] by (elim disjE; intro conjI exI [of _ p1]) (auto simp: other)
        next
          case found: False
          with assms go Inr False have run: "found_shop e g pw p = ((code, out), p')" and ty: "ValidStoreType (sf_type g)"
            by (auto simp: setup_main_def split: if_splits)
          from found_shop_effect [OF run, folded p1_def] found Inr ty show ?thesis
            unfolding p1_def [symmetric] by (elim disjE; intro conjI exI [of _ p1]) (auto simp: other NormalizeStoreType_def)
        qed
      qed
    qed
  qed
qed

text \<open>
  C40. Whether the founder can log in. After the command has founded a shop, logging in with exactly
  the address and password it was given works if and only if that address is already in the
  form the login page brings addresses into: without capitals and outer blanks. The web forms
  bring it into that form before an account is made, this command does not.
\<close>

theorem founder_logs_in:
  assumes run: "setup_main e g p = ((code, Founded sid uid email), p')" and pw: "given_password e g = Inr pw"
    and bcrypt: "\<And>h. bc_generate (sn_bcrypt e) pw = Some h \<Longrightarrow> bc_compare (sn_bcrypt e) h pw"
  shows "(\<exists>res d'. fst (handleLogin mac base (sn_bcrypt e) lc (False, False) t now (Some (sf_email g, pw)) (tables p')) = (Done res, d')
        \<and> me_id res = uid)
    \<longleftrightarrow> TrimSpace (ToLower lc (sf_email g)) = sf_email g"
proof -
  define d1 where "d1 = tables (snd (Build (sn_boot e) p))"
  have "found_shop e g pw p = ((code, Founded sid uid email), p')"
    using run pw
    by (auto simp: setup_main_def printVapidKeys_def plain_def split: if_splits option.splits
        dest: listAllUsers_effect resetPassword_effect)
  from found_shop_effect [OF this, folded d1_def] obtain hash u where
    ids: "uid = snd (sn_ids e)" and hash: "bc_generate (sn_bcrypt e) pw = Some hash"
    and new: "sf_email g \<notin> us_email ` set (t_users d1)" "uid \<notin> us_id ` set (t_users d1)"
    and users: "t_users (tables p') = t_users d1 @ [u]"
    and u: "us_email u = sf_email g" "us_id u = uid" "us_password_hash u = hash" "us_active u" "us_failed u = 0"
      "us_locked_until u = None"
    by (auto simp: plain_def new_user_def)
  let ?m = "TrimSpace (ToLower lc (sf_email g))"
  show ?thesis
  proof (cases "?m = sf_email g")
    case True
    have "find (\<lambda>x. us_email x = sf_email g) (t_users d1) = None" using new(1) by (force simp: find_None_iff)
    then have "find (\<lambda>x. us_email x = sf_email g) (t_users d1 @ [u]) = Some u"
      using u(1) by (induction "t_users d1") (auto simp: find_append)
    then have "handleLogin mac base (sn_bcrypt e) lc (False, False) t now (Some (sf_email g, pw)) (tables p')
        = ((Done (user_response (user_of u)), tables p'), [setSessionCookie mac base now (u_ID (user_of u))])"
      using bcrypt [OF hash] u True users by (simp add: handleLogin_def Authenticate_def)
    with True u(2) show ?thesis by (simp add: user_response_def user_of_def)
  next
    case False
    have "us_id v \<noteq> uid" if "find (\<lambda>x. us_email x = ?m) (t_users (tables p')) = Some v" for v
      using that False new(2) users u(1) by (auto simp: find_Some_iff nth_append split: if_splits) 
    then show ?thesis using False
      by (auto simp: handleLogin_def Authenticate_def user_response_def user_of_def split: option.splits sum.splits prod.splits if_splits)
  qed
qed

section \<open>Examples\<close>

definition demo_setup_env :: setup_env where
  "demo_setup_env = \<lparr>sn_boot = \<lparr>be_std = demo_std, be_getenv = be_getenv (demo_boot True), be_file = None,
       be_gcm = (\<lambda>_. Some demo_aead), be_dsn_ok = (\<lambda>_. True), be_pool_ok = True, be_ping_ok = True,
       be_migrate = \<lparr>mi_exec = (\<lambda>_. Some), mi_fail_table = False, mi_fail_dir = False, mi_fail_check = (\<lambda>_. False),
         mi_fail_begin = (\<lambda>_. False), mi_fail_record = (\<lambda>_. False), mi_fail_commit = (\<lambda>_. False),
         mi_first = (\<lambda>_. id), mi_second = (\<lambda>_. id)\<rparr>, be_dir = [],
       be_redis_ok = (\<lambda>_. True), be_media = Some\<rparr>,
     sn_stdin = Some (''longenough'' @ [CHR 0x0A]), sn_keys = None,
     sn_bcrypt = \<lparr>bc_generate = Some, bc_compare = (=)\<rparr>, sn_lower = (\<lambda>r. r),
     sn_fails = (False, False, True), sn_ids = (''s1'', ''u1''), sn_now = 0, sn_zone = UTC\<rparr>"

definition demo_flags :: "string \<Rightarrow> setup_flags" where
  "demo_flags email = \<lparr>sf_store = ''A'', sf_phone = [], sf_email = email, sf_password = [], sf_name = ''B'',
     sf_type = ''claw'', sf_reset = False, sf_list = False, sf_stdin = True, sf_vapid = False\<rparr>"

definition demo_server :: "db process" where
  "demo_server = \<lparr>pr_db = \<lparr>sc_versions = [], sc_schema = empty_db\<rparr>, pr_pools = 0, pr_clients = 0\<rparr>"

lemma demo_setup_builds:
  "\<exists>a p1. Build (sn_boot demo_setup_env) demo_server = (Inr a, p1) \<and> tables p1 = empty_db"
proof -
  let ?c = "config_of demo_std (be_getenv (demo_boot True))"
  have "envWithDotEnv f Map.empty = f" for f by (rule ext) (simp add: envWithDotEnv_def)
  then have "Load demo_std (be_getenv (demo_boot True)) None = Inr ?c"
    using demo_loads [of True] by (simp add: Load_def loadDotEnv_def)
  with LoadFrom_keys(3,4) [OF demo_loads, of True] show ?thesis
    by (simp add: Build_def demo_setup_env_def NewCipher_def NewHasher_def KeyLen_def store_Open_def Migrate_def
        migration_names_def cache_New_def NewLocal_def demo_server_def)
qed

lemma demo_password: "given_password demo_setup_env (demo_flags email) = Inr ''longenough''"
  by (simp add: given_password_def readPasswordStdin_def demo_setup_env_def demo_flags_def TrimSuffix_def HasSuffix_def
      HasPrefix_def Let_def)

lemma demo_founds:
  assumes "email \<noteq> []"
  shows "\<exists>p'. setup_main demo_setup_env (demo_flags email) demo_server = ((0, Founded ''s1'' ''u1'' email), p')"
proof -
  obtain a p1 where b: "Build (sn_boot demo_setup_env) demo_server = (Inr a, p1)" "tables p1 = empty_db"
    using demo_setup_builds by blast
  have n: "rune_count ''longenough'' = 10" by (simp add: rune_count_def segs_ascii is_ascii_def byte_def)
  have v: "ValidStoreType ''claw''" by (simp add: ValidStoreType_iff AllStoreTypes_eval)
  have flags: "\<not> sf_vapid (demo_flags email)" "\<not> sf_list (demo_flags email)" "\<not> sf_reset (demo_flags email)"
    "sf_store (demo_flags email) \<noteq> []" "sf_email (demo_flags email) = email" "sf_type (demo_flags email) = ''claw''"
    by (simp_all add: demo_flags_def)
  have "CreateStoreWithOwner (sn_bcrypt demo_setup_env) (sn_fails demo_setup_env) (sn_ids demo_setup_env)
      (sn_now demo_setup_env) sn ph ''claw'' email ''longenough'' nm empty_db
    = (Inr (''s1'', user_of (new_user ''u1'' 0 ''s1'' email ''longenough'' nm [])),
       empty_db\<lparr>t_stores := [new_store ''s1'' sn ph (NormalizeStoreType ''claw'')],
         t_users := [new_user ''u1'' 0 ''s1'' email ''longenough'' nm []]\<rparr>)" for sn ph nm
    using n by (simp add: demo_setup_env_def CreateStoreWithOwner_def tx_def and_then_def insert_store_def insert_user_def
        new_user_def new_store_def empty_db_def)
  then show ?thesis
    using assms b v flags
    by (simp add: setup_main_def demo_password found_shop_def in_tables_def user_of_def new_user_def)
qed

lemma setup_does_one_thing_witness:
  "\<exists>p'. setup_main demo_setup_env (demo_flags ''a'') demo_server = ((0, Founded ''s1'' ''u1'' ''a''), p')
     \<and> us_email ` set (t_users (tables p')) \<supseteq> {''a''}"
proof -
  obtain p' where p': "setup_main demo_setup_env (demo_flags ''a'') demo_server = ((0, Founded ''s1'' ''u1'' ''a''), p')"
    using demo_founds [of "''a''"] by auto
  have "''a'' \<in> us_email ` set (t_users (tables p'))"
    using setup_does_one_thing [OF p'] by (auto simp: new_user_def)
  with p' show ?thesis by auto
qed

lemma founder_logs_in_witness:
  "\<exists>p q. setup_main demo_setup_env (demo_flags ''boss'') demo_server = ((0, Founded ''s1'' ''u1'' ''boss''), p)
     \<and> (\<exists>res d. fst (handleLogin rev [] (sn_bcrypt demo_setup_env) (\<lambda>r. r) (False, False) 0 0
          (Some (''boss'', ''longenough'')) (tables p)) = (Done res, d) \<and> me_id res = ''u1'')
     \<and> setup_main demo_setup_env (demo_flags ''Boss'') demo_server = ((0, Founded ''s1'' ''u1'' ''Boss''), q)
     \<and> \<not> (\<exists>res d. fst (handleLogin rev [] (sn_bcrypt demo_setup_env) (\<lambda>r. r) (False, False) 0 0
          (Some (''Boss'', ''longenough'')) (tables q)) = (Done res, d) \<and> me_id res = ''u1'')"
proof -
  obtain p where p: "setup_main demo_setup_env (demo_flags ''boss'') demo_server = ((0, Founded ''s1'' ''u1'' ''boss''), p)"
    using demo_founds [of "''boss''"] by auto
  obtain q where q: "setup_main demo_setup_env (demo_flags ''Boss'') demo_server = ((0, Founded ''s1'' ''u1'' ''Boss''), q)"
    using demo_founds [of "''Boss''"] by auto
  have bc: "bc_compare (sn_bcrypt demo_setup_env) h pw" if "bc_generate (sn_bcrypt demo_setup_env) pw = Some h" for h pw
    using that by (simp add: demo_setup_env_def)
  have a: "is_ascii ''boss''" "is_ascii ''Boss''" by (simp_all add: is_ascii_def byte_def)
  have low: "TrimSpace (ToLower lc ''boss'') = ''boss''" "TrimSpace (ToLower lc ''Boss'') = ''boss''" for lc
  proof -
    have "map ascii_lower ''boss'' = ''boss''" "map ascii_lower ''Boss'' = ''boss''" by code_simp+
    with a show "TrimSpace (ToLower lc ''boss'') = ''boss''" "TrimSpace (ToLower lc ''Boss'') = ''boss''"
      by (simp_all add: ToLower_ascii TrimSpace_ascii byte_def is_space_def)
  qed
  have e: "sf_email (demo_flags m) = m" for m by (simp add: demo_flags_def)
  note in1 = founder_logs_in [OF p demo_password bc, of rev "[]" "\<lambda>r. r" 0 0]
  note in2 = founder_logs_in [OF q demo_password bc, of rev "[]" "\<lambda>r. r" 0 0]
  show ?thesis using p q in1 in2 unfolding e low by auto
qed

end
