(* ===== verification/Http_Server.thy ===== *)
theory Http_Server
  imports App_Build Http_Public
begin

text \<open>
  \<^verbatim>\<open>internal/httpapi/server.go\<close> (\<open>New\<close> and the chain around the router), \<^verbatim>\<open>middleware.go\<close>
  and \<^verbatim>\<open>render.go\<close>: what the server takes over from the settings, and what happens to every
  request and answer, panics included.
\<close>

section \<open>The server's settings\<close>

definition policy_of :: "ConfigPolicy \<Rightarrow> Policy" where
  "policy_of p = \<lparr>ReviewThresholdKRW = pc_ReviewThresholdKRW p, RepeatWatchCount = pc_RepeatWatchCount p,
     RepeatHoldCount = pc_RepeatHoldCount p, AccountSharingPhones = pc_AccountSharingPhones p,
     PayoutCeilingKRW = pc_PayoutCeilingKRW p, MaxAmountKRW = pc_MaxAmountKRW p,
     RapidDuplicateWindow = RapidDuplicateWindow DefaultPolicy\<rparr>"

text \<open>The keyed hashes and the tables of the standard library are arguments.\<close>

definition New_server ::
  "(string \<Rightarrow> string \<Rightarrow> string) \<Rightarrow> (nat \<Rightarrow> nat) \<Rightarrow> (string \<Rightarrow> instant option) \<Rightarrow> App \<Rightarrow> server" where
  "New_server hmac upper parse a =
    \<lparr>sv_sec = \<lparr>sec_aead = ap_Cipher a, sec_hash = Hash hmac (ap_Pepper a)\<rparr>,
     sv_policy = policy_of (g_Policy (ap_Config a)), sv_root = ap_Media a,
     sv_retention = pc_PhotoRetentionDays (g_Policy (ap_Config a)),
     sv_mac = hmac (g_SessionSecret (ap_Config a)), sv_base = g_PublicBaseURL (ap_Config a),
     sv_upper = upper, sv_parse = parse\<rparr>"

text \<open>The defaults of the settings are the defaults of the risk rules.\<close>

lemma default_policy:
  assumes "LoadFrom l get = Inr c"
    and "\<And>n. HasPrefix n ''POLICY_'' \<Longrightarrow> get n = []"
  shows "policy_of (g_Policy c) = DefaultPolicy"
proof -
  have "get n = []" if "n \<in> {''POLICY_REVIEW_THRESHOLD_KRW'', ''POLICY_REPEAT_WATCH_COUNT'', ''POLICY_REPEAT_HOLD_COUNT'',
      ''POLICY_ACCOUNT_SHARING_PHONES'', ''POLICY_PAYOUT_CEILING_KRW'', ''POLICY_MAX_AMOUNT_KRW''}" for n
    using that assms(2) by (auto simp: HasPrefix_def)
  then show ?thesis
    by (simp add: LoadFrom_keys(1) [OF assms(1)] config_of_def intVal_def policy_of_def DefaultPolicy_def)
qed

section \<open>Answers\<close>

text \<open>
  A response writer: headers that are still open, and once sent, the status and the headers that
  went out with it. Sending twice has no effect.
\<close>

record writer =
  wr_open :: "(string \<times> string) list"
  wr_sent :: "(nat \<times> (string \<times> string) list) option"
  wr_body :: string

definition set_header :: "string \<Rightarrow> string \<Rightarrow> writer \<Rightarrow> writer" where
  "set_header k v w = w\<lparr>wr_open := (k, v) # filter (\<lambda>h. fst h \<noteq> k) (wr_open w)\<rparr>"

definition write_header :: "nat \<Rightarrow> writer \<Rightarrow> writer" where
  "write_header status w =
    (case wr_sent w of None \<Rightarrow> w\<lparr>wr_sent := Some (status, wr_open w)\<rparr> | Some _ \<Rightarrow> w)"

definition write_bytes :: "string \<Rightarrow> writer \<Rightarrow> writer" where
  "write_bytes s w = (let w1 = write_header 200 w in w1\<lparr>wr_body := wr_body w1 @ s\<rparr>)"

text \<open>The JSON text is an argument; \<open>None\<close> is a value that is not there.\<close>

definition writeJSON :: "nat \<Rightarrow> string option \<Rightarrow> writer \<Rightarrow> writer" where
  "writeJSON status v w =
    (let w1 = write_header status (set_header ''Content-Type'' ''application/json; charset=utf-8'' w)
     in case v of None \<Rightarrow> w1 | Some s \<Rightarrow> write_bytes s w1)"

definition writeError :: "(string \<Rightarrow> string \<Rightarrow> string) \<Rightarrow> nat \<Rightarrow> string \<Rightarrow> string \<Rightarrow> writer \<Rightarrow> writer" where
  "writeError json status code message w = writeJSON status (Some (json code message)) w"

section \<open>The chain\<close>

text \<open>A request's identifier and its body; reading beyond a limit fails.\<close>

record request =
  rr_id :: string
  rr_body :: string
  rr_limit :: "nat option"

definition read_body :: "request \<Rightarrow> string option" where
  "read_body r = (case rr_limit r of None \<Rightarrow> Some (rr_body r)
     | Some n \<Rightarrow> if length (rr_body r) \<le> n then Some (rr_body r) else None)"

text \<open>A handler ends or panics, with what it has written and done.\<close>

type_synonym 'w handler = "request \<Rightarrow> writer \<Rightarrow> 'w \<Rightarrow> bool \<times> writer \<times> 'w"

definition hms_millis :: "zone \<Rightarrow> instant \<Rightarrow> string" where
  "hms_millis z t = filter (\<lambda>c. c \<noteq> CHR '':'') (format_clock z t) @ ''.'' @ pad 3 (day_nanos z t mod Second div 1000000)"

text \<open>Eight random bytes, or the time of day when there are none.\<close>

definition request_id :: "zone \<Rightarrow> instant \<Rightarrow> string option \<Rightarrow> string" where
  "request_id z now rnd = HexEncode (case rnd of Some b \<Rightarrow> b | None \<Rightarrow> hms_millis z now)"

definition withRequestID :: "zone \<Rightarrow> instant \<Rightarrow> string option \<Rightarrow> 'w handler \<Rightarrow> 'w handler" where
  "withRequestID z now rnd next' r w st =
    (let i = request_id z now rnd in next' (r\<lparr>rr_id := i\<rparr>) (set_header ''X-Request-Id'' i w) st)"

definition panic_text :: string where
  "panic_text = u8 [0xCC98, 0xB9AC, 0x20, 0xC911, 0x20, 0xBB38, 0xC81C, 0xAC00, 0x20, 0xC0DD, 0xACBC, 0xC2B5, 0xB2C8, 0xB2E4, 0x2E, 0x20, 0xC7A0, 0xC2DC, 0x20, 0xD6C4, 0x20, 0xB2E4, 0xC2DC, 0x20, 0xC2DC, 0xB3C4, 0xD574, 0xC8FC, 0xC138, 0xC694, 0x2E]"

definition withRecover :: "(string \<Rightarrow> string \<Rightarrow> string) \<Rightarrow> 'w handler \<Rightarrow> 'w handler" where
  "withRecover json next' r w st =
    (case next' r w st of
       (False, w', st') \<Rightarrow> (False, w', st')
     | (True, w', st') \<Rightarrow> (False, writeError json 500 ''internal_error''
         panic_text w', st'))"

definition withMaxBytes :: "nat \<Rightarrow> 'w handler \<Rightarrow> 'w handler" where
  "withMaxBytes limit next' r w st = next' (r\<lparr>rr_limit := Some limit\<rparr>) w st"

definition maxRequestBytes :: nat where "maxRequestBytes = 16 * 2 ^ 20"

definition around :: "(string \<Rightarrow> string \<Rightarrow> string) \<Rightarrow> zone \<Rightarrow> instant \<Rightarrow> string option \<Rightarrow> 'w handler \<Rightarrow> 'w handler" where
  "around json z now rnd mux = withRequestID z now rnd (withRecover json (withMaxBytes maxRequestBytes mux))"

definition healthz :: "'w handler" where
  "healthz r w st = (False, writeJSON 200 (Some (''{\"status\":\"ok\"}'' @ nl)) w, st)"

definition fresh_writer :: writer where
  "fresh_writer = \<lparr>wr_open = [], wr_sent = None, wr_body = []\<rparr>"

lemma writeError_sent:
  "wr_sent w = Some x \<Longrightarrow> wr_sent (writeError json status code message w) = Some x"
  "wr_sent w = None \<Longrightarrow> map_option fst (wr_sent (writeError json status code message w)) = Some status"
  by (simp_all add: writeError_def writeJSON_def write_header_def write_bytes_def set_header_def Let_def)

text \<open>
  No panic gets past the chain: the inner handler runs once, behind the limit; its answer is
  passed on, and when it panics before answering, the answer is the general error with status 500.
\<close>

lemma panics_do_not_escape:
  fixes mux :: "'w handler" and r :: request and w :: writer and z now rnd
  defines "r1 \<equiv> r\<lparr>rr_id := request_id z now rnd, rr_limit := Some maxRequestBytes\<rparr>"
    and "w1 \<equiv> set_header ''X-Request-Id'' (request_id z now rnd) w"
  shows "\<exists>p w2 st2 w3. mux r1 w1 st = (p, w2, st2)
    \<and> around json z now rnd mux r w st = (False, w3, st2) \<and> (\<not> p \<longrightarrow> w3 = w2)
    \<and> (wr_sent w2 \<noteq> None \<longrightarrow> wr_sent w3 = wr_sent w2)
    \<and> (p \<and> wr_sent w2 = None \<longrightarrow> map_option fst (wr_sent w3) = Some 500)"
proof -
  obtain p w2 st2 where run: "mux r1 w1 st = (p, w2, st2)" by (metis prod_cases3)
  have step: "around json z now rnd mux r w st = (case mux r1 w1 st of
      (False, w', st') \<Rightarrow> (False, w', st')
    | (True, w', st') \<Rightarrow> (False, writeError json 500 ''internal_error'' panic_text w', st'))"
    by (simp add: around_def withRequestID_def withRecover_def withMaxBytes_def Let_def r1_def w1_def)
  define w3 where "w3 = (if p then writeError json 500 ''internal_error'' panic_text w2 else w2)"
  have "around json z now rnd mux r w st = (False, w3, st2)" using run by (simp add: step w3_def split: bool.split)
  moreover have "wr_sent w2 \<noteq> None \<longrightarrow> wr_sent w3 = wr_sent w2"
    by (auto simp: w3_def writeError_sent)
  moreover have "p \<and> wr_sent w2 = None \<longrightarrow> map_option fst (wr_sent w3) = Some 500"
    by (simp add: w3_def writeError_sent del: map_option_eq_Some)
  ultimately show ?thesis using run unfolding w3_def [symmetric] by (intro exI conjI) (assumption | simp add: w3_def)+
qed

text \<open>The identifier of the request goes out with every answer that leaves that header alone.\<close>

lemma answer_carries_id:
  "wr_sent (writeJSON status v (set_header ''X-Request-Id'' i fresh_writer))
    = Some (status, [(''Content-Type'', ''application/json; charset=utf-8''), (''X-Request-Id'', i)])"
  by (simp add: writeJSON_def set_header_def write_header_def write_bytes_def fresh_writer_def Let_def split: option.split)

text \<open>Sixteen hexadecimal digits, or twenty when there was no randomness.\<close>

lemma HexEncode_length: "length (HexEncode s) = 2 * length s"
  by (induction s) (simp_all add: HexEncode_def)

lemma request_id_length: "length b = 8 \<Longrightarrow> length (request_id z now (Some b)) = 16"
  by (simp add: request_id_def HexEncode_length)

end
