(* ===== verification/Isolation.thy ===== *)
theory Isolation
  imports Store_Queries Store_Machines Store_Stats Store_Inventory
begin

text \<open>
  Several shops in one database. Nothing in the tables keeps them apart but the store column in
  every statement of \<^verbatim>\<open>internal/store\<close>; here the statements of all components are put together:
  what one shop's pages show does not depend on what happens at the others.
\<close>

section \<open>The part of one shop\<close>

definition own_ids :: "string \<Rightarrow> db \<Rightarrow> string set" where
  "own_ids s d = c_id ` set (claims_of s d)"

text \<open>An account without its counters of failed logins.\<close>

definition settled :: "UserRow \<Rightarrow> UserRow" where
  "settled u = u\<lparr>us_failed := 0, us_locked_until := None\<rparr>"

text \<open>The market and the push subscriptions are shared, and left out.\<close>

definition shop :: "string \<Rightarrow> db \<Rightarrow> db" where
  "shop s d = \<lparr>t_stores = filter (\<lambda>x. st_id x = s) (t_stores d),
     t_users = map settled (filter (\<lambda>u. us_store u = s) (t_users d)),
     t_machines = filter (\<lambda>m. mc_StoreID m = s) (t_machines d), t_claims = claims_of s d,
     t_photos = filter (\<lambda>p. ph_claim p \<in> own_ids s d) (t_photos d),
     t_events = filter (\<lambda>e. ev_ClaimID e \<in> own_ids s d) (t_events d),
     t_flags = filter (\<lambda>f. fl_store f = s) (t_flags d),
     t_purchases = filter (\<lambda>p. pu_store p = s) (t_purchases d),
     t_adjust = filter (\<lambda>a. ad_store a = s) (t_adjust d),
     t_listings = [], t_lcontacts = [], t_reports = [], t_push = [], t_versions = []\<rparr>"

text \<open>
  What the foreign keys and the guards keep: a claim is at a machine of its shop, purchases and
  counts are by accounts of their shop, and the keys are unique.
\<close>

definition homed :: "db \<Rightarrow> bool" where
  "homed d \<longleftrightarrow> distinct (map c_id (t_claims d)) \<and> distinct (map mc_ID (t_machines d)) \<and> distinct (map us_id (t_users d))
     \<and> (\<forall>r \<in> set (t_claims d). (c_machine r, c_store r) \<in> (\<lambda>m. (mc_ID m, mc_StoreID m)) ` set (t_machines d))
     \<and> (\<forall>p \<in> set (t_purchases d). pu_by p = None \<or> (the (pu_by p), pu_store p) \<in> (\<lambda>u. (us_id u, us_store u)) ` set (t_users d))
     \<and> (\<forall>a \<in> set (t_adjust d). ad_by a = None \<or> (the (ad_by a), ad_store a) \<in> (\<lambda>u. (us_id u, us_store u)) ` set (t_users d))"

section \<open>What a shop reads is in its part\<close>

lemma find_filter: "(\<And>x. x \<in> set xs \<Longrightarrow> P x \<Longrightarrow> Q x) \<Longrightarrow> find P (filter Q xs) = find P xs"
  by (induction xs) auto

lemma claims_of_shop [simp]: "claims_of s (shop s d) = claims_of s d"
  by (simp add: claims_of_def shop_def)

lemma shop_sel [simp]:
  "t_stores (shop s d) = filter (\<lambda>x. st_id x = s) (t_stores d)"
  "t_users (shop s d) = map settled (filter (\<lambda>u. us_store u = s) (t_users d))"
  "t_machines (shop s d) = filter (\<lambda>m. mc_StoreID m = s) (t_machines d)"
  "t_claims (shop s d) = claims_of s d"
  "t_photos (shop s d) = filter (\<lambda>p. ph_claim p \<in> own_ids s d) (t_photos d)"
  "t_events (shop s d) = filter (\<lambda>e. ev_ClaimID e \<in> own_ids s d) (t_events d)"
  "t_flags (shop s d) = filter (\<lambda>f. fl_store f = s) (t_flags d)"
  "t_purchases (shop s d) = filter (\<lambda>p. pu_store p = s) (t_purchases d)"
  "t_adjust (shop s d) = filter (\<lambda>a. ad_store a = s) (t_adjust d)"
  by (simp_all add: shop_def)

lemma settled_sel [simp]:
  "us_id (settled u) = us_id u" "us_store (settled u) = us_store u" "us_name (settled u) = us_name u"
  "us_created (settled u) = us_created u" "us_active (settled u) = us_active u" "user_of (settled u) = user_of u"
  by (simp_all add: settled_def user_of_def)

lemma homed_machine:
  assumes "homed d" "r \<in> set (t_claims d)" "m \<in> set (t_machines d)" "mc_ID m = c_machine r"
  shows "mc_StoreID m = c_store r"
proof -
  obtain m' where m': "m' \<in> set (t_machines d)" "mc_ID m' = c_machine r" "mc_StoreID m' = c_store r"
    using assms(1,2) unfolding homed_def by auto
  have "m' = m" using assms m' unfolding homed_def by (metis (no_types, lifting) distinct_map inj_onD)
  with m' show ?thesis by simp
qed

lemma homed_user:
  assumes "homed d" "u \<in> set (t_users d)"
  shows "p \<in> set (t_purchases d) \<Longrightarrow> pu_by p = Some (us_id u) \<Longrightarrow> us_store u = pu_store p"
    and "a \<in> set (t_adjust d) \<Longrightarrow> ad_by a = Some (us_id u) \<Longrightarrow> us_store u = ad_store a"
proof -
  have one: "us_store u = x" if home: "(us_id u, x) \<in> (\<lambda>u. (us_id u, us_store u)) ` set (t_users d)" for x
  proof -
    obtain v where v: "v \<in> set (t_users d)" "us_id v = us_id u" "us_store v = x" using home by auto
    have "v = u" using assms v unfolding homed_def by (metis (no_types, lifting) distinct_map inj_onD)
    with v show ?thesis by simp
  qed
  show "us_store u = pu_store p" if "p \<in> set (t_purchases d)" "pu_by p = Some (us_id u)"
    using assms(1) that one unfolding homed_def by (metis option.sel option.distinct(1))
  show "us_store u = ad_store a" if "a \<in> set (t_adjust d)" "ad_by a = Some (us_id u)"
    using assms(1) that one unfolding homed_def by (metis option.sel option.distinct(1))
qed

lemma find_machine_shop:
  assumes "homed d" "r \<in> set (claims_of s d)"
  shows "find_machine (c_machine r) (shop s d) = find_machine (c_machine r) d"
  unfolding find_machine_def shop_sel
  using assms by (intro find_filter) (auto simp: claims_of_def dest: homed_machine)

lemma user_name_shop:
  assumes "homed d"
  shows "p \<in> set (t_purchases d) \<Longrightarrow> pu_store p = s \<Longrightarrow> user_name (shop s d) (pu_by p) = user_name d (pu_by p)"
    and "a \<in> set (t_adjust d) \<Longrightarrow> ad_store a = s \<Longrightarrow> user_name (shop s d) (ad_by a) = user_name d (ad_by a)"
proof -
  have map_find: "find P (map settled us) = map_option settled (find P us)" if "\<And>u. P (settled u) = P u" for P us
    using that by (induction us) auto
  have one: "user_name (shop s d) by' = user_name d by'"
    if "\<And>u. u \<in> set (t_users d) \<Longrightarrow> by' = Some (us_id u) \<Longrightarrow> us_store u = s" for by'
  proof (cases by')
    case (Some uid)
    have "find (\<lambda>u. us_id u = uid) (filter (\<lambda>u. us_store u = s) (t_users d)) = find (\<lambda>u. us_id u = uid) (t_users d)"
      using that Some by (intro find_filter) auto
    with Some show ?thesis by (simp add: user_name_def map_find split: option.split)
  qed (simp add: user_name_def)
  show "user_name (shop s d) (pu_by p) = user_name d (pu_by p)" if "p \<in> set (t_purchases d)" "pu_store p = s"
    using homed_user(1) [OF assms _ that(1)] that(2) by (intro one) simp
  show "user_name (shop s d) (ad_by a) = user_name d (ad_by a)" if "a \<in> set (t_adjust d)" "ad_store a = s"
    using homed_user(2) [OF assms _ that(1)] that(2) by (intro one) simp
qed

lemma rows_shop [simp]:
  "bought_rows s key (shop s d) = bought_rows s key d" "count_rows s key (shop s d) = count_rows s key d"
  "stocked_keys s (shop s d) = stocked_keys s d" "costs_fit s (shop s d) = costs_fit s d"
  by (simp_all add: bought_rows_def count_rows_def stocked_keys_def costs_fit_def conj_ac cong: conj_cong)

lemma inventory_shop [simp]: "inventory_row s (shop s d) = inventory_row s d"
  by (rule ext) (unfold inventory_row_def qty_on_hand_def last_count_def rows_shop, rule refl)

lemma stock_pages_shop:
  assumes "homed d"
  shows "InventoryFor f s (shop s d) = InventoryFor f s d" "InventoryItem f s key (shop s d) = InventoryItem f s key d"
    "InventorySummaryFor fs s a b (shop s d) = InventorySummaryFor fs s a b d"
    "DollNameSuggestions lc f s q n (shop s d) = DollNameSuggestions lc f s q n d"
    "VendorSuggestions f s n (shop s d) = VendorSuggestions f s n d"
    "ListPurchases f s key n (shop s d) = ListPurchases f s key n d"
    "AdjustmentsFor f s key (shop s d) = AdjustmentsFor f s key d"
proof -
  show "InventoryFor f s (shop s d) = InventoryFor f s d" for f
    by (simp add: InventoryFor_def [abs_def])
  then show "InventorySummaryFor fs s a b (shop s d) = InventorySummaryFor fs s a b d"
    by (simp add: InventorySummaryFor_def Let_def conj_ac cong: conj_cong)
  show "InventoryItem f s key (shop s d) = InventoryItem f s key d" by (simp add: InventoryItem_def)
  show "DollNameSuggestions lc f s q n (shop s d) = DollNameSuggestions lc f s q n d" by (simp add: DollNameSuggestions_def)
  show "VendorSuggestions f s n (shop s d) = VendorSuggestions f s n d"
    by (simp add: VendorSuggestions_def conj_ac cong: conj_cong)
  have pu: "purchase_of (shop s d) r = purchase_of d r" if "r \<in> set (t_purchases d)" "pu_store r = s" for r
    using user_name_shop(1) [OF assms that] by (simp add: purchase_of_def)
  show "ListPurchases f s key n (shop s d) = ListPurchases f s key n d"
    by (auto simp: ListPurchases_def purchaseQuery_def Let_def conj_ac cong: conj_cong
        intro!: arg_cong [where f = "map _"] map_cong pu dest: in_set_takeD)
  show "AdjustmentsFor f s key (shop s d) = AdjustmentsFor f s key d"
    by (auto simp: AdjustmentsFor_def count_rows_def intro!: map_cong user_name_shop(2) [OF assms] dest!: in_set_takeD)
qed

lemma own_rows_shop [simp]:
  "filter (\<lambda>r. c_store r = s \<and> P r) (claims_of s d) = filter (\<lambda>r. c_store r = s \<and> P r) (t_claims d)"
  "filter (\<lambda>r. c_store r = s) (claims_of s d) = claims_of s d"
  by (simp_all add: claims_of_def conj_ac cong: conj_cong)

lemma machine_rows_shop:
  assumes "homed d" "m \<in> set (t_machines d)" "mc_StoreID m = s"
  shows "filter (\<lambda>r. c_machine r = mc_ID m \<and> P r) (claims_of s d) = filter (\<lambda>r. c_machine r = mc_ID m \<and> P r) (t_claims d)"
  unfolding claims_of_def filter_filter
  using homed_machine [OF assms(1) _ assms(2)] assms(3) by (intro filter_cong) auto

lemmas machine_claims_shop = machine_rows_shop [where P = "\<lambda>_. True", simplified]

lemma counting_pages_shop:
  assumes "homed d"
  shows "DailyStats z c f s a b (shop s d) = DailyStats z c f s a b d"
    "HomeSummaryFor z fl s now (shop s d) = HomeSummaryFor z fl s now d"
    "SettlementFor z fl s a b n (shop s d) = SettlementFor z fl s a b n d"
    "MachineAlertsFor f s th now (shop s d) = MachineAlertsFor f s th now d"
proof -
  show "DailyStats z c f s a b (shop s d) = DailyStats z c f s a b d" by (simp add: DailyStats_def)
  have "approvals_waiting s (shop s d) = approvals_waiting s d"
    unfolding approvals_waiting_def claims_of_shop shop_sel filter_filter
    by (intro arg_cong [where f = "map _"] filter_cong) (auto simp: own_ids_def)
  then show "HomeSummaryFor z fl s now (shop s d) = HomeSummaryFor z fl s now d"
    by (simp add: HomeSummaryFor_def Let_def)
  have "settlement_machine n x y (shop s d) m = settlement_machine n x y d m"
    if "m \<in> set (t_machines d)" "mc_StoreID m = s" for x y m
    by (simp add: settlement_machine_def machine_rows_shop [OF assms that])
  then have ms: "map (settlement_machine n x y (shop s d)) (filter (\<lambda>m. mc_StoreID m = s \<and> mc_Active m) (t_machines (shop s d)))
      = map (settlement_machine n x y d) (filter (\<lambda>m. mc_StoreID m = s \<and> mc_Active m) (t_machines d))" for x y
    by (auto simp: conj_ac cong: conj_cong)
  show "SettlementFor z fl s a b n (shop s d) = SettlementFor z fl s a b n d"
    unfolding SettlementFor_def Let_def ms claims_of_shop ..
  have near: "mc_StoreID m = s" if m: "m \<in> set (t_machines d)" and n: "0 < count_of (\<lambda>r. c_machine r = mc_ID m) (filter P (claims_of s d))" for m P
  proof -
    obtain r where "r \<in> set (claims_of s d)" "c_machine r = mc_ID m"
      using n by (auto simp: count_of_def filter_empty_conv)
    then show ?thesis using homed_machine [OF assms _ m] by (auto simp: claims_of_def)
  qed
  have "filter (\<lambda>m. 0 < count_of (\<lambda>r. c_machine r = mc_ID m) (filter P (claims_of s d)) \<and> Q m) (t_machines (shop s d))
      = filter (\<lambda>m. 0 < count_of (\<lambda>r. c_machine r = mc_ID m) (filter P (claims_of s d)) \<and> Q m) (t_machines d)" for P Q
    unfolding shop_sel filter_filter by (rule filter_cong [OF refl]) (auto dest: near)
  then show "MachineAlertsFor f s th now (shop s d) = MachineAlertsFor f s th now d"
    unfolding MachineAlertsFor_def Let_def claims_of_shop by simp
qed

lemma sort_key_map: "sort_key f (map g xs) = map g (sort_key (\<lambda>x. f (g x)) xs)"
proof -
  have "insort_key f (g x) (map g ys) = map g (insort_key (\<lambda>x. f (g x)) x ys)" for x ys
    by (induction ys) auto
  then show ?thesis by (induction xs) simp_all
qed

lemma people_pages_shop:
  shows "ListUsers s (shop s d) = ListUsers s d" "StoreByID k f s (shop s d) = StoreByID k f s d"
    "ListContacts k f s (shop s d) = ListContacts k f s d"
proof -
  have "filter (\<lambda>u. us_store u = s) (t_users (shop s d)) = map settled (filter (\<lambda>u. us_store u = s) (t_users d))"
    by (simp add: filter_map comp_def)
  then show "ListUsers s (shop s d) = ListUsers s d"
    by (simp add: ListUsers_def Let_def sort_key_map filter_map comp_def)
  show "StoreByID k f s (shop s d) = StoreByID k f s d"
    by (simp add: StoreByID_def find_filter)
  have "contact_of k s (shop s d) = contact_of k s d"
  proof
    fix h
    have "find (\<lambda>f. fl_hash f = h \<and> fl_kind f = ''phone'' \<and> fl_store f = s) (t_flags (shop s d))
      = find (\<lambda>f. fl_hash f = h \<and> fl_kind f = ''phone'' \<and> fl_store f = s) (t_flags d)"
      unfolding shop_sel by (rule find_filter) simp
    then show "contact_of k s (shop s d) h = contact_of k s d h" by (simp only: contact_of_def shop_sel(4) own_rows_shop)
  qed
  moreover have "filter (\<lambda>r. c_store r = s) (t_claims (shop s d)) = filter (\<lambda>r. c_store r = s) (t_claims d)"
    by (simp add: claims_of_def)
  ultimately show "ListContacts k f s (shop s d) = ListContacts k f s d"
    by (simp only: ListContacts_def)
qed

lemma collect_cong: "(\<And>x. x \<in> set xs \<Longrightarrow> f x = g x) \<Longrightarrow> collect f xs = collect g xs"
  by (induction xs) (auto split: sum.split)

lemma desk_pages_shop:
  assumes "homed d"
  shows "cf_StoreID f = s \<Longrightarrow> ListClaims k parse fl f (shop s d) = ListClaims k parse fl f d"
    and "ListMachines z now fs s (shop s d) = ListMachines z now fs s d"
proof -
  show "ListClaims k parse fl f (shop s d) = ListClaims k parse fl f d" if f: "cf_StoreID f = s"
  proof -
    have own: "claim_matches f r \<Longrightarrow> c_store r = s" for r using f by (simp add: claim_matches_def)
    have "(c_store r = s \<and> claim_matches f r \<and> find_machine (c_machine r) (shop s d) \<noteq> None \<and> R)
        = (claim_matches f r \<and> find_machine (c_machine r) d \<noteq> None \<and> R)" if "r \<in> set (t_claims d)" for r R
      using that own [of r] find_machine_shop [OF assms, of r s]
      by (cases "claim_matches f r") (simp_all add: claims_of_def)
    then have "matching_rows f cur (shop s d) = matching_rows f cur d" for cur
      unfolding matching_rows_def shop_sel(4) claims_of_def filter_filter
      by (intro arg_cong [where f = "newest_first row_key"] filter_cong) blast+
    moreover have "summary_of k (shop s d) r = summary_of k d r" if "r \<in> set (claims_of s d)" for r
    proof -
      have "filter (\<lambda>p. ph_claim p = c_id r) (t_photos (shop s d)) = filter (\<lambda>p. ph_claim p = c_id r) (t_photos d)"
        unfolding shop_sel filter_filter using that by (intro filter_cong) (auto simp: own_ids_def)
      then show ?thesis by (simp only: summary_of_def find_machine_shop [OF assms that])
    qed
    moreover have "set (take n (matching_rows f cur d)) \<subseteq> set (claims_of s d)" for n cur
      using f by (auto simp: matching_rows_def newest_first_def claim_matches_def claims_of_def dest!: in_set_takeD)
    ultimately have "collect (summary_of k (shop s d)) (take n (matching_rows f cur (shop s d)))
        = collect (summary_of k d) (take n (matching_rows f cur d))" for n cur
      by (metis (no_types, lifting) collect_cong subsetD)
    then show ?thesis by (simp only: ListClaims_def)
  qed
  show "ListMachines z now fs s (shop s d) = ListMachines z now fs s d"
  proof -
    have "machine_stat z now (shop s d) m = machine_stat z now d m" if "m \<in> set (t_machines d)" "mc_StoreID m = s" for m
      by (simp only: machine_stat_def machineDaily7d_def shop_sel machine_rows_shop [OF assms that] machine_claims_shop [OF assms that])
    then have "map (machine_stat z now (shop s d)) (filter (\<lambda>m. mc_StoreID m = s) (t_machines d))
      = map (machine_stat z now d) (filter (\<lambda>m. mc_StoreID m = s) (t_machines d))" by auto
    moreover have "filter (\<lambda>m. mc_StoreID m = s) (t_machines (shop s d)) = filter (\<lambda>m. mc_StoreID m = s) (t_machines d)" by simp
    ultimately show ?thesis by (simp only: ListMachines_def Let_def)
  qed
qed

section \<open>What the others do\<close>

text \<open>
  One statement or transaction run for another shop: by its staff, whose account and shop the
  session gives, by a customer at one of its machines, by a new owner, or by somebody who tries
  a password, on whatever account. \<open>Shared\<close> is everything on the market and the push
  subscriptions. Requests run between these steps, so the steps themselves are undisturbed.
\<close>

definition account_of :: "db \<Rightarrow> string \<Rightarrow> string \<Rightarrow> bool" where
  "account_of d uid x \<longleftrightarrow> (uid, x) \<in> (\<lambda>u. (us_id u, us_store u)) ` set (t_users d)"

definition machine_of :: "db \<Rightarrow> string \<Rightarrow> string \<Rightarrow> bool" where
  "machine_of d mid x \<longleftrightarrow> (mid, x) \<in> (\<lambda>m. (mc_ID m, mc_StoreID m)) ` set (t_machines d)"

inductive elsewhere :: "string \<Rightarrow> db \<Rightarrow> db \<Rightarrow> bool" for s where
  Decided: "x \<noteq> s \<Longrightarrow> ev_ClaimID ev = cl_ID c \<Longrightarrow> ApplyTransition fs ok x c ev d = (r, d') \<Longrightarrow> elsewhere s d d'"
| Looked: "x \<noteq> s \<Longrightarrow> ClaimByID k fs now t x cid who d = (r, d') \<Longrightarrow> elsewhere s d d'"
| MachineAdded: "x \<noteq> s \<Longrightarrow> CreateMachine as x l loc d = (r, d') \<Longrightarrow> elsewhere s d d'"
| MachineEdited: "x \<noteq> s \<Longrightarrow> UpdateMachine f x mid l loc act d = (r, d') \<Longrightarrow> elsewhere s d d'"
| Profile: "x \<noteq> s \<Longrightarrow> UpdateUser f x uid n ph d = (r, d') \<Longrightarrow> elsewhere s d d'"
| AccountAdded: "x \<noteq> s \<Longrightarrow> CreateUser bc f uid now x em pw n ph d = (r, d') \<Longrightarrow> elsewhere s d d'"
| AccountSwitched: "x \<noteq> s \<Longrightarrow> SetUserActive fs id x uid act d = (r, d') \<Longrightarrow> elsewhere s d d'"
| ShopEdited: "x \<noteq> s \<Longrightarrow> UpdateStore k fs x p d = (r, d') \<Longrightarrow> elsewhere s d d'"
| PayoutEdited: "x \<noteq> s \<Longrightarrow> UpdatePayoutSettings k rnd fs x pay d = (r, d') \<Longrightarrow> elsewhere s d d'"
| Flagged: "x \<noteq> s \<Longrightarrow> SetContactStatus f now x h kind st nt who d = (r, d') \<Longrightarrow> elsewhere s d d'"
| Bought: "cp_StoreID i \<noteq> s \<Longrightarrow> account_of d (cp_UserID i) (cp_StoreID i) \<Longrightarrow> pe_before_select pe = id
    \<Longrightarrow> CreatePurchase lc pe i d = (r, d') \<Longrightarrow> elsewhere s d d'"
| Counted: "x \<noteq> s \<Longrightarrow> account_of d uid x \<Longrightarrow> je_between je = id
    \<Longrightarrow> AdjustInventory je x uid key n memo d = (r, d') \<Longrightarrow> elsewhere s d d'"
| Filed: "ci_StoreID ci \<noteq> s \<Longrightarrow> machine_of d (ci_MachineID ci) (ci_StoreID ci) \<Longrightarrow> quiet (fst es) \<Longrightarrow> quiet (snd es)
    \<Longrightarrow> CreateClaim k ns es ci d = (r, d') \<Longrightarrow> elsewhere s d d'"
| Founded: "fst ids \<noteq> s \<Longrightarrow> CreateStoreWithOwner bc fs3 ids now n ph ty em pw nm d = (r, d') \<Longrightarrow> elsewhere s d d'"
| Tried: "Authenticate bc fs now em pw d = (r, d') \<Longrightarrow> elsewhere s d d'"
| Shared: "d' = d\<lparr>t_listings := ls, t_lcontacts := cs, t_reports := rs, t_push := ps\<rparr> \<Longrightarrow> elsewhere s d d'"

section \<open>What the others leave alone\<close>

text \<open>Rewriting rows that are not the shop's keeps the shop's rows.\<close>

lemma filter_map_other:
  "(\<And>x. x \<in> set xs \<Longrightarrow> P x \<Longrightarrow> \<not> Q x \<and> \<not> Q (f x)) \<Longrightarrow> filter Q (map (\<lambda>x. if P x then f x else x) xs) = filter Q xs"
  by (induction xs) auto

lemma shop_cong:
  assumes "filter (\<lambda>x. st_id x = s) (t_stores d') = filter (\<lambda>x. st_id x = s) (t_stores d)"
    and "map settled (filter (\<lambda>u. us_store u = s) (t_users d')) = map settled (filter (\<lambda>u. us_store u = s) (t_users d))"
    and "filter (\<lambda>m. mc_StoreID m = s) (t_machines d') = filter (\<lambda>m. mc_StoreID m = s) (t_machines d)"
    and "claims_of s d' = claims_of s d"
    and "filter (\<lambda>p. ph_claim p \<in> own_ids s d) (t_photos d') = filter (\<lambda>p. ph_claim p \<in> own_ids s d) (t_photos d)"
    and "filter (\<lambda>e. ev_ClaimID e \<in> own_ids s d) (t_events d') = filter (\<lambda>e. ev_ClaimID e \<in> own_ids s d) (t_events d)"
    and "filter (\<lambda>f. fl_store f = s) (t_flags d') = filter (\<lambda>f. fl_store f = s) (t_flags d)"
    and "filter (\<lambda>p. pu_store p = s) (t_purchases d') = filter (\<lambda>p. pu_store p = s) (t_purchases d)"
    and "filter (\<lambda>a. ad_store a = s) (t_adjust d') = filter (\<lambda>a. ad_store a = s) (t_adjust d)"
  shows "shop s d' = shop s d"
proof -
  have "own_ids s d' = own_ids s d" using assms(4) by (simp add: own_ids_def)
  with assms show ?thesis by (simp add: shop_def)
qed

text \<open>What a step keeps: the shop's part, and everything in its place.\<close>

definition keeps :: "string \<Rightarrow> db \<Rightarrow> db \<Rightarrow> bool" where
  "keeps s d d' \<longleftrightarrow> (homed d \<longrightarrow> shop s d' = shop s d \<and> homed d')"

lemma keeps_refl [simp]: "keeps s d d" by (simp add: keeps_def)

text \<open>The invariant sees the keys only.\<close>

lemma homed_keys:
  "homed d \<longleftrightarrow> (let cs = map (\<lambda>r. (c_id r, c_machine r, c_store r)) (t_claims d);
      ms = map (\<lambda>m. (mc_ID m, mc_StoreID m)) (t_machines d); us = map (\<lambda>u. (us_id u, us_store u)) (t_users d)
    in distinct (map fst cs) \<and> distinct (map fst ms) \<and> distinct (map fst us)
      \<and> snd ` set cs \<subseteq> set ms
      \<and> (\<forall>p \<in> set (t_purchases d). pu_by p = None \<or> (the (pu_by p), pu_store p) \<in> set us)
      \<and> (\<forall>a \<in> set (t_adjust d). ad_by a = None \<or> (the (ad_by a), ad_store a) \<in> set us))"
  by (auto simp: homed_def Let_def comp_def image_subset_iff)

lemma homed_same:
  assumes "map (\<lambda>r. (c_id r, c_machine r, c_store r)) (t_claims d') = map (\<lambda>r. (c_id r, c_machine r, c_store r)) (t_claims d)"
    and "map (\<lambda>m. (mc_ID m, mc_StoreID m)) (t_machines d') = map (\<lambda>m. (mc_ID m, mc_StoreID m)) (t_machines d)"
    and "map (\<lambda>u. (us_id u, us_store u)) (t_users d') = map (\<lambda>u. (us_id u, us_store u)) (t_users d)"
    and "t_purchases d' = t_purchases d" "t_adjust d' = t_adjust d"
  shows "homed d' = homed d"
  unfolding homed_keys assms ..

lemma map_row_keys:
  "(\<And>x. x \<in> set xs \<Longrightarrow> P x \<Longrightarrow> key (f x) = key x) \<Longrightarrow> map key (map (\<lambda>x. if P x then f x else x) xs) = map key xs"
  by auto

lemma keeps_users:
  assumes "update_users fail P f d = (r, d')"
    and "\<And>u. P u \<Longrightarrow> us_id (f u) = us_id u \<and> us_store (f u) = us_store u \<and> (us_store u = s \<longrightarrow> settled (f u) = settled u)"
  shows "keeps s d d'"
proof (cases fail)
  case False
  then have d': "d' = d\<lparr>t_users := map (\<lambda>u. if P u then f u else u) (t_users d)\<rparr>"
    using assms(1) by (simp add: update_users_def)
  have "map settled (filter (\<lambda>u. us_store u = s) (map (\<lambda>u. if P u then f u else u) us))
      = map settled (filter (\<lambda>u. us_store u = s) us)" for us
    using assms(2) by (induction us) auto
  moreover have "map (\<lambda>u. (us_id u, us_store u)) (map (\<lambda>u. if P u then f u else u) us) = map (\<lambda>u. (us_id u, us_store u)) us" for us
    using assms(2) by auto
  ultimately have "shop s d' = shop s d" "homed d' = homed d"
    unfolding d' by (intro shop_cong homed_same; simp add: claims_of_def)+
  then show ?thesis by (simp add: keeps_def)
qed (use assms(1) in \<open>simp add: update_users_def\<close>)

lemma keeps_stores:
  assumes "update_stores fail x f d = (r, d')" "x \<noteq> s" "\<And>y. st_id (f y) = st_id y"
  shows "keeps s d d'"
proof (cases fail)
  case False
  then have d': "d' = d\<lparr>t_stores := map (\<lambda>y. if st_id y = x then f y else y) (t_stores d)\<rparr>"
    using assms(1) by (simp add: update_stores_def)
  have "filter (\<lambda>y. st_id y = s) (map (\<lambda>y. if st_id y = x then f y else y) ys) = filter (\<lambda>y. st_id y = s) ys" for ys
    using assms(2,3) by (intro filter_map_other) auto
  then have "shop s d' = shop s d" "homed d' = homed d"
    unfolding d' by (intro shop_cong homed_same; simp add: claims_of_def)+
  then show ?thesis by (simp add: keeps_def)
qed (use assms(1) in \<open>simp add: update_stores_def\<close>)

text \<open>Adding a row of another shop.\<close>

lemma keeps_insert_user:
  assumes "insert_user fail u d = (r, d')" "us_store u \<noteq> s"
  shows "keeps s d d'"
proof (cases r)
  case (Inr v)
  then have d': "d' = d\<lparr>t_users := t_users d @ [u]\<rparr>" and new: "us_id u \<notin> us_id ` set (t_users d)"
    using assms(1) by (auto simp: insert_user_def split: if_splits)
  have "shop s d' = shop s d" unfolding d' by (rule shop_cong) (simp_all add: assms(2) claims_of_def)
  moreover have "homed d'" if "homed d" using that new unfolding homed_def d' by auto
  ultimately show ?thesis by (simp add: keeps_def)
qed (use assms(1) in \<open>auto simp: insert_user_def split: if_splits\<close>)

lemma keeps_insert_machine:
  assumes "insert_machine fail m d = (r, d')" "mc_StoreID m \<noteq> s"
  shows "keeps s d d'"
proof (cases r)
  case (Inr v)
  then have d': "d' = d\<lparr>t_machines := t_machines d @ [m]\<rparr>" and new: "mc_ID m \<notin> mc_ID ` set (t_machines d)"
    using assms(1) by (auto simp: insert_machine_def list_ex_iff split: if_splits)
  have "shop s d' = shop s d" unfolding d' by (rule shop_cong) (simp_all add: assms(2) claims_of_def)
  moreover have "homed d'" if "homed d" using that new unfolding homed_def d' by auto
  ultimately show ?thesis by (simp add: keeps_def)
qed (use assms(1) in \<open>auto simp: insert_machine_def split: if_splits\<close>)

lemma foreign_claim:
  assumes "homed d" "r \<in> set (t_claims d)" "c_store r \<noteq> s"
  shows "c_id r \<notin> own_ids s d"
proof
  assume "c_id r \<in> own_ids s d"
  then obtain q where q: "q \<in> set (t_claims d)" "c_store q = s" "c_id q = c_id r"
    by (auto simp: own_ids_def claims_of_def)
  have "q = r" using assms q unfolding homed_def by (metis (no_types, lifting) distinct_map inj_onD)
  with q assms(3) show False by simp
qed

lemma event_row_id [simp]: "ev_ClaimID (event_row e) = ev_ClaimID e"
  by (simp add: event_row_def)

lemma keeps_event:
  assumes "r \<in> set (t_claims d)" "c_store r \<noteq> s" "ev_ClaimID e = c_id r"
  shows "keeps s d (d\<lparr>t_events := t_events d @ [event_row e]\<rparr>)"
proof -
  have "shop s (d\<lparr>t_events := t_events d @ [event_row e]\<rparr>) = shop s d" if "homed d"
    using foreign_claim [OF that assms(1,2)] assms(3) by (intro shop_cong) (simp_all add: claims_of_def)
  moreover have "homed (d\<lparr>t_events := t_events d @ [event_row e]\<rparr>) = homed d" by (rule homed_same) simp_all
  ultimately show ?thesis by (simp add: keeps_def)
qed

lemma keeps_decision:
  assumes "ApplyTransition fs ok x c ev d = (r, d')" "x \<noteq> s" "ev_ClaimID ev = cl_ID c"
  shows "keeps s d d'"
proof (cases "r = Inr ()")
  case True
  note applied = ApplyTransition_Inr [OF assms(1) [unfolded True]]
  obtain q where q: "q \<in> set (t_claims d)" "c_id q = cl_ID c" "c_store q = x"
    using applied(2) by (auto simp: matches_update_def)
  have upd: "c_store (update_claim c ev r) = c_store r" "c_id (update_claim c ev r) = c_id r"
    "c_machine (update_claim c ev r) = c_machine r" for r
    by (simp_all add: update_claim_def)
  have rows: "claims_of s d' = claims_of s d"
    unfolding applied(1) applied_db_def claims_of_def using assms(2)
    by (simp, intro filter_map_other) (auto simp: matches_update_def upd)
  have "shop s d' = shop s d" if "homed d"
    using foreign_claim [OF that q(1)] q assms(2,3) rows
    by (intro shop_cong) (simp_all add: applied(1) applied_db_def)
  moreover have "homed d' = homed d"
    by (rule homed_same) (simp_all add: applied(1) applied_db_def upd)
  ultimately show ?thesis by (simp add: keeps_def)
next
  case False
  with ApplyTransition_db [OF assms(1)] show ?thesis by simp
qed

lemma keeps_look:
  assumes "ClaimByID k fs now t x cid who d = (r, d')" "x \<noteq> s"
  shows "keeps s d d'"
proof (cases "d' = d")
  case False
  with assms(1) obtain q e where q: "find_claim x cid d = Some q" and d': "d' = snd (AppendEvent (fs 4) e d)"
    and e: "ev_ClaimID e = cid"
    by (auto simp: ClaimByID_def Let_def NewEvent_def split: if_splits option.splits sum.splits prod.splits)
  have "q \<in> set (t_claims d)" "c_store q \<noteq> s" "ev_ClaimID e = c_id q"
    using q e assms(2) by (auto simp: find_claim_def find_Some_iff)
  from keeps_event [OF this] show ?thesis
    using insertEvent_db [of "fs 4" e d] by (auto simp: d' AppendEvent_def)
qed simp

lemma filing_adds:
  assumes "create_attempts es mk i d = (r, d')" "\<And>e. e \<in> set es \<Longrightarrow> quiet e"
  shows "d' = d \<or> (\<exists>e. d' = created_db e (mk e) (ci_Photos i) d \<and> c_id (mk e) \<notin> c_id ` set (t_claims d))"
  using assms
proof (induction es arbitrary: d)
  case (Cons e es)
  obtain r1 d1 where t: "create_tx e (mk e) (ci_Photos i) d = (r1, d1)" by fastforce
  have q: "ae_before_select e x = x" "ae_before_retry e x = x" for x
    using Cons.prems(2) [of e] by (simp_all add: quiet_def)
  show ?case
  proof (cases r1)
    case (Inr v)
    with create_tx_Inr [OF t [unfolded Inr]] Cons.prems(1) t show ?thesis by auto
  next
    case (Inl err)
    with create_tx_db [OF t] have d1: "d1 = d" by auto
    have "d' = d \<or> create_attempts es mk i d = (r, d')"
      using Cons.prems(1) t Inl d1 q by (auto simp: Let_def split: if_splits sum.splits option.splits)
    with Cons.IH [of d] Cons.prems(2) show ?thesis by auto
  qed
qed simp

lemma keeps_filing:
  assumes "CreateClaim k ns es i d = (r, d')" "quiet (fst es)" "quiet (snd es)" "ci_StoreID i \<noteq> s"
    and home: "machine_of d (ci_MachineID i) (ci_StoreID i)"
  shows "keeps s d d'"
proof -
  have q: "\<And>e. e \<in> set [fst es, snd es] \<Longrightarrow> quiet e" using assms(2,3) by auto
  have "d' = d \<or> (\<exists>ph ac ho ip. create_attempts [fst es, snd es] (\<lambda>e. new_claim_row e i ph ac ho ip) i d = (r, d'))"
    using assms(1) unfolding CreateClaim_def Let_def by (auto split: sum.splits simp del: create_attempts.simps)
  then have "d' = d \<or> (\<exists>e row. d' = created_db e row (ci_Photos i) d
      \<and> c_id row \<notin> c_id ` set (t_claims d) \<and> (\<exists>ph ac ho ip. row = new_claim_row e i ph ac ho ip))"
    using filing_adds [OF _ q] by (metis (no_types, lifting))
  then show ?thesis
  proof (elim disjE exE conjE)
    fix e row ph ac ho ip
    assume d': "d' = created_db e row (ci_Photos i) d" and new: "c_id row \<notin> c_id ` set (t_claims d)"
      and "row = new_claim_row e i ph ac ho ip"
    then have row: "c_store row = ci_StoreID i" "c_machine row = ci_MachineID i" by (simp_all add: new_claim_row_def)
    have rows: "claims_of s d' = claims_of s d"
      using assms(4) by (simp add: d' created_db_def claims_of_def row)
    have "filter (\<lambda>p. ph_claim p \<in> own_ids s d) (map (photo_row e (c_id row)) ps) = []" for ps
      using new by (auto simp: filter_empty_conv photo_row_def own_ids_def claims_of_def)
    then have "shop s d' = shop s d"
      using rows new by (intro shop_cong) (auto simp: d' created_db_def create_event_def NewEvent_def own_ids_def claims_of_def)
    moreover have "homed d'" if "homed d"
      using that new home unfolding homed_def d' created_db_def by (auto simp: row machine_of_def)
    ultimately show ?thesis by (simp add: keeps_def)
  qed simp
qed

lemma keeps_new_machine:
  "create_machine_attempts x l loc as d = (r, d') \<Longrightarrow> x \<noteq> s \<Longrightarrow> keeps s d d'"
proof (induction as arbitrary: d)
  case (Cons a as)
  have step: "keeps s d d1" if "insert_machine (ma_fail a) (new_machine (ma_id a) x code l loc) d = (q, d1)" for code q d1
    using keeps_insert_machine [OF that] Cons.prems(2) by (simp add: new_machine_def)
  have same: "d1 = d" if "insert_machine f m d = (Inl e, d1)" for f m e d1
    using that by (auto simp: insert_machine_def split: if_splits)
  show ?case
    using Cons.prems(1) step same Cons.IH [OF _ Cons.prems(2)]
    by (fastforce simp: Let_def split: option.splits prod.splits sum.splits db_error.splits)
qed simp

lemma keeps_switch:
  assumes "SetUserActive fs id x uid act d = (r, d')" "x \<noteq> s"
  shows "keeps s d d'"
proof (cases "d' = d")
  case False
  then obtain q where "update_users (snd fs) (\<lambda>u. us_id u = uid \<and> us_store u = x) (\<lambda>u. u\<lparr>us_active := act\<rparr>) d = (q, d')"
    using assms(1) by (auto simp: SetUserActive_def set_active_row_def split: if_splits prod.splits sum.splits)
  then show ?thesis by (rule keeps_users) (use assms(2) in auto)
qed simp

lemma keeps_try:
  assumes "Authenticate bc fs now em pw d = (r, d')"
  shows "keeps s d d'"
proof -
  have "keeps s d d1" if "update_users f P (\<lambda>u. u\<lparr>us_failed := n, us_locked_until := l\<rparr>) d = (q, d1)" for f P n l q d1
    using that by (rule keeps_users) (simp add: settled_def)
  then show ?thesis
    using assms by (auto simp: Authenticate_def recordLoginFailure_def Let_def split: if_splits option.splits prod.splits sum.splits)
qed

lemma keeps_founding:
  assumes "CreateStoreWithOwner bc fs ids now n ph ty em pw nm d = (r, d')" "fst ids \<noteq> s"
  shows "keeps s d d'"
proof (cases "d' = d")
  case False
  then obtain u st where d': "d' = d\<lparr>t_stores := t_stores d @ [st], t_users := t_users d @ [u]\<rparr>"
    and new: "us_id u \<notin> us_id ` set (t_users d)" and ids: "us_store u = fst ids" "st_id st = fst ids"
    using assms(1)
    by (auto simp: CreateStoreWithOwner_def and_then_def tx_def insert_store_def insert_user_def new_user_def new_store_def
        split: if_splits option.splits prod.splits sum.splits db_error.splits)
  have "shop s d' = shop s d" unfolding d' using assms(2) by (intro shop_cong) (simp_all add: ids claims_of_def)
  moreover have "homed d'" if "homed d" using that new unfolding homed_def d' by auto
  ultimately show ?thesis by (simp add: keeps_def)
qed simp

lemma keeps_purchase:
  assumes "CreatePurchase lc e i d = (r, d')" "cp_StoreID i \<noteq> s" "pe_before_select e = id"
    and home: "account_of d (cp_UserID i) (cp_StoreID i)"
  shows "keeps s d d'"
proof (cases "d' = d")
  case False
  then have d': "d' = d\<lparr>t_purchases := t_purchases d @ [purchase_row lc e i]\<rparr>"
    using assms(1,3) by (auto simp: CreatePurchase_def insert_purchase_def Let_def split: if_splits prod.splits sum.splits option.splits)
  have row: "pu_store (purchase_row lc e i) = cp_StoreID i" "pu_by (purchase_row lc e i) \<in> {None, Some (cp_UserID i)}"
    by (simp_all add: purchase_row_def nilUUID_def)
  have "shop s d' = shop s d" unfolding d' using assms(2) by (intro shop_cong) (simp_all add: row claims_of_def)
  moreover have "homed d'" if "homed d"
    using that home row unfolding homed_def d' account_of_def by auto
  ultimately show ?thesis by (simp add: keeps_def)
qed simp

lemma keeps_count:
  assumes "AdjustInventory je x uid key n memo d = (r, d')" "x \<noteq> s" "je_between je = id" "account_of d uid x"
  shows "keeps s d d'"
proof (cases "d' = d")
  case False
  then obtain a where d': "d' = d\<lparr>t_adjust := t_adjust d @ [a]\<rparr>" and a: "ad_store a = x" "ad_by a \<in> {None, Some uid}"
    using assms(1,3) by (auto simp: AdjustInventory_def insert_adjust_def nilUUID_def split: if_splits sum.splits)
  have "shop s d' = shop s d" unfolding d' using assms(2) by (intro shop_cong) (simp_all add: a claims_of_def)
  moreover have "homed d'" if "homed d"
    using that assms(4) a unfolding homed_def d' account_of_def by auto
  ultimately show ?thesis by (simp add: keeps_def)
qed simp

lemma keeps_flag:
  assumes "SetContactStatus f now x h kind st nt who d = (r, d')" "x \<noteq> s"
  shows "keeps s d d'"
proof (cases "d' = d")
  case False
  then obtain fl where d': "d' = d\<lparr>t_flags := upsert_flag fl (t_flags d)\<rparr>" and fl: "fl_store fl = x"
    using assms(1) by (auto simp: SetContactStatus_def split: if_splits)
  have "filter (\<lambda>f. fl_store f = s) (map (\<lambda>f. if fl_hash f = fl_hash fl \<and> fl_kind f = fl_kind fl \<and> fl_store f = fl_store fl
      then fl else f) fs) = filter (\<lambda>f. fl_store f = s) fs" for fs
    using assms(2) fl by (intro filter_map_other) auto
  then have "filter (\<lambda>f. fl_store f = s) (upsert_flag fl fs) = filter (\<lambda>f. fl_store f = s) fs" for fs
    using assms(2) fl by (simp add: upsert_flag_def Let_def)
  then have "shop s d' = shop s d" unfolding d' by (intro shop_cong) (simp_all add: claims_of_def)
  moreover have "homed d' = homed d" by (rule homed_same) (simp_all add: d')
  ultimately show ?thesis by (simp add: keeps_def)
qed simp

lemma keeps_machine_edit:
  assumes "UpdateMachine f x mid l loc act d = (r, d')" "x \<noteq> s"
  shows "keeps s d d'"
proof (cases "d' = d")
  case False
  let ?g = "\<lambda>m. if mc_ID m = mid \<and> mc_StoreID m = x then m\<lparr>mc_Label := l, mc_Location := loc, mc_Active := act\<rparr> else m"
  from False have d': "d' = d\<lparr>t_machines := map ?g (t_machines d)\<rparr>"
    using assms(1) by (auto simp: UpdateMachine_def Let_def split: if_splits)
  have "filter (\<lambda>m. mc_StoreID m = s) (map ?g ms) = filter (\<lambda>m. mc_StoreID m = s) ms" for ms
    using assms(2) by (intro filter_map_other) auto
  then have "shop s d' = shop s d" unfolding d' by (intro shop_cong) (simp_all add: claims_of_def)
  moreover have "homed d' = homed d" by (rule homed_same) (simp_all add: d')
  ultimately show ?thesis by (simp add: keeps_def)
qed simp

lemma keeps_shop_edit:
  assumes "UpdateStore k fs x p d = (r, d')" "x \<noteq> s"
  shows "keeps s d d'"
proof (cases "d' = d")
  case False
  then obtain q g where "update_stores (fst fs) x g d = (q, d')" "\<And>y. st_id (g y) = st_id y"
    using assms(1) by (auto simp: UpdateStore_def split: if_splits prod.splits sum.splits)
  with assms(2) show ?thesis by (blast intro: keeps_stores)
qed simp

lemma keeps_payout_edit:
  assumes "UpdatePayoutSettings k rnd fs x p d = (r, d')" "x \<noteq> s"
  shows "keeps s d d'"
proof (cases "d' = d")
  case False
  then obtain q g where "update_stores (fst fs) x g d = (q, d')" "\<And>y. st_id (g y) = st_id y"
    using assms(1) by (auto simp: UpdatePayoutSettings_def split: if_splits prod.splits sum.splits)
  with assms(2) show ?thesis by (blast intro: keeps_stores)
qed simp

lemma keeps_profile:
  assumes "UpdateUser f x uid n ph d = (r, d')" "x \<noteq> s"
  shows "keeps s d d'"
proof -
  obtain q where "update_users f (\<lambda>u. us_id u = uid \<and> us_store u = x) (\<lambda>u. u\<lparr>us_name := n, us_phone := ph\<rparr>) d = (q, d')"
    using assms(1) by (auto simp: UpdateUser_def Let_def split: prod.splits sum.splits option.splits)
  then show ?thesis by (rule keeps_users) (use assms(2) in auto)
qed

lemma keeps_account:
  assumes "CreateUser bc f uid now x em pw n ph d = (r, d')" "x \<noteq> s"
  shows "keeps s d d'"
proof (cases "d' = d")
  case False
  then obtain q where "insert_user f (new_user uid now x em (the (bc_generate bc pw)) n ph) d = (q, d')"
    using assms(1) by (auto simp: CreateUser_def split: if_splits option.splits prod.splits sum.splits db_error.splits)
  then show ?thesis by (rule keeps_insert_user) (simp add: new_user_def assms(2))
qed simp

lemma keeps_machine:
  "CreateMachine as x l loc d = (r, d') \<Longrightarrow> x \<noteq> s \<Longrightarrow> keeps s d d'"
  unfolding CreateMachine_def by (rule keeps_new_machine)

lemma keeps_shared:
  assumes "d' = d\<lparr>t_listings := ls, t_lcontacts := cs, t_reports := rs, t_push := ps\<rparr>"
  shows "keeps s d d'"
proof -
  have "shop s d' = shop s d" unfolding assms by (rule shop_cong) (simp_all add: claims_of_def)
  moreover have "homed d' = homed d" by (rule homed_same) (simp_all add: assms)
  ultimately show ?thesis by (simp add: keeps_def)
qed

lemmas keeps_all = keeps_decision keeps_look keeps_machine keeps_machine_edit keeps_profile keeps_account keeps_switch
  keeps_shop_edit keeps_payout_edit keeps_flag keeps_purchase keeps_count keeps_filing keeps_founding keeps_try keeps_shared

lemma elsewhere_keeps: "elsewhere s d d' \<Longrightarrow> keeps s d d'"
  by (induction rule: elsewhere.induct) (rule keeps_all; assumption)+

section \<open>Shops do not see each other\<close>

text \<open>Any step of any shop, and the databases such steps lead to.\<close>

definition somewhere :: "db \<Rightarrow> db \<Rightarrow> bool" where
  "somewhere d d' \<longleftrightarrow> (\<exists>s. elsewhere s d d')"

lemma reached_homed: "somewhere\<^sup>*\<^sup>* empty_db d \<Longrightarrow> homed d"
proof (induction rule: rtranclp_induct)
  case base
  show ?case by (simp add: homed_def empty_db_def)
next
  case (step d d')
  then show ?case using elsewhere_keeps by (auto simp: somewhere_def keeps_def)
qed

lemma elsewhere_run: "(elsewhere s)\<^sup>*\<^sup>* d d' \<Longrightarrow> homed d \<Longrightarrow> shop s d' = shop s d \<and> homed d'"
proof (induction rule: rtranclp_induct)
  case (step d1 d2)
  then show ?case using elsewhere_keeps [of s d1 d2] by (auto simp: keeps_def)
qed simp

text \<open>Two databases with the same part of a shop give it the same pages.\<close>

lemma same_pages:
  assumes "homed d" "homed d'" "shop s d' = shop s d"
    and "\<And>d. homed d \<Longrightarrow> page (shop s d) = page d"
  shows "page d' = page d"
  using assms by metis


text \<open>
  One number of a claim's page is not the shop's own: how often, and with how much paid, the
  customer's phone number appears counts the claims of every shop.
\<close>

lemma history_counts_other_shops:
  assumes "c_phone_hash r = h" "now - 30 * Day < c_created r" "c_store r \<noteq> s"
  shows "fst (phone_history h now (d\<lparr>t_claims := t_claims d @ [r]\<rparr>)) = fst (phone_history h now d) + 1"
    and "claims_of s (d\<lparr>t_claims := t_claims d @ [r]\<rparr>) = claims_of s d"
  using assms by (simp_all add: phone_history_def claims_of_def Let_def)

section \<open>Example\<close>

definition demo_found :: "string \<Rightarrow> string \<Rightarrow> db \<Rightarrow> db" where
  "demo_found sid uid d = d\<lparr>t_stores := t_stores d @ [new_store sid [] [] ''claw''],
     t_users := t_users d @ [new_user uid 0 sid uid ''longenough'' [] []]\<rparr>"

lemma demo_found_step:
  assumes "sid \<noteq> s" "sid \<notin> st_id ` set (t_stores d)" "uid \<notin> us_id ` set (t_users d)" "uid \<notin> us_email ` set (t_users d)"
  shows "elsewhere s d (demo_found sid uid d)"
proof -
  have n: "rune_count ''longenough'' = 10" by (simp add: rune_count_def segs_ascii is_ascii_def byte_def)
  have "CreateStoreWithOwner \<lparr>bc_generate = Some, bc_compare = (=)\<rparr> (False, False, True) (sid, uid) 0 [] [] ''claw'' uid
      ''longenough'' [] d = (Inr (sid, user_of (new_user uid 0 sid uid ''longenough'' [] [])), demo_found sid uid d)"
    using n assms by (simp add: CreateStoreWithOwner_def tx_def and_then_def insert_store_def insert_user_def new_user_def
        new_store_def demo_found_def NormalizeStoreType_def)
  then show ?thesis by (rule elsewhere.Founded [rotated]) (use assms(1) in simp)
qed


end
