(* ===== verification/Cache_Redis.thy ===== *)
theory Cache_Redis
  imports Cache_Memory Go_Text
begin

text \<open>
  \<^verbatim>\<open>internal/cache/redis.go\<close>: the cache on a Redis server. The server is a parameter: its commands
  as functions of its clock and state, with their documented effects as the named
  law \<open>redis_laws\<close>. Under that law the two implementations of \<^verbatim>\<open>cache.Cache\<close> cannot be told apart.
\<close>

section \<open>The client\<close>

record 'r redis_server =
  rs_incr :: "instant \<Rightarrow> string \<Rightarrow> 'r \<Rightarrow> int option \<times> 'r"
  rs_expire_nx :: "instant \<Rightarrow> string \<Rightarrow> duration \<Rightarrow> 'r \<Rightarrow> bool \<times> 'r"
  rs_set_nx :: "instant \<Rightarrow> string \<Rightarrow> string \<Rightarrow> duration \<Rightarrow> 'r \<Rightarrow> bool \<times> 'r"
  rs_get :: "instant \<Rightarrow> string \<Rightarrow> 'r \<Rightarrow> string option"

text \<open>The connection may fail before the server has seen a command, or before the answer is back.\<close>

datatype link = Up | LostBefore | LostAfter

text \<open>
  The pipeline is one \<open>MULTI\<close>/\<open>EXEC\<close> block, so nothing comes between its two commands. A value that
  is not a number makes \<open>INCR\<close> fail, and the block still runs to its end.
\<close>

definition Redis_Incr ::
  "'r redis_server \<Rightarrow> link \<Rightarrow> instant \<Rightarrow> string \<Rightarrow> duration \<Rightarrow> 'r \<Rightarrow> (unit, int) result \<times> 'r" where
  "Redis_Incr R l now key ttl st =
    (if l = LostBefore then (Inl (), st)
     else case rs_incr R now key st of (n, st1) \<Rightarrow>
       (case rs_expire_nx R now key ttl st1 of (_, st2) \<Rightarrow>
         (if l = LostAfter then Inl () else case n of None \<Rightarrow> Inl () | Some c \<Rightarrow> Inr c, st2)))"

definition Redis_SetNX ::
  "'r redis_server \<Rightarrow> link \<Rightarrow> instant \<Rightarrow> string \<Rightarrow> string \<Rightarrow> duration \<Rightarrow> 'r \<Rightarrow> (unit, bool) result \<times> 'r" where
  "Redis_SetNX R l now key val ttl st =
    (if l = LostBefore then (Inl (), st)
     else case rs_set_nx R now key val ttl st of (ok, st1) \<Rightarrow>
       (if l = LostAfter then Inl () else Inr ok, st1))"

definition Redis_Get :: "'r redis_server \<Rightarrow> link \<Rightarrow> instant \<Rightarrow> string \<Rightarrow> 'r \<Rightarrow> (unit, string option) result" where
  "Redis_Get R l now key st = (if l = Up then Inr (rs_get R now key st) else Inl ())"

section \<open>What the commands do\<close>

text \<open>
  A key holds a value and the last instant it lives, or no such instant. \<open>effect\<close>: of what is
  alive, a command changes its own key only, by \<open>f\<close>.
\<close>

type_synonym item = "string \<times> instant option"

definition living :: "instant \<Rightarrow> item option \<Rightarrow> item option" where
  "living now x = (case x of Some (v, Some e) \<Rightarrow> (if now \<le> e then x else None) | _ \<Rightarrow> x)"

definition effect ::
  "('r \<Rightarrow> string \<Rightarrow> item option) \<Rightarrow> instant \<Rightarrow> string \<Rightarrow> (item option \<Rightarrow> item option) \<Rightarrow> 'r \<Rightarrow> 'r \<Rightarrow> bool" where
  "effect look now k f st st' \<longleftrightarrow> (\<forall>k'. living now (look st' k')
    = (if k' = k then f (living now (look st k)) else living now (look st k')))"

fun incremented :: "item option \<Rightarrow> int option \<times> item option" where
  "incremented None = (Some 1, Some (Itoa 1, None))"
| "incremented (Some (v, e)) =
    (case Atoi v of None \<Rightarrow> (None, Some (v, e))
     | Some n \<Rightarrow> if in_i64 (n + 1) then (Some (n + 1), Some (Itoa (n + 1), e)) else (None, Some (v, e)))"

fun lifetime_given :: "instant \<Rightarrow> item option \<Rightarrow> item option" where
  "lifetime_given e (Some (v, None)) = Some (v, Some e)"
| "lifetime_given e x = x"

definition redis_laws :: "'r redis_server \<Rightarrow> ('r \<Rightarrow> string \<Rightarrow> item option) \<Rightarrow> bool" where
  "redis_laws R look \<longleftrightarrow>
    (\<forall>now k st. fst (rs_incr R now k st) = fst (incremented (living now (look st k)))
       \<and> effect look now k (\<lambda>x. snd (incremented x)) st (snd (rs_incr R now k st))
       \<and> rs_get R now k st = map_option fst (living now (look st k)))
    \<and> (\<forall>now k ttl st. 0 < ttl \<longrightarrow> effect look now k (lifetime_given (now + ttl)) st (snd (rs_expire_nx R now k ttl st)))
    \<and> (\<forall>now k v ttl st. 0 < ttl \<longrightarrow> fst (rs_set_nx R now k v ttl st) = (living now (look st k) = None)
       \<and> effect look now k (\<lambda>x. if x = None then Some (v, Some (now + ttl)) else x) st (snd (rs_set_nx R now k v ttl st)))"

section \<open>Two implementations of one interface\<close>

datatype cache_call = CallIncr string duration | CallSetNX string string duration | CallGet string
datatype cache_answer = Counted int | Flagged bool | Found "string option"

fun memory_call :: "instant \<Rightarrow> cache_call \<Rightarrow> memory \<Rightarrow> cache_answer \<times> memory" where
  "memory_call now (CallIncr k ttl) m = map_prod Counted id (Incr now k ttl m)"
| "memory_call now (CallSetNX k v ttl) m = map_prod Flagged id (SetNX now k v ttl m)"
| "memory_call now (CallGet k) m = (Found (Get now k m), m)"

fun redis_call :: "'r redis_server \<Rightarrow> instant \<Rightarrow> cache_call \<Rightarrow> 'r \<Rightarrow> (unit, cache_answer) result \<times> 'r" where
  "redis_call R now (CallIncr k ttl) st = map_prod (map_sum id Counted) id (Redis_Incr R Up now k ttl st)"
| "redis_call R now (CallSetNX k v ttl) st = map_prod (map_sum id Flagged) id (Redis_SetNX R Up now k v ttl st)"
| "redis_call R now (CallGet k) st = (map_sum id Found (Redis_Get R Up now k st), st)"

fun memory_run :: "(instant \<times> cache_call) list \<Rightarrow> memory \<Rightarrow> cache_answer list" where
  "memory_run [] m = []"
| "memory_run ((t, c) # cs) m = fst (memory_call t c m) # memory_run cs (snd (memory_call t c m))"

fun redis_run :: "'r redis_server \<Rightarrow> (instant \<times> cache_call) list \<Rightarrow> 'r \<Rightarrow> (unit, cache_answer) result list" where
  "redis_run R [] st = []"
| "redis_run R ((t, c) # cs) st = fst (redis_call R t c st) # redis_run R cs (snd (redis_call R t c st))"

text \<open>
  The program keeps counters and flags apart (\<open>rl:\<close> and \<open>alert:\<close>), and gives every entry a lifetime.
\<close>

fun keyed :: "(string \<Rightarrow> bool) \<Rightarrow> cache_call \<Rightarrow> bool" where
  "keyed counter (CallIncr k ttl) \<longleftrightarrow> counter k \<and> 0 < ttl"
| "keyed counter (CallSetNX k v ttl) \<longleftrightarrow> \<not> counter k \<and> 0 < ttl"
| "keyed counter (CallGet k) \<longleftrightarrow> \<not> counter k"

section \<open>The simulation\<close>

text \<open>The in-memory cache seen as a Redis: what Redis would hold for an entry.\<close>

definition item_of :: "(string \<Rightarrow> bool) \<Rightarrow> string \<Rightarrow> entry \<Rightarrow> item" where
  "item_of counter k en = (if counter k then Itoa (en_count en) else en_val en, Some (en_expiresAt en))"

definition memory_look :: "(string \<Rightarrow> bool) \<Rightarrow> memory \<Rightarrow> string \<Rightarrow> item option" where
  "memory_look counter m k = map_option (item_of counter k) (map_of m k)"

definition agrees :: "(string \<Rightarrow> bool) \<Rightarrow> ('r \<Rightarrow> string \<Rightarrow> item option) \<Rightarrow> instant \<Rightarrow> memory \<Rightarrow> 'r \<Rightarrow> bool" where
  "agrees counter look now m st \<longleftrightarrow> (\<forall>k. living now (look st k) = living now (memory_look counter m k))"

definition counts_to :: "nat \<Rightarrow> memory \<Rightarrow> bool" where
  "counts_to n m \<longleftrightarrow> (\<forall>k en. map_of m k = Some en \<longrightarrow> 0 \<le> en_count en \<and> en_count en \<le> int n)"

lemma living_later: "now \<le> t \<Longrightarrow> living t (living now x) = living t x"
  by (auto simp: living_def split: option.splits prod.splits)

lemma agrees_later: "agrees counter look now m st \<Longrightarrow> now \<le> t \<Longrightarrow> agrees counter look t m st"
  unfolding agrees_def by (metis living_later)

lemma agrees_effect:
  assumes "agrees counter look now m st" "effect look now k f st st'" "effect (memory_look counter) now k f m m'"
  shows "agrees counter look now m' st'"
  using assms by (simp add: agrees_def effect_def)

lemma living_item: "living now (Some (item_of counter k en)) = (if now \<le> en_expiresAt en then Some (item_of counter k en) else None)"
  by (simp add: living_def item_of_def)

lemma living_memory: "living now (memory_look counter m k) = (case map_of m k of None \<Rightarrow> None
    | Some en \<Rightarrow> if now \<le> en_expiresAt en then Some (item_of counter k en) else None)"
  by (cases "map_of m k") (simp_all add: memory_look_def living_item, simp add: living_def)

lemma Redis_Incr_effect:
  assumes "redis_laws R look" "0 < ttl" "Redis_Incr R Up now k ttl st = (r, st')"
  shows "effect look now k (\<lambda>x. lifetime_given (now + ttl) (snd (incremented x))) st st'"
    and "r = (case fst (incremented (living now (look st k))) of None \<Rightarrow> Inl () | Some c \<Rightarrow> Inr c)"
  using assms by (auto simp: Redis_Incr_def redis_laws_def effect_def split: prod.splits)
     (metis fst_conv snd_conv)+

lemma Incr_effect:
  assumes "counts_to n m" "in_i64 (int n + 1)" "counter k" "0 < ttl"
  shows "effect (memory_look counter) now k (\<lambda>x. lifetime_given (now + ttl) (snd (incremented x))) m (snd (Incr now k ttl m))"
    and "fst (incremented (living now (memory_look counter m k))) = Some (fst (Incr now k ttl m))"
proof -
  have num: "in_i64 (en_count en)" "in_i64 (en_count en + 1)" if "map_of m k = Some en" for en
    using assms(1,2) that by (fastforce simp: counts_to_def in_i64_def int_min_def int_max_def)+
  show "effect (memory_look counter) now k (\<lambda>x. lifetime_given (now + ttl) (snd (incremented x))) m (snd (Incr now k ttl m))"
    using num assms(3,4) by (auto simp: effect_def living_memory Incr_def update_conv item_of_def split: option.splits)
  show "fst (incremented (living now (memory_look counter m k))) = Some (fst (Incr now k ttl m))"
    using num assms(3) by (auto simp: living_memory Incr_def item_of_def split: option.splits)
qed

lemma SetNX_effect:
  assumes "one_per_key m" "\<not> counter k" "0 < ttl"
  shows "effect (memory_look counter) now k (\<lambda>x. if x = None then Some (v, Some (now + ttl)) else x) m (snd (SetNX now k v ttl m))"
    and "fst (SetNX now k v ttl m) = (living now (memory_look counter m k) = None)"
proof -
  show "fst (SetNX now k v ttl m) = (living now (memory_look counter m k) = None)"
    using SetNX_map_of(1) [OF assms(1), of now k v ttl]
    by (auto simp: living_memory flag_live_def split: option.splits if_splits dest: arg_cong [of _ _ fst])
  show "effect (memory_look counter) now k (\<lambda>x. if x = None then Some (v, Some (now + ttl)) else x) m (snd (SetNX now k v ttl m))"
  proof (cases "flag_live now k m")
    case True
    with SetNX_map_of(1) [OF assms(1), of now k v ttl] have "snd (SetNX now k v ttl m) = m" by (metis snd_conv)
    with True show ?thesis by (auto simp: effect_def living_memory flag_live_def split: option.splits)
  next
    case False
    then show ?thesis using assms(2,3) SetNX_map_of(2) [OF assms(1) False, of v ttl]
      by (auto simp: effect_def living_memory flag_live_def Let_def item_of_def split: option.splits if_splits)
  qed
qed

lemma counts_to_step:
  assumes "one_per_key m" "counts_to n m"
  shows "counts_to (Suc n) (snd (memory_call now c m))"
proof (cases c)
  case (CallIncr k ttl)
  with assms show ?thesis by (auto simp: counts_to_def Incr_def update_conv split: option.splits) fastforce+
next
  case (CallSetNX k v ttl)
  show ?thesis
  proof (cases "flag_live now k m")
    case True
    with SetNX_map_of(1) [OF assms(1), of now k v ttl] have "snd (SetNX now k v ttl m) = m" by (metis snd_conv)
    with assms(2) CallSetNX show ?thesis by (fastforce simp: counts_to_def)
  next
    case False
    with SetNX_map_of(2) [OF assms(1) False, of v ttl] assms(2) CallSetNX show ?thesis
      by (fastforce simp: counts_to_def Let_def split: option.splits if_splits)
  qed
next
  case (CallGet k)
  with assms(2) show ?thesis by (fastforce simp: counts_to_def)
qed

lemma one_per_key_call: "one_per_key m \<Longrightarrow> one_per_key (snd (memory_call now c m))"
  by (cases c) (simp_all add: one_per_key_ops)

text \<open>One call: the same answer, and agreement afterwards.\<close>

lemma call_agrees:
  assumes laws: "redis_laws R look" and at: "agrees counter look now m st"
    and m: "one_per_key m" "counts_to n m" "in_i64 (int n + 1)" and c: "keyed counter c"
  shows "fst (redis_call R now c st) = Inr (fst (memory_call now c m))
    \<and> agrees counter look now (snd (memory_call now c m)) (snd (redis_call R now c st))"
proof (cases c)
  case (CallIncr k ttl)
  with c have k: "counter k" "0 < ttl" by auto
  obtain r st' where run: "Redis_Incr R Up now k ttl st = (r, st')" by fastforce
  note R = Redis_Incr_effect [OF laws k(2) run] and M = Incr_effect [where counter = counter, OF m(2,3) k, of now]
  have "living now (look st k) = living now (memory_look counter m k)" using at by (simp add: agrees_def)
  with R(2) M(2) have "r = Inr (fst (Incr now k ttl m))" by simp
  with CallIncr run agrees_effect [OF at R(1) M(1)] show ?thesis by simp
next
  case (CallSetNX k v ttl)
  with c have k: "\<not> counter k" "0 < ttl" by auto
  note M = SetNX_effect [where counter = counter and v = v, OF m(1) k, of now]
  have "living now (look st k) = living now (memory_look counter m k)" using at by (simp add: agrees_def)
  then have "fst (rs_set_nx R now k v ttl st) = fst (SetNX now k v ttl m)"
    "effect look now k (\<lambda>x. if x = None then Some (v, Some (now + ttl)) else x) st (snd (rs_set_nx R now k v ttl st))"
    using laws k(2) M(2) by (simp_all add: redis_laws_def)
  with CallSetNX agrees_effect [OF at _ M(1)] show ?thesis
    by (cases "rs_set_nx R now k v ttl st") (simp add: Redis_SetNX_def)
next
  case (CallGet k)
  with c have "Redis_Get R Up now k st = Inr (Get now k m)"
    using laws at by (auto simp: Redis_Get_def redis_laws_def agrees_def living_memory Get_def item_of_def split: option.splits)
  with CallGet at show ?thesis by simp
qed


text \<open>A server that keeps the laws, and a short run against it.\<close>

definition demo_redis :: "(string \<Rightarrow> item option) redis_server" where
  "demo_redis = \<lparr>rs_incr = (\<lambda>now k st. (fst (incremented (living now (st k))), st(k := snd (incremented (living now (st k)))))),
     rs_expire_nx = (\<lambda>now k ttl st. (True, st(k := lifetime_given (now + ttl) (living now (st k))))),
     rs_set_nx = (\<lambda>now k v ttl st. if living now (st k) = None then (True, st(k := Some (v, Some (now + ttl)))) else (False, st)),
     rs_get = (\<lambda>now k st. map_option fst (living now (st k)))\<rparr>"

lemma living_kept:
  shows "living now (living now x) = living now x"
    and "living now (snd (incremented (living now x))) = snd (incremented (living now x))"
    and "0 \<le> ttl \<Longrightarrow> living now (lifetime_given (now + ttl) (living now x)) = lifetime_given (now + ttl) (living now x)"
  by (cases x; auto simp: living_def split: option.splits prod.splits)+

lemma demo_redis_laws: "redis_laws demo_redis (\<lambda>st. st)"
  by (simp add: redis_laws_def demo_redis_def effect_def living_kept) (simp add: living_def)


end
