(* ===== verification/Cmd_Main.thy ===== *)
theory Cmd_Main
  imports Http_Server Worker
begin

text \<open>
  \<^verbatim>\<open>cmd/api\<close> and \<^verbatim>\<open>cmd/worker\<close>: the two long-running processes, from their start to their end.
\<close>

section \<open>The server\<close>

text \<open>
  How serving ends: the socket fails, or a signal tells the process to stop and the requests
  that still run have thirty seconds. What they do to the world meanwhile is an argument.
\<close>

datatype served = ListenFailed | ToldToStop bool

definition api_main ::
  "(string \<Rightarrow> string \<Rightarrow> string) \<Rightarrow> (nat \<Rightarrow> nat) \<Rightarrow> (string \<Rightarrow> instant option) \<Rightarrow> 's boot_env
     \<Rightarrow> (server \<Rightarrow> 's process \<Rightarrow> served \<times> 's process) \<Rightarrow> 's process \<Rightarrow> nat \<times> 's process" where
  "api_main hmac upper parse e serve p =
    (case Build e p of (Inl _, p1) \<Rightarrow> (1, p1)
     | (Inr a, p1) \<Rightarrow>
        (case serve (New_server hmac upper parse a) p1 of
           (ListenFailed, p2) \<Rightarrow> (1, p2)
         | (ToldToStop _, p2) \<Rightarrow> (0, Close a p2)))"

section \<open>The worker\<close>

definition tickInterval :: duration where "tickInterval = 5 * Minute"

text \<open>The ticks until the signal; the photo files; and what Redis holds, if it is the cache.\<close>

record worker_env =
  wm_boot :: "db boot_env"
  wm_disk :: disk
  wm_redis :: memory
  wm_ticks :: "tick_env list"

definition worker_New :: "worker_env \<Rightarrow> App \<Rightarrow> db process \<Rightarrow> worker" where
  "worker_New e a p = \<lparr>wk_db = sc_schema (pr_db p), wk_disk = wm_disk e,
     wk_cache = (case ap_Cache a of InMemory m \<Rightarrow> m | RedisAt _ \<Rightarrow> wm_redis e), wk_lastDigest = []\<rparr>"

definition worker_main :: "worker_env \<Rightarrow> db process \<Rightarrow> (nat \<times> tick_out list) \<times> db process" where
  "worker_main e p =
    (case Build (wm_boot e) p of (Inl _, p1) \<Rightarrow> ((1, []), p1)
     | (Inr a, p1) \<Rightarrow>
        (case Run (pc_MachineAlertCount (g_Policy (ap_Config a))) (ap_Media a) (wm_ticks e) (worker_New e a p1) of
           (outs, w) \<Rightarrow> ((0, outs), Close a (p1\<lparr>pr_db := (pr_db p1)\<lparr>sc_schema := wk_db w\<rparr>\<rparr>))))"

section \<open>What they leave behind\<close>

lemma pools_Close [simp]: "pr_pools (Close a p) = pr_pools p - 1"
  by (simp add: Close_def store_Close_def cache_Close_def split: cache_kind.split)

lemma Build_pools:
  assumes "Build e p = (r, p1)"
  shows "case r of Inl _ \<Rightarrow> pr_pools p1 = pr_pools p
    | Inr _ \<Rightarrow> pr_pools p1 = Suc (pr_pools p)"
  using assms
  by (auto simp: Build_def store_Open_def store_Close_def cache_New_def NewLocal_def Close_def cache_Close_def Let_def
      split: sum.splits prod.splits if_splits option.splits cache_kind.splits)

lemma worker_leaves_no_pool:
  assumes "worker_main e p = ((code, outs), p')"
  shows "pr_pools p' = pr_pools p"
  using assms Build_pools [of "wm_boot e" p]
  by (auto simp: worker_main_def split: prod.splits sum.splits)

text \<open>A server told to stop gives its pool back; one whose socket fails exits with it open.\<close>

lemma api_leaves_no_pool:
  assumes "api_main hmac upper parse e serve p = (code, p')"
    and "\<And>sv p1. pr_pools (snd (serve sv p1)) = pr_pools p1"
  shows "code = 0 \<Longrightarrow> pr_pools p' = pr_pools p"
    and "code \<noteq> 0 \<Longrightarrow> pr_pools p' \<in> {pr_pools p, Suc (pr_pools p)}"
proof -
  obtain r p1 where b: "Build e p = (r, p1)" by fastforce
  note B = Build_pools [OF b]
  have "(code = 0 \<longrightarrow> pr_pools p' = pr_pools p) \<and> (code \<noteq> 0 \<longrightarrow> pr_pools p' \<in> {pr_pools p, Suc (pr_pools p)})"
  proof (cases r)
    case (Inl err)
    with b B assms(1) show ?thesis by (simp add: api_main_def)
  next
    case (Inr a)
    obtain how p2 where s: "serve (New_server hmac upper parse a) p1 = (how, p2)" by fastforce
    with assms(2) [of "New_server hmac upper parse a" p1] B Inr have "pr_pools p2 = Suc (pr_pools p)" by simp
    with b s Inr assms(1) show ?thesis by (cases how) (auto simp: api_main_def)
  qed
  then show "code = 0 \<Longrightarrow> pr_pools p' = pr_pools p"
    and "code \<noteq> 0 \<Longrightarrow> pr_pools p' \<in> {pr_pools p, Suc (pr_pools p)}" by blast+
qed

section \<open>The digest and a restart\<close>

lemma worker_main_sends:
  assumes "worker_main e p = ((0, outs), p')" and "x \<in> set (wm_ticks e)" "\<And>i. \<not> tk_digest x i"
    and "digestHour \<le> hour_of KST (tk_now x)"
  shows "1 \<le> digests (today_of x) outs"
proof -
  obtain a p1 w where run: "Run (pc_MachineAlertCount (g_Policy (ap_Config a))) (ap_Media a) (wm_ticks e)
      (worker_New e a p1) = (outs, w)"
    using assms(1) by (auto simp: worker_main_def split: prod.splits sum.splits)
  have "wk_lastDigest (worker_New e a p1) \<noteq> today_of x"
    by (auto simp: worker_New_def today_of_def format_date_def split: prod.splits)
  then show ?thesis using digests_ge [OF run _ assms(2) refl assms(3,4)] by blast
qed

text \<open>
  The date of the last digest lives in the loop only: a worker that is started again after nine
  sends the digest of the day once more, whatever cache is configured.
\<close>

lemma restarted_worker_sends_again:
  assumes "worker_main e1 p1 = ((0, outs1), p2)" "worker_main e2 p3 = ((0, outs2), p4)"
    and "x \<in> set (wm_ticks e1)" "y \<in> set (wm_ticks e2)" "today_of y = today_of x"
    and "\<And>i. \<not> tk_digest x i" "\<And>i. \<not> tk_digest y i"
    and "digestHour \<le> hour_of KST (tk_now x)" "digestHour \<le> hour_of KST (tk_now y)"
  shows "2 \<le> digests (today_of x) (outs1 @ outs2)"
  using worker_main_sends [OF assms(1,3,6,8)] worker_main_sends [OF assms(2,4,7,9)] assms(5)
  by (simp add: digests_def)

end
