(* ===== verification/Domain_Trend.thy ===== *)
theory Domain_Trend
  imports Domain_Catalog Go_Float
begin

text \<open>
  \<open>NormalizeTrend\<close> (\<^verbatim>\<open>internal/domain/character.go\<close>): the indices of one request divided by the
  index of the anchor, so that requests can be compared.
\<close>

datatype trend_error = ZeroAnchor

definition NormalizeTrend ::
  "float64 \<Rightarrow> (string \<rightharpoonup> float64) \<Rightarrow> (trend_error, string \<rightharpoonup> float64) result" where
  "NormalizeTrend anchorRatio ratios =
    (if fle anchorRatio (Zero False) then Inl ZeroAnchor
     else Inr (\<lambda>code. map_option (\<lambda>r. fdiv r anchorRatio) (ratios code)))"

text \<open>The guard: a negative index, either zero and minus infinity are refused, NaN is not.\<close>

lemma NormalizeTrend_refuses:
  "NormalizeTrend a ratios = Inl ZeroAnchor \<longleftrightarrow> a = Infinite True \<or> (\<exists>s. a = Zero s) \<or> (\<exists>r \<le> 0. a = Finite r)"
  by (cases a) (auto simp: NormalizeTrend_def amount_of_def)

lemma NormalizeTrend_NaN: "NormalizeTrend NaN ratios = Inr (\<lambda>code. map_option (\<lambda>r. NaN) (ratios code))"
proof -
  have "fdiv r NaN = NaN" for r by (cases r) simp_all
  then show ?thesis by (simp add: NormalizeTrend_def)
qed

text \<open>
  One request: the same characters come out, the anchor itself has the index 1, and whoever was not
  behind another character still is not, whatever the rounding does.
\<close>

lemma NormalizeTrend_keeps_ranking:
  assumes "NormalizeTrend (Finite a) ratios = Inr out"
  shows "dom out = dom ratios \<and> (ratios code = Some (Finite a) \<longrightarrow> out code = Some (Finite 1))
    \<and> (ratios c = Some x \<and> ratios d = Some y \<and> fle x y \<longrightarrow>
        (\<exists>x' y'. out c = Some x' \<and> out d = Some y' \<and> fle x' y'))"
proof -
  have a: "0 < a" and out: "out = (\<lambda>code. map_option (\<lambda>r. fdiv r (Finite a)) (ratios code))"
    using assms by (auto simp: NormalizeTrend_def amount_of_def split: if_splits)
  show ?thesis using fdiv_self [of a] fdiv_mono [of x y a] a by (auto simp: out dom_def simp del: fdiv.simps)
qed

text \<open>
  Two requests: an index is only meaningful up to a factor of its own request. Requests that
  differ in that factor alone come out the same.
\<close>

lemma NormalizeTrend_same_ruler:
  assumes "0 < f" "\<And>c. ratios' c = map_option (\<lambda>r. Finite (f * r)) (ratios c)"
  shows "NormalizeTrend (Finite (f * a)) ratios' = NormalizeTrend (Finite a) (\<lambda>c. map_option Finite (ratios c))"
proof -
  have "fdiv (Finite (f * r)) (Finite (f * a)) = fdiv (Finite r) (Finite a)" for r
    using assms(1) by (simp add: abs_mult mult_less_0_iff)
  moreover have "f * a \<le> 0 \<longleftrightarrow> a \<le> 0" using assms(1) by (simp add: mult_le_0_iff)
  ultimately show ?thesis
    using assms by (simp add: NormalizeTrend_def amount_of_def option.map_comp comp_def del: fdiv.simps)
qed

lemma NormalizeTrend_example:
  "NormalizeTrend (Finite 50) [''a'' \<mapsto> Finite 100, ''b'' \<mapsto> Finite 25] = Inr [''a'' \<mapsto> Finite 2, ''b'' \<mapsto> Finite (1 / 2)]"
  using fdiv_examples by (auto simp: NormalizeTrend_def amount_of_def fun_eq_iff simp del: fdiv.simps)

end
