(* ===== verification/Spec2Isabelle.thy ===== *)
theory Spec2Isabelle
  imports Domain_Claim Domain_Risk Domain_Machine Domain_Trade Domain_Catalog Crypto_Box Store_Tables
    Store_Claims Claim_Ledger Http_Claims Payout_Links Store_Accounts Http_Access Cache_Memory
    Media_Local Store_Queries Store_Machines Notify_Push Http_Public Http_Status Refund_Journey Store_Stats Worker Http_Reports
    Store_Inventory Http_Inventory Store_Market Http_Market Http_Desk Http_Settings
    Http_Machines Config Store_Migrate App_Build Cmd_Setup Http_Server Isolation
    Cache_Redis Cmd_Main Domain_Trend
begin

text \<open>
  A verification development for claw-hub, the service that takes and settles refund claims of
  unattended shops (claw machines, coin laundries): a Go API server and a worker over one
  PostgreSQL database, a directory of photos and a small cache.

  \<^bold>\<open>The program and its parts.\<close>  A customer scans the sticker of a machine and files a claim with
  photos; rules weigh the risk; the staff of the shop, or whoever holds the signed link of the
  notification, approve, hold, reject and pay it; the worker alerts, sends a daily digest and
  deletes old photos. Shops also keep a stock book and trade stock in a common market.
  Under \<^verbatim>\<open>src/internal\<close> the packages are layered: \<^verbatim>\<open>domain\<close>, \<^verbatim>\<open>crypto\<close> and \<^verbatim>\<open>payout\<close> are pure;
  \<^verbatim>\<open>store\<close> holds all SQL; \<^verbatim>\<open>media\<close> and \<^verbatim>\<open>cache\<close> keep files and counters; \<^verbatim>\<open>httpapi\<close> and
  \<^verbatim>\<open>worker\<close> call these; \<^verbatim>\<open>config\<close> and \<^verbatim>\<open>app\<close> put a process together. The theories follow the
  same layers and keep the names of the Go code.

  \<^bold>\<open>How the code is translated.\<close>
  \<^item> Go strings are byte strings (\<open>string\<close>); \<open>u8\<close> writes Korean text as its UTF-8 bytes. \<open>int\<close> is
    an integer with its 64-bit wrap-around where a computation can leave the range; integers of
    SQL columns carry their four or eight bytes. An instant is a number of nanoseconds.
  \<^item> The database is the record \<open>db\<close> of tables, each a list of rows in the order of insertion. A
    statement is a function \<open>db \<Rightarrow> (db_error + 'a) \<times> db\<close>; a transaction that fails gives the
    database it started from. Unique keys, foreign keys and checks the Go code relies on are
    branches of the statement that can violate them.
  \<^item> Everything that comes from outside is an argument: clocks (the process's and the database's),
    fresh ids, nonces, the fate of each call (a \<open>bool\<close> that makes it fail), and what other
    requests commit between two statements (\<open>between :: db \<Rightarrow> db\<close>). A property that holds for all
    values of these holds for every schedule and every fault.
  \<^item> Code outside the repository is a parameter with its documented laws as named hypotheses: the
    AEAD, HMAC and bcrypt (\<open>Sec\<close>, \<open>mac\<close>, \<open>Bcrypt\<close>), parsing of times and JSON, lower and upper
    case beyond ASCII, running a file of SQL. Each property with such a hypothesis has a witness
    in which the parameter is a concrete function.
  \<^item> Handlers return a \<open>reply\<close> (\<open>Done\<close> the answer or \<open>Failed\<close> with code and key) and the world after it.

  \<^bold>\<open>Foundations.\<close>  \<open>Prelude\<close>: \<open>int64\<close>, results, the collections \<open>db_simps\<close> and \<open>step_intros\<close>, list
  lemmas. \<open>Go_Text\<close>, \<open>Go_Time\<close>, \<open>Go_Base64\<close>: what the source uses of \<open>strings\<close>, \<open>strconv\<close>, \<open>utf8\<close>,
  \<open>time\<close>, \<open>base64\<close> and \<open>hex\<close>, with round trips; \<open>Go_Float\<close>: \<open>float64\<close> as exact rationals with IEEE
  rounding, so that dividing keeps an order and the days in \<open>Hours() / 24\<close> are bounded; the locale \<open>text_codec\<close> is the contract of an
  encoding whose alphabet avoids a separator.

  \<^bold>\<open>Domain.\<close>  \<open>Domain_Claim\<close> (\<^verbatim>\<open>claim.go\<close>, \<^verbatim>\<open>storetype.go\<close>): states, the transition table,
  \<open>Transition\<close>; the locale \<open>status_graph\<close> proves of any table whose terminal states
  have no successors that walks end there, interpreted on the table of the code. \<open>Domain_Risk\<close>
  (\<^verbatim>\<open>policy.go\<close>, \<^verbatim>\<open>risk.go\<close>): the five rules and \<open>Evaluate\<close>, its outcome as a function of the facts, and
  monotony. \<open>Domain_Machine\<close>: sticker codes. \<open>Domain_Trade\<close> (\<^verbatim>\<open>purchase.go\<close>, \<^verbatim>\<open>listing.go\<close>): checks,
  unit cost, business numbers. \<open>Domain_Catalog\<close> and \<open>Domain_Trend\<close>
  (\<^verbatim>\<open>region.go\<close>, \<^verbatim>\<open>character.go\<close>): the catalogues, the trend requests and their normalisation. \<open>Crypto_Box\<close>
  (\<^verbatim>\<open>crypto.go\<close>): encryption round trip, normal forms, masks. \<open>Payout_Links\<close> (\<^verbatim>\<open>internal/payout\<close>).

  \<^bold>\<open>Store.\<close>  \<open>Store_Tables\<close>: the schema as records. \<open>Store_Claims\<close> (\<^verbatim>\<open>claim.go\<close>): filing behind an
  idempotency key, reading, the decision transaction. \<open>Claim_Ledger\<close>: the invariant that a row is
  well formed in its state and its log is its history. \<open>Store_Queries\<close> (\<^verbatim>\<open>query.go\<close>,
  \<^verbatim>\<open>contact.go\<close>): the inbox by cursor, risk facts, flagged contacts. \<open>Store_Accounts\<close> (\<^verbatim>\<open>user.go\<close>):
  accounts, lock-out, shops. \<open>Store_Machines\<close>, \<open>Store_Stats\<close> (\<^verbatim>\<open>stats.go\<close>, \<^verbatim>\<open>home.go\<close>,
  \<^verbatim>\<open>settlement.go\<close>), \<open>Store_Inventory\<close>, \<open>Store_Market\<close> (\<^verbatim>\<open>listing.go\<close>), \<open>Store_Migrate\<close> (\<^verbatim>\<open>store.go\<close>:
  opening, transactions, migrations). \<open>Notify_Push\<close>: \<^verbatim>\<open>push.go\<close> with the channels of
  \<^verbatim>\<open>internal/notify\<close>. \<open>Isolation\<close> puts the statements of all components together: for a shop \<open>s\<close>,
  \<open>shop s\<close> is what its pages read, \<open>homed\<close> the invariant that rows point to rows of their own shop, and
  \<open>elsewhere s\<close> the steps of everybody else, which keep both.

  \<^bold>\<open>Files and cache.\<close>  \<open>Media_Local\<close> (\<^verbatim>\<open>internal/media\<close>): image types, storage keys that cannot leave
  the root, and an atomic \<open>Put\<close> over a map of files where each system call may fail; the contract
  is the locale \<open>photo_storage\<close>, extended to \<open>healthy_storage\<close> in \<open>Http_Public\<close>. \<open>Cache_Memory\<close>
  (\<^verbatim>\<open>cache.go\<close>): the locales \<open>window_counter\<close> and \<open>once_flag\<close> and the in-memory cache as
  their instance. \<open>Cache_Redis\<close> (\<^verbatim>\<open>redis.go\<close>): the client over a server that is a parameter, and a
  simulation by which both caches answer alike.

  \<^bold>\<open>HTTP.\<close>  \<open>Http_Access\<close> (\<^verbatim>\<open>auth.go\<close>, \<^verbatim>\<open>session.go\<close>, \<^verbatim>\<open>claimtoken.go\<close>): cookies and links as instances of the
  locale \<open>credential\<close>, the guards, the route table. \<open>Http_Claims\<close> (\<^verbatim>\<open>admin_claims.go\<close>, decisions): each
  request is a read and a later write, any number of them interleaved in the step relation whose
  reachable states are \<open>reach\<close>. \<open>Http_Desk\<close>: the rest of \<^verbatim>\<open>admin_claims.go\<close>, the transfer sheet.
  \<open>Http_Public\<close> (\<^verbatim>\<open>public.go\<close>): the filing handler with limits, photos, clean-up and notice.
  \<open>Http_Status\<close> (\<^verbatim>\<open>public_status.go\<close>, \<^verbatim>\<open>public_signup.go\<close>), \<open>Http_Machines\<close>, \<open>Http_Inventory\<close>, \<open>Http_Market\<close>,
  \<open>Http_Reports\<close> (home, settlement and its CSV), \<open>Http_Settings\<close> (with \<^verbatim>\<open>bizverify\<close>), \<open>Http_Server\<close> (\<^verbatim>\<open>server.go\<close>,
  \<^verbatim>\<open>middleware.go\<close>, \<^verbatim>\<open>render.go\<close>).

  \<^bold>\<open>Processes.\<close>  \<open>Worker\<close> (\<^verbatim>\<open>worker.go\<close>): alerts, digest, purge and the loop. \<open>Config\<close>
  (\<^verbatim>\<open>config.go\<close>, \<^verbatim>\<open>dotenv.go\<close>), \<open>App_Build\<close> (\<^verbatim>\<open>app.go\<close>), \<open>Cmd_Setup\<close> (\<^verbatim>\<open>cmd/setup\<close>),
  \<open>Cmd_Main\<close> (\<^verbatim>\<open>cmd/api\<close>, \<^verbatim>\<open>cmd/worker\<close>).

  \<^bold>\<open>What the theorems show\<close>, by the ids in front of them:
  \<^item> Money and history: a claim is paid at most once under any interleaving (C1), rows stay
    consistent (C4) and the log is the history (C5); what the page offers is what can succeed (C8);
    the transfer sheet names the claimant (C15); a filed claim can be seen through to the refund with
    nothing but the link in its notice (C3), for which \<open>Refund_Journey\<close> puts the filing, the rows, the
    link, the guard, the page and the decisions together; the settlement adds up (C30) and survives its CSV
    file (C33).
  \<^item> Filing: idempotent (C6), all or nothing (C19), with its photos or without a trace of them (C7),
    limited by address (C23), blocked contacts held (C24); the risk rules (C20).
  \<^item> Separation and access: shops do not see each other (C2); a link opens and changes one claim
    (C11, C12); five failures lock (C14); the last account stays (C21); every route is guarded (C22);
    the public lookup shows no decision (C28); signing up is all or nothing (C29).
  \<^item> Data that is complete and well formed: the inbox (C9), stock as a refinement of a map from items
    to numbers (C10), its value (C34), purchases sent twice (C35), machine codes (C27), shop rows (C37),
    the market (C13, C36).
  \<^item> Storage and processes: photos (C25, C26), the two caches (C18), alerts (C31), digest (C16), purge
    (C32), migrations (C17), configuration (C38), assembly (C39), founding a shop (C40).
  \<^item> Theorems that record how the code differs from what it means to do stand beside the components
    they are about: \<open>settlement_ignores_partial_refunds\<close>, \<open>one_purchase_stops_the_list\<close>,
    \<open>deactivation_race\<close>, \<open>two_numbers_at_once\<close>, \<open>history_counts_other_shops\<close>, \<open>cache_left_open\<close>,
    \<open>alerted_twice_in_five_minutes\<close>, \<open>restarted_worker_sends_again\<close>, \<open>count_all_keeps\<close>.

  \<^bold>\<open>Bounds and fuel.\<close>  Loops over data are recursions on it. The loops that the code bounds itself
  (attempts to insert a claim or a machine, the retries of an id) recurse over the list of their
  attempts' inputs, cut to as many as the code makes. \<open>walk_pages\<close> (a reader who follows the cursors of the inbox) takes
  a fuel of one page per claim and one more; that this is enough is part of C9. The purge deletes at most
  two hundred photos a run, and C32 counts the runs. The worker's loop is the fold over the
  list of its ticks, so its theorems hold after any number of them.

  \<^bold>\<open>Not modelled\<close>, and why. SQL text of the migrations is data for PostgreSQL; what the statements
  rely on is in the rows. Drawing the QR image, matching a path to a pattern, parsing flags and sending
  over the network belong to libraries, as do signals, time-outs and the socket around the mains. The
  web front end calls the API and is not Go. What no theory translates of the Go files are interface
  declarations, accessors and constructors that only keep their arguments, and the texts of error answers.
\<close>

end
